(* ===== verification/JS_Prelude.thy ===== *)
theory JS_Prelude
  imports Main "HOL-Library.AList" "HOL-Library.Multiset"
begin

text \<open>
  Shared vocabulary of the development: the JavaScript idioms that the sources use
  everywhere, written once with the lemmas the component theories need.

  \<^item> \<open>undefined\<close>, \<open>null\<close> and an absent property are \<open>None\<close>; where the code tells them
    apart a component declares a datatype of its own.
  \<^item> A string is a list of characters, read as UTF-16 code units below 256.
  \<^item> An instant (a \<open>Date\<close>, or the ISO string the code prints and parses back) is the
    number of milliseconds since the epoch, an \<open>int\<close>.
  \<^item> A \<open>Map\<close> or an object iterated in insertion order is an association list: a
    \<open>set\<close> on a present key keeps its position, on a new key appends.
\<close>

type_synonym env = "string \<Rightarrow> string option"
type_synonym instant = int

text \<open>Collections the components add to.\<close>

named_theorems js_simps "unfolding equations of small pure helpers"
named_theorems wf_intros "introduction rules for well-formedness invariants"

subsection \<open>Optional values\<close>

fun coalesce :: "'a option \<Rightarrow> 'a option \<Rightarrow> 'a option" where
  "coalesce (Some x) _ = Some x"
| "coalesce None y = y"

definition truthy :: "string option \<Rightarrow> bool" where
  "truthy s = (case s of None \<Rightarrow> False | Some x \<Rightarrow> x \<noteq> [])"

text \<open>The operator \<open>a || b\<close> on optional strings.\<close>

definition js_or :: "string option \<Rightarrow> string option \<Rightarrow> string option" where
  "js_or a b = (if truthy a then a else b)"

text \<open>Interpolating an optional string into a template literal.\<close>

definition tmpl :: "string option \<Rightarrow> string" where
  "tmpl s = (case s of None \<Rightarrow> ''undefined'' | Some x \<Rightarrow> x)"

lemma truthy_None [simp]: "\<not> truthy None"
  by (simp add: truthy_def)

lemma truthy_Some [simp]: "truthy (Some x) \<longleftrightarrow> x \<noteq> []"
  by (simp add: truthy_def)

lemma tmpl_Some [simp]: "tmpl (Some x) = x"
  by (simp add: tmpl_def)

lemma tmpl_None [simp]: "tmpl None = ''undefined''"
  by (simp add: tmpl_def)

lemma js_or_Some_iff: "js_or a b = Some x \<longleftrightarrow> (if truthy a then a = Some x else b = Some x)"
  by (simp add: js_or_def)

lemma coalesce_Some_iff: "coalesce a b = Some x \<longleftrightarrow> a = Some x \<or> (a = None \<and> b = Some x)"
  by (cases a) auto

lemma coalesce_None_iff [simp]: "coalesce a b = None \<longleftrightarrow> a = None \<and> b = None"
  by (cases a) auto

lemma coalesce_None_right [simp]: "coalesce a None = a"
  by (cases a) auto

text \<open>Present values of a list of optional ones, in order: \<open>.filter(Boolean)\<close>.\<close>

fun somes :: "'a option list \<Rightarrow> 'a list" where
  "somes [] = []"
| "somes (None # xs) = somes xs"
| "somes (Some x # xs) = x # somes xs"

lemma set_somes: "set (somes xs) = {x. Some x \<in> set xs}"
  by (induction xs rule: somes.induct) auto

lemma somes_append [simp]: "somes (xs @ ys) = somes xs @ somes ys"
  by (induction xs rule: somes.induct) auto

subsection \<open>Strings\<close>

fun split_on :: "char \<Rightarrow> string \<Rightarrow> string list" where
  "split_on c [] = [[]]"
| "split_on c (x # xs) =
     (if x = c then [] # split_on c xs
      else (case split_on c xs of [] \<Rightarrow> [[x]] | y # ys \<Rightarrow> (x # y) # ys))"

fun join_with :: "string \<Rightarrow> string list \<Rightarrow> string" where
  "join_with sep [] = []"
| "join_with sep [x] = x"
| "join_with sep (x # y # ys) = x @ sep @ join_with sep (y # ys)"

definition js_space :: "char \<Rightarrow> bool" where
  "js_space c = (of_char c \<in> set [9, 10, 11, 12, 13, 32, 160 :: nat])"

definition trim :: "string \<Rightarrow> string" where
  "trim s = rev (dropWhile js_space (rev (dropWhile js_space s)))"

definition lower_char :: "char \<Rightarrow> char" where
  "lower_char c = (let n = of_char c :: nat in
     if (65 \<le> n \<and> n \<le> 90) \<or> (192 \<le> n \<and> n \<le> 222 \<and> n \<noteq> 215)
     then char_of (n + 32) else c)"

definition to_lower :: "string \<Rightarrow> string" where
  "to_lower s = map lower_char s"

definition starts_with :: "string \<Rightarrow> string \<Rightarrow> bool" where
  "starts_with p s = (take (length p) s = p)"

definition ends_with :: "string \<Rightarrow> string \<Rightarrow> bool" where
  "ends_with p s = (length p \<le> length s \<and> drop (length s - length p) s = p)"

fun includes_str :: "string \<Rightarrow> string \<Rightarrow> bool" where
  "includes_str p [] = (p = [])"
| "includes_str p (x # xs) = (starts_with p (x # xs) \<or> includes_str p xs)"

lemma starts_with_append [simp]: "starts_with p (p @ s)"
  by (simp add: starts_with_def)

lemma starts_with_iff: "starts_with p s \<longleftrightarrow> (\<exists>t. s = p @ t)"
  by (metis append_eq_conv_conj append_take_drop_id starts_with_def)

lemma ends_with_iff: "ends_with p s \<longleftrightarrow> (\<exists>t. s = t @ p)"
proof
  assume "ends_with p s"
  then show "\<exists>t. s = t @ p"
    unfolding ends_with_def by (metis append_take_drop_id)
qed (auto simp: ends_with_def)

lemma lower_char_idem [simp]: "lower_char (lower_char c) = lower_char c"
proof -
  have "\<And>n. of_char (char_of (n + 32 :: nat)) = (n + 32) mod 256"
    by simp
  then show ?thesis
    by (auto simp: lower_char_def Let_def mod_if)
qed

lemma to_lower_idem [simp]: "to_lower (to_lower s) = to_lower s"
  by (simp add: to_lower_def)

lemma js_space_lower [simp]: "js_space (lower_char c) = js_space c"
proof -
  have "\<And>n. of_char (char_of (n + 32 :: nat)) = (n + 32) mod 256"
    by simp
  then show ?thesis
    by (auto simp: js_space_def lower_char_def Let_def mod_if)
qed

lemma trim_to_lower: "trim (to_lower s) = to_lower (trim s)"
proof -
  have "js_space \<circ> lower_char = js_space" by auto
  then show ?thesis
    by (simp add: trim_def to_lower_def dropWhile_map rev_map)
qed

lemma dropWhile_rev_dropWhile:
  "dropWhile P (rev (dropWhile P (rev (dropWhile P xs)))) = rev (dropWhile P (rev (dropWhile P xs)))"
proof (cases "dropWhile P xs")
  case Nil
  show ?thesis unfolding Nil by simp
next
  case (Cons y ys)
  then have "\<not> P y" by (metis hd_dropWhile list.distinct(1) list.sel(1))
  then have "dropWhile P (rev (y # ys)) = dropWhile P (rev ys) @ [y]"
    by (simp add: dropWhile_append3)
  with Cons \<open>\<not> P y\<close> show ?thesis by simp
qed

lemma trim_idem [simp]: "trim (trim s) = trim s"
  by (simp add: trim_def dropWhile_rev_dropWhile dropWhile_idem)

subsection \<open>Sets and maps in insertion order\<close>

text \<open>\<open>new Set(xs)\<close> spread back into an array: first occurrences, in order.\<close>

definition set_add :: "'a list \<Rightarrow> 'a \<Rightarrow> 'a list" where
  "set_add xs x = (if x \<in> set xs then xs else xs @ [x])"

definition uniq :: "'a list \<Rightarrow> 'a list" where
  "uniq xs = foldl set_add [] xs"

lemma set_add_simps [simp]: "set (set_add xs x) = insert x (set xs)" "distinct (set_add xs x) = distinct xs"
  by (auto simp: set_add_def)

lemma foldl_set_add: "set (foldl set_add acc xs) = set acc \<union> set xs"
  "distinct acc \<Longrightarrow> distinct (foldl set_add acc xs)"
  by (induction xs arbitrary: acc) auto

lemma set_uniq [simp]: "set (uniq xs) = set xs"
  by (simp add: uniq_def foldl_set_add)

lemma distinct_uniq [simp]: "distinct (uniq xs)"
  by (simp add: uniq_def foldl_set_add)

lemma uniq_Nil [simp]: "uniq [] = []"
  by (simp add: uniq_def)

lemma uniq_eq_Nil_iff [simp]: "uniq xs = [] \<longleftrightarrow> xs = []"
  by (metis set_uniq set_empty)

text \<open>\<open>new Map(xs.map(x => [key(x), x]))\<close> and the values it spreads to.\<close>

definition map_by :: "('a \<Rightarrow> 'k) \<Rightarrow> 'a list \<Rightarrow> ('k \<times> 'a) list" where
  "map_by key xs = foldl (\<lambda>m x. AList.update (key x) x m) [] xs"

definition last_by :: "('a \<Rightarrow> 'k) \<Rightarrow> 'a list \<Rightarrow> 'a list" where
  "last_by key xs = map snd (map_by key xs)"

definition keyed :: "('a \<Rightarrow> 'k) \<Rightarrow> ('k \<times> 'a) list \<Rightarrow> bool" where
  "keyed key m = (distinct (map fst m) \<and> (\<forall>(k, x) \<in> set m. k = key x))"

lemma keyed_Nil [simp]: "keyed key []"
  by (simp add: keyed_def)

lemma set_update_subset: "set (AList.update k v m) \<subseteq> insert (k, v) (set m)"
  by (induction m) auto

lemma keyed_update: "keyed key m \<Longrightarrow> keyed key (AList.update (key x) x m)"
  unfolding keyed_def
  using set_update_subset [of "key x" x m] by (auto simp: distinct_update)

lemma keyed_foldl: "keyed key m \<Longrightarrow> keyed key (foldl (\<lambda>m x. AList.update (key x) x m) m xs)"
  by (induction xs arbitrary: m) (auto intro: keyed_update)

lemma keyed_map_by [simp]: "keyed key (map_by key xs)"
  by (simp add: map_by_def keyed_foldl)

lemma dom_foldl_update:
  "fst ` set (foldl (\<lambda>m x. AList.update (key x) x m) m xs) = fst ` set m \<union> key ` set xs"
  by (induction xs arbitrary: m) (auto simp: dom_update)

lemma set_foldl_update:
  "set (foldl (\<lambda>m x. AList.update (key x) x m) m xs) \<subseteq> set m \<union> (\<lambda>x. (key x, x)) ` set xs"
  by (induction xs arbitrary: m) (use set_update_subset in fastforce)+

lemma last_by_subset: "set (last_by key xs) \<subseteq> set xs"
  using set_foldl_update [of key "[]" xs] by (auto simp: last_by_def map_by_def)

lemma map_fst_keyed: "keyed key m \<Longrightarrow> map fst m = map (\<lambda>p. key (snd p)) m"
  by (simp add: keyed_def) (fastforce simp: case_prod_beta)

lemma fst_map_by: "map fst (map_by key xs) = map key (last_by key xs)"
  using map_fst_keyed [OF keyed_map_by, of key xs] by (simp add: last_by_def comp_def)

lemma distinct_last_by: "distinct (map key (last_by key xs))"
  using keyed_map_by [of key xs] unfolding keyed_def fst_map_by by blast

lemma keys_last_by: "key ` set (last_by key xs) = key ` set xs"
proof -
  have "key ` set (last_by key xs) = fst ` set (map_by key xs)"
    by (metis fst_map_by list.set_map)
  then show ?thesis
    using dom_foldl_update [of key "[]" xs] by (simp add: map_by_def)
qed

lemma foldl_update_keep:
  "(k, x) \<in> set m \<Longrightarrow> \<forall>y \<in> set ys. key y \<noteq> k \<Longrightarrow>
   (k, x) \<in> set (foldl (\<lambda>m y. AList.update (key y) y m) m ys)"
proof (induction ys arbitrary: m)
  case Nil
  then show ?case by simp
next
  case (Cons y ys)
  have "(k, x) \<in> set (AList.update (key y) y m)"
    using Cons.prems by (induction m) (auto split: if_splits)
  with Cons show ?case by simp
qed

lemma in_set_update: "(k, v) \<in> set (AList.update k v m)"
  by (induction m) auto

text \<open>The last entry of a key is the one a map built by insertion keeps.\<close>

lemma last_by_keep:
  assumes "\<forall>y \<in> set ys. key y \<noteq> key x"
  shows "x \<in> set (last_by key (xs @ x # ys))"
proof -
  have "(key x, x) \<in> set (map_by key (xs @ x # ys))"
    by (simp add: map_by_def foldl_update_keep in_set_update assms)
  then show ?thesis by (force simp: last_by_def)
qed

subsection \<open>Sorting with a comparator\<close>

text \<open>\<open>Array.prototype.sort\<close> is stable: for a consistent comparator its result is the
  one stable insertion gives.\<close>

fun js_insert :: "('a \<Rightarrow> 'a \<Rightarrow> int) \<Rightarrow> 'a \<Rightarrow> 'a list \<Rightarrow> 'a list" where
  "js_insert cmp x [] = [x]"
| "js_insert cmp x (y # ys) = (if cmp x y \<le> 0 then x # y # ys else y # js_insert cmp x ys)"

definition js_sort :: "('a \<Rightarrow> 'a \<Rightarrow> int) \<Rightarrow> 'a list \<Rightarrow> 'a list" where
  "js_sort cmp xs = foldr (js_insert cmp) xs []"

lemma mset_js_insert [simp]: "mset (js_insert cmp x xs) = add_mset x (mset xs)"
  by (induction xs) auto

lemma mset_js_sort [simp]: "mset (js_sort cmp xs) = mset xs"
  by (induction xs) (auto simp: js_sort_def)

lemma set_js_sort [simp]: "set (js_sort cmp xs) = set xs"
  by (metis mset_js_sort set_mset_mset)

lemma length_js_sort [simp]: "length (js_sort cmp xs) = length xs"
  by (metis mset_js_sort size_mset)

lemma distinct_js_sort [simp]: "distinct (js_sort cmp xs) = distinct xs"
  by (metis mset_js_sort mset_eq_imp_distinct_iff)

definition total_comparator :: "('a \<Rightarrow> 'a \<Rightarrow> int) \<Rightarrow> bool" where
  "total_comparator cmp = ((\<forall>x y. cmp x y \<le> 0 \<or> cmp y x \<le> 0)
     \<and> (\<forall>x y z. cmp x y \<le> 0 \<longrightarrow> cmp y z \<le> 0 \<longrightarrow> cmp x z \<le> 0))"

lemma sorted_js_insert:
  assumes "total_comparator cmp" and "sorted_wrt (\<lambda>x y. cmp x y \<le> 0) xs"
  shows "sorted_wrt (\<lambda>x y. cmp x y \<le> 0) (js_insert cmp x xs)"
  using assms(2)
proof (induction xs)
  case Nil
  then show ?case by simp
next
  case (Cons y ys)
  have set_ins: "set (js_insert cmp x ys) = insert x (set ys)"
    by (metis mset_js_insert set_mset_add_mset_insert set_mset_mset)
  show ?case
  proof (cases "cmp x y \<le> 0")
    case True
    with Cons.prems assms(1) show ?thesis
      unfolding total_comparator_def by auto
  next
    case False
    with assms(1) have "cmp y x \<le> 0" by (auto simp: total_comparator_def)
    with False Cons set_ins show ?thesis by auto
  qed
qed

lemma sorted_js_sort:
  assumes "total_comparator cmp"
  shows "sorted_wrt (\<lambda>x y. cmp x y \<le> 0) (js_sort cmp xs)"
  by (induction xs) (auto simp: js_sort_def sorted_js_insert [OF assms])

subsection \<open>Search\<close>

lemma find_SomeD: "find P xs = Some x \<Longrightarrow> x \<in> set xs \<and> P x"
  by (auto simp: find_Some_iff in_set_conv_nth)

lemma find_map_of_append: "find P (xs @ ys) = (case find P xs of None \<Rightarrow> find P ys | Some x \<Rightarrow> Some x)"
  by (induction xs) auto

end
