(* ===== verification/Json.thy ===== *)
theory Json
  imports JS_Prelude
begin

text \<open>
  JSON values, as custom resources, stored records and webhook answers hold them, with the
  reads the sources make (optional chaining, \<open>typeof\<close>, \<open>Array.isArray\<close>) and
  \<open>Object.assign\<close>.
\<close>

text \<open>An absent member of an object is not in its list; reading a member of anything but an
  object gives \<open>undefined\<close>, \<open>None\<close>. Numbers are integers here.\<close>

datatype json =
    JNull | JBool bool | JNum int | JStr string | JArr "json list" | JObj "(string \<times> json) list"

fun field :: "string \<Rightarrow> json option \<Rightarrow> json option" where
  "field k (Some (JObj ms)) = map_of ms k"
| "field k _ = None"

fun is_str :: "json \<Rightarrow> bool" where
  "is_str (JStr _) = True"
| "is_str _ = False"

fun is_arr :: "json \<Rightarrow> bool" where
  "is_arr (JArr _) = True"
| "is_arr _ = False"

definition nullish :: "json option \<Rightarrow> bool" where
  "nullish v = (v = None \<or> v = Some JNull)"

definition opt_str :: "string option \<Rightarrow> json" where
  "opt_str s = (case s of None \<Rightarrow> JNull | Some x \<Rightarrow> JStr x)"

text \<open>\<open>Object.assign(target, source)\<close>.\<close>

definition js_assign :: "('k \<times> 'v) list \<Rightarrow> ('k \<times> 'v) list \<Rightarrow> ('k \<times> 'v) list" where
  "js_assign target source = foldl (\<lambda>m (k, v). AList.update k v m) target source"

lemma js_assign_Nil [simp]: "js_assign t [] = t"
  by (simp add: js_assign_def)

lemma map_of_js_assign_other: "k \<notin> fst ` set s \<Longrightarrow> map_of (js_assign t s) k = map_of t k"
  unfolding js_assign_def
  by (induction s arbitrary: t) (auto simp: update_conv')

lemma keys_js_assign: "fst ` set (js_assign t s) = fst ` set t \<union> fst ` set s"
  unfolding js_assign_def
proof (induction s arbitrary: t)
  case Nil
  then show ?case by simp
next
  case (Cons x s)
  obtain a b where x: "x = (a, b)" by force
  show ?case by (simp add: x Cons.IH dom_update)
qed

lemma map_of_js_assign: "distinct (map fst s) \<Longrightarrow> map_of (js_assign t s) k = (map_of t ++ map_of s) k"
  unfolding js_assign_def
proof (induction s arbitrary: t)
  case Nil
  then show ?case by simp
next
  case (Cons x s)
  obtain a b where x: "x = (a, b)" by force
  from Cons have "map_of (foldl (\<lambda>m (k, v). AList.update k v m) (AList.update a b t) s) k
      = (map_of (AList.update a b t) ++ map_of s) k" by simp
  moreover from Cons.prems x have "a \<notin> dom (map_of s)" by (simp add: dom_map_of_conv_image_fst)
  ultimately show ?case
    by (auto simp: x update_conv' map_add_def split: option.splits)
qed

text \<open>A string member, \<open>None\<close> for anything else.\<close>

definition str_field :: "string \<Rightarrow> json \<Rightarrow> string option" where
  "str_field k v = (case field k (Some v) of Some (JStr s) \<Rightarrow> Some s | _ \<Rightarrow> None)"

definition int_field :: "string \<Rightarrow> json \<Rightarrow> int option" where
  "int_field k v = (case field k (Some v) of Some (JNum n) \<Rightarrow> Some n | _ \<Rightarrow> None)"

definition bool_field :: "string \<Rightarrow> json \<Rightarrow> bool" where
  "bool_field k v = (field k (Some v) = Some (JBool True))"

text \<open>Whether a value is truthy.\<close>

definition js_truthy :: "json option \<Rightarrow> bool" where
  "js_truthy v = (case v of
     None \<Rightarrow> False | Some JNull \<Rightarrow> False | Some (JBool b) \<Rightarrow> b | Some (JNum n) \<Rightarrow> n \<noteq> 0
   | Some (JStr s) \<Rightarrow> s \<noteq> [] | Some (JArr _) \<Rightarrow> True | Some (JObj _) \<Rightarrow> True)"

lemma field_JObj [simp]: "field k (Some (JObj ms)) = map_of ms k"
  by simp

text \<open>\<open>{...target, ...source}\<close> on two objects; a spread of anything else adds nothing.\<close>

definition members :: "json \<Rightarrow> (string \<times> json) list" where
  "members v = (case v of JObj ms \<Rightarrow> ms | _ \<Rightarrow> [])"

definition js_spread :: "json \<Rightarrow> (string \<times> json) list \<Rightarrow> json" where
  "js_spread v ms = JObj (js_assign (members v) ms)"

end
