(* ===== verification/Redis.thy ===== *)
theory Redis
  imports Json
begin

text \<open>
  The record store: \<^verbatim>\<open>src/adapters/redis.js\<close>. The Redis server is not part of the
  repository: its commands are a parameter (\<open>redis\<close>), and what the code relies on, the
  documented effect of each command on the key space, is the locale \<open>redis_server\<close>. The
  adapter's operations are defined over the commands, in the order the code issues them.
  A contract (\<open>record_store\<close>) states what the adapter's clients rely on; it is derived from
  the server's laws, and an in-memory server shows that the laws can hold.

  The store's clock is in whole seconds. A transaction and the commands after it run without
  another client's commands in between; the processes that interleave are modelled where a
  property is about them.
\<close>

subsection \<open>The server\<close>

datatype rvalue =
    RStr json
  | RHash "(string \<times> json) list"
  | RList "string list"
  | RSet "string list"

type_synonym keyspace = "string \<Rightarrow> (rvalue \<times> int option) option"

text \<open>\<open>rd_view\<close> is the live key space with each key's expiry, in terms of which the commands
  are documented; the code never reads it. A payload is stored as its JSON text, which is
  parsed back on reading; here the stored value is the JSON value.\<close>

record 's redis =
  rd_view :: "'s \<Rightarrow> keyspace"
  rd_now :: "'s \<Rightarrow> int"
  rd_get :: "string \<Rightarrow> 's \<Rightarrow> json option"
  rd_hgetall :: "string \<Rightarrow> 's \<Rightarrow> (string \<times> json) list"
  rd_set :: "string \<Rightarrow> json \<Rightarrow> 's \<Rightarrow> 's"
  rd_hset :: "string \<Rightarrow> (string \<times> json) list \<Rightarrow> 's \<Rightarrow> 's"
  rd_expire :: "string \<Rightarrow> int \<Rightarrow> 's \<Rightarrow> 's"
  rd_ttl :: "string \<Rightarrow> 's \<Rightarrow> int"
  rd_rpush :: "string \<Rightarrow> string \<Rightarrow> 's \<Rightarrow> 's"
  rd_lrange :: "string \<Rightarrow> 's \<Rightarrow> string list"
  rd_sadd :: "string \<Rightarrow> string \<Rightarrow> 's \<Rightarrow> 's"
  rd_srem :: "string \<Rightarrow> string \<Rightarrow> 's \<Rightarrow> 's"
  rd_smembers :: "string \<Rightarrow> 's \<Rightarrow> string list"
  rd_del :: "string \<Rightarrow> 's \<Rightarrow> 's"

definition as_hash :: "(rvalue \<times> int option) option \<Rightarrow> (string \<times> json) list" where
  "as_hash e = (case e of Some (RHash h, _) \<Rightarrow> h | _ \<Rightarrow> [])"

definition as_list :: "(rvalue \<times> int option) option \<Rightarrow> string list" where
  "as_list e = (case e of Some (RList xs, _) \<Rightarrow> xs | _ \<Rightarrow> [])"

definition as_set :: "(rvalue \<times> int option) option \<Rightarrow> string list" where
  "as_set e = (case e of Some (RSet xs, _) \<Rightarrow> xs | _ \<Rightarrow> [])"

definition as_str :: "(rvalue \<times> int option) option \<Rightarrow> json option" where
  "as_str e = (case e of Some (RStr v, _) \<Rightarrow> Some v | _ \<Rightarrow> None)"

definition expiry_of :: "(rvalue \<times> int option) option \<Rightarrow> int option" where
  "expiry_of e = Option.bind e snd"

text \<open>The commands as documented. Each changes one key; a key of another type than the command
  works on reads as empty (the code uses every key at one type), and an expiry is kept by the
  commands that modify a value and dropped by \<open>SET\<close>.\<close>

locale redis_server =
  fixes R :: "'s redis"
  assumes get: "rd_get R k s = as_str (rd_view R s k)"
    and hgetall: "rd_hgetall R k s = as_hash (rd_view R s k)"
    and lrange: "rd_lrange R k s = as_list (rd_view R s k)"
    and smembers: "distinct (rd_smembers R k s) \<and> List.set (rd_smembers R k s) = List.set (as_set (rd_view R s k))"
    and ttl: "rd_ttl R k s = (case rd_view R s k of None \<Rightarrow> -2 | Some (_, None) \<Rightarrow> -1
                | Some (_, Some e) \<Rightarrow> e - rd_now R s)"
    and set: "rd_view R (rd_set R k v s) = (rd_view R s)(k \<mapsto> (RStr v, None))"
    and hset: "rd_view R (rd_hset R k fs s) =
                (rd_view R s)(k \<mapsto> (RHash (js_assign (as_hash (rd_view R s k)) fs), expiry_of (rd_view R s k)))"
    and expire: "rd_view R (rd_expire R k t s) =
                (case rd_view R s k of None \<Rightarrow> rd_view R s
                 | Some (v, _) \<Rightarrow> if t \<le> 0 then (rd_view R s)(k := None)
                     else (rd_view R s)(k \<mapsto> (v, Some (rd_now R s + t))))"
    and rpush: "rd_view R (rd_rpush R k x s) =
                (rd_view R s)(k \<mapsto> (RList (as_list (rd_view R s k) @ [x]), expiry_of (rd_view R s k)))"
    and sadd: "rd_view R (rd_sadd R k x s) =
                (rd_view R s)(k \<mapsto> (RSet (set_add (as_set (rd_view R s k)) x), expiry_of (rd_view R s k)))"
    and srem: "rd_view R (rd_srem R k x s) =
                (let xs = filter (\<lambda>y. y \<noteq> x) (as_set (rd_view R s k)) in
                 (rd_view R s)(k := (if xs = [] then None else Some (RSet xs, expiry_of (rd_view R s k)))))"
    and del: "rd_view R (rd_del R k s) = (rd_view R s)(k := None)"
    and now: "rd_now R (rd_set R k v s) = rd_now R s" "rd_now R (rd_hset R k fs s) = rd_now R s"
      "rd_now R (rd_expire R k t s) = rd_now R s" "rd_now R (rd_rpush R k x s) = rd_now R s"
      "rd_now R (rd_sadd R k x s) = rd_now R s" "rd_now R (rd_srem R k x s) = rd_now R s"
      "rd_now R (rd_del R k s) = rd_now R s"
    and live: "rd_view R s k = Some (w, Some e) \<Longrightarrow> rd_now R s < e"

subsection \<open>Keys\<close>

definition grantable :: "string list" where
  "grantable = [''AccessToken'', ''AuthorizationCode'', ''RefreshToken'', ''DeviceCode'',
     ''BackchannelAuthenticationRequest'']"

definition consumable :: "string list" where
  "consumable = [''AuthorizationCode'', ''RefreshToken'', ''DeviceCode'',
     ''BackchannelAuthenticationRequest'']"

record reference =
  rf_listName :: string
  rf_ownerKey :: "string option"
  rf_expireKey :: "string option"

definition referencable :: "string \<Rightarrow> reference option" where
  "referencable name =
     (if name = ''Session'' then Some \<lparr>rf_listName = ''AccountSession'', rf_ownerKey = Some ''accountId'', rf_expireKey = None\<rparr>
      else if name = ''SiteSession'' then Some \<lparr>rf_listName = ''AccountSiteSession'', rf_ownerKey = Some ''accountId'', rf_expireKey = None\<rparr>
      else if name = ''Client'' then Some \<lparr>rf_listName = ''Clients'', rf_ownerKey = None, rf_expireKey = None\<rparr>
      else if name = ''SessionMetadata'' then Some \<lparr>rf_listName = ''UidSessions'', rf_ownerKey = Some ''userId'', rf_expireKey = Some ''exp''\<rparr>
      else None)"

definition redis_key :: "string \<Rightarrow> string \<Rightarrow> string" where
  "redis_key name rid = name @ CHR '':'' # rid"

definition grantKeyFor :: "string \<Rightarrow> string" where
  "grantKeyFor rid = redis_key ''grant'' rid"

definition userCodeKeyFor :: "string \<Rightarrow> string" where
  "userCodeKeyFor code = redis_key ''userCode'' code"

definition uidKeyFor :: "string \<Rightarrow> string" where
  "uidKeyFor uid = redis_key ''uid'' uid"

text \<open>\<open>payload[ownerKey] ?? 1\<close> interpolated into the key.\<close>

definition owner_of :: "reference \<Rightarrow> json option \<Rightarrow> string" where
  "owner_of rf payload = (case Option.bind (rf_ownerKey rf) (\<lambda>k. field k payload) of
     Some (JStr o') \<Rightarrow> o' | _ \<Rightarrow> ''1'')"

subsection \<open>The adapter\<close>

definition expire_if :: "'s redis \<Rightarrow> int option \<Rightarrow> string \<Rightarrow> 's \<Rightarrow> 's" where
  "expire_if R expiresIn k s = (case expiresIn of Some t \<Rightarrow> rd_expire R k t s | None \<Rightarrow> s)"

text \<open>The record itself; an expiry of zero is not applied.\<close>

definition upsert_payload :: "'s redis \<Rightarrow> string \<Rightarrow> string \<Rightarrow> json \<Rightarrow> int option \<Rightarrow> 's \<Rightarrow> 's" where
  "upsert_payload R name rid payload expiresIn s =
     (let key = redis_key name rid;
          s1 = (if name \<in> set consumable then rd_hset R key [(''payload'', payload)] s
                else rd_set R key payload s) in
      if expiresIn = Some 0 then s1 else expire_if R expiresIn key s1)"

text \<open>The list of keys issued under a grant; \<open>ttl\<close> was read before the transaction.\<close>

definition upsert_grant :: "'s redis \<Rightarrow> string \<Rightarrow> string \<Rightarrow> json \<Rightarrow> int option \<Rightarrow> int \<Rightarrow> 's \<Rightarrow> 's" where
  "upsert_grant R name rid payload expiresIn ttl s =
     (if name \<in> set grantable \<and> truthy (str_field ''grantId'' payload)
      then (let grantKey = grantKeyFor (tmpl (str_field ''grantId'' payload));
                s1 = rd_rpush R grantKey (redis_key name rid) s in
            case expiresIn of
              Some t \<Rightarrow> if t > ttl then rd_expire R grantKey t s1 else s1
            | None \<Rightarrow> s1)
      else s)"

definition upsert_index :: "'s redis \<Rightarrow> (string \<Rightarrow> string) \<Rightarrow> string option \<Rightarrow> string \<Rightarrow> int option \<Rightarrow> 's \<Rightarrow> 's" where
  "upsert_index R keyFor v rid expiresIn s =
     (if truthy v then expire_if R expiresIn (keyFor (tmpl v)) (rd_set R (keyFor (tmpl v)) (JStr rid) s) else s)"

definition upsert_owner :: "'s redis \<Rightarrow> int \<Rightarrow> string \<Rightarrow> string \<Rightarrow> json \<Rightarrow> 's \<Rightarrow> 's" where
  "upsert_owner R now_ms name rid payload s = (case referencable name of
     None \<Rightarrow> s
   | Some rf \<Rightarrow>
       (let k = redis_key (rf_listName rf) (owner_of rf (Some payload));
            s1 = rd_sadd R k rid s in
        case Option.bind (rf_expireKey rf) (\<lambda>e. int_field e payload) of
          None \<Rightarrow> s1
        | Some exp \<Rightarrow> if exp = 0 then s1 else rd_expire R k ((exp * 1000 - now_ms) div 1000) s1))"

definition adapter_upsert ::
  "'s redis \<Rightarrow> int \<Rightarrow> string \<Rightarrow> string \<Rightarrow> json \<Rightarrow> int option \<Rightarrow> 's \<Rightarrow> 's" where
  "adapter_upsert R now_ms name rid payload expiresIn s =
     (let ttl = rd_ttl R (grantKeyFor (tmpl (str_field ''grantId'' payload))) s;
          s1 = upsert_payload R name rid payload expiresIn s;
          s2 = upsert_grant R name rid payload expiresIn ttl s1;
          s3 = upsert_index R userCodeKeyFor (str_field ''userCode'' payload) rid expiresIn s2;
          s4 = upsert_index R uidKeyFor (str_field ''uid'' payload) rid expiresIn s3
      in upsert_owner R now_ms name rid payload s4)"

text \<open>\<open>find\<close>. Parsing the missing payload of a hash that only holds other fields throws.\<close>

datatype find_error = ParseError

definition adapter_find :: "'s redis \<Rightarrow> string \<Rightarrow> string \<Rightarrow> 's \<Rightarrow> find_error + json option" where
  "adapter_find R name rid s =
     (if name \<in> set consumable
      then (let data = rd_hgetall R (redis_key name rid) s in
            if data = [] then Inr None
            else case map_of data ''payload'' of
              None \<Rightarrow> Inl ParseError
            | Some payload \<Rightarrow>
                Inr (Some (js_spread (JObj (filter (\<lambda>(f, _). f \<noteq> ''payload'') data)) (members payload))))
      else Inr (rd_get R (redis_key name rid) s))"

text \<open>What a caller of \<open>find\<close> gets for a model whose records are strings, which never throws.\<close>

definition record_of :: "'s redis \<Rightarrow> string \<Rightarrow> string \<Rightarrow> 's \<Rightarrow> json option" where
  "record_of R name rid s = (case adapter_find R name rid s of Inr r \<Rightarrow> r | Inl _ \<Rightarrow> None)"

definition adapter_findByUid :: "'s redis \<Rightarrow> string \<Rightarrow> string \<Rightarrow> 's \<Rightarrow> find_error + json option" where
  "adapter_findByUid R name uid s =
     adapter_find R name (case rd_get R (uidKeyFor uid) s of Some (JStr i) \<Rightarrow> i | _ \<Rightarrow> ''null'') s"

definition adapter_findByUserCode :: "'s redis \<Rightarrow> string \<Rightarrow> string \<Rightarrow> 's \<Rightarrow> find_error + json option" where
  "adapter_findByUserCode R name code s =
     adapter_find R name (case rd_get R (userCodeKeyFor code) s of Some (JStr i) \<Rightarrow> i | _ \<Rightarrow> ''null'') s"

definition adapter_destroy :: "'s redis \<Rightarrow> string \<Rightarrow> string \<Rightarrow> 's \<Rightarrow> find_error + 's" where
  "adapter_destroy R name rid s = (case adapter_find R name rid s of
     Inl e \<Rightarrow> Inl e
   | Inr payload \<Rightarrow>
       (let s1 = rd_del R (redis_key name rid) s in
        Inr (case referencable name of
               None \<Rightarrow> s1
             | Some rf \<Rightarrow> rd_srem R (redis_key (rf_listName rf) (owner_of rf payload)) rid s1)))"

definition record_destroy :: "'s redis \<Rightarrow> string \<Rightarrow> string \<Rightarrow> 's \<Rightarrow> 's" where
  "record_destroy R name rid s = (case adapter_destroy R name rid s of Inr s' \<Rightarrow> s' | Inl _ \<Rightarrow> s)"

definition adapter_consume :: "'s redis \<Rightarrow> int \<Rightarrow> string \<Rightarrow> string \<Rightarrow> 's \<Rightarrow> 's" where
  "adapter_consume R now_ms name rid s = rd_hset R (redis_key name rid) [(''consumed'', JNum (now_ms div 1000))] s"

definition adapter_revokeByGrantId :: "'s redis \<Rightarrow> string \<Rightarrow> 's \<Rightarrow> 's" where
  "adapter_revokeByGrantId R grantId s =
     (let tokens = rd_lrange R (grantKeyFor grantId) s in
      rd_del R (grantKeyFor grantId) (foldl (\<lambda>s token. rd_del R token s) s tokens))"

definition adapter_appendToSet :: "'s redis \<Rightarrow> string \<Rightarrow> string \<Rightarrow> string \<Rightarrow> 's \<Rightarrow> 's" where
  "adapter_appendToSet R name rid item s = rd_sadd R (redis_key name rid) item s"

definition adapter_removeFromSet :: "'s redis \<Rightarrow> string \<Rightarrow> string \<Rightarrow> string \<Rightarrow> 's \<Rightarrow> 's" where
  "adapter_removeFromSet R name rid item s = rd_srem R (redis_key name rid) item s"

definition adapter_getSetMembers :: "'s redis \<Rightarrow> string \<Rightarrow> string \<Rightarrow> 's \<Rightarrow> string list" where
  "adapter_getSetMembers R name rid s = rd_smembers R (redis_key name rid) s"

subsection \<open>Key space lemmas\<close>

definition key_name :: "string \<Rightarrow> string" where
  "key_name k = takeWhile (\<lambda>c. c \<noteq> CHR '':'') k"

definition colon_free :: "string \<Rightarrow> bool" where
  "colon_free n = (CHR '':'' \<notin> set n)"

lemma key_name_redis_key [simp]: "colon_free n \<Longrightarrow> key_name (redis_key n i) = n"
  unfolding key_name_def redis_key_def colon_free_def by (induction n) auto

lemma redis_key_eq_iff [simp]:
  assumes "colon_free n" "colon_free m"
  shows "redis_key n i = redis_key m j \<longleftrightarrow> n = m \<and> i = j"
proof
  assume e: "redis_key n i = redis_key m j"
  with assms have "n = m" by (metis key_name_redis_key)
  with e show "n = m \<and> i = j" by (simp add: redis_key_def)
qed simp

lemma colon_free_names [simp]:
  "colon_free ''grant''" "colon_free ''userCode''" "colon_free ''uid''"
  by (simp_all add: colon_free_def)

definition set_names :: "string list" where
  "set_names = [''AccountSession'', ''AccountSiteSession'', ''Clients'', ''UidSessions'']"

lemma referencable_listName: "referencable n = Some rf \<Longrightarrow> rf_listName rf \<in> set set_names \<and> colon_free (rf_listName rf)"
  by (auto simp: referencable_def set_names_def colon_free_def split: if_splits)

text \<open>Models whose records are strings under a name of their own.\<close>

definition plain_name :: "string \<Rightarrow> bool" where
  "plain_name n = (colon_free n \<and> n \<notin> set consumable \<and> n \<notin> set set_names
     \<and> n \<notin> set [''grant'', ''userCode'', ''uid''])"

lemma plain_nameD:
  assumes "plain_name n"
  shows "colon_free n" "n \<notin> set consumable" "n \<notin> set set_names"
    "n \<noteq> ''grant''" "n \<noteq> ''userCode''" "n \<noteq> ''uid''"
  using assms by (simp_all add: plain_name_def)

lemma plain_key_neq:
  assumes "plain_name n"
  shows "redis_key n i \<noteq> grantKeyFor g" "redis_key n i \<noteq> userCodeKeyFor g" "redis_key n i \<noteq> uidKeyFor g"
    "grantKeyFor g \<noteq> redis_key n i" "userCodeKeyFor g \<noteq> redis_key n i" "uidKeyFor g \<noteq> redis_key n i"
  using plain_nameD [OF assms] unfolding grantKeyFor_def userCodeKeyFor_def uidKeyFor_def
  by (metis colon_free_names redis_key_eq_iff)+

lemma plain_not_list:
  assumes "plain_name n" "referencable m = Some rf"
  shows "redis_key n i \<noteq> redis_key (rf_listName rf) o'" "redis_key (rf_listName rf) o' \<noteq> redis_key n i"
  using plain_nameD [OF assms(1)] referencable_listName [OF assms(2)] by (metis redis_key_eq_iff)+

subsection \<open>What the adapter promises its callers\<close>

text \<open>An expiry a caller may pass: none, or zero (read as none) or more.\<close>

definition ok_ttl :: "int option \<Rightarrow> bool" where
  "ok_ttl e = (case e of None \<Rightarrow> True | Some t \<Rightarrow> 0 \<le> t)"

context redis_server
begin

lemma view_other:
  "k \<noteq> k' \<Longrightarrow> rd_view R (rd_set R k v s) k' = rd_view R s k'"
  "k \<noteq> k' \<Longrightarrow> rd_view R (rd_hset R k fs s) k' = rd_view R s k'"
  "k \<noteq> k' \<Longrightarrow> rd_view R (rd_expire R k t s) k' = rd_view R s k'"
  "k \<noteq> k' \<Longrightarrow> rd_view R (rd_rpush R k x s) k' = rd_view R s k'"
  "k \<noteq> k' \<Longrightarrow> rd_view R (rd_sadd R k x s) k' = rd_view R s k'"
  "k \<noteq> k' \<Longrightarrow> rd_view R (rd_srem R k x s) k' = rd_view R s k'"
  "k \<noteq> k' \<Longrightarrow> rd_view R (rd_del R k s) k' = rd_view R s k'"
  by (auto simp: set hset expire rpush sadd srem del Let_def split: option.split)

lemma view_expire_if_other: "k \<noteq> k' \<Longrightarrow> rd_view R (expire_if R e k s) k' = rd_view R s k'"
  by (simp add: expire_if_def view_other split: option.split)

lemma now_expire_if: "rd_now R (expire_if R e k s) = rd_now R s"
  by (simp add: expire_if_def now split: option.split)

lemma view_payload_other:
  "redis_key n i \<noteq> k' \<Longrightarrow> rd_view R (upsert_payload R n i p e s) k' = rd_view R s k'"
  by (simp add: upsert_payload_def Let_def view_other view_expire_if_other)

lemma view_grant_other:
  "grantKeyFor (tmpl (str_field ''grantId'' p)) \<noteq> k' \<Longrightarrow> rd_view R (upsert_grant R n i p e t s) k' = rd_view R s k'"
  by (simp add: upsert_grant_def Let_def view_other split: option.split)

lemma view_index_other:
  "keyFor (tmpl v) \<noteq> k' \<Longrightarrow> rd_view R (upsert_index R keyFor v i e s) k' = rd_view R s k'"
  by (simp add: upsert_index_def view_other view_expire_if_other)

lemma view_owner_other:
  assumes "\<And>rf. referencable n = Some rf \<Longrightarrow> redis_key (rf_listName rf) (owner_of rf (Some p)) \<noteq> k'"
  shows "rd_view R (upsert_owner R ms n i p s) k' = rd_view R s k'"
  using assms by (auto simp: upsert_owner_def Let_def view_other split: option.split)

text \<open>The record a plain model stores, and that nothing else of the key space's plain records
  changes.\<close>

definition stored_view :: "json \<Rightarrow> int option \<Rightarrow> 's \<Rightarrow> (rvalue \<times> int option) option" where
  "stored_view p e s = (case e of None \<Rightarrow> Some (RStr p, None)
     | Some t \<Rightarrow> if t = 0 then Some (RStr p, None) else if t < 0 then None
                 else Some (RStr p, Some (rd_now R s + t)))"

lemma view_upsert_payload:
  "n \<notin> List.set consumable \<Longrightarrow>
   rd_view R (upsert_payload R n i p e s) (redis_key n i) = stored_view p e s"
  by (auto simp: upsert_payload_def stored_view_def Let_def expire_if_def set expire now split: option.split)

lemma view_plain_upsert:
  assumes "plain_name m" "plain_name n"
  shows "rd_view R (adapter_upsert R ms n i p e s) (redis_key m j) =
    (if n = m \<and> i = j then stored_view p e s else rd_view R s (redis_key m j))"
proof -
  let ?k = "redis_key m j"
  let ?s1 = "upsert_payload R n i p e s"
  have "rd_view R (adapter_upsert R ms n i p e s) ?k = rd_view R ?s1 ?k"
    using plain_key_neq [OF assms(1)] plain_not_list [OF assms(1)]
    by (simp add: adapter_upsert_def Let_def view_owner_other view_index_other view_grant_other)
  moreover have "rd_view R ?s1 ?k = (if n = m \<and> i = j then stored_view p e s else rd_view R s ?k)"
    using plain_nameD [OF assms(1)] plain_nameD [OF assms(2)]
    by (auto simp: view_upsert_payload view_payload_other)
  ultimately show ?thesis by simp
qed

lemma record_of_view:
  "n \<notin> List.set consumable \<Longrightarrow> record_of R n i s = as_str (rd_view R s (redis_key n i))"
  by (simp add: record_of_def adapter_find_def get)

lemma view_plain_destroy:
  assumes "plain_name m" "plain_name n"
  shows "rd_view R (record_destroy R n i s) (redis_key m j) =
    (if n = m \<and> i = j then None else rd_view R s (redis_key m j))"
  using plain_nameD [OF assms(1)] plain_nameD [OF assms(2)] plain_not_list(2) [OF assms(1)]
  by (auto simp: record_destroy_def adapter_destroy_def adapter_find_def Let_def del view_other
      split: option.split)

end

subsection \<open>The contract\<close>

text \<open>What the clients of the adapter rely on: a map from a model's ids to payloads, each model
  independent of the others.\<close>

locale record_store =
  fixes look :: "string \<Rightarrow> string \<Rightarrow> 's \<Rightarrow> json option"
    and put :: "string \<Rightarrow> string \<Rightarrow> json \<Rightarrow> int option \<Rightarrow> 's \<Rightarrow> 's"
    and drop_rec :: "string \<Rightarrow> string \<Rightarrow> 's \<Rightarrow> 's"
  assumes look_put: "plain_name n \<Longrightarrow> plain_name m \<Longrightarrow> ok_ttl e \<Longrightarrow>
      look m j (put n i p e s) = (if n = m \<and> i = j then Some p else look m j s)"
    and look_drop: "plain_name n \<Longrightarrow> plain_name m \<Longrightarrow>
      look m j (drop_rec n i s) = (if n = m \<and> i = j then None else look m j s)"
begin

lemma look_put_same: "plain_name n \<Longrightarrow> ok_ttl e \<Longrightarrow> look n i (put n i p e s) = Some p"
  by (simp add: look_put)

lemma look_put_other:
  "plain_name n \<Longrightarrow> plain_name m \<Longrightarrow> ok_ttl e \<Longrightarrow> n \<noteq> m \<or> i \<noteq> j \<Longrightarrow> look m j (put n i p e s) = look m j s"
  by (auto simp: look_put)

lemma drop_put:
  "plain_name n \<Longrightarrow> plain_name m \<Longrightarrow> ok_ttl e \<Longrightarrow> look n i s = None \<Longrightarrow>
   look m j (drop_rec n i (put n i p e s)) = look m j s"
  by (auto simp: look_put look_drop)

lemma put_put:
  "plain_name n \<Longrightarrow> plain_name m \<Longrightarrow> ok_ttl e \<Longrightarrow> ok_ttl e' \<Longrightarrow>
   look m j (put n i p e (put n i q e' s)) = look m j (put n i p e s)"
  by (simp add: look_put)

end

sublocale redis_server \<subseteq> records: record_store "record_of R" "adapter_upsert R ms" "record_destroy R"
  by unfold_locales
    (auto simp: record_of_view plain_nameD view_plain_upsert view_plain_destroy stored_view_def
      as_str_def ok_ttl_def split: option.split)

subsection \<open>An in-memory server\<close>

text \<open>A server whose state is the key space and the clock; it shows that the laws can hold and
  lets the witnesses run.\<close>

type_synonym mem = "keyspace \<times> int"

definition mem_view :: "mem \<Rightarrow> keyspace" where
  "mem_view s = (\<lambda>k. case fst s k of
     Some (v, Some e) \<Rightarrow> if e \<le> snd s then None else Some (v, Some e)
   | r \<Rightarrow> r)"

definition mem_store :: "string \<Rightarrow> (rvalue \<times> int option) option \<Rightarrow> mem \<Rightarrow> mem" where
  "mem_store k e s = ((fst s)(k := e), snd s)"

definition mem_redis :: "mem redis" where
  "mem_redis = \<lparr>rd_view = mem_view, rd_now = snd,
     rd_get = (\<lambda>k s. as_str (mem_view s k)),
     rd_hgetall = (\<lambda>k s. as_hash (mem_view s k)),
     rd_set = (\<lambda>k v. mem_store k (Some (RStr v, None))),
     rd_hset = (\<lambda>k fs s. mem_store k (Some (RHash (js_assign (as_hash (mem_view s k)) fs), expiry_of (mem_view s k))) s),
     rd_expire = (\<lambda>k t s. case mem_view s k of None \<Rightarrow> s
        | Some (v, _) \<Rightarrow> mem_store k (if t \<le> 0 then None else Some (v, Some (snd s + t))) s),
     rd_ttl = (\<lambda>k s. case mem_view s k of None \<Rightarrow> -2 | Some (_, None) \<Rightarrow> -1 | Some (_, Some e) \<Rightarrow> e - snd s),
     rd_rpush = (\<lambda>k x s. mem_store k (Some (RList (as_list (mem_view s k) @ [x]), expiry_of (mem_view s k))) s),
     rd_lrange = (\<lambda>k s. as_list (mem_view s k)),
     rd_sadd = (\<lambda>k x s. mem_store k (Some (RSet (set_add (as_set (mem_view s k)) x), expiry_of (mem_view s k))) s),
     rd_srem = (\<lambda>k x s. let xs = filter (\<lambda>y. y \<noteq> x) (as_set (mem_view s k)) in
        mem_store k (if xs = [] then None else Some (RSet xs, expiry_of (mem_view s k))) s),
     rd_smembers = (\<lambda>k s. remdups (as_set (mem_view s k))),
     rd_del = (\<lambda>k. mem_store k None)\<rparr>"

definition mem_empty :: mem where
  "mem_empty = (\<lambda>_. None, 0)"

lemma mem_view_live: "mem_view s k = Some (v, Some e) \<Longrightarrow> snd s < e"
  by (auto simp: mem_view_def split: option.splits if_splits prod.splits)

lemma mem_view_store:
  assumes "\<forall>v e. x = Some (v, Some e) \<longrightarrow> snd s < e"
  shows "mem_view (mem_store k x s) = (mem_view s)(k := x)"
  using assms by (auto simp: mem_view_def mem_store_def fun_eq_iff not_le split: option.split)

lemma mem_store_clock [simp]: "snd (mem_store k x s) = snd s"
  by (simp add: mem_store_def)

lemma expiry_live: "expiry_of (mem_view s k) = Some e \<Longrightarrow> snd s < e"
  by (cases "mem_view s k") (auto simp: expiry_of_def dest: mem_view_live)

interpretation mem_server: redis_server mem_redis
  by unfold_locales
    (simp_all add: mem_redis_def mem_view_store expiry_live mem_view_live Let_def split: option.split)

end
