(* ===== verification/Grants.thy ===== *)
theory Grants
  imports Redis
begin

text \<open>
  Tokens and grants in the store (\<^verbatim>\<open>src/adapters/redis.js\<close>): how tokens issued under a
  grant are indexed, and that revoking the grant by its index reaches all of them. The proof
  is an invariant of the runs of the adapter's token operations, with time passing between
  them.
\<close>

subsection \<open>What a stored token belongs to\<close>

definition token_payload :: "'s redis \<Rightarrow> string \<Rightarrow> string \<Rightarrow> 's \<Rightarrow> json option" where
  "token_payload R n i s =
     (if n \<in> set consumable then map_of (rd_hgetall R (redis_key n i) s) ''payload''
      else rd_get R (redis_key n i) s)"

definition token_grant :: "'s redis \<Rightarrow> string \<Rightarrow> string \<Rightarrow> 's \<Rightarrow> string option" where
  "token_grant R n i s = (case token_payload R n i s of
     Some p \<Rightarrow> (if truthy (str_field ''grantId'' p) then str_field ''grantId'' p else None)
   | None \<Rightarrow> None)"

text \<open>Time passes: nothing changes but the clock, and keys whose time has come are gone.\<close>

definition elapses :: "'s redis \<Rightarrow> 's \<Rightarrow> 's \<Rightarrow> bool" where
  "elapses R s s' = (rd_now R s \<le> rd_now R s'
     \<and> rd_view R s' = (\<lambda>k. case rd_view R s k of
          Some (v, Some e) \<Rightarrow> if e \<le> rd_now R s' then None else Some (v, Some e)
        | r \<Rightarrow> r))"

text \<open>The runs of the token store. The provider always gives a token a positive lifetime.\<close>

inductive token_run :: "'s redis \<Rightarrow> 's \<Rightarrow> bool" for R where
  run_start: "rd_view R s = Map.empty \<Longrightarrow> token_run R s"
| run_upsert: "token_run R s \<Longrightarrow> n \<in> set grantable \<Longrightarrow> 0 < t \<Longrightarrow>
     token_run R (adapter_upsert R ms n i p (Some t) s)"
| run_consume: "token_run R s \<Longrightarrow> n \<in> set consumable \<Longrightarrow> token_run R (adapter_consume R ms n i s)"
| run_destroy: "token_run R s \<Longrightarrow> n \<in> set grantable \<Longrightarrow> adapter_destroy R n i s = Inr s' \<Longrightarrow> token_run R s'"
| run_revoke: "token_run R s \<Longrightarrow> token_run R (adapter_revokeByGrantId R g s)"
| run_elapse: "token_run R s \<Longrightarrow> elapses R s s' \<Longrightarrow> token_run R s'"

lemma grantable_names:
  assumes "n \<in> set grantable"
  shows "colon_free n" "referencable n = None" "n \<notin> set [''grant'', ''userCode'', ''uid'']"
  using assms by (auto simp: grantable_def colon_free_def referencable_def)

lemma consumable_grantable: "n \<in> set consumable \<Longrightarrow> n \<in> set grantable"
  by (auto simp: grantable_def consumable_def)

lemma grantable_key_neq:
  assumes "n \<in> set grantable"
  shows "redis_key n i \<noteq> grantKeyFor g" "redis_key n i \<noteq> userCodeKeyFor g" "redis_key n i \<noteq> uidKeyFor g"
    "grantKeyFor g \<noteq> redis_key n i" "userCodeKeyFor g \<noteq> redis_key n i" "uidKeyFor g \<noteq> redis_key n i"
  using grantable_names [OF assms] unfolding grantKeyFor_def userCodeKeyFor_def uidKeyFor_def
  by (auto simp: redis_key_eq_iff)

lemma index_key_neq:
  "userCodeKeyFor c \<noteq> grantKeyFor g" "uidKeyFor c \<noteq> grantKeyFor g"
  "grantKeyFor g = grantKeyFor h \<longleftrightarrow> g = h"
  unfolding grantKeyFor_def userCodeKeyFor_def uidKeyFor_def by (simp_all add: redis_key_eq_iff)

subsection \<open>The invariant\<close>

text \<open>Every grant's list has an expiry, and the key of every live token of the grant is on the
  list, which lives at least as long as the token.\<close>

definition token_keys :: "string list \<Rightarrow> bool" where
  "token_keys xs = (\<forall>k \<in> set xs. \<exists>n i. n \<in> set grantable \<and> k = redis_key n i)"

lemma token_keys_simps [simp]:
  "token_keys []" "token_keys (xs @ ys) \<longleftrightarrow> token_keys xs \<and> token_keys ys"
  "n \<in> set grantable \<Longrightarrow> token_keys [redis_key n i]"
  by (auto simp: token_keys_def)

definition grant_indexed :: "'s redis \<Rightarrow> 's \<Rightarrow> bool" where
  "grant_indexed R s =
     ((\<forall>g v el. rd_view R s (grantKeyFor g) = Some (v, el) \<longrightarrow>
          (\<exists>xs e. v = RList xs \<and> el = Some e \<and> token_keys xs))
      \<and> (\<forall>n i g. n \<in> set grantable \<and> token_grant R n i s = Some g \<longrightarrow>
           (\<exists>xs e t. rd_view R s (grantKeyFor g) = Some (RList xs, Some e) \<and> redis_key n i \<in> set xs
              \<and> expiry_of (rd_view R s (redis_key n i)) = Some t \<and> t \<le> e)))"

context redis_server
begin

lemma token_payload_view:
  "token_payload R n i s =
     (if n \<in> List.set consumable then map_of (as_hash (rd_view R s (redis_key n i))) ''payload''
      else as_str (rd_view R s (redis_key n i)))"
  by (simp add: token_payload_def hgetall get)

lemma token_grant_cong:
  "rd_view R s (redis_key n i) = rd_view R s' (redis_key n i) \<Longrightarrow> token_grant R n i s = token_grant R n i s'"
  by (simp add: token_grant_def token_payload_view)

lemma token_grant_None: "rd_view R s (redis_key n i) = None \<Longrightarrow> token_grant R n i s = None"
  by (simp add: token_grant_def token_payload_view as_hash_def as_str_def)

lemma token_grant_live: "token_grant R n i s = Some g \<Longrightarrow> rd_view R s (redis_key n i) \<noteq> None"
  using token_grant_None [of s n i] by (cases "rd_view R s (redis_key n i)") simp_all

lemma upsert_owner_None: "referencable n = None \<Longrightarrow> upsert_owner R ms n i p s = s"
  by (simp add: upsert_owner_def)

lemma grant_indexedD1: "grant_indexed R s \<Longrightarrow> rd_view R s (grantKeyFor g) = Some (v, el) \<Longrightarrow>
    \<exists>xs e. v = RList xs \<and> el = Some e \<and> token_keys xs"
  by (simp add: grant_indexed_def)

lemma grant_indexedD2: "grant_indexed R s \<Longrightarrow> n \<in> List.set grantable \<Longrightarrow> token_grant R n i s = Some g \<Longrightarrow>
    \<exists>xs e t. rd_view R s (grantKeyFor g) = Some (RList xs, Some e) \<and> redis_key n i \<in> List.set xs
      \<and> expiry_of (rd_view R s (redis_key n i)) = Some t \<and> t \<le> e"
  by (simp add: grant_indexed_def)

text \<open>What an upsert of a token does to the keys the invariant is about.\<close>

lemma now_payload: "rd_now R (upsert_payload R n i p e s) = rd_now R s"
  by (simp add: upsert_payload_def Let_def now now_expire_if)

lemma upsert_token_view:
  assumes n: "n \<in> List.set grantable" and t: "0 < t" and m: "m \<in> List.set grantable"
  shows "rd_view R (adapter_upsert R ms n i p (Some t) s) (redis_key m j) =
    (if n = m \<and> i = j
     then Some (if n \<in> List.set consumable
                then RHash (js_assign (as_hash (rd_view R s (redis_key n i))) [(''payload'', p)])
                else RStr p, Some (rd_now R s + t))
     else rd_view R s (redis_key m j))"
proof -
  let ?k = "redis_key m j"
  let ?s1 = "upsert_payload R n i p (Some t) s"
  have "rd_view R (adapter_upsert R ms n i p (Some t) s) ?k = rd_view R ?s1 ?k"
    using grantable_key_neq [OF m] grantable_names(2) [OF n]
    by (simp add: adapter_upsert_def Let_def upsert_owner_None view_index_other view_grant_other)
  moreover have "rd_view R ?s1 ?k = (if n = m \<and> i = j
     then Some (if n \<in> List.set consumable
                then RHash (js_assign (as_hash (rd_view R s (redis_key n i))) [(''payload'', p)])
                else RStr p, Some (rd_now R s + t))
     else rd_view R s ?k)"
    using grantable_names(1) [OF n] grantable_names(1) [OF m] t
    by (auto simp: view_payload_other upsert_payload_def Let_def expire_if_def set hset expire now)
  ultimately show ?thesis by simp
qed

lemma upsert_grant_view:
  assumes n: "n \<in> List.set grantable"
  shows "rd_view R (adapter_upsert R ms n i p (Some t) s) (grantKeyFor h) =
    (if truthy (str_field ''grantId'' p) \<and> h = tmpl (str_field ''grantId'' p)
     then (let xs = as_list (rd_view R s (grantKeyFor h)) @ [redis_key n i] in
           if t > rd_ttl R (grantKeyFor h) s
           then (if t \<le> 0 then None else Some (RList xs, Some (rd_now R s + t)))
           else Some (RList xs, expiry_of (rd_view R s (grantKeyFor h))))
     else rd_view R s (grantKeyFor h))"
proof -
  let ?g = "tmpl (str_field ''grantId'' p)"
  let ?s1 = "upsert_payload R n i p (Some t) s"
  let ?ttl = "rd_ttl R (grantKeyFor ?g) s"
  have s1: "rd_view R ?s1 (grantKeyFor h) = rd_view R s (grantKeyFor h)" for h
    using grantable_key_neq [OF n] by (simp add: view_payload_other)
  have "rd_view R (adapter_upsert R ms n i p (Some t) s) (grantKeyFor h)
      = rd_view R (upsert_grant R n i p (Some t) ?ttl ?s1) (grantKeyFor h)"
    using grantable_names(2) [OF n]
    by (simp add: adapter_upsert_def Let_def upsert_owner_None view_index_other index_key_neq)
  also have "\<dots> = (if truthy (str_field ''grantId'' p) \<and> h = ?g
     then (let xs = as_list (rd_view R s (grantKeyFor h)) @ [redis_key n i] in
           if t > ?ttl
           then (if t \<le> 0 then None else Some (RList xs, Some (rd_now R s + t)))
           else Some (RList xs, expiry_of (rd_view R s (grantKeyFor h))))
     else rd_view R s (grantKeyFor h))"
    using n by (auto simp: upsert_grant_def Let_def rpush expire s1 now now_payload view_other index_key_neq)
  finally show ?thesis by (simp add: Let_def)
qed

lemma token_payload_upsert:
  assumes "n \<in> List.set grantable" "0 < t"
  shows "token_payload R n i (adapter_upsert R ms n i p (Some t) s) = Some p"
  by (simp add: token_payload_view upsert_token_view assms as_hash_def as_str_def js_assign_def update_conv')

lemma indexed_upsert:
  assumes inv: "grant_indexed R s" and n: "n \<in> List.set grantable" and t: "0 < t"
  shows "grant_indexed R (adapter_upsert R ms n i p (Some t) s)"
proof -
  let ?s' = "adapter_upsert R ms n i p (Some t) s"
  have ttl1: "rd_ttl R (grantKeyFor h) s = e - rd_now R s"
    if "rd_view R s (grantKeyFor h) = Some (v, Some e)" for h v e
    using that by (simp add: ttl)
  have ttl0: "rd_ttl R (grantKeyFor h) s = -2" if "rd_view R s (grantKeyFor h) = None" for h
    using that by (simp add: ttl)
  have grown: "\<exists>xs' e'. rd_view R ?s' (grantKeyFor h) = Some (RList xs', Some e') \<and> e \<le> e' \<and> List.set xs \<subseteq> List.set xs'"
    if "rd_view R s (grantKeyFor h) = Some (RList xs, Some e)" for h xs e
    using that t by (auto simp: upsert_grant_view n Let_def ttl1 as_list_def expiry_of_def)
  have own: "\<exists>xs' e'. rd_view R ?s' (grantKeyFor h) = Some (RList xs', Some e')
      \<and> rd_now R s + t \<le> e' \<and> redis_key n i \<in> List.set xs' \<and> token_keys xs'"
    if g: "truthy (str_field ''grantId'' p)" "str_field ''grantId'' p = Some h" for h
  proof (cases "rd_view R s (grantKeyFor h)")
    case None
    with g t n show ?thesis by (auto simp: upsert_grant_view n Let_def ttl0 as_list_def token_keys_simps)
  next
    case (Some w)
    then obtain v el where w: "rd_view R s (grantKeyFor h) = Some (v, el)" by (cases w) auto
    from grant_indexedD1 [OF inv w] obtain xs e where "v = RList xs" "el = Some e" "token_keys xs" by blast
    with w g t n show ?thesis
      by (auto simp: upsert_grant_view n Let_def ttl1 as_list_def expiry_of_def token_keys_simps)
  qed
  have lists: "\<exists>xs e. v = RList xs \<and> el = Some e \<and> token_keys xs"
    if v: "rd_view R ?s' (grantKeyFor h) = Some (v, el)" for h v el
  proof (cases "truthy (str_field ''grantId'' p) \<and> str_field ''grantId'' p = Some h")
    case True
    with own v show ?thesis by fastforce
  next
    case False
    then have "rd_view R ?s' (grantKeyFor h) = rd_view R s (grantKeyFor h)"
      by (cases "str_field ''grantId'' p") (auto simp: upsert_grant_view n)
    with v grant_indexedD1 [OF inv] show ?thesis by simp
  qed
  have tokens: "\<exists>xs e t'. rd_view R ?s' (grantKeyFor g) = Some (RList xs, Some e) \<and> redis_key m j \<in> List.set xs
      \<and> expiry_of (rd_view R ?s' (redis_key m j)) = Some t' \<and> t' \<le> e"
    if m: "m \<in> List.set grantable" and g: "token_grant R m j ?s' = Some g" for m j g
  proof (cases "n = m \<and> i = j")
    case True
    with token_payload_upsert [OF n t, of i ms p] have "token_payload R m j ?s' = Some p" by simp
    with g have "truthy (str_field ''grantId'' p)" "str_field ''grantId'' p = Some g"
      by (auto simp: token_grant_def split: if_splits)
    note o = own [OF this]
    have "expiry_of (rd_view R ?s' (redis_key n i)) = Some (rd_now R s + t)"
      by (simp add: upsert_token_view n t expiry_of_def)
    with o True show ?thesis by blast
  next
    case False
    then have same: "rd_view R ?s' (redis_key m j) = rd_view R s (redis_key m j)"
      by (auto simp: upsert_token_view n t m)
    with g have "token_grant R m j s = Some g" using token_grant_cong by metis
    from grant_indexedD2 [OF inv m this] grown show ?thesis
      unfolding same by (meson order_trans subsetD)
  qed
  from lists tokens show ?thesis unfolding grant_indexed_def by blast
qed

text \<open>A step that only removes keys, or leaves a token's payload and expiry alone.\<close>

lemma indexed_shrink:
  assumes inv: "grant_indexed R s"
    and lists: "\<And>g. rd_view R s' (grantKeyFor g) = rd_view R s (grantKeyFor g)"
    and tokens: "\<And>m j. m \<in> List.set grantable \<Longrightarrow> token_grant R m j s' \<noteq> None \<Longrightarrow>
        token_grant R m j s' = token_grant R m j s
        \<and> expiry_of (rd_view R s' (redis_key m j)) = expiry_of (rd_view R s (redis_key m j))"
  shows "grant_indexed R s'"
  unfolding grant_indexed_def
proof (intro conjI allI impI)
  fix g v el
  assume "rd_view R s' (grantKeyFor g) = Some (v, el)"
  then show "\<exists>xs e. v = RList xs \<and> el = Some e \<and> token_keys xs" using grant_indexedD1 [OF inv] by (simp add: lists)
next
  fix n i g
  assume "n \<in> List.set grantable \<and> token_grant R n i s' = Some g"
  then have n: "n \<in> List.set grantable" and g: "token_grant R n i s' = Some g" by auto
  from tokens [OF n, of i] g have "token_grant R n i s = Some g"
    "expiry_of (rd_view R s' (redis_key n i)) = expiry_of (rd_view R s (redis_key n i))" by auto
  with grant_indexedD2 [OF inv n] show "\<exists>xs e t. rd_view R s' (grantKeyFor g) = Some (RList xs, Some e)
      \<and> redis_key n i \<in> List.set xs \<and> expiry_of (rd_view R s' (redis_key n i)) = Some t \<and> t \<le> e"
    by (simp add: lists)
qed

lemma indexed_consume:
  assumes "grant_indexed R s" and n: "n \<in> List.set consumable"
  shows "grant_indexed R (adapter_consume R ms n i s)"
proof (rule indexed_shrink [OF assms(1)])
  show "rd_view R (adapter_consume R ms n i s) (grantKeyFor g) = rd_view R s (grantKeyFor g)" for g
    using grantable_key_neq [OF consumable_grantable [OF n]] by (simp add: adapter_consume_def view_other)
next
  fix m j
  assume m: "m \<in> List.set grantable" and some: "token_grant R m j (adapter_consume R ms n i s) \<noteq> None"
  note cf = grantable_names(1) [OF m] grantable_names(1) [OF consumable_grantable [OF n]]
  show "token_grant R m j (adapter_consume R ms n i s) = token_grant R m j s
      \<and> expiry_of (rd_view R (adapter_consume R ms n i s) (redis_key m j)) = expiry_of (rd_view R s (redis_key m j))"
  proof (cases "n = m \<and> i = j")
    case True
    with n show ?thesis
      by (auto simp: adapter_consume_def hset token_grant_def token_payload_view as_hash_def
          expiry_of_def js_assign_def update_conv')
  next
    case False
    with cf have "rd_view R (adapter_consume R ms n i s) (redis_key m j) = rd_view R s (redis_key m j)"
      by (auto simp: adapter_consume_def view_other)
    then show ?thesis using token_grant_cong by metis
  qed
qed

lemma indexed_destroy:
  assumes "grant_indexed R s" and n: "n \<in> List.set grantable" and d: "adapter_destroy R n i s = Inr s'"
  shows "grant_indexed R s'"
proof -
  from d grantable_names(2) [OF n] have s': "s' = rd_del R (redis_key n i) s"
    by (auto simp: adapter_destroy_def Let_def split: sum.splits)
  show ?thesis
  proof (rule indexed_shrink [OF assms(1)])
    show "rd_view R s' (grantKeyFor g) = rd_view R s (grantKeyFor g)" for g
      using grantable_key_neq [OF n] by (simp add: s' view_other)
  next
    fix m j
    assume m: "m \<in> List.set grantable" and some: "token_grant R m j s' \<noteq> None"
    then have "redis_key n i \<noteq> redis_key m j"
      using token_grant_None [of s' m j] by (auto simp: s' del)
    then have "rd_view R s' (redis_key m j) = rd_view R s (redis_key m j)" by (simp add: s' view_other)
    then show "token_grant R m j s' = token_grant R m j s
      \<and> expiry_of (rd_view R s' (redis_key m j)) = expiry_of (rd_view R s (redis_key m j))"
      using token_grant_cong by metis
  qed
qed

lemma view_del_all: "rd_view R (foldl (\<lambda>s k. rd_del R k s) s ks) = (\<lambda>k. if k \<in> List.set ks then None else rd_view R s k)"
  by (induction ks arbitrary: s) (auto simp: del fun_eq_iff)

lemma view_revoke:
  "rd_view R (adapter_revokeByGrantId R g s) =
     (\<lambda>k. if k = grantKeyFor g \<or> k \<in> List.set (as_list (rd_view R s (grantKeyFor g))) then None else rd_view R s k)"
  by (auto simp: adapter_revokeByGrantId_def Let_def del view_del_all lrange fun_eq_iff)

lemma indexed_revoke:
  assumes inv: "grant_indexed R s"
  shows "grant_indexed R (adapter_revokeByGrantId R g s)"
    "n \<in> List.set grantable \<Longrightarrow> token_grant R n i s = Some g \<Longrightarrow>
       rd_view R (adapter_revokeByGrantId R g s) (redis_key n i) = None"
proof -
  let ?s' = "adapter_revokeByGrantId R g s"
  let ?xs = "as_list (rd_view R s (grantKeyFor g))"
  have keys: "token_keys ?xs"
    using grant_indexedD1 [OF inv, of g]
    by (cases "rd_view R s (grantKeyFor g)") (auto simp: as_list_def token_keys_def split: rvalue.split)
  have not_list: "grantKeyFor h \<notin> List.set ?xs" for h
    using keys grantable_key_neq(4) by (auto simp: token_keys_def)
  have gk: "rd_view R ?s' (grantKeyFor h) = (if h = g then None else rd_view R s (grantKeyFor h))" for h
    using not_list by (auto simp: view_revoke index_key_neq)
  show gone: "rd_view R ?s' (redis_key n i) = None"
    if "n \<in> List.set grantable" "token_grant R n i s = Some g" for n i
    using grant_indexedD2 [OF inv that] by (auto simp: view_revoke as_list_def)
  show "grant_indexed R ?s'"
    unfolding grant_indexed_def
  proof (intro conjI allI impI)
    fix h v el
    assume "rd_view R ?s' (grantKeyFor h) = Some (v, el)"
    then show "\<exists>xs e. v = RList xs \<and> el = Some e \<and> token_keys xs"
      using grant_indexedD1 [OF inv, of h] by (auto simp: gk split: if_splits)
  next
    fix n i h
    assume "n \<in> List.set grantable \<and> token_grant R n i ?s' = Some h"
    then have n: "n \<in> List.set grantable" and h: "token_grant R n i ?s' = Some h" by auto
    from token_grant_live [OF h] have live: "rd_view R ?s' (redis_key n i) \<noteq> None" .
    then have same: "rd_view R ?s' (redis_key n i) = rd_view R s (redis_key n i)"
      by (auto simp: view_revoke)
    with h have th: "token_grant R n i s = Some h" using token_grant_cong by metis
    with gone [OF n] live have "h \<noteq> g" by auto
    with grant_indexedD2 [OF inv n th] show "\<exists>xs e t. rd_view R ?s' (grantKeyFor h) = Some (RList xs, Some e)
        \<and> redis_key n i \<in> List.set xs \<and> expiry_of (rd_view R ?s' (redis_key n i)) = Some t \<and> t \<le> e"
      by (auto simp: gk same)
  qed
qed

lemma indexed_elapse:
  assumes inv: "grant_indexed R s" and el: "elapses R s s'"
  shows "grant_indexed R s'"
proof -
  have v: "rd_view R s' k = (case rd_view R s k of
          Some (v, Some e) \<Rightarrow> if e \<le> rd_now R s' then None else Some (v, Some e) | r \<Rightarrow> r)" for k
    using el by (simp add: elapses_def)
  have same: "rd_view R s' k = Some x \<Longrightarrow> rd_view R s k = Some x" for k x
    by (auto simp: v split: option.splits prod.splits if_splits)
  show ?thesis
    unfolding grant_indexed_def
  proof (intro conjI allI impI)
    fix g w el
    assume "rd_view R s' (grantKeyFor g) = Some (w, el)"
    from same [OF this] show "\<exists>xs e. w = RList xs \<and> el = Some e \<and> token_keys xs"
      using grant_indexedD1 [OF inv] by blast
  next
    fix n i g
    assume "n \<in> List.set grantable \<and> token_grant R n i s' = Some g"
    then have n: "n \<in> List.set grantable" and g: "token_grant R n i s' = Some g" by auto
    from token_grant_live [OF g] obtain x where x: "rd_view R s' (redis_key n i) = Some x" by blast
    from same [OF x] x have eq: "rd_view R s (redis_key n i) = rd_view R s' (redis_key n i)" by simp
    with g have "token_grant R n i s = Some g" using token_grant_cong by metis
    from grant_indexedD2 [OF inv n this] obtain xs e t where
      l: "rd_view R s (grantKeyFor g) = Some (RList xs, Some e)" "redis_key n i \<in> List.set xs"
      and t: "expiry_of (rd_view R s (redis_key n i)) = Some t" "t \<le> e" by blast
    from x t(1) have "rd_now R s' < t"
      using live [of s' "redis_key n i" "fst x" t] by (cases x) (simp add: eq expiry_of_def)
    with l t show "\<exists>xs e t. rd_view R s' (grantKeyFor g) = Some (RList xs, Some e)
        \<and> redis_key n i \<in> List.set xs \<and> expiry_of (rd_view R s' (redis_key n i)) = Some t \<and> t \<le> e"
      by (auto simp: v [of "grantKeyFor g"] eq)
  qed
qed

lemma token_run_indexed: "token_run R s \<Longrightarrow> grant_indexed R s"
proof (induction rule: token_run.induct)
  case (run_start s)
  then show ?case
    by (simp add: grant_indexed_def token_grant_def token_payload_view as_hash_def as_str_def)
next
  case (run_upsert s n t ms i p)
  then show ?case by (blast intro: indexed_upsert)
next
  case (run_consume s n ms i)
  then show ?case by (blast intro: indexed_consume)
next
  case (run_destroy s n i s')
  then show ?case by (blast intro: indexed_destroy)
next
  case (run_revoke s g)
  then show ?case by (blast intro: indexed_revoke)
next
  case (run_elapse s s')
  then show ?case by (blast intro: indexed_elapse)
qed

lemma find_gone:
  "rd_view R s (redis_key n i) = None \<Longrightarrow> adapter_find R n i s = Inr None"
  by (simp add: adapter_find_def hgetall get as_hash_def as_str_def)

end

subsection \<open>Properties\<close>

text \<open>
  C9: Revoking a grant reaches every token issued under it. In every state the token operations
  can reach, with any amount of time passing between them, each live token of a grant is on
  that grant's list, so after \<^verbatim>\<open>revokeByGrantId\<close> none of them is found, consumed or not; the
  list can expire only after the tokens on it. (The server behaves as documented, and tokens
  are stored with a positive lifetime.)
\<close>

theorem revoke_reaches_every_token:
  assumes "redis_server R" and "token_run R s" and "n \<in> set grantable"
    and "token_grant R n i s = Some g"
  shows "adapter_find R n i (adapter_revokeByGrantId R g s) = Inr None
    \<and> redis_key n i \<in> set (rd_lrange R (grantKeyFor g) s)"
proof -
  note laws = assms(1)
  note inv = redis_server.token_run_indexed [OF laws assms(2)]
  from redis_server.grant_indexedD2 [OF laws inv assms(3,4)]
  have "redis_key n i \<in> set (rd_lrange R (grantKeyFor g) s)"
    by (auto simp: redis_server.lrange [OF laws] as_list_def)
  with redis_server.find_gone [OF laws redis_server.indexed_revoke(2) [OF laws inv assms(3,4)]]
  show ?thesis by simp
qed

text \<open>A token issued, used and revoked on the in-memory server.\<close>

definition demo_token :: json where
  "demo_token = JObj [(''accountId'', JStr ''ann''), (''grantId'', JStr ''g1'')]"

definition demo_store :: mem where
  "demo_store = adapter_consume mem_redis 5000 ''RefreshToken'' ''t1''
     (adapter_upsert mem_redis 0 ''RefreshToken'' ''t1'' demo_token (Some 60) mem_empty)"

lemma demo_store_run: "token_run mem_redis demo_store"
  unfolding demo_store_def
  by (intro run_consume run_upsert run_start)
    (simp_all add: mem_redis_def mem_view_def mem_empty_def grantable_def consumable_def)

theorem revoke_reaches_every_token_witness:
  "token_grant mem_redis ''RefreshToken'' ''t1'' demo_store = Some ''g1''
   \<and> adapter_find mem_redis ''RefreshToken'' ''t1'' (adapter_revokeByGrantId mem_redis ''g1'' demo_store) = Inr None"
proof -
  have g: "token_grant mem_redis ''RefreshToken'' ''t1'' demo_store = Some ''g1''"
    by code_simp
  have n: "''RefreshToken'' \<in> set grantable" by (simp add: grantable_def)
  from revoke_reaches_every_token [OF mem_server.redis_server_axioms demo_store_run n g] g
  show ?thesis by blast
qed

text \<open>Marking a token consumed after it is gone leaves a hash without a payload and without an
  expiry, which a later lookup of the same id cannot parse.\<close>

lemma consume_of_missing_poisons:
  "adapter_find mem_redis ''RefreshToken'' ''t1'' (adapter_consume mem_redis 5000 ''RefreshToken'' ''t1'' mem_empty)
     = Inl ParseError
   \<and> expiry_of (rd_view mem_redis (adapter_consume mem_redis 5000 ''RefreshToken'' ''t1'' mem_empty)
        (redis_key ''RefreshToken'' ''t1'')) = None"
  by code_simp

end
