(* ===== verification/Deployment.thy ===== *)
theory Deployment
  imports JS_Prelude
begin

text \<open>
  What a running Passmower is configured with: \<open>process.env\<close> and the functions it takes
  from packages and from the platform, gathered in one record that the definitions of the
  other theories take as an argument. Nothing here is assumed about the functions; a lemma
  that needs a documented fact about one of them names it as a hypothesis.

  Below the record, the small pure readers of the environment:
  \<^verbatim>\<open>src/utils/user/identity-integrity.js\<close> (canonicalizeEmail),
  \<^verbatim>\<open>src/utils/email-configuration.js\<close>, \<^verbatim>\<open>src/utils/username-source.js\<close>,
  \<^verbatim>\<open>src/utils/group-configuration.js\<close>, and the provider registry
  \<^verbatim>\<open>src/utils/oidc-providers.js\<close>.
\<close>

subsection \<open>Configuration and third-party functions\<close>

text \<open>The parts of a parsed URL that the sources read.\<close>

record url =
  u_protocol :: string
  u_hostname :: string
  u_host :: string
  u_pathname :: string
  u_origin :: string
  u_href :: string
  u_username :: string
  u_search :: string
  u_hash :: string

text \<open>One entry of the \<open>OIDC_PROVIDERS\<close> object, as \<open>JSON.parse\<close> returns it. A list member
  that is not a string is \<open>None\<close>; \<open>pd_order\<close> is present when it is a finite number.\<close>

record provider_def =
  pd_key :: string
  pd_issuer :: "string option"
  pd_order :: "int option"
  pd_displayName :: "string option"
  pd_enabled :: "bool option"
  pd_scopes :: "string list option"
  pd_groupsClaim :: "string option"
  pd_linkingClaims :: "string option list option"
  pd_emailVerification :: "string option"
  pd_groupPrefix :: "string option"
  pd_tokenEndpointAuthMethod :: "string option"
  pd_icon :: "string option"

text \<open>\<open>parse_providers\<close> reads the text of \<open>OIDC_PROVIDERS\<close>: \<open>None\<close> when \<open>JSON.parse\<close>
  throws or gives something other than a plain object, otherwise the object's entries, a
  value that is not a plain object being \<open>None\<close>.\<close>

text \<open>\<open>sort_order\<close> is the order the engine's \<open>Array.prototype.sort\<close> leaves an array in when
  the comparator looks at its first argument only, as \<open>#mapGroups\<close> does: ECMAScript leaves
  that to the implementation. It gives, for the flags the comparator reads, the positions of
  the result; the only documented fact is that they are a permutation.\<close>

record deployment =
  penv :: env
  normalize_email :: "string \<Rightarrow> string option"
  locale_compare :: "string \<Rightarrow> string \<Rightarrow> int"
  parse_url :: "string \<Rightarrow> url option"
  parse_providers :: "string \<Rightarrow> (string \<times> provider_def option) list option"
  sort_order :: "bool list \<Rightarrow> nat list"

definition sort_permutes :: "deployment \<Rightarrow> bool" where
  "sort_permutes D = (\<forall>fs. mset (sort_order D fs) = mset [0..<length fs])"

definition env_is :: "deployment \<Rightarrow> string \<Rightarrow> string \<Rightarrow> bool" where
  "env_is D name v = (penv D name = Some v)"

subsection \<open>Email addresses\<close>

text \<open>\<open>canonicalizeEmail\<close>. The argument is \<open>None\<close> when the value is not a string.
  \<open>normalizeEmail\<close> returns \<open>false\<close> (\<open>None\<close>) or a string, and \<open>|| undefined\<close> also drops
  the empty one.\<close>

definition canonicalizeEmail :: "deployment \<Rightarrow> string option \<Rightarrow> string option" where
  "canonicalizeEmail D email = (case email of
     None \<Rightarrow> None
   | Some e \<Rightarrow>
       (let trimmed = to_lower (trim e) in
        if trimmed = [] then None
        else if env_is D ''NORMALIZE_EMAIL_ADDRESSES'' ''true''
        then (let n = normalize_email D trimmed in if truthy n then n else None)
        else Some trimmed))"

lemma canonicalizeEmail_None [simp]: "canonicalizeEmail D None = None"
  by (simp add: canonicalizeEmail_def)

lemma canonicalizeEmail_nonempty: "canonicalizeEmail D e = Some c \<Longrightarrow> c \<noteq> []"
  by (auto simp: canonicalizeEmail_def Let_def split: option.splits if_splits)

lemma canonicalizeEmail_empty [simp]: "canonicalizeEmail D (Some []) = None"
  by (simp add: canonicalizeEmail_def trim_def to_lower_def)

text \<open>Canonical addresses are fixed points, as long as \<open>normalizeEmail\<close>'s results are ones of
  its own when the deployment uses it.\<close>

definition canonical_stable :: "deployment \<Rightarrow> bool" where
  "canonical_stable D = (\<forall>e c. canonicalizeEmail D e = Some c \<longrightarrow> canonicalizeEmail D (Some c) = Some c)"

lemma canonical_stableD: "canonical_stable D \<Longrightarrow> canonicalizeEmail D e = Some c \<Longrightarrow> canonicalizeEmail D (Some c) = Some c"
  by (auto simp: canonical_stable_def)

lemma canonical_stable_plain:
  assumes "\<not> env_is D ''NORMALIZE_EMAIL_ADDRESSES'' ''true''"
  shows "canonical_stable D"
  unfolding canonical_stable_def
proof (intro allI impI)
  fix e c
  assume "canonicalizeEmail D e = Some c"
  with assms obtain s where "c = to_lower (trim s)" "c \<noteq> []"
    by (auto simp: canonicalizeEmail_def Let_def split: option.splits if_splits)
  with assms show "canonicalizeEmail D (Some c) = Some c"
    by (simp add: canonicalizeEmail_def Let_def trim_to_lower)
qed

text \<open>\<open>isOutboundEmailEnabled\<close> and \<open>validateEmailConfiguration\<close>.\<close>

definition isOutboundEmailEnabled :: "deployment \<Rightarrow> bool" where
  "isOutboundEmailEnabled D =
     (coalesce (penv D ''OUTBOUND_EMAIL_ENABLED'') (penv D ''EMAIL_ENABLED'') \<noteq> Some ''false'')"

datatype email_config_error =
    MissingEmailConfiguration "string list"
  | UnpairedCredentials
  | MissingSender

definition requiredEmailEnvironment :: "string list" where
  "requiredEmailEnvironment = [''EMAIL_HOST'', ''EMAIL_PORT'', ''EMAIL_SSL'']"

definition validateEmailConfiguration :: "deployment \<Rightarrow> email_config_error + unit" where
  "validateEmailConfiguration D =
     (if \<not> isOutboundEmailEnabled D then Inr ()
      else let missing = filter (\<lambda>key. \<not> truthy (penv D key)) requiredEmailEnvironment in
        if missing \<noteq> [] then Inl (MissingEmailConfiguration missing)
        else if truthy (penv D ''EMAIL_USERNAME'') \<noteq> truthy (penv D ''EMAIL_PASSWORD'')
        then Inl UnpairedCredentials
        else if \<not> truthy (penv D ''EMAIL_USERNAME'') \<and> \<not> truthy (penv D ''EMAIL_FROM'')
        then Inl MissingSender
        else Inr ())"

subsection \<open>How a new user gets a username\<close>

datatype username_source = Generated | Prompt | Upstream

fun username_source_of :: "string \<Rightarrow> username_source option" where
  "username_source_of s =
     (if s = ''generated'' then Some Generated
      else if s = ''prompt'' then Some Prompt
      else if s = ''upstream'' then Some Upstream
      else None)"

text \<open>\<open>getUsernameSource\<close> with its memo cell \<open>resolved\<close>: the cell is returned updated, and
  an invalid explicit value is the error \<open>Inl\<close>, which leaves the cell as it was.\<close>

definition getUsernameSource ::
  "deployment \<Rightarrow> username_source option \<Rightarrow> (string + username_source) \<times> username_source option" where
  "getUsernameSource D resolved = (case resolved of
     Some r \<Rightarrow> (Inr r, resolved)
   | None \<Rightarrow>
       (let explicit = penv D ''USERNAME_SOURCE'' in
        if truthy explicit
        then (case username_source_of (tmpl explicit) of
                None \<Rightarrow> (Inl (tmpl explicit), resolved)
              | Some r \<Rightarrow> (Inr r, Some r))
        else
          (let useGithub = env_is D ''USE_GITHUB_USERNAME'' ''true'';
               requireCustom = env_is D ''REQUIRE_CUSTOM_USERNAME'' ''true'' in
           if useGithub \<or> requireCustom
           then (let r = (if requireCustom \<or> \<not> useGithub then Prompt else Upstream)
                 in (Inr r, Some r))
           else (Inr Generated, Some Generated))))"

text \<open>\<open>validateGroupConfiguration\<close>: the names whose value has no prefix.\<close>

definition validateGroupConfiguration :: "deployment \<Rightarrow> string list" where
  "validateGroupConfiguration D =
     filter (\<lambda>name. truthy (penv D name) \<and> \<not> includes_str '':'' (tmpl (penv D name)))
       [''REQUIRED_GROUP'', ''ADMIN_GROUP'']"

subsection \<open>Upstream OIDC providers\<close>

record oidc_provider =
  op_key :: string
  op_order :: "int option"
  op_displayName :: string
  op_enabled :: bool
  op_issuer :: string
  op_clientId :: "string option"
  op_clientSecret :: "string option"
  op_scopes :: "string list"
  op_groupsClaim :: "string option"
  op_linkingClaims :: "string list"
  op_emailVerification :: string
  op_groupPrefix :: string
  op_tokenEndpointAuthMethod :: string
  op_icon :: "string option"

definition defaultScopes :: "string list" where
  "defaultScopes = [''openid'', ''email'', ''profile'']"

definition upper_char :: "char \<Rightarrow> string" where
  "upper_char c = (let n = of_char c :: nat in
     if 97 \<le> n \<and> n \<le> 122 then [char_of (n - 32)] else if n = 223 then ''SS'' else [c])"

definition upper_alnum :: "char \<Rightarrow> bool" where
  "upper_alnum c = (let n = of_char c :: nat in (65 \<le> n \<and> n \<le> 90) \<or> (48 \<le> n \<and> n \<le> 57))"

fun collapse_runs :: "bool \<Rightarrow> string \<Rightarrow> string" where
  "collapse_runs inrun [] = []"
| "collapse_runs inrun (c # cs) =
     (if upper_alnum c then c # collapse_runs False cs
      else if inrun then collapse_runs True cs else CHR ''_'' # collapse_runs True cs)"

text \<open>\<open>envKey\<close>: upper case, each run of other characters one underscore. (Code units of
  \<open>toUpperCase\<close> outside A to Z fall into such a run whatever they become.)\<close>

definition envKey :: "string \<Rightarrow> string" where
  "envKey key = collapse_runs False (concat (map upper_char key))"

definition defaultEmailVerification :: "deployment \<Rightarrow> string \<Rightarrow> string" where
  "defaultEmailVerification D issuer = (case parse_url D issuer of
     Some u \<Rightarrow> if u_protocol u = ''https:'' \<and> u_hostname u \<in> set [''accounts.google.com'', ''gitlab.com'']
              then ''oidc-claim'' else ''none''
   | None \<Rightarrow> ''none'')"

definition isMultiTenantEntra :: "deployment \<Rightarrow> string \<Rightarrow> bool" where
  "isMultiTenantEntra D issuer = (case parse_url D issuer of
     Some u \<Rightarrow> u_hostname u = ''login.microsoftonline.com''
       \<and> (case split_on CHR ''/'' (u_pathname u) of
            _ # seg # _ \<Rightarrow> to_lower seg \<in> set [''common'', ''organizations'', ''consumers'']
          | _ \<Rightarrow> False)
   | None \<Rightarrow> False)"

definition emailVerification :: "deployment \<Rightarrow> provider_def \<Rightarrow> string \<Rightarrow> string" where
  "emailVerification D d issuer = (case pd_emailVerification d of
     None \<Rightarrow> defaultEmailVerification D issuer
   | Some v \<Rightarrow>
       if v \<notin> set [''trusted'', ''oidc-claim'', ''none''] then defaultEmailVerification D issuer
       else if v = ''trusted'' \<and> isMultiTenantEntra D issuer then ''none''
       else v)"

definition max_safe_integer :: int where
  "max_safe_integer = 9007199254740991"

definition provider_order :: "deployment \<Rightarrow> provider_def \<Rightarrow> provider_def \<Rightarrow> int" where
  "provider_order D a b =
     (let aOrder = (case pd_order a of Some n \<Rightarrow> n | None \<Rightarrow> max_safe_integer);
          bOrder = (case pd_order b of Some n \<Rightarrow> n | None \<Rightarrow> max_safe_integer) in
      if aOrder - bOrder \<noteq> 0 then aOrder - bOrder else locale_compare D (pd_key a) (pd_key b))"

definition parseProviderDefinitions :: "deployment \<Rightarrow> provider_def list" where
  "parseProviderDefinitions D =
     (if \<not> truthy (penv D ''OIDC_PROVIDERS'') then []
      else case parse_providers D (tmpl (penv D ''OIDC_PROVIDERS'')) of
        None \<Rightarrow> []
      | Some entries \<Rightarrow>
          js_sort (provider_order D)
            (somes (map (\<lambda>(key, d). map_option (\<lambda>d. d\<lparr>pd_key := key\<rparr>) d) entries)))"

definition linking_claim_char :: "char \<Rightarrow> bool" where
  "linking_claim_char c = (let n = of_char c :: nat in
     (65 \<le> n \<and> n \<le> 90) \<or> (97 \<le> n \<and> n \<le> 122) \<or> (48 \<le> n \<and> n \<le> 57)
     \<or> c \<in> set ''_.:-'')"

definition buildProvider :: "deployment \<Rightarrow> provider_def \<Rightarrow> oidc_provider option" where
  "buildProvider D d =
     (if pd_key d = [] \<or> \<not> truthy (pd_issuer d) then None
      else
        (let issuer = tmpl (pd_issuer d);
             prefix = envKey (pd_key d);
             clientId = penv D (prefix @ ''_CLIENT_ID'');
             clientSecret = penv D (prefix @ ''_CLIENT_SECRET'');
             enabled = (pd_enabled d \<noteq> Some False \<and> truthy clientId \<and> truthy clientSecret);
             groupPrefix = (if truthy (pd_groupPrefix d) then tmpl (pd_groupPrefix d)
                            else case parse_url D issuer of Some u \<Rightarrow> u_host u | None \<Rightarrow> pd_key d)
         in Some \<lparr>
           op_key = pd_key d,
           op_order = pd_order d,
           op_displayName = (if truthy (pd_displayName d) then tmpl (pd_displayName d) else pd_key d),
           op_enabled = enabled,
           op_issuer = issuer,
           op_clientId = clientId,
           op_clientSecret = clientSecret,
           op_scopes = (case pd_scopes d of Some (s # ss) \<Rightarrow> s # ss | _ \<Rightarrow> defaultScopes),
           op_groupsClaim = (if truthy (pd_groupsClaim d) then pd_groupsClaim d else None),
           op_linkingClaims = (case pd_linkingClaims d of
               Some cs \<Rightarrow> uniq (filter (\<lambda>c. c \<noteq> [] \<and> list_all linking_claim_char c) (somes cs))
             | None \<Rightarrow> []),
           op_emailVerification = emailVerification D d issuer,
           op_groupPrefix = groupPrefix,
           op_tokenEndpointAuthMethod =
             (if pd_tokenEndpointAuthMethod d = Some ''client_secret_basic''
              then ''client_secret_basic'' else ''client_secret_post''),
           op_icon = (if truthy (pd_icon d) then pd_icon d else None) \<rparr>))"

definition getOidcProviders :: "deployment \<Rightarrow> oidc_provider list" where
  "getOidcProviders D = filter op_enabled (somes (map (buildProvider D) (parseProviderDefinitions D)))"

definition getOidcProvider :: "deployment \<Rightarrow> string \<Rightarrow> oidc_provider option" where
  "getOidcProvider D key = find (\<lambda>p. op_key p = key) (getOidcProviders D)"

definition oidcRedirectUri :: "deployment \<Rightarrow> string \<Rightarrow> string" where
  "oidcRedirectUri D key = tmpl (penv D ''ISSUER_URL'') @ ''interaction/callback/'' @ key"

lemma getOidcProvider_SomeD:
  assumes "getOidcProvider D key = Some p"
  obtains d where "d \<in> set (parseProviderDefinitions D)" "buildProvider D d = Some p"
    "op_enabled p" "op_key p = key"
proof -
  from assms have "p \<in> set (getOidcProviders D)" "op_key p = key"
    by (auto simp: getOidcProvider_def dest: find_SomeD)
  then show ?thesis
    by (auto simp: getOidcProviders_def set_somes intro: that)
qed

text \<open>A trusted provider is one the administrator opted in, and never a multi-tenant Entra
  ID endpoint.\<close>

lemma emailVerification_trusted:
  "emailVerification D d issuer = ''trusted'' \<longleftrightarrow>
     pd_emailVerification d = Some ''trusted'' \<and> \<not> isMultiTenantEntra D issuer"
  by (auto simp: emailVerification_def defaultEmailVerification_def split: option.splits if_splits)

lemma buildProvider_fields:
  assumes "buildProvider D d = Some p"
  shows "op_key p = pd_key d" "op_issuer p = tmpl (pd_issuer d)"
    "op_emailVerification p = emailVerification D d (op_issuer p)"
    "op_clientId p = penv D (envKey (op_key p) @ ''_CLIENT_ID'')"
    "op_clientSecret p = penv D (envKey (op_key p) @ ''_CLIENT_SECRET'')"
    "op_enabled p \<Longrightarrow> truthy (op_clientId p) \<and> truthy (op_clientSecret p)"
    "op_scopes p \<noteq> []"
proof -
  from assms have c: "\<not> (pd_key d = [] \<or> \<not> truthy (pd_issuer d))"
    unfolding buildProvider_def by (meson option.distinct(1))
  note eq = assms [unfolded buildProvider_def if_not_P [OF c] Let_def option.inject, symmetric]
  show "op_key p = pd_key d" "op_issuer p = tmpl (pd_issuer d)"
    "op_emailVerification p = emailVerification D d (op_issuer p)"
    "op_clientId p = penv D (envKey (op_key p) @ ''_CLIENT_ID'')"
    "op_clientSecret p = penv D (envKey (op_key p) @ ''_CLIENT_SECRET'')"
    "op_enabled p \<Longrightarrow> truthy (op_clientId p) \<and> truthy (op_clientSecret p)"
    by (simp_all add: eq)
  show "op_scopes p \<noteq> []"
    by (simp add: eq defaultScopes_def split: option.split list.split)
qed

lemma collapse_runs_chars: "c \<in> set (collapse_runs b s) \<Longrightarrow> upper_alnum c \<or> c = CHR ''_''"
  by (induction b s rule: collapse_runs.induct) (auto split: if_splits)

lemma envKey_chars: "c \<in> set (envKey k) \<Longrightarrow> upper_alnum c \<or> c = CHR ''_''"
  by (auto simp: envKey_def dest: collapse_runs_chars)

text \<open>
  Upstream trust is opt-in. A provider that \<^verbatim>\<open>getOidcProvider\<close> returns has both
  credentials, read from the environment under the provider's own key and never from the
  JSON; it vouches for the addresses it asserts (\<open>trusted\<close>) only if its definition says so
  and its issuer is not a multi-tenant Entra ID endpoint.
\<close>

theorem provider_trust_opt_in:
  assumes "getOidcProvider D key = Some p"
  shows "truthy (penv D (envKey key @ ''_CLIENT_ID''))
    \<and> truthy (penv D (envKey key @ ''_CLIENT_SECRET''))
    \<and> (op_emailVerification p = ''trusted'' \<longrightarrow>
         \<not> isMultiTenantEntra D (op_issuer p)
         \<and> (\<exists>d \<in> set (parseProviderDefinitions D).
               pd_key d = key \<and> pd_emailVerification d = Some ''trusted''))"
proof -
  from assms obtain d where d: "d \<in> set (parseProviderDefinitions D)"
    "buildProvider D d = Some p" "op_enabled p" "op_key p = key"
    by (rule getOidcProvider_SomeD)
  note f = buildProvider_fields [OF d(2)]
  from f d(3,4) have "truthy (penv D (envKey key @ ''_CLIENT_ID''))"
    "truthy (penv D (envKey key @ ''_CLIENT_SECRET''))" by metis+
  moreover from f(1,3) d(1,4) have "op_emailVerification p = ''trusted'' \<longrightarrow>
         \<not> isMultiTenantEntra D (op_issuer p)
         \<and> (\<exists>d \<in> set (parseProviderDefinitions D).
               pd_key d = key \<and> pd_emailVerification d = Some ''trusted'')"
    using emailVerification_trusted by metis
  ultimately show ?thesis by blast
qed

subsection \<open>A concrete deployment for the witnesses\<close>

definition demo_env :: env where
  "demo_env = map_of [
     (''ISSUER_URL'', ''https://auth.example.com/''),
     (''GROUP_PREFIX'', ''local''),
     (''ADMIN_GROUP'', ''local:admins''),
     (''REQUIRED_GROUP'', ''local:members''),
     (''OIDC_PROVIDERS'', ''json''),
     (''CORP_CLIENT_ID'', ''id''),
     (''CORP_CLIENT_SECRET'', ''secret'')]"

definition demo_def :: provider_def where
  "demo_def = \<lparr>pd_key = [], pd_issuer = Some ''https://idp.corp.example'', pd_order = None,
     pd_displayName = None, pd_enabled = None, pd_scopes = None, pd_groupsClaim = None,
     pd_linkingClaims = None, pd_emailVerification = Some ''trusted'', pd_groupPrefix = None,
     pd_tokenEndpointAuthMethod = None, pd_icon = None\<rparr>"

definition demo_url :: "string \<Rightarrow> url option" where
  "demo_url s = (if s = ''https://idp.corp.example'' then
     Some \<lparr>u_protocol = ''https:'', u_hostname = ''idp.corp.example'', u_host = ''idp.corp.example'',
       u_pathname = ''/'', u_origin = s, u_href = s @ ''/'', u_username = [], u_search = [],
       u_hash = []\<rparr> else None)"

definition demo :: deployment where
  "demo = \<lparr>penv = demo_env, normalize_email = Some,
     locale_compare = (\<lambda>a b. int (length a) - int (length b)), parse_url = demo_url,
     parse_providers = (\<lambda>s. Some [(''corp'', Some demo_def)]),
     sort_order = (\<lambda>fs. [0..<length fs])\<rparr>"

lemma sort_permutes_demo [simp]: "sort_permutes demo"
  by (simp add: sort_permutes_def demo_def)

lemma demo_env_simps [simp]:
  "penv demo ''ISSUER_URL'' = Some ''https://auth.example.com/''"
  "penv demo ''GROUP_PREFIX'' = Some ''local''"
  "penv demo ''ADMIN_GROUP'' = Some ''local:admins''"
  "penv demo ''REQUIRED_GROUP'' = Some ''local:members''"
  "penv demo ''NORMALIZE_EMAIL_ADDRESSES'' = None"
  by (simp_all add: demo_def demo_env_def)

lemma canonical_stable_demo [simp]: "canonical_stable demo"
  by (rule canonical_stable_plain) (simp add: env_is_def)

lemma demo_provider: "getOidcProvider demo ''corp'' \<noteq> None"
  by code_simp

theorem provider_trust_opt_in_witness:
  "\<exists>p. getOidcProvider demo ''corp'' = Some p \<and> truthy (penv demo (envKey ''corp'' @ ''_CLIENT_ID''))"
proof -
  from demo_provider obtain p where p: "getOidcProvider demo ''corp'' = Some p" by blast
  with provider_trust_opt_in [OF p] show ?thesis by blast
qed

end
