(* ===== verification/Accounts.thy ===== *)
theory Accounts
  imports Deployment
begin

text \<open>
  The account model, \<^verbatim>\<open>src/models/account.js\<close>: the OIDCUser custom resource as the
  model reads it (\<open>fromKubernetes\<close>), the status it computes (\<open>getIntendedStatus\<close>), the
  email evidence it collects, and its small state-changing operations. A method that mutates
  the account returns the updated record.
\<close>

subsection \<open>The resource and the model\<close>

record group =
  g_prefix :: "string option"
  g_name :: string

record email_item =
  em_email :: "string option"
  em_primary :: bool
  em_verified :: "bool option"
  em_trusted :: bool
  em_observedAt :: "string option"

text \<open>\<open>identities.<provider>\<close>: \<open>id_active\<close> is the optional \<open>active\<close> flag.\<close>

record identity =
  id_sub :: "string option"
  id_active :: "bool option"
  id_name :: "string option"
  id_company :: "string option"
  id_emails :: "email_item list"
  id_groups :: "group list"
  id_linkClaims :: "(string \<times> string) list"

record user_spec =
  us_email :: "string option"
  us_companyEmail :: "string option"
  us_name :: "string option"
  us_company :: "string option"
  us_phones :: "string option"
  us_type :: "string option"
  us_groups :: "group list"

record passmower_section =
  pm_email :: "string option"
  pm_name :: "string option"
  pm_company :: "string option"
  pm_groups :: "group list"
  pm_approved :: "bool option"
  pm_onboardedBy :: "string option"

record github_section =
  gh_id :: "string option"
  gh_login :: "string option"
  gh_name :: "string option"
  gh_company :: "string option"
  gh_emails :: "email_item list"
  gh_groups :: "group list"

record credential =
  cr_id :: string
  cr_publicKey :: string
  cr_counter :: int
  cr_name :: string

record condition =
  c_type :: string
  c_status :: string
  c_reason :: "string option"
  c_message :: "string option"
  c_lastTransitionTime :: "string option"

text \<open>A Terms of Service acceptance; the hash is \<open>null\<close> for a legacy acceptance.\<close>

record acceptance =
  t_acceptedAt :: "string option"
  t_contentHash :: "string option"

record email_verification =
  v_email :: "string option"
  v_status :: string
  v_method :: string
  v_provider :: "string option"
  v_observedAt :: "string option"
  v_verifiedAt :: "string option"

record user_profile =
  pr_name :: "string option"
  pr_company :: "string option"
  pr_phones :: "string option"

record application =
  ap_clientId :: string
  ap_clientNamespace :: string
  ap_clientName :: string
  ap_clientKind :: string
  ap_lastAuthenticatedAt :: instant

record user_status =
  st_primaryEmail :: "string option"
  st_emails :: "string list"
  st_groups :: "group list"
  st_profile :: user_profile
  st_slackId :: "string option"
  st_passkeyCount :: nat
  st_conditions :: "condition list"
  st_termsOfService :: "acceptance option"
  st_recentApplications :: "application list"
  st_emailVerifications :: "email_verification list"

record metadata =
  m_name :: string
  m_namespace :: string
  m_uid :: string
  m_resourceVersion :: nat
  m_creationTimestamp :: "instant option"
  m_generation :: "nat option"
  m_labels :: "(string \<times> string) list"
  m_lastManager :: "string option"

record user_resource =
  r_metadata :: metadata
  r_spec :: "user_spec option"
  r_passmower :: "passmower_section option"
  r_slack :: "string option option"
  r_github :: "github_section option"
  r_identities :: "(string \<times> identity) list option"
  r_webauthn :: "credential list option"
  r_status :: "user_status option"

record account =
  accountId :: string
  a_spec :: "user_spec option"
  a_passmower :: "passmower_section option"
  a_slack :: "string option option"
  a_github :: "github_section option"
  a_identities :: "(string \<times> identity) list option"
  a_webauthn :: "credential list option"
  a_resourceVersion :: nat
  primaryEmail :: "string option"
  emails :: "string list"
  groups :: "group list"
  profile :: user_profile
  slackId :: "string option"
  a_conditions :: "condition list"
  a_termsOfService :: "acceptance option"
  a_emailVerifications :: "email_verification list"
  a_recentApplications :: "application list"
  a_labels :: "(string \<times> string) list"
  a_metadata :: metadata
  isAdmin :: bool

subsection \<open>Groups\<close>

definition display_name :: "group \<Rightarrow> string" where
  "display_name g = tmpl (g_prefix g) @ '':'' @ g_name g"

record mapped_group =
  mg_name :: string
  mg_prefix :: "string option"
  mg_displayName :: string
  mg_editable :: bool

definition map_group :: "deployment \<Rightarrow> group \<Rightarrow> mapped_group" where
  "map_group D g = \<lparr>mg_name = g_name g, mg_prefix = g_prefix g, mg_displayName = display_name g,
     mg_editable = (g_prefix g = penv D ''GROUP_PREFIX'' \<and> \<not> env_is D ''DISABLE_FRONTEND_EDIT'' ''true'')\<rparr>"

definition mapGroups :: "deployment \<Rightarrow> group list \<Rightarrow> mapped_group list" where
  "mapGroups D gs = (let ms = map (map_group D) gs in
     map (\<lambda>i. ms ! i) (sort_order D (map mg_editable ms)))"

definition has_display_name :: "string option \<Rightarrow> mapped_group list \<Rightarrow> bool" where
  "has_display_name name ms = (find (\<lambda>g. Some (mg_displayName g) = name) ms \<noteq> None)"

lemma mset_mapGroups:
  assumes "sort_permutes D"
  shows "mset (mapGroups D gs) = mset (map (map_group D) gs)"
proof -
  let ?ms = "map (map_group D) gs"
  have "mset (sort_order D (map mg_editable ?ms)) = mset [0..<length ?ms]"
    using assms by (simp add: sort_permutes_def)
  then have "mset (map (\<lambda>i. ?ms ! i) (sort_order D (map mg_editable ?ms)))
      = mset (map (\<lambda>i. ?ms ! i) [0..<length ?ms])"
    by (metis mset_map)
  then show ?thesis
    unfolding mapGroups_def Let_def by (simp only: map_nth)
qed

lemma set_mapGroups [simp]: "sort_permutes D \<Longrightarrow> set (mapGroups D gs) = map_group D ` set gs"
  by (metis image_set mset_mapGroups set_mset_mset)

lemma has_display_name_mapGroups:
  "sort_permutes D \<Longrightarrow>
   has_display_name name (mapGroups D gs) \<longleftrightarrow> (\<exists>g \<in> set gs. name = Some (display_name g))"
  unfolding has_display_name_def by (auto simp: find_None_iff map_group_def)

subsection \<open>Reading the resource\<close>

definition empty_profile :: user_profile where
  "empty_profile = \<lparr>pr_name = None, pr_company = None, pr_phones = None\<rparr>"

definition fromKubernetes :: "deployment \<Rightarrow> user_resource \<Rightarrow> account" where
  "fromKubernetes D r =
     (let st = r_status r;
          gs = (case st of Some s \<Rightarrow> st_groups s | None \<Rightarrow> []) in
      \<lparr>accountId = m_name (r_metadata r),
       a_spec = r_spec r,
       a_passmower = r_passmower r,
       a_slack = r_slack r,
       a_github = r_github r,
       a_identities = r_identities r,
       a_webauthn = r_webauthn r,
       a_resourceVersion = m_resourceVersion (r_metadata r),
       primaryEmail = Option.bind st st_primaryEmail,
       emails = (case st of Some s \<Rightarrow> st_emails s | None \<Rightarrow> []),
       groups = gs,
       profile = (case st of Some s \<Rightarrow> st_profile s | None \<Rightarrow> empty_profile),
       slackId = Option.bind st st_slackId,
       a_conditions = (case st of Some s \<Rightarrow> st_conditions s | None \<Rightarrow> []),
       a_termsOfService = Option.bind st st_termsOfService,
       a_emailVerifications = (case st of Some s \<Rightarrow> st_emailVerifications s | None \<Rightarrow> []),
       a_recentApplications = (case st of Some s \<Rightarrow> st_recentApplications s | None \<Rightarrow> []),
       a_labels = m_labels (r_metadata r),
       a_metadata = r_metadata r,
       isAdmin = has_display_name (penv D ''ADMIN_GROUP'') (mapGroups D gs)\<rparr>)"

definition account_type :: "account \<Rightarrow> string option" where
  "account_type a = Option.bind (a_spec a) us_type"

subsection \<open>Identities and claimed emails\<close>

definition identity_entries :: "account \<Rightarrow> (string \<times> identity) list" where
  "identity_entries a = (case a_identities a of Some es \<Rightarrow> es | None \<Rightarrow> [])"

definition identity_values :: "account \<Rightarrow> identity list" where
  "identity_values a = map snd (identity_entries a)"

definition identity_is_active :: "identity \<Rightarrow> bool" where
  "identity_is_active i = (id_active i \<noteq> Some False)"

definition github_emails :: "account \<Rightarrow> email_item list" where
  "github_emails a = (case a_github a of Some g \<Rightarrow> gh_emails g | None \<Rightarrow> [])"

definition raw_emails :: "account \<Rightarrow> string option list" where
  "raw_emails a =
     [Option.bind (a_spec a) us_email, Option.bind (a_spec a) us_companyEmail,
      Option.bind (a_passmower a) pm_email]
     @ map em_email (github_emails a)
     @ concat (map (\<lambda>i. map em_email (id_emails i)) (identity_values a))"

definition getClaimedEmails :: "deployment \<Rightarrow> account \<Rightarrow> string list" where
  "getClaimedEmails D a = uniq (somes (map (canonicalizeEmail D) (raw_emails a)))"

lemma set_getClaimedEmails:
  "e \<in> set (getClaimedEmails D a) \<longleftrightarrow> (\<exists>r \<in> set (raw_emails a). canonicalizeEmail D r = Some e)"
  by (auto simp: getClaimedEmails_def set_somes image_iff eq_commute)

lemma distinct_getClaimedEmails [simp]: "distinct (getClaimedEmails D a)"
  by (simp add: getClaimedEmails_def)

subsection \<open>Terms of Service\<close>

record tos_document =
  d_text :: string
  d_contentHash :: string

definition getTermsOfServiceAcceptance :: "account \<Rightarrow> acceptance option" where
  "getTermsOfServiceAcceptance a = (case a_termsOfService a of
     Some t \<Rightarrow> Some t
   | None \<Rightarrow>
       (case find (\<lambda>c. c_type c = ''ToSv1'' \<and> c_status c = ''True'') (a_conditions a) of
          Some legacy \<Rightarrow> Some \<lparr>t_acceptedAt = c_lastTransitionTime legacy, t_contentHash = None\<rparr>
        | None \<Rightarrow> None))"

definition getIntendedTermsOfServiceAcceptance ::
  "account \<Rightarrow> tos_document option \<Rightarrow> acceptance option" where
  "getIntendedTermsOfServiceAcceptance a doc = (case getTermsOfServiceAcceptance a of
     None \<Rightarrow> None
   | Some t \<Rightarrow>
       if t_contentHash t \<noteq> None then Some t
       else (case doc of
               Some d \<Rightarrow> Some (t\<lparr>t_contentHash := Some (d_contentHash d)\<rparr>)
             | None \<Rightarrow> Some t))"

definition drop_tosv1 :: "condition list \<Rightarrow> condition list" where
  "drop_tosv1 cs = filter (\<lambda>c. c_type c \<noteq> ''ToSv1'') cs"

definition acceptTermsOfService :: "string \<Rightarrow> string \<Rightarrow> account \<Rightarrow> account" where
  "acceptTermsOfService contentHash acceptedAt a =
     a\<lparr>a_termsOfService := Some \<lparr>t_acceptedAt = Some acceptedAt, t_contentHash = Some contentHash\<rparr>,
       a_conditions := drop_tosv1 (a_conditions a)\<rparr>"

subsection \<open>Email verification evidence\<close>

definition status_of_verified :: "bool option \<Rightarrow> string" where
  "status_of_verified v = (case v of Some True \<Rightarrow> ''verified'' | Some False \<Rightarrow> ''unverified'' | None \<Rightarrow> ''unknown'')"

definition observed :: "string option \<Rightarrow> string option" where
  "observed t = (if truthy t then t else None)"

text \<open>Evidence kept from earlier magic links.\<close>

definition magic_link_evidence :: "deployment \<Rightarrow> account \<Rightarrow> email_verification list" where
  "magic_link_evidence D a =
     map (\<lambda>v. v\<lparr>v_email := canonicalizeEmail D (v_email v)\<rparr>)
       (filter (\<lambda>v. v_method v = ''magic-link'') (a_emailVerifications a))"

definition github_evidence :: "deployment \<Rightarrow> account \<Rightarrow> email_verification list" where
  "github_evidence D a = somes (map (\<lambda>item.
     (case canonicalizeEmail D (em_email item) of
        None \<Rightarrow> None
      | Some email \<Rightarrow> Some \<lparr>v_email = Some email, v_status = status_of_verified (em_verified item),
          v_method = ''github-api'', v_provider = Some ''github'',
          v_observedAt = observed (em_observedAt item), v_verifiedAt = None\<rparr>)) (github_emails a))"

text \<open>Operator trust holds only while the provider is still trusted.\<close>

definition effective_verified :: "deployment \<Rightarrow> string \<Rightarrow> email_item \<Rightarrow> bool option" where
  "effective_verified D provider item =
     (if em_trusted item
         \<and> map_option op_emailVerification (getOidcProvider D provider) \<noteq> Some ''trusted''
      then None else em_verified item)"

definition identity_item_evidence ::
  "deployment \<Rightarrow> string \<Rightarrow> email_item \<Rightarrow> email_verification option" where
  "identity_item_evidence D provider item =
     (case canonicalizeEmail D (em_email item) of
        None \<Rightarrow> None
      | Some email \<Rightarrow> Some \<lparr>v_email = Some email,
          v_status = status_of_verified (effective_verified D provider item),
          v_method = (if em_trusted item then ''operator-trust'' else ''oidc-claim''),
          v_provider = Some provider,
          v_observedAt = observed (em_observedAt item), v_verifiedAt = None\<rparr>)"

definition identity_evidence :: "deployment \<Rightarrow> account \<Rightarrow> email_verification list" where
  "identity_evidence D a = concat (map (\<lambda>(provider, i).
     if \<not> identity_is_active i then []
     else somes (map (identity_item_evidence D provider) (id_emails i))) (identity_entries a))"

definition evidence_key :: "email_verification \<Rightarrow> string" where
  "evidence_key v = tmpl (v_email v) @ [CHR 0x00] @ v_method v @ [CHR 0x00] @ tmpl (v_provider v)"

definition getEmailVerifications :: "deployment \<Rightarrow> account \<Rightarrow> email_verification list" where
  "getEmailVerifications D a =
     last_by evidence_key (magic_link_evidence D a @ github_evidence D a @ identity_evidence D a)"

definition verified_for :: "string \<Rightarrow> email_verification list \<Rightarrow> bool" where
  "verified_for email vs = (\<exists>v \<in> set vs. v_email v = Some email \<and> v_status v = ''verified'')"

definition isEmailLinkable :: "deployment \<Rightarrow> account \<Rightarrow> string option \<Rightarrow> bool" where
  "isEmailLinkable D a email = (case canonicalizeEmail D email of
     None \<Rightarrow> False
   | Some e \<Rightarrow>
       if e \<notin> set (getClaimedEmails D a) then False
       else if verified_for e (getEmailVerifications D a) then True
       else if Some e \<in> set (map (canonicalizeEmail D)
                 [Option.bind (a_spec a) us_email, Option.bind (a_spec a) us_companyEmail]) then True
       else \<not> (\<exists>i \<in> set (identity_values a). \<exists>item \<in> set (id_emails i).
                 canonicalizeEmail D (em_email item) = Some e))"

definition isPrimaryEmailVerified :: "deployment \<Rightarrow> account \<Rightarrow> bool" where
  "isPrimaryEmailVerified D a = (case canonicalizeEmail D (primaryEmail a) of
     None \<Rightarrow> False
   | Some e \<Rightarrow> verified_for e (getEmailVerifications D a))"

text \<open>\<open>verifyEmail\<close>, the method, provider and time given (the defaults are
  \<open>magic-link\<close>, \<open>passmower\<close> and the current time).\<close>

definition verifyEmail ::
  "deployment \<Rightarrow> string option \<Rightarrow> string \<Rightarrow> string \<Rightarrow> string \<Rightarrow> account \<Rightarrow> account" where
  "verifyEmail D email method provider verifiedAt a = (case canonicalizeEmail D email of
     None \<Rightarrow> a
   | Some e \<Rightarrow>
       if e \<notin> set (getClaimedEmails D a) then a
       else a\<lparr>a_emailVerifications :=
          filter (\<lambda>item. \<not> (canonicalizeEmail D (v_email item) = Some e
              \<and> v_method item = method \<and> v_provider item = Some provider)) (a_emailVerifications a)
          @ [\<lparr>v_email = Some e, v_status = ''verified'', v_method = method,
              v_provider = Some provider, v_observedAt = None, v_verifiedAt = Some verifiedAt\<rparr>]\<rparr>)"

subsection \<open>The status the operator writes\<close>

definition identity_emails :: "account \<Rightarrow> email_item list" where
  "identity_emails a = concat (map id_emails (identity_values a))"

definition status_emails :: "deployment \<Rightarrow> account \<Rightarrow> string list" where
  "status_emails D a = uniq (somes (map (canonicalizeEmail D)
     ([Option.bind (a_spec a) us_email, Option.bind (a_spec a) us_companyEmail,
       Option.bind (a_passmower a) pm_email]
      @ map em_email (github_emails a) @ map em_email (identity_emails a))))"

definition fallback_email :: "account \<Rightarrow> string option" where
  "fallback_email a =
     js_or (Option.bind (a_spec a) us_email)
    (js_or (Option.bind (a_spec a) us_companyEmail)
    (js_or (Option.bind (a_passmower a) pm_email)
    (js_or (Option.bind (find em_primary (github_emails a)) em_email)
    (js_or (Option.bind (find (\<lambda>e. truthy (em_email e)) (github_emails a)) em_email)
    (js_or (Option.bind (find em_primary (identity_emails a)) em_email)
           (Option.bind (find (\<lambda>e. truthy (em_email e)) (identity_emails a)) em_email))))))"

definition email_domain :: "string \<Rightarrow> string option" where
  "email_domain e = (case split_on CHR ''@'' e of _ # d # _ \<Rightarrow> Some d | _ \<Rightarrow> None)"

definition status_primary :: "deployment \<Rightarrow> account \<Rightarrow> string option" where
  "status_primary D a =
     (let preferredDomain = penv D ''PREFERRED_EMAIL_DOMAIN'';
          preferred = (if truthy preferredDomain
            then find (\<lambda>e. email_domain e = Some (to_lower (tmpl preferredDomain))) (status_emails D a)
            else None) in
      case preferred of
        Some e \<Rightarrow> Some e
      | None \<Rightarrow> canonicalizeEmail D (fallback_email a))"

definition group_sources :: "account \<Rightarrow> group list" where
  "group_sources a =
     (case a_spec a of Some s \<Rightarrow> us_groups s | None \<Rightarrow> [])
     @ (case a_passmower a of Some p \<Rightarrow> pm_groups p | None \<Rightarrow> [])
     @ (case a_github a of Some g \<Rightarrow> gh_groups g | None \<Rightarrow> [])
     @ concat (map id_groups (filter identity_is_active (identity_values a)))"

definition first_named :: "(identity \<Rightarrow> string option) \<Rightarrow> account \<Rightarrow> string option" where
  "first_named f a = Option.bind (find (\<lambda>i. truthy (f i)) (identity_values a)) f"

definition getIntendedStatus :: "deployment \<Rightarrow> tos_document option \<Rightarrow> account \<Rightarrow> user_status" where
  "getIntendedStatus D termsOfService a = \<lparr>
     st_primaryEmail = status_primary D a,
     st_emails = status_emails D a,
     st_groups = last_by display_name (group_sources a),
     st_profile = \<lparr>
       pr_name = coalesce (Option.bind (a_spec a) us_name)
         (coalesce (Option.bind (a_passmower a) pm_name)
         (coalesce (Option.bind (a_github a) gh_name) (first_named id_name a))),
       pr_company = coalesce (Option.bind (a_spec a) us_company)
         (coalesce (Option.bind (a_passmower a) pm_company)
         (coalesce (Option.bind (a_github a) gh_company) (first_named id_company a))),
       pr_phones = Option.bind (a_spec a) us_phones\<rparr>,
     st_slackId = Option.bind (a_slack a) (\<lambda>x. x),
     st_passkeyCount = (case a_webauthn a of Some cs \<Rightarrow> length cs | None \<Rightarrow> 0),
     st_conditions = drop_tosv1 (a_conditions a),
     st_termsOfService = getIntendedTermsOfServiceAcceptance a termsOfService,
     st_recentApplications = a_recentApplications a,
     st_emailVerifications = getEmailVerifications D a\<rparr>"

subsection \<open>Approval, local groups, conditions\<close>

definition empty_passmower :: passmower_section where
  "empty_passmower = \<lparr>pm_email = None, pm_name = None, pm_company = None, pm_groups = [],
     pm_approved = None, pm_onboardedBy = None\<rparr>"

definition passmower_or_empty :: "account \<Rightarrow> passmower_section" where
  "passmower_or_empty a = (case a_passmower a of Some p \<Rightarrow> p | None \<Rightarrow> empty_passmower)"

definition setApproved :: "account \<Rightarrow> account" where
  "setApproved a = a\<lparr>a_passmower := Some ((passmower_or_empty a)\<lparr>pm_approved := Some True\<rparr>)\<rparr>"

definition isApproved :: "account \<Rightarrow> bool" where
  "isApproved a = (Option.bind (a_passmower a) pm_approved = Some True)"

definition pushCustomGroup :: "deployment \<Rightarrow> string \<Rightarrow> account \<Rightarrow> account" where
  "pushCustomGroup D name a =
     (let p = passmower_or_empty a in
      a\<lparr>a_passmower := Some (p\<lparr>pm_groups :=
          pm_groups p @ [\<lparr>g_prefix = penv D ''GROUP_PREFIX'', g_name = name\<rparr>]\<rparr>)\<rparr>)"

definition setRecentApplications :: "application list \<Rightarrow> account \<Rightarrow> account" where
  "setRecentApplications apps a = a\<lparr>a_recentApplications := apps\<rparr>"

definition setConditions :: "condition list \<Rightarrow> account \<Rightarrow> account" where
  "setConditions cs a = a\<lparr>a_conditions := cs\<rparr>"

definition setLabels :: "(string \<times> string) list \<Rightarrow> account \<Rightarrow> account" where
  "setLabels ls a = a\<lparr>a_labels := ls\<rparr>"

definition getIdentity :: "string \<Rightarrow> account \<Rightarrow> identity option" where
  "getIdentity providerKey a = map_of (identity_entries a) providerKey"

definition getGithubId :: "account \<Rightarrow> string option" where
  "getGithubId a = Option.bind (a_github a) gh_id"

subsection \<open>Header-based sign-on\<close>

text \<open>\<open>getRemoteHeaders\<close>: the mapping is an object from field names to header names. A header
  is emitted when it is named (non-empty) and its value is present; a later entry for the
  same header replaces an earlier one, as \<open>Object.fromEntries\<close> does.\<close>

definition getRemoteHeaders :: "deployment \<Rightarrow> (string \<times> string) list \<Rightarrow> account \<Rightarrow> (string \<times> string) list" where
  "getRemoteHeaders D headerMapping a =
     (let field = (\<lambda>name. map_of headerMapping name);
          entries =
            [(field ''user'', Some (accountId a)),
             (field ''name'', pr_name (profile a)),
             (field ''email'', primaryEmail a),
             (field ''emailVerified'',
                if truthy (primaryEmail a)
                then Some (if isPrimaryEmailVerified D a then ''true'' else ''false'') else None),
             (field ''groups'',
                Some (join_with '','' (map mg_displayName (mapGroups D (groups a)))))] in
      foldl (\<lambda>m e. case e of (Some h, Some v) \<Rightarrow> if h = [] then m else AList.update h v m | _ \<Rightarrow> m)
        [] entries)"

subsection \<open>What the lemmas about evidence share\<close>

lemma getEmailVerifications_subset:
  "set (getEmailVerifications D a) \<subseteq>
     set (magic_link_evidence D a) \<union> set (github_evidence D a) \<union> set (identity_evidence D a)"
  using last_by_subset [of evidence_key "magic_link_evidence D a @ github_evidence D a @ identity_evidence D a"]
  by (auto simp: getEmailVerifications_def)

lemma status_of_verified_simps [simp]:
  "status_of_verified v = ''verified'' \<longleftrightarrow> v = Some True"
  by (auto simp: status_of_verified_def split: option.splits bool.splits)

lemma status_emails_eq [simp]: "status_emails D a = getClaimedEmails D a"
  by (simp add: status_emails_def getClaimedEmails_def raw_emails_def identity_emails_def
      map_concat comp_def)

text \<open>Where a verified status in the evidence can come from.\<close>

lemma magic_link_evidence_iff:
  "v \<in> set (magic_link_evidence D a) \<longleftrightarrow>
     (\<exists>w \<in> set (a_emailVerifications a). v_method w = ''magic-link''
        \<and> v = w\<lparr>v_email := canonicalizeEmail D (v_email w)\<rparr>)"
  by (auto simp: magic_link_evidence_def)

lemma github_evidence_verifiedD:
  "v \<in> set (github_evidence D a) \<Longrightarrow> v_status v = ''verified'' \<Longrightarrow>
   \<exists>item \<in> set (github_emails a). em_verified item = Some True
     \<and> canonicalizeEmail D (em_email item) = v_email v"
  by (fastforce simp: github_evidence_def set_somes split: option.splits)

lemma identity_evidence_verifiedD:
  assumes "v \<in> set (identity_evidence D a)" "v_status v = ''verified''"
  shows "\<exists>(provider, i) \<in> set (identity_entries a). identity_is_active i
     \<and> (\<exists>item \<in> set (id_emails i). canonicalizeEmail D (em_email item) = v_email v
          \<and> em_verified item = Some True
          \<and> (em_trusted item \<longrightarrow>
               (\<exists>p. getOidcProvider D provider = Some p \<and> op_emailVerification p = ''trusted'')))"
proof -
  from assms(1) obtain provider i item where i: "(provider, i) \<in> set (identity_entries a)"
    "identity_is_active i" "item \<in> set (id_emails i)"
    "identity_item_evidence D provider item = Some v"
    by (auto simp: identity_evidence_def set_somes split: if_splits)
  from i(4) assms(2) have "canonicalizeEmail D (em_email item) = v_email v"
    "effective_verified D provider item = Some True"
    by (auto simp: identity_item_evidence_def split: option.splits)
  with i show ?thesis
    by (fastforce simp: effective_verified_def split: if_splits)
qed

subsection \<open>Properties\<close>

text \<open>\<open>evidence_key\<close> separates its parts by NUL; parts without NUL can be read back.\<close>

definition nul_free :: "string \<Rightarrow> bool" where
  "nul_free s = (CHR 0x00 \<notin> set s)"

lemma takeWhile_nul:
  assumes "nul_free p"
  shows "takeWhile (\<lambda>c. c \<noteq> CHR 0x00) (rev (xs @ CHR 0x00 # p)) = rev p"
proof -
  have "takeWhile (\<lambda>c. c \<noteq> CHR 0x00) (rev p) = rev p"
    using assms by (auto simp: nul_free_def takeWhile_eq_all_conv)
  then show ?thesis by (simp add: takeWhile_tail)
qed

lemma nul_split:
  assumes "xs @ CHR 0x00 # p = ys @ CHR 0x00 # q" "nul_free p" "nul_free q"
  shows "xs = ys \<and> p = q"
proof -
  have "rev p = rev q"
    using takeWhile_nul [OF assms(2), of xs] takeWhile_nul [OF assms(3), of ys] assms(1) by simp
  with assms(1) show ?thesis by simp
qed

lemma evidence_key_method:
  assumes "evidence_key v = evidence_key w"
    "nul_free (v_method v)" "nul_free (v_method w)"
    "nul_free (tmpl (v_provider v))" "nul_free (tmpl (v_provider w))"
  shows "v_method v = v_method w"
proof -
  have "(tmpl (v_email v) @ CHR 0x00 # v_method v) @ CHR 0x00 # tmpl (v_provider v)
      = (tmpl (v_email w) @ CHR 0x00 # v_method w) @ CHR 0x00 # tmpl (v_provider w)"
    using assms(1) by (simp add: evidence_key_def)
  then have "tmpl (v_email v) @ CHR 0x00 # v_method v = tmpl (v_email w) @ CHR 0x00 # v_method w"
    using nul_split assms(4,5) by blast
  then show ?thesis using nul_split assms(2,3) by blast
qed

lemma js_or_in: "a \<in> S \<Longrightarrow> b \<in> S \<Longrightarrow> js_or a b \<in> S"
  by (simp add: js_or_def)

lemma find_bind_in:
  "None \<in> S \<Longrightarrow> f ` set xs \<subseteq> S \<Longrightarrow> Option.bind (find P xs) f \<in> S"
  by (cases "find P xs") (auto dest!: find_SomeD)

lemma fallback_email_raw: "fallback_email a \<in> insert None (set (raw_emails a))"
  unfolding fallback_email_def
  by (intro js_or_in find_bind_in) (auto simp: raw_emails_def identity_emails_def)

lemma status_primary_claimed:
  "status_primary D a = Some e \<Longrightarrow> e \<in> set (getClaimedEmails D a)"
  using fallback_email_raw [of a] unfolding status_primary_def Let_def
  by (cases "fallback_email a")
    (auto simp: set_getClaimedEmails dest!: find_SomeD split: option.splits if_splits)

lemma group_sources_cases:
  "g \<in> set (group_sources a) \<Longrightarrow>
        (\<exists>s. a_spec a = Some s \<and> g \<in> set (us_groups s))
      \<or> (\<exists>p. a_passmower a = Some p \<and> g \<in> set (pm_groups p))
      \<or> (\<exists>h. a_github a = Some h \<and> g \<in> set (gh_groups h))
      \<or> (\<exists>i \<in> set (identity_values a). id_active i \<noteq> Some False \<and> g \<in> set (id_groups i))"
  by (auto simp: group_sources_def identity_is_active_def split: option.splits)


text \<open>
  C1: Where the verified flag of the primary address can come from. An address is reported
  verified only on a magic link used for it, on GitHub's word, or on the word of an upstream
  identity that is still active; and a mark made because the operator trusted that provider
  counts only while the provider is configured as trusted.
\<close>

theorem primary_verified_provenance:
  assumes "isPrimaryEmailVerified D a"
  shows "\<exists>e. canonicalizeEmail D (primaryEmail a) = Some e \<and>
    ((\<exists>w \<in> set (a_emailVerifications a). v_method w = ''magic-link'' \<and> v_status w = ''verified''
        \<and> canonicalizeEmail D (v_email w) = Some e)
     \<or> (\<exists>item \<in> set (github_emails a). em_verified item = Some True
        \<and> canonicalizeEmail D (em_email item) = Some e)
     \<or> (\<exists>(provider, i) \<in> set (identity_entries a). id_active i \<noteq> Some False
        \<and> (\<exists>item \<in> set (id_emails i). canonicalizeEmail D (em_email item) = Some e
             \<and> em_verified item = Some True
             \<and> (em_trusted item \<longrightarrow>
                  (\<exists>p. getOidcProvider D provider = Some p \<and> op_emailVerification p = ''trusted'')))))"
proof -
  from assms obtain e v where e: "canonicalizeEmail D (primaryEmail a) = Some e"
    and v: "v \<in> set (getEmailVerifications D a)" "v_email v = Some e" "v_status v = ''verified''"
    by (auto simp: isPrimaryEmailVerified_def verified_for_def split: option.splits)
  from v(1) getEmailVerifications_subset
  consider "v \<in> set (magic_link_evidence D a)" | "v \<in> set (github_evidence D a)"
    | "v \<in> set (identity_evidence D a)" by blast
  then show ?thesis
  proof cases
    case 1
    with v e show ?thesis by (auto simp: magic_link_evidence_iff)
  next
    case 2
    from github_evidence_verifiedD [OF this v(3)] v e show ?thesis by auto
  next
    case 3
    from identity_evidence_verifiedD [OF this v(3)] v(2) e show ?thesis
      by (fastforce simp: identity_is_active_def)
  qed
qed

text \<open>
  \<open>verifyEmail\<close> does what a used magic link promises. For an address the account claims,
  the address is verified afterwards and exactly one stored record says so for this method and
  provider; the account's other fields, and with them its claims, do not change. For any other
  address the account is returned unchanged. (The addresses stored must be fixed points of
  the canonical form, and provider keys hold no NUL, which separates the key's parts.)
\<close>

theorem verifyEmail_effect:
  assumes "canonical_stable D"
    and "\<forall>(provider, i) \<in> set (identity_entries a). nul_free provider"
  shows "(\<forall>e. canonicalizeEmail D email = Some e \<and> e \<in> set (getClaimedEmails D a) \<longrightarrow>
        verified_for e (getEmailVerifications D (verifyEmail D email ''magic-link'' ''passmower'' t a))
      \<and> length (filter (\<lambda>w. canonicalizeEmail D (v_email w) = Some e \<and> v_method w = ''magic-link''
            \<and> v_provider w = Some ''passmower'')
          (a_emailVerifications (verifyEmail D email ''magic-link'' ''passmower'' t a))) = 1)
    \<and> ((\<forall>e. canonicalizeEmail D email = Some e \<longrightarrow> e \<notin> set (getClaimedEmails D a)) \<longrightarrow>
        verifyEmail D email ''magic-link'' ''passmower'' t a = a)
    \<and> (verifyEmail D email ''magic-link'' ''passmower'' t a)\<lparr>a_emailVerifications := a_emailVerifications a\<rparr> = a"
proof -
  let ?b = "verifyEmail D email ''magic-link'' ''passmower'' t a"
  have main: "verified_for e (getEmailVerifications D ?b)
      \<and> length (filter (\<lambda>w. canonicalizeEmail D (v_email w) = Some e \<and> v_method w = ''magic-link''
            \<and> v_provider w = Some ''passmower'') (a_emailVerifications ?b)) = 1"
    if e: "canonicalizeEmail D email = Some e" "e \<in> set (getClaimedEmails D a)" for e
  proof -
    let ?new = "\<lparr>v_email = Some e, v_status = ''verified'', v_method = ''magic-link'',
              v_provider = Some ''passmower'', v_observedAt = None, v_verifiedAt = Some t\<rparr>"
    let ?old = "filter (\<lambda>item. \<not> (canonicalizeEmail D (v_email item) = Some e
              \<and> v_method item = ''magic-link'' \<and> v_provider item = Some ''passmower''))
              (a_emailVerifications a)"
    have b: "?b = a\<lparr>a_emailVerifications := ?old @ [?new]\<rparr>"
      using e by (simp add: verifyEmail_def)
    have ce: "canonicalizeEmail D (Some e) = Some e"
      using canonical_stableD [OF assms(1) e(1)] .
    have ev: "magic_link_evidence D ?b = magic_link_evidence D (a\<lparr>a_emailVerifications := ?old\<rparr>) @ [?new]"
      "github_evidence D ?b = github_evidence D a" "identity_evidence D ?b = identity_evidence D a"
      by (simp_all add: b ce magic_link_evidence_def github_evidence_def github_emails_def
          identity_evidence_def identity_entries_def)
    have gh: "v_method w = ''github-api'' \<and> v_provider w = Some ''github''"
      if "w \<in> set (github_evidence D a)" for w
      using that by (auto simp: github_evidence_def set_somes split: option.splits)
    have idn: "v_method w \<in> {''operator-trust'', ''oidc-claim''} \<and> nul_free (tmpl (v_provider w))"
      if "w \<in> set (identity_evidence D a)" for w
      using that assms(2)
      by (fastforce simp: identity_evidence_def identity_item_evidence_def set_somes
          split: if_splits option.splits)
    have "evidence_key w \<noteq> evidence_key ?new"
      if w: "w \<in> set (github_evidence D a @ identity_evidence D a)" for w
    proof
      assume "evidence_key w = evidence_key ?new"
      moreover have "nul_free (v_method w)" "nul_free (tmpl (v_provider w))"
        "v_method w \<noteq> ''magic-link''"
        using w gh [of w] idn [of w] by (auto simp: nul_free_def)
      ultimately show False
        using evidence_key_method [of w ?new] by (simp add: nul_free_def)
    qed
    then have "?new \<in> set (getEmailVerifications D ?b)"
      unfolding getEmailVerifications_def ev
      using last_by_keep [of "github_evidence D a @ identity_evidence D a" evidence_key ?new
          "magic_link_evidence D (a\<lparr>a_emailVerifications := ?old\<rparr>)"]
      by simp
    then have "verified_for e (getEmailVerifications D ?b)"
      by (auto simp: verified_for_def intro!: bexI)
    moreover have "filter (\<lambda>w. canonicalizeEmail D (v_email w) = Some e \<and> v_method w = ''magic-link''
            \<and> v_provider w = Some ''passmower'') ?old = []"
      by (auto simp: filter_empty_conv)
    ultimately show ?thesis by (simp add: b ce)
  qed
  have frame: "?b\<lparr>a_emailVerifications := a_emailVerifications a\<rparr> = a"
    by (simp add: verifyEmail_def split: option.split)
  show ?thesis
    using main frame by (auto simp: verifyEmail_def split: option.splits)
qed

subsection \<open>A concrete account for the witnesses\<close>

definition demo_meta :: "string \<Rightarrow> instant \<Rightarrow> metadata" where
  "demo_meta name t = \<lparr>m_name = name, m_namespace = ''auth'', m_uid = name @ ''-uid'',
     m_resourceVersion = 1, m_creationTimestamp = Some t, m_generation = Some 1, m_labels = [],
     m_lastManager = None\<rparr>"

definition demo_account :: "string \<Rightarrow> instant \<Rightarrow> string \<Rightarrow> account" where
  "demo_account name t email = \<lparr>accountId = name, a_spec = None,
     a_passmower = Some (empty_passmower\<lparr>pm_email := Some email\<rparr>), a_slack = None, a_github = None,
     a_identities = None, a_webauthn = None, a_resourceVersion = 1, primaryEmail = Some email,
     emails = [email], groups = [], profile = empty_profile\<lparr>pr_name := Some ''Name''\<rparr>, slackId = None,
     a_conditions = [], a_termsOfService = None, a_emailVerifications = [],
     a_recentApplications = [], a_labels = [], a_metadata = demo_meta name t, isAdmin = False\<rparr>"

definition demo_verified :: account where
  "demo_verified = verifyEmail demo (Some ''a@x'') ''magic-link'' ''passmower'' ''now'' (demo_account ''ann'' 1 ''a@x'')"

lemma demo_claims [simp]: "getClaimedEmails demo (demo_account ''ann'' 1 ''a@x'') = [''a@x'']"
  by code_simp

lemma demo_canonical [simp]: "canonicalizeEmail demo (Some ''a@x'') = Some ''a@x''"
  by code_simp

lemma demo_verified_evidence:
  "a_emailVerifications demo_verified = [\<lparr>v_email = Some ''a@x'', v_status = ''verified'',
     v_method = ''magic-link'', v_provider = Some ''passmower'', v_observedAt = None,
     v_verifiedAt = Some ''now''\<rparr>]"
  "a_github demo_verified = None" "a_identities demo_verified = None"
  "primaryEmail demo_verified = Some ''a@x''"
  by (simp_all add: demo_verified_def verifyEmail_def)
    (simp_all add: demo_account_def)

lemma demo_verified_primary: "isPrimaryEmailVerified demo demo_verified"
proof -
  have "getEmailVerifications demo demo_verified = a_emailVerifications demo_verified"
    by (simp add: getEmailVerifications_def magic_link_evidence_def github_evidence_def
      identity_evidence_def github_emails_def identity_entries_def last_by_def map_by_def
      demo_verified_evidence)
  then show ?thesis
    by (simp add: isPrimaryEmailVerified_def verified_for_def demo_verified_evidence)
qed


theorem primary_verified_provenance_witness:
  "\<exists>e. canonicalizeEmail demo (primaryEmail demo_verified) = Some e"
  using primary_verified_provenance [OF demo_verified_primary] by blast

theorem verifyEmail_effect_witness:
  "verified_for ''a@x'' (getEmailVerifications demo
     (verifyEmail demo (Some '' A@x'') ''magic-link'' ''passmower'' ''now'' (demo_account ''ann'' 1 ''a@x'')))"
proof -
  have t: "to_lower (trim '' A@x'') = ''a@x''"
    by code_simp
  have e: "canonicalizeEmail demo (Some '' A@x'') = Some ''a@x''"
    by (simp add: canonicalizeEmail_def env_is_def t)
  have "\<forall>(provider, i) \<in> set (identity_entries (demo_account ''ann'' 1 ''a@x'')). nul_free provider"
    by (simp add: identity_entries_def demo_account_def)
  note eff = conjunct1 [OF verifyEmail_effect [OF canonical_stable_demo this, of "Some '' A@x''" "''now''"]]
  have "''a@x'' \<in> set (getClaimedEmails demo (demo_account ''ann'' 1 ''a@x''))" by simp
  with e eff show ?thesis by blast
qed

end
