(* ===== verification/Access.thy ===== *)
theory Access
  imports Accounts
begin

text \<open>
  Who may use the provider, and which client: the account type rule
  (\<^verbatim>\<open>src/utils/user/account-type-access.js\<close>), the resource conditions
  (\<^verbatim>\<open>src/conditions\<close>), the REQUIRED_GROUP policy (\<open>Approved\<close>), the client access lists
  (\<^verbatim>\<open>check-account-groups.js\<close>), the Terms of Service rule (\<^verbatim>\<open>tos-required.js\<close>), the
  chain used for refresh tokens (\<^verbatim>\<open>check-account-access.js\<close>), the prompts of the
  interactive flow (\<^verbatim>\<open>src/providers/setup-policies.js\<close>), and what is computed from them:
  the login result, the profile response, the privilege directory.
\<close>

subsection \<open>Account types\<close>

datatype access_failure =
    AccountMissing | AccountBanned | TypeNotLoginCapable
  | ApprovalRequired | NameRequired | TosRequired | ClientAccessRequired

definition ordinaryLoginTypes :: "string option list" where
  "ordinaryLoginTypes = [None, Some ''person'']"

definition impersonationTypes :: "string option list" where
  "impersonationTypes = [None, Some ''person'', Some ''service'']"

definition getAccountTypeAccessFailure :: "bool \<Rightarrow> account option \<Rightarrow> access_failure option" where
  "getAccountTypeAccessFailure impersonation acc = (case acc of
     None \<Rightarrow> Some AccountMissing
   | Some a \<Rightarrow>
       if account_type a = Some ''banned'' then Some AccountBanned
       else if account_type a \<in> set (if impersonation then impersonationTypes else ordinaryLoginTypes)
       then None else Some TypeNotLoginCapable)"

definition canImpersonateAccount :: "account option \<Rightarrow> bool" where
  "canImpersonateAccount acc = (getAccountTypeAccessFailure True acc = None)"

subsection \<open>Conditions\<close>

text \<open>\<open>BaseCondition\<close>. \<open>condition_set\<close> replaces the first condition of the type in place or
  appends one; \<open>condition_add\<close> always appends.\<close>

definition toKubeCondition :: "string \<Rightarrow> bool \<Rightarrow> string \<Rightarrow> condition" where
  "toKubeCondition type status now = \<lparr>c_type = type, c_status = (if status then ''True'' else ''False''),
     c_reason = None, c_message = None, c_lastTransitionTime = Some now\<rparr>"

definition condition_check :: "string \<Rightarrow> condition list \<Rightarrow> bool" where
  "condition_check type cs = (map_option c_status (find (\<lambda>c. c_type c = type) cs) = Some ''True'')"

definition condition_add :: "string \<Rightarrow> bool \<Rightarrow> string \<Rightarrow> condition list \<Rightarrow> condition list" where
  "condition_add type status now cs = cs @ [toKubeCondition type status now]"

fun condition_set :: "string \<Rightarrow> bool \<Rightarrow> string \<Rightarrow> condition list \<Rightarrow> condition list" where
  "condition_set type status now [] = [toKubeCondition type status now]"
| "condition_set type status now (c # cs) =
     (if c_type c = type then toKubeCondition type status now # cs
      else c # condition_set type status now cs)"

lemma find_condition_set:
  "find (\<lambda>c. c_type c = t) (condition_set type status now cs) =
     (if t = type then Some (toKubeCondition type status now) else find (\<lambda>c. c_type c = t) cs)"
  by (induction cs) (auto simp: toKubeCondition_def)

lemma condition_check_set [simp]:
  "condition_check t (condition_set type status now cs) \<longleftrightarrow>
     (if t = type then status else condition_check t cs)"
  by (simp add: condition_check_def find_condition_set toKubeCondition_def)

lemma types_condition_set:
  "map c_type (condition_set type status now cs) =
     (if type \<in> set (map c_type cs) then map c_type cs else map c_type cs @ [type])"
  by (induction cs) (auto simp: toKubeCondition_def)

lemma distinct_condition_set:
  "distinct (map c_type (condition_set type status now cs)) = distinct (map c_type cs)"
  by (simp add: types_condition_set del: set_map)

text \<open>\<open>kebabCase\<close>, on the ASCII names it is used for.\<close>

definition is_lower :: "char \<Rightarrow> bool" where
  "is_lower c = (let n = of_char c :: nat in 97 \<le> n \<and> n \<le> 122)"

definition is_upper :: "char \<Rightarrow> bool" where
  "is_upper c = (let n = of_char c :: nat in 65 \<le> n \<and> n \<le> 90)"

fun kebab_dash :: "string \<Rightarrow> string" where
  "kebab_dash (a # b # cs) =
     (if is_lower a \<and> is_upper b then a # CHR ''-'' # kebab_dash (b # cs) else a # kebab_dash (b # cs))"
| "kebab_dash cs = cs"

fun kebab_space :: "bool \<Rightarrow> string \<Rightarrow> string" where
  "kebab_space run [] = []"
| "kebab_space run (c # cs) =
     (if js_space c \<or> c = CHR ''_'' then (if run then kebab_space True cs else CHR ''-'' # kebab_space True cs)
      else c # kebab_space False cs)"

definition kebabCase :: "string \<Rightarrow> string" where
  "kebabCase s = to_lower (kebab_space False (kebab_dash s))"

definition defaultApiGroup :: string where
  "defaultApiGroup = ''codemowers.cloud''"

text \<open>\<open>ClaimedBy\<close>: the label that names the instance serving a resource.\<close>

definition claimed_by_label :: string where
  "claimed_by_label = defaultApiGroup @ ''/'' @ kebabCase ''ClaimedBy''"

definition claimedBy_check :: "(string \<times> string) list \<Rightarrow> bool" where
  "claimedBy_check labels = truthy (map_of labels claimed_by_label)"

definition claimedBy_labels :: "string \<Rightarrow> bool \<Rightarrow> (string \<times> string) list" where
  "claimedBy_labels inst status = (if status then [(claimed_by_label, inst)] else [])"

subsection \<open>The REQUIRED_GROUP policy\<close>

definition approved_check :: "deployment \<Rightarrow> account option \<Rightarrow> bool" where
  "approved_check D acc =
     (if \<not> truthy (penv D ''REQUIRED_GROUP'') then True
      else case acc of
        None \<Rightarrow> False
      | Some a \<Rightarrow>
          if isApproved a then True
          else (\<exists>g \<in> set (mapGroups D (groups a)).
                  Some (mg_displayName g) = penv D ''REQUIRED_GROUP''
                  \<or> Some (mg_displayName g) = penv D ''ADMIN_GROUP''))"

definition approved_add :: "deployment \<Rightarrow> account \<Rightarrow> account" where
  "approved_add D a =
     (let a1 = setApproved a;
          localPrefix = (if truthy (penv D ''GROUP_PREFIX'') then Some (tmpl (penv D ''GROUP_PREFIX'') @ '':'') else None) in
      case localPrefix of
        None \<Rightarrow> a1
      | Some lp \<Rightarrow>
          (case penv D ''REQUIRED_GROUP'' of
             None \<Rightarrow> a1
           | Some rg \<Rightarrow> if starts_with lp rg then pushCustomGroup D (drop (length lp) rg) a1 else a1))"

subsection \<open>Client access lists and Terms of Service\<close>

text \<open>The two lists of a client the access rule reads; an absent list is \<open>None\<close>.\<close>

record client_policy =
  cl_allowedUsers :: "string list option"
  cl_allowedGroups :: "string list option"

definition list_or_empty :: "'a list option \<Rightarrow> 'a list" where
  "list_or_empty xs = (case xs of None \<Rightarrow> [] | Some ys \<Rightarrow> ys)"

lemma list_or_empty_simps [simp]: "list_or_empty None = []" "list_or_empty (Some xs) = xs"
  by (simp_all add: list_or_empty_def)

definition checkAccountGroups :: "'c client_policy_scheme option \<Rightarrow> account \<Rightarrow> bool" where
  "checkAccountGroups client a =
     (let allowedUsers = list_or_empty (Option.bind client cl_allowedUsers);
          allowedGroups = list_or_empty (Option.bind client cl_allowedGroups) in
      if allowedUsers = [] \<and> allowedGroups = [] then True
      else if accountId a \<in> set allowedUsers then True
      else let accountGroups = map display_name (groups a) in
           (\<exists>g \<in> set allowedGroups. g \<in> set accountGroups))"

definition tosRequired :: "tos_document option \<Rightarrow> account option \<Rightarrow> bool" where
  "tosRequired doc acc =
     (let type = Option.bind acc account_type in
      if (truthy type \<and> type \<noteq> Some ''person'') \<or> doc = None then False
      else case Option.bind acc getTermsOfServiceAcceptance of
             None \<Rightarrow> True
           | Some t \<Rightarrow> t_contentHash t \<noteq> None \<and> t_contentHash t \<noteq> map_option d_contentHash doc)"

definition getAccountAccessFailure ::
  "deployment \<Rightarrow> 'c client_policy_scheme option \<Rightarrow> account option \<Rightarrow> tos_document option \<Rightarrow> access_failure option" where
  "getAccountAccessFailure D client acc doc = (case getAccountTypeAccessFailure False acc of
     Some f \<Rightarrow> Some f
   | None \<Rightarrow>
       (case acc of None \<Rightarrow> None
        | Some a \<Rightarrow>
          if \<not> isAdmin a \<and> \<not> approved_check D (Some a) then Some ApprovalRequired
          else if \<not> truthy (pr_name (profile a)) then Some NameRequired
          else if tosRequired doc (Some a) then Some TosRequired
          else if \<not> checkAccountGroups client a then Some ClientAccessRequired
          else None))"

subsection \<open>The prompts of the interactive flow\<close>

text \<open>\<open>setup-policies\<close> adds four prompts after the library's own login prompt; each check
  says whether its prompt is requested. \<open>resolve\<close> stands for the user lookup the first check
  makes when the request has no current account yet.\<close>

datatype policy_prompt = PromptApproval | PromptName | PromptTos | PromptGroups

definition approval_prompt :: "deployment \<Rightarrow> account option \<Rightarrow> bool" where
  "approval_prompt D acc =
     (if (case acc of Some a \<Rightarrow> isAdmin a | None \<Rightarrow> False) then False else \<not> approved_check D acc)"

definition name_prompt :: "account option \<Rightarrow> bool" where
  "name_prompt acc = (\<not> truthy (Option.bind acc (\<lambda>a. pr_name (profile a))))"

definition policy_prompts ::
  "deployment \<Rightarrow> 'c client_policy_scheme option \<Rightarrow> account option \<Rightarrow> account option \<Rightarrow> tos_document option
     \<Rightarrow> policy_prompt option" where
  "policy_prompts D client current looked_up doc =
     (let acc = coalesce current looked_up in
      if approval_prompt D acc then Some PromptApproval
      else if name_prompt acc then Some PromptName
      else if tosRequired doc acc then Some PromptTos
      else case acc of
             None \<Rightarrow> None
           | Some a \<Rightarrow> if \<not> checkAccountGroups client a then Some PromptGroups else None)"

subsection \<open>Login results\<close>

record login_error =
  le_error :: string
  le_description :: "string option"

text \<open>The \<open>result\<close> an interaction may already hold.\<close>

record interaction_result =
  ir_error :: "string option"
  ir_error_description :: "string option"
  ir_requireCustomUsername :: bool

datatype login_result =
    LoginError login_error
  | LoginPending interaction_result
  | LoginAccount string

definition access_denied :: "string \<Rightarrow> login_error" where
  "access_denied d = \<lparr>le_error = ''access_denied'', le_description = Some d\<rparr>"

definition getLoginResult :: "bool \<Rightarrow> interaction_result option \<Rightarrow> account option \<Rightarrow> login_result" where
  "getLoginResult impersonation result acc = (case acc of
     None \<Rightarrow>
       (case result of
          Some r \<Rightarrow>
            if truthy (ir_error r)
            then LoginError \<lparr>le_error = tmpl (ir_error r), le_description = ir_error_description r\<rparr>
            else if ir_requireCustomUsername r then LoginPending r
            else LoginError (access_denied ''Account doesn't exist'')
        | None \<Rightarrow> LoginError (access_denied ''Account doesn't exist''))
   | Some a \<Rightarrow>
       (case getAccountTypeAccessFailure impersonation (Some a) of
          Some _ \<Rightarrow> LoginError (access_denied ''This account cannot sign in'')
        | None \<Rightarrow> LoginAccount (accountId a)))"

subsection \<open>Profile response and privilege directory\<close>

record admin_profile =
  ad_accountId :: string
  ad_type :: "string option"
  ad_impersonationEnabled :: bool
  ad_approved :: bool
  ad_conditions :: "condition list"
  ad_onboardedBy :: "string option"
  ad_recentApplications :: "application list"

record profile_response =
  pp_emails :: "string list"
  pp_email :: "string option"
  pp_name :: "string option"
  pp_company :: "string option"
  pp_phones :: "string option"
  pp_isAdmin :: bool
  pp_groups :: "mapped_group list"
  pp_tos_configured :: bool
  pp_tos_accepted_at :: "string option"
  pp_admin :: "admin_profile option"

definition getProfileResponse ::
  "deployment \<Rightarrow> bool \<Rightarrow> string option \<Rightarrow> tos_document option \<Rightarrow> account \<Rightarrow> profile_response" where
  "getProfileResponse D forAdmin requester doc a = \<lparr>
     pp_emails = emails a, pp_email = primaryEmail a, pp_name = pr_name (profile a),
     pp_company = pr_company (profile a), pp_phones = pr_phones (profile a), pp_isAdmin = isAdmin a,
     pp_groups = mapGroups D (groups a), pp_tos_configured = (doc \<noteq> None),
     pp_tos_accepted_at = Option.bind (getTermsOfServiceAcceptance a) t_acceptedAt,
     pp_admin =
       (if forAdmin then Some \<lparr>
          ad_accountId = accountId a, ad_type = account_type a,
          ad_impersonationEnabled = (requester \<noteq> Some (accountId a) \<and> canImpersonateAccount (Some a)),
          ad_approved = (isAdmin a \<or> approved_check D (Some a)),
          ad_conditions = a_conditions a,
          ad_onboardedBy = Option.bind (a_passmower a) pm_onboardedBy,
          ad_recentApplications = a_recentApplications a\<rparr>
        else None)\<rparr>"

record directory_member =
  dm_username :: string
  dm_name :: "string option"
  dm_email :: "string option"

text \<open>\<open>getListedPrivilegeGroups\<close> on the parsed value: \<open>None\<close> when it is not a JSON array,
  otherwise its members as strings.\<close>

definition getListedPrivilegeGroups :: "string list option \<Rightarrow> string list" where
  "getListedPrivilegeGroups parsed = (case parsed of
     None \<Rightarrow> []
   | Some gs \<Rightarrow> uniq (filter (\<lambda>g. g \<noteq> []) (map trim gs)))"

definition directory_name :: "directory_member \<Rightarrow> string" where
  "directory_name m = (case dm_name m of Some n \<Rightarrow> n | None \<Rightarrow> dm_username m)"

definition buildPrivilegeDirectory ::
  "deployment \<Rightarrow> account list \<Rightarrow> string list \<Rightarrow> (string \<times> directory_member list) list" where
  "buildPrivilegeDirectory D accounts gs = map (\<lambda>g. (g,
     js_sort (\<lambda>x y. locale_compare D (directory_name x) (directory_name y))
       (map (\<lambda>a. \<lparr>dm_username = accountId a, dm_name = pr_name (profile a), dm_email = primaryEmail a\<rparr>)
         (filter (\<lambda>a. \<exists>item \<in> set (groups a). display_name item = g)
           (filter (\<lambda>a. account_type a \<in> set ordinaryLoginTypes) accounts))))) gs"

subsection \<open>Lemmas\<close>

lemma type_failure_None_iff:
  "getAccountTypeAccessFailure imp (Some a) = None \<longleftrightarrow>
     account_type a = None \<or> account_type a = Some ''person''
     \<or> (imp \<and> account_type a = Some ''service'')"
  by (auto simp: getAccountTypeAccessFailure_def ordinaryLoginTypes_def impersonationTypes_def)

lemma approved_check_iff:
  assumes "sort_permutes D"
  shows "approved_check D (Some a) \<longleftrightarrow>
    (truthy (penv D ''REQUIRED_GROUP'') \<longrightarrow> isApproved a
      \<or> (\<exists>g \<in> set (groups a). Some (display_name g) = penv D ''REQUIRED_GROUP''
            \<or> Some (display_name g) = penv D ''ADMIN_GROUP''))"
  using assms by (simp add: approved_check_def map_group_def)

lemma access_failure_None_iff:
  "getAccountAccessFailure D client (Some a) doc = None \<longleftrightarrow>
     account_type a \<in> {None, Some ''person''}
     \<and> (isAdmin a \<or> approved_check D (Some a))
     \<and> truthy (pr_name (profile a)) \<and> \<not> tosRequired doc (Some a) \<and> checkAccountGroups client a"
  using type_failure_None_iff [of False a]
  by (cases "getAccountTypeAccessFailure False (Some a)")
    (auto simp: getAccountAccessFailure_def)

lemma setApproved_fields [simp]:
  "isApproved (setApproved a)" "account_type (setApproved a) = account_type a"
  "a_spec (setApproved a) = a_spec a" "isAdmin (setApproved a) = isAdmin a"
  by (simp_all add: setApproved_def isApproved_def account_type_def)

lemma pushCustomGroup_fields [simp]:
  "isApproved (pushCustomGroup D n a) = isApproved a"
  "account_type (pushCustomGroup D n a) = account_type a"
  "isAdmin (pushCustomGroup D n a) = isAdmin a"
  "groups (pushCustomGroup D n a) = groups a"
  by (cases "a_passmower a", simp_all add: pushCustomGroup_def isApproved_def account_type_def
      passmower_or_empty_def empty_passmower_def Let_def)

lemma isApproved_add [simp]: "isApproved (approved_add D a)"
  by (simp add: approved_add_def Let_def split: option.split)

lemma mset_group_sources_setApproved [simp]:
  "group_sources (setApproved a) = group_sources a"
  by (cases "a_passmower a") (simp_all add: setApproved_def group_sources_def passmower_or_empty_def
      empty_passmower_def identity_values_def identity_entries_def)

lemma mset_group_sources_push [simp]:
  "mset (group_sources (pushCustomGroup D n a)) =
     add_mset \<lparr>g_prefix = penv D ''GROUP_PREFIX'', g_name = n\<rparr> (mset (group_sources a))"
  by (cases "a_passmower a") (simp_all add: pushCustomGroup_def group_sources_def passmower_or_empty_def
      empty_passmower_def identity_values_def identity_entries_def Let_def)

subsection \<open>Properties\<close>

fun prompt_failure :: "policy_prompt \<Rightarrow> access_failure" where
  "prompt_failure PromptApproval = ApprovalRequired"
| "prompt_failure PromptName = NameRequired"
| "prompt_failure PromptTos = TosRequired"
| "prompt_failure PromptGroups = ClientAccessRequired"

text \<open>
  C10: The refresh-token check and the interactive prompts enforce one policy. For every account
  whose type may sign in, the failure that withholds a refreshed token is the one whose prompt
  the interactive flow would show first, and a token is refreshed exactly when no prompt would
  be shown; for any other type the refresh check reports the type.
\<close>

theorem refresh_matches_prompts:
  "getAccountAccessFailure D client (Some a) doc =
     (case getAccountTypeAccessFailure False (Some a) of
        Some f \<Rightarrow> Some f
      | None \<Rightarrow> map_option prompt_failure (policy_prompts D client (Some a) looked_up doc))"
  by (cases "getAccountTypeAccessFailure False (Some a)")
    (simp_all add: getAccountAccessFailure_def policy_prompts_def approval_prompt_def name_prompt_def Let_def)

lemma approved_add_sources:
  "mset (group_sources (approved_add D a)) = mset (group_sources a) +
     (case penv D ''REQUIRED_GROUP'' of
        Some rg \<Rightarrow> if truthy (penv D ''GROUP_PREFIX'') \<and> starts_with (tmpl (penv D ''GROUP_PREFIX'') @ '':'') rg
          then {#\<lparr>g_prefix = penv D ''GROUP_PREFIX'',
                  g_name = drop (length (tmpl (penv D ''GROUP_PREFIX'')) + 1) rg\<rparr>#} else {#}
      | None \<Rightarrow> {#})"
  by (cases "penv D ''REQUIRED_GROUP''") (simp_all add: approved_add_def Let_def)

text \<open>
  Approval works whatever REQUIRED_GROUP names. An approved account passes the policy in
  every deployment, so an approval is never reported missing afterwards; and the only group
  the approval can add to the account is the required group itself, and only when that group
  carries the deployment's own prefix, so approving never makes an account a member of an
  upstream directory's group.
\<close>

theorem approval_effect:
  "approved_check D (Some (approved_add D a))
   \<and> getAccountAccessFailure D client (Some (approved_add D a)) doc \<noteq> Some ApprovalRequired
   \<and> (mset (group_sources (approved_add D a)) = mset (group_sources a)
      \<or> (\<exists>p name. penv D ''GROUP_PREFIX'' = Some p \<and> penv D ''REQUIRED_GROUP'' = Some (p @ '':'' @ name)
           \<and> mset (group_sources (approved_add D a)) =
               add_mset \<lparr>g_prefix = Some p, g_name = name\<rparr> (mset (group_sources a))))"
proof (intro conjI)
  show ok: "approved_check D (Some (approved_add D a))"
    by (simp add: approved_check_def)
  show "getAccountAccessFailure D client (Some (approved_add D a)) doc \<noteq> Some ApprovalRequired"
    using ok by (auto simp: getAccountAccessFailure_def getAccountTypeAccessFailure_def split: option.splits)
  show "mset (group_sources (approved_add D a)) = mset (group_sources a)
      \<or> (\<exists>p name. penv D ''GROUP_PREFIX'' = Some p \<and> penv D ''REQUIRED_GROUP'' = Some (p @ '':'' @ name)
           \<and> mset (group_sources (approved_add D a)) =
               add_mset \<lparr>g_prefix = Some p, g_name = name\<rparr> (mset (group_sources a)))"
    unfolding approved_add_sources
    by (cases "penv D ''REQUIRED_GROUP''"; cases "penv D ''GROUP_PREFIX''") (auto simp: starts_with_iff)
qed

text \<open>The account as the next request reads it once a reconcile has written these two fields
  of the intended status.\<close>

definition reconcile_tos :: "deployment \<Rightarrow> tos_document option \<Rightarrow> account \<Rightarrow> account" where
  "reconcile_tos D doc a = a\<lparr>a_termsOfService := st_termsOfService (getIntendedStatus D doc a),
     a_conditions := st_conditions (getIntendedStatus D doc a)\<rparr>"

lemma account_type_tos [simp]:
  "account_type (a\<lparr>a_termsOfService := t, a_conditions := cs\<rparr>) = account_type a"
  by (simp add: account_type_def)

lemma find_drop_tosv1 [simp]:
  "find (\<lambda>c. c_type c = ''ToSv1'' \<and> c_status c = s) (drop_tosv1 cs) = None"
  by (auto simp: drop_tosv1_def find_None_iff)

lemma acceptance_reconcile:
  "getTermsOfServiceAcceptance (reconcile_tos D doc a) = getIntendedTermsOfServiceAcceptance a doc"
proof -
  have "getTermsOfServiceAcceptance (a\<lparr>a_termsOfService := t, a_conditions := drop_tosv1 (a_conditions a)\<rparr>) = t" for t
    by (simp add: getTermsOfServiceAcceptance_def split: option.split)
  then show ?thesis by (simp add: reconcile_tos_def getIntendedStatus_def)
qed

lemma acceptance_accept [simp]:
  "getTermsOfServiceAcceptance (acceptTermsOfService h t a) = Some \<lparr>t_acceptedAt = Some t, t_contentHash = Some h\<rparr>"
  by (simp add: getTermsOfServiceAcceptance_def acceptTermsOfService_def)

definition tos_applies :: "account \<Rightarrow> bool" where
  "tos_applies a = (\<not> truthy (account_type a) \<or> account_type a = Some ''person'')"

lemma tosRequired_Some:
  "tosRequired (Some d) (Some a) \<longleftrightarrow> tos_applies a \<and>
     (case getTermsOfServiceAcceptance a of None \<Rightarrow> True
      | Some t \<Rightarrow> t_contentHash t \<noteq> None \<and> t_contentHash t \<noteq> Some (d_contentHash d))"
  by (auto simp: tosRequired_def tos_applies_def Let_def split: option.splits)

lemma tos_applies_simps [simp]:
  "tos_applies (reconcile_tos D doc a) = tos_applies a"
  "tos_applies (acceptTermsOfService h t a) = tos_applies a"
  by (simp_all add: tos_applies_def reconcile_tos_def acceptTermsOfService_def)

text \<open>
  Terms of Service are asked for once per document. Accepting a document's hash settles that
  document and only that one, for the accounts the terms apply to; reconciling the account never
  changes whether the current document is owed; and an acceptance from before hashes were
  recorded is not asked again until the document differs from the one the reconcile saw.
\<close>

theorem tos_once_per_document:
  "(tosRequired (Some d) (Some (acceptTermsOfService h t a)) \<longleftrightarrow> tos_applies a \<and> h \<noteq> d_contentHash d)
   \<and> tosRequired doc (Some (reconcile_tos D doc a)) = tosRequired doc (Some a)
   \<and> (\<forall>old. getTermsOfServiceAcceptance a = Some old \<and> t_contentHash old = None \<longrightarrow>
        \<not> tosRequired (Some d) (Some a)
        \<and> (tosRequired (Some d') (Some (reconcile_tos D (Some d) a)) \<longleftrightarrow>
             tos_applies a \<and> d_contentHash d \<noteq> d_contentHash d'))"
proof (intro conjI)
  show "tosRequired (Some d) (Some (acceptTermsOfService h t a)) \<longleftrightarrow> tos_applies a \<and> h \<noteq> d_contentHash d"
    by (auto simp: tosRequired_Some)
  show "tosRequired doc (Some (reconcile_tos D doc a)) = tosRequired doc (Some a)"
  proof (cases doc)
    case None
    then show ?thesis by (simp add: tosRequired_def)
  next
    case (Some d)
    then show ?thesis
      by (auto simp: tosRequired_Some acceptance_reconcile getIntendedTermsOfServiceAcceptance_def
          split: option.splits)
  qed
  show "\<forall>old. getTermsOfServiceAcceptance a = Some old \<and> t_contentHash old = None \<longrightarrow>
        \<not> tosRequired (Some d) (Some a)
        \<and> (tosRequired (Some d') (Some (reconcile_tos D (Some d) a)) \<longleftrightarrow>
             tos_applies a \<and> d_contentHash d \<noteq> d_contentHash d')"
    by (auto simp: tosRequired_Some acceptance_reconcile getIntendedTermsOfServiceAcceptance_def)
qed

definition demo_legacy :: account where
  "demo_legacy = (demo_account ''ann'' 1 ''a@x'')\<lparr>a_conditions :=
     [\<lparr>c_type = ''ToSv1'', c_status = ''True'', c_reason = None, c_message = None,
       c_lastTransitionTime = Some ''2020''\<rparr>]\<rparr>"

theorem tos_once_per_document_witness:
  "tosRequired (Some \<lparr>d_text = ''new'', d_contentHash = ''2''\<rparr>)
     (Some (reconcile_tos demo (Some \<lparr>d_text = ''old'', d_contentHash = ''1''\<rparr>) demo_legacy))"
proof -
  have a: "getTermsOfServiceAcceptance demo_legacy = Some \<lparr>t_acceptedAt = Some ''2020'', t_contentHash = None\<rparr>"
    by (simp add: getTermsOfServiceAcceptance_def demo_legacy_def demo_account_def)
  have "tos_applies demo_legacy"
    by (simp add: tos_applies_def demo_legacy_def demo_account_def account_type_def)
  then show ?thesis
    using tos_once_per_document [of "\<lparr>d_text = ''old'', d_contentHash = ''1''\<rparr>" "[]" "[]" demo_legacy
        None demo "\<lparr>d_text = ''new'', d_contentHash = ''2''\<rparr>"] a
    by simp
qed

end
