(* ===== verification/Claims.thy ===== *)
theory Claims
  imports Access Json
begin

text \<open>
  The claims a token or a userinfo response carries: the names Passmower owns
  (\<^verbatim>\<open>src/utils/protected-claims.js\<close>), the per-client claim mappings
  (\<^verbatim>\<open>src/utils/claim-mappings.js\<close>), the enrichment webhook
  (\<^verbatim>\<open>src/utils/fetch-extra-claims.js\<close>), the launcher list
  (\<^verbatim>\<open>src/utils/apps/list-apps.js\<close>), \<open>Account.claims\<close>, and \<open>extraTokenClaims\<close> of
  \<^verbatim>\<open>src/configuration.js\<close>.
\<close>

type_synonym claims = "(string \<times> json) list"

subsection \<open>Protected and reserved names\<close>

definition PROTECTED_CLAIMS :: "string list" where
  "PROTECTED_CLAIMS =
     [''sub'', ''iss'', ''aud'', ''exp'', ''iat'', ''nbf'', ''jti'', ''auth_time'', ''nonce'',
      ''sid'', ''azp'', ''at_hash'', ''c_hash'', ''scope'', ''client_id'',
      ''email'', ''email_verified'', ''emails'', ''groups'', ''username'', ''name'']"

definition RESERVED_CLAIMS :: "string list" where
  "RESERVED_CLAIMS = PROTECTED_CLAIMS @ [''applications'', ''codemowers.io/namespaces'']"

definition ascii_alpha :: "char \<Rightarrow> bool" where
  "ascii_alpha c = (is_lower c \<or> is_upper c)"

definition ascii_digit :: "char \<Rightarrow> bool" where
  "ascii_digit c = (let n = of_char c :: nat in 48 \<le> n \<and> n \<le> 57)"

definition claim_name :: "string \<Rightarrow> bool" where
  "claim_name s = (case s of [] \<Rightarrow> False
     | c # cs \<Rightarrow> ascii_alpha c \<and> length cs \<le> 63
        \<and> list_all (\<lambda>x. ascii_alpha x \<or> ascii_digit x \<or> x \<in> set ''._:/-'') cs)"

subsection \<open>Claim mappings\<close>

datatype claim_problem =
    NotAnObject | ReservedName string | InvalidName string | NonListRules string
  | NonStringDefault string | NonStringValue string nat | NonListGroups string nat
  | NeitherRulesNorDefault string

fun rule_problems :: "string \<Rightarrow> nat \<Rightarrow> json list \<Rightarrow> claim_problem list" where
  "rule_problems claim i [] = []"
| "rule_problems claim i (rule # rules) =
     (case field ''value'' (Some rule) of Some (JStr _) \<Rightarrow> [] | _ \<Rightarrow> [NonStringValue claim i])
     @ (case field ''groups'' (Some rule) of None \<Rightarrow> []
        | Some g \<Rightarrow> if is_arr g then [] else [NonListGroups claim i])
     @ rule_problems claim (Suc i) rules"

definition mapping_problems :: "string \<Rightarrow> json \<Rightarrow> claim_problem list" where
  "mapping_problems claim mapping =
     (if claim \<in> set RESERVED_CLAIMS then [ReservedName claim]
      else if \<not> claim_name claim then [InvalidName claim]
      else
        (let rules = (if nullish (field ''rules'' (Some mapping)) then JArr []
                      else the (field ''rules'' (Some mapping)));
             dflt = field ''default'' (Some mapping) in
         case rules of
           JArr rs \<Rightarrow>
             (case dflt of None \<Rightarrow> [] | Some d \<Rightarrow> if is_str d then [] else [NonStringDefault claim])
             @ rule_problems claim 0 rs
             @ (if rs = [] \<and> dflt = None then [NeitherRulesNorDefault claim] else [])
         | _ \<Rightarrow> [NonListRules claim]))"

definition validateClaimMappings :: "json option \<Rightarrow> claim_problem list" where
  "validateClaimMappings claimMappings =
     (if nullish claimMappings then []
      else case claimMappings of
        Some (JObj ms) \<Rightarrow> concat (map (\<lambda>(claim, mapping). mapping_problems claim mapping) ms)
      | _ \<Rightarrow> [NotAnObject])"

text \<open>\<open>evaluateClaimMappings\<close>. \<open>None\<close> is the TypeError of calling a list method on something
  else, which a mapping that was never validated can cause.\<close>

definition rule_matches :: "string list \<Rightarrow> json \<Rightarrow> bool option" where
  "rule_matches memberships rule =
     (if nullish (field ''groups'' (Some rule)) then Some False
      else case field ''groups'' (Some rule) of
        Some (JArr gs) \<Rightarrow> Some (\<exists>g \<in> set gs. \<exists>m \<in> set memberships. g = JStr m)
      | _ \<Rightarrow> None)"

fun find_rule :: "string list \<Rightarrow> json list \<Rightarrow> json option option" where
  "find_rule memberships [] = Some None"
| "find_rule memberships (rule # rules) = (case rule_matches memberships rule of
     None \<Rightarrow> None
   | Some True \<Rightarrow> Some (Some rule)
   | Some False \<Rightarrow> find_rule memberships rules)"

definition mapping_value :: "string list \<Rightarrow> json \<Rightarrow> json option option" where
  "mapping_value memberships mapping =
     (let rules = (if nullish (field ''rules'' (Some mapping)) then JArr []
                   else the (field ''rules'' (Some mapping))) in
      case rules of
        JArr rs \<Rightarrow>
          (case find_rule memberships rs of
             None \<Rightarrow> None
           | Some matched \<Rightarrow>
               (let v = field ''value'' matched in
                Some (if nullish v then field ''default'' (Some mapping) else v)))
      | _ \<Rightarrow> None)"

text \<open>Assigning a string to \<open>__proto__\<close> of a plain object does nothing.\<close>

definition entry_claims :: "string list \<Rightarrow> string \<Rightarrow> json \<Rightarrow> claims option" where
  "entry_claims memberships claim mapping =
     (if claim \<in> set RESERVED_CLAIMS then Some []
      else case mapping_value memberships mapping of
        None \<Rightarrow> None
      | Some v \<Rightarrow>
          (case v of
             Some (JStr s) \<Rightarrow> Some (if claim = ''__proto__'' then [] else [(claim, JStr s)])
           | _ \<Rightarrow> Some []))"

fun evaluate_entries :: "string list \<Rightarrow> claims \<Rightarrow> (string \<times> json) list \<Rightarrow> claims option" where
  "evaluate_entries memberships acc [] = Some acc"
| "evaluate_entries memberships acc ((claim, mapping) # ms) =
     (case entry_claims memberships claim mapping of
        None \<Rightarrow> None
      | Some new \<Rightarrow> evaluate_entries memberships (js_assign acc new) ms)"

definition mapping_entries :: "json option \<Rightarrow> (string \<times> json) list" where
  "mapping_entries cm = (case cm of Some (JObj ms) \<Rightarrow> ms | _ \<Rightarrow> [])"

definition evaluateClaimMappings :: "json option \<Rightarrow> string list \<Rightarrow> claims option" where
  "evaluateClaimMappings cm gs = evaluate_entries gs [] (mapping_entries cm)"

text \<open>The live configuration of the provider: the names its mask lets through.\<close>

record claim_registry =
  claimsSupported :: "string list"
  openidClaims :: "string list"

definition registerMappedClaims :: "json option \<Rightarrow> claim_registry \<Rightarrow> string list \<times> claim_registry" where
  "registerMappedClaims cm reg =
     (let names = filter (\<lambda>c. c \<notin> set RESERVED_CLAIMS) (map fst (mapping_entries cm)) in
      if names = [] then ([], reg)
      else let registered = filter (\<lambda>c. c \<notin> set (claimsSupported reg)) names in
        (registered,
         foldl (\<lambda>r c. r\<lparr>openidClaims := set_add (openidClaims r) c,
                        claimsSupported := set_add (claimsSupported r) c\<rparr>) reg registered))"

definition mappedClaimsFor ::
  "json option \<Rightarrow> string list \<Rightarrow> claim_registry option \<Rightarrow> claims option \<times> claim_registry option" where
  "mappedClaimsFor cm gs reg = (case reg of
     None \<Rightarrow> (Some [], None)
   | Some r \<Rightarrow>
       if mapping_entries cm = [] then (Some [], Some r)
       else (evaluateClaimMappings cm gs, Some (snd (registerMappedClaims cm r))))"

subsection \<open>The enrichment webhook\<close>

datatype webhook_outcome = FetchFailed | NotOk | Body json

definition sanitizeClaims :: "claims \<Rightarrow> claims" where
  "sanitizeClaims cs = js_assign [] (filter (\<lambda>(k, v). k \<notin> set PROTECTED_CLAIMS) cs)"

definition fetchExtraClaims :: "deployment \<Rightarrow> webhook_outcome \<Rightarrow> claims" where
  "fetchExtraClaims D outcome =
     (if \<not> truthy (penv D ''EXTRA_CLAIMS_WEBHOOK_URL'') then []
      else case outcome of Body (JObj cs) \<Rightarrow> sanitizeClaims cs | _ \<Rightarrow> [])"

subsection \<open>The applications an account can open\<close>

text \<open>A client as the provider loads it: its metadata with the extra properties of
  \<open>extraClientMetadata\<close>.\<close>

record oidc_metadata = client_policy +
  cl_clientId :: string
  cl_clientName :: "string option"
  cl_displayName :: "string option"
  cl_uri :: "string option"
  cl_displayOrder :: "int option"
  cl_description :: "string option"
  cl_kind :: "string option"
  cl_claimMappings :: "json option"
  cl_availableScopes :: "string list option"
  cl_allowedResources :: "string list option"
  cl_allowedCORSOrigins :: "string list"
  cl_grantTypes :: "string list"
  cl_clientAuthMethod :: string
  cl_applicationType :: string
  cl_pkce :: bool
  cl_overrideIncomingScopes :: "bool option"
  cl_headerMapping :: "(string \<times> string) list option"

record app =
  app_name :: string
  app_url :: string
  app_groups :: "string list"
  app_displayOrder :: int
  app_description :: "string option"
  app_accessible :: "bool option"

text \<open>\<open>render\<close> is the Markdown renderer.\<close>

definition toApp :: "(string option \<Rightarrow> string option) \<Rightarrow> oidc_metadata \<Rightarrow> app" where
  "toApp render c = \<lparr>app_name = tmpl (coalesce (cl_displayName c) (cl_clientName c)),
     app_url = tmpl (cl_uri c), app_groups = list_or_empty (cl_allowedGroups c),
     app_displayOrder = (case cl_displayOrder c of Some n \<Rightarrow> n | None \<Rightarrow> 0),
     app_description = render (cl_description c), app_accessible = None\<rparr>"

definition byDisplayOrderThenName :: "deployment \<Rightarrow> app \<Rightarrow> app \<Rightarrow> int" where
  "byDisplayOrderThenName D a b =
     (if app_displayOrder a - app_displayOrder b \<noteq> 0 then app_displayOrder a - app_displayOrder b
      else locale_compare D (app_name a) (app_name b))"

definition getEnrolledApps :: "oidc_metadata option list \<Rightarrow> oidc_metadata list" where
  "getEnrolledApps stored = filter (\<lambda>c. truthy (cl_uri c)) (somes stored)"

definition listMyApps ::
  "deployment \<Rightarrow> (string option \<Rightarrow> string option) \<Rightarrow> oidc_metadata option list \<Rightarrow> account \<Rightarrow> app list" where
  "listMyApps D render stored a = js_sort (byDisplayOrderThenName D)
     (map (toApp render) (filter (\<lambda>c. checkAccountGroups (Some c) a) (getEnrolledApps stored)))"

definition listAllApps ::
  "deployment \<Rightarrow> (string option \<Rightarrow> string option) \<Rightarrow> oidc_metadata option list \<Rightarrow> account \<Rightarrow> app list" where
  "listAllApps D render stored a = js_sort (byDisplayOrderThenName D)
     (map (\<lambda>c. (toApp render c)\<lparr>app_accessible := Some (checkAccountGroups (Some c) a)\<rparr>)
       (getEnrolledApps stored))"

definition app_json :: "app \<Rightarrow> json" where
  "app_json x = JObj [(''name'', JStr (app_name x)), (''url'', JStr (app_url x)),
     (''groups'', JArr (map JStr (app_groups x))), (''displayOrder'', JNum (app_displayOrder x)),
     (''description'', opt_str (app_description x))]"

subsection \<open>Account claims\<close>

definition has_scope :: "string \<Rightarrow> string \<Rightarrow> bool" where
  "has_scope name scope = (name \<in> set (split_on CHR '' '' scope))"

text \<open>The claims before anything outside Passmower contributes. The profile's absent values
  are \<open>null\<close>, as the status holds them.\<close>

definition own_claims :: "deployment \<Rightarrow> string \<Rightarrow> oidc_metadata \<Rightarrow> account \<Rightarrow> claims" where
  "own_claims D scope client a =
     (let gs = map display_name (groups a);
          r0 = [(''sub'', JStr (accountId a)), (''username'', JStr (accountId a)),
                (''nickname'', JStr (accountId a))];
          r1 = (if has_scope ''email'' scope \<and> truthy (primaryEmail a)
                then js_assign r0 [(''email'', opt_str (primaryEmail a)),
                       (''email_verified'', JBool (isPrimaryEmailVerified D a))] else r0);
          r2 = (if includes_str ''profile'' scope
                then js_assign r1 [(''name'', opt_str (pr_name (profile a))),
                       (''company'', opt_str (pr_company (profile a))),
                       (''phones'', opt_str (pr_phones (profile a))),
                       (''emails'', JArr (map JStr (emails a)))] else r1);
          clientGroups = list_or_empty (cl_allowedGroups client);
          r3 = (if includes_str ''allowed_groups'' scope
                then AList.update ''groups'' (JArr (map JStr
                       (if clientGroups \<noteq> [] then filter (\<lambda>g. g \<in> set clientGroups) gs else clientGroups))) r2
                else r2)
      in if includes_str '' groups'' scope
         then AList.update ''groups'' (JArr (map JStr gs)) r3 else r3)"

text \<open>\<open>Account.claims\<close>; the registry is the provider's, returned updated. \<open>None\<close> is an
  exception thrown by the evaluation of the mappings.\<close>

definition account_claims ::
  "deployment \<Rightarrow> string \<Rightarrow> string \<Rightarrow> oidc_metadata \<Rightarrow> app list \<Rightarrow> webhook_outcome \<Rightarrow> account
     \<Rightarrow> claim_registry option \<Rightarrow> claims option \<times> claim_registry option" where
  "account_claims D use scope client apps outcome a reg =
     (let r1 = own_claims D scope client a;
          r2 = (if use = ''userinfo'' \<and> has_scope ''applications'' scope
                then AList.update ''applications'' (JArr (map app_json apps)) r1 else r1);
          r3 = (if has_scope ''namespaces'' scope then js_assign r2 (fetchExtraClaims D outcome) else r2);
          (mapped, reg') = mappedClaimsFor (cl_claimMappings client) (map display_name (groups a)) reg
      in (map_option (js_assign r3) mapped, reg'))"

text \<open>\<open>extraTokenClaims\<close>: the claims added to a self-contained access token, \<open>Some None\<close> for
  \<open>undefined\<close>. \<open>acc\<close> is the account lookup's result.\<close>

record access_token =
  tk_kind :: string
  tk_scope :: "string option"
  tk_clientId :: string
  tk_accountId :: string

definition token_own_claims :: "deployment \<Rightarrow> string \<Rightarrow> account \<Rightarrow> claims" where
  "token_own_claims D scope a =
     (if has_scope ''email'' scope \<and> truthy (primaryEmail a)
      then [(''email'', opt_str (primaryEmail a)), (''email_verified'', JBool (isPrimaryEmailVerified D a))]
      else [])
     @ (if has_scope ''groups'' scope then [(''groups'', JArr (map (\<lambda>g. JStr (display_name g)) (groups a)))] else [])"

definition extraTokenClaims ::
  "deployment \<Rightarrow> access_token \<Rightarrow> oidc_metadata option \<Rightarrow> account option \<Rightarrow> webhook_outcome
     \<Rightarrow> claim_registry option \<Rightarrow> claims option option \<times> claim_registry option" where
  "extraTokenClaims D token client acc outcome reg =
     (if tk_kind token \<noteq> ''AccessToken'' then (Some None, reg)
      else
        (let scope = (if truthy (tk_scope token) then tmpl (tk_scope token) else []);
             cm = Option.bind client cl_claimMappings in
         if \<not> has_scope ''email'' scope \<and> \<not> has_scope ''groups'' scope
            \<and> \<not> has_scope ''namespaces'' scope \<and> mapping_entries cm = []
         then (Some None, reg)
         else case acc of
           None \<Rightarrow> (Some None, reg)
         | Some a \<Rightarrow>
             (let c1 = token_own_claims D scope a;
                  c2 = (if has_scope ''namespaces'' scope then js_assign c1 (fetchExtraClaims D outcome) else c1);
                  (mapped, reg') = mappedClaimsFor cm (map display_name (groups a)) reg
              in (map_option (\<lambda>m. let c = js_assign c2 m in if c = [] then None else Some c) mapped, reg'))))"

subsection \<open>Lemmas\<close>

lemma protected_reserved: "c \<in> set PROTECTED_CLAIMS \<Longrightarrow> c \<in> set RESERVED_CLAIMS"
  by (simp add: RESERVED_CLAIMS_def)

lemma sanitizeClaims_keys: "fst ` set (sanitizeClaims cs) = fst ` set cs - set PROTECTED_CLAIMS"
  unfolding sanitizeClaims_def keys_js_assign by force

lemma fetchExtraClaims_keys:
  assumes "c \<in> set PROTECTED_CLAIMS"
  shows "c \<notin> fst ` set (fetchExtraClaims D outcome)"
proof -
  have "c \<notin> fst ` set (sanitizeClaims cs)" for cs
    using assms by (simp add: sanitizeClaims_keys)
  then show ?thesis
    unfolding fetchExtraClaims_def by (cases outcome) (auto split: json.split)
qed

lemma entry_claims_keys: "entry_claims gs claim mapping = Some new \<Longrightarrow> fst ` set new \<subseteq> {claim} - set RESERVED_CLAIMS"
  by (auto simp: entry_claims_def split: if_splits option.splits json.splits)

lemma evaluate_entries_keys:
  "evaluate_entries gs acc ms = Some cs \<Longrightarrow>
     fst ` set cs \<subseteq> fst ` set acc \<union> (fst ` set ms - set RESERVED_CLAIMS)"
proof (induction gs acc ms rule: evaluate_entries.induct)
  case (2 gs acc claim mapping ms)
  from 2(2) obtain new where new: "entry_claims gs claim mapping = Some new"
    "evaluate_entries gs (js_assign acc new) ms = Some cs"
    by (auto split: option.splits)
  from 2(1) [OF new] entry_claims_keys [OF new(1)] show ?case
    by (auto simp: keys_js_assign)
qed simp

lemma evaluate_keys:
  "evaluateClaimMappings cm gs = Some cs \<Longrightarrow> fst ` set cs \<subseteq> fst ` set (mapping_entries cm) - set RESERVED_CLAIMS"
  unfolding evaluateClaimMappings_def by (drule evaluate_entries_keys) simp

lemma mappedClaimsFor_keys:
  "mappedClaimsFor cm gs reg = (Some cs, reg') \<Longrightarrow> c \<in> set PROTECTED_CLAIMS \<Longrightarrow> c \<notin> fst ` set cs"
  using evaluate_keys [of cm gs cs] protected_reserved [of c]
  by (auto simp: mappedClaimsFor_def split: option.splits if_splits)

lemma map_of_update_other: "k \<noteq> c \<Longrightarrow> map_of (AList.update k v m) c = map_of m c"
  by (simp add: update_conv')



subsection \<open>What a validated mapping means\<close>

text \<open>The documented reading of one claim's rules: the first rule that names one of the
  account's groups, and its value, or the default.\<close>

definition json_list :: "json option \<Rightarrow> json list" where
  "json_list v = (case v of Some (JArr xs) \<Rightarrow> xs | _ \<Rightarrow> [])"

definition rule_grants :: "string list \<Rightarrow> json \<Rightarrow> bool" where
  "rule_grants gs rule = (\<exists>g \<in> set gs. JStr g \<in> set (json_list (field ''groups'' (Some rule))))"

definition mapping_spec :: "string list \<Rightarrow> json \<Rightarrow> json option" where
  "mapping_spec gs mapping =
     (case find (rule_grants gs) (json_list (field ''rules'' (Some mapping))) of
        Some rule \<Rightarrow> field ''value'' (Some rule)
      | None \<Rightarrow> field ''default'' (Some mapping))"

lemma rule_matches_valid:
  assumes "\<And>g. field ''groups'' (Some rule) = Some g \<Longrightarrow> is_arr g"
  shows "rule_matches gs rule = Some (rule_grants gs rule)"
proof (cases "field ''groups'' (Some rule)")
  case None
  then show ?thesis by (simp add: rule_matches_def rule_grants_def json_list_def nullish_def)
next
  case (Some g)
  with assms obtain xs where "g = JArr xs" by (cases g) auto
  with Some show ?thesis
    by (auto simp: rule_matches_def rule_grants_def json_list_def nullish_def)
qed

lemma rule_problems_NilD:
  assumes "rule_problems claim i rules = []" "rule \<in> set rules"
  shows "(\<exists>s. field ''value'' (Some rule) = Some (JStr s)) \<and> (\<forall>g. field ''groups'' (Some rule) = Some g \<longrightarrow> is_arr g)"
  using assms
  by (induction claim i rules rule: rule_problems.induct)
    (auto split: option.splits json.splits if_splits)

lemma find_rule_valid:
  assumes "\<And>rule. rule \<in> set rules \<Longrightarrow> rule_matches gs rule = Some (rule_grants gs rule)"
  shows "find_rule gs rules = Some (find (rule_grants gs) rules)"
  using assms by (induction rules) auto

lemma mapping_value_valid:
  assumes "mapping_problems claim mapping = []"
  shows "claim \<notin> set RESERVED_CLAIMS"
    and "mapping_value gs mapping = Some (mapping_spec gs mapping)"
    and "\<And>v. mapping_spec gs mapping = Some v \<Longrightarrow> is_str v"
    and "claim \<noteq> ''__proto__''"
proof -
  let ?rules = "json_list (field ''rules'' (Some mapping))"
  let ?raw = "if nullish (field ''rules'' (Some mapping)) then JArr [] else the (field ''rules'' (Some mapping))"
  from assms show "claim \<notin> set RESERVED_CLAIMS"
    by (auto simp: mapping_problems_def split: if_splits)
  have cn: "claim_name claim"
    using assms by (auto simp: mapping_problems_def split: if_splits)
  show "claim \<noteq> ''__proto__''"
  proof
    assume "claim = ''__proto__''"
    with cn show False by (simp add: claim_name_def ascii_alpha_def is_lower_def is_upper_def Let_def)
  qed
  from assms obtain rs where rs: "?raw = JArr rs" and rp: "rule_problems claim 0 rs = []"
    and d: "\<And>v. field ''default'' (Some mapping) = Some v \<Longrightarrow> is_str v"
    by (auto simp: mapping_problems_def Let_def split: if_splits json.splits option.splits)
  have rules: "?rules = rs"
    using rs by (cases "field ''rules'' (Some mapping)")
      (auto simp: json_list_def nullish_def split: if_splits json.splits)
  have fr: "find_rule gs rs = Some (find (rule_grants gs) rs)"
    by (rule find_rule_valid) (use rule_problems_NilD [OF rp] rule_matches_valid in blast)
  have found: "\<exists>s. field ''value'' (Some rule) = Some (JStr s)" if "find (rule_grants gs) rs = Some rule" for rule
    using rule_problems_NilD [OF rp] that by (blast dest: find_SomeD)
  show "mapping_value gs mapping = Some (mapping_spec gs mapping)"
    unfolding mapping_value_def Let_def rs using found
    by (cases "find (rule_grants gs) rs") (auto simp: fr mapping_spec_def rules nullish_def)
  show "\<And>v. mapping_spec gs mapping = Some v \<Longrightarrow> is_str v"
    using found d by (auto simp: mapping_spec_def rules split: option.splits)
qed

lemma entry_claims_valid:
  assumes "mapping_problems claim mapping = []"
  shows "entry_claims gs claim mapping =
    Some (case mapping_spec gs mapping of None \<Rightarrow> [] | Some v \<Rightarrow> [(claim, v)])"
  using mapping_value_valid(1,4) [OF assms] mapping_value_valid(2,3) [OF assms, of gs]
  by (auto simp: entry_claims_def split: option.splits json.splits)

lemma evaluate_entries_valid:
  assumes "\<forall>(claim, mapping) \<in> set ms. mapping_problems claim mapping = []"
    and "distinct (map fst ms)" and "fst ` set acc \<inter> fst ` set ms = {}"
  shows "\<exists>cs. evaluate_entries gs acc ms = Some cs
    \<and> (\<forall>c. map_of cs c = (case map_of ms c of Some mapping \<Rightarrow> mapping_spec gs mapping | None \<Rightarrow> map_of acc c))"
  using assms
proof (induction ms arbitrary: acc)
  case Nil
  then show ?case by simp
next
  case (Cons m ms)
  obtain claim mapping where m: "m = (claim, mapping)" by force
  let ?new = "case mapping_spec gs mapping of None \<Rightarrow> [] | Some v \<Rightarrow> [(claim, v)]"
  from Cons.prems m have e: "entry_claims gs claim mapping = Some ?new"
    by (auto intro: entry_claims_valid)
  have "fst ` set (js_assign acc ?new) \<inter> fst ` set ms = {}"
    using Cons.prems(2,3) m by (cases "mapping_spec gs mapping") (auto simp: keys_js_assign image_iff)
  moreover from Cons.prems have "\<forall>(claim, mapping) \<in> set ms. mapping_problems claim mapping = []" "distinct (map fst ms)"
    by auto
  ultimately obtain cs where cs: "evaluate_entries gs (js_assign acc ?new) ms = Some cs"
    "\<forall>c. map_of cs c = (case map_of ms c of Some mapping \<Rightarrow> mapping_spec gs mapping
        | None \<Rightarrow> map_of (js_assign acc ?new) c)"
    using Cons.IH [of "js_assign acc ?new"] by blast
  have n1: "map_of ms claim = None" using Cons.prems(2) m by (auto simp: map_of_eq_None_iff)
  have n2: "map_of acc claim = None" using Cons.prems(3) m by (auto simp: map_of_eq_None_iff)
  have new: "map_of (js_assign acc ?new) c = (if c = claim then mapping_spec gs mapping else map_of acc c)" for c
    by (cases "mapping_spec gs mapping") (auto simp: js_assign_def update_conv' n2)
  have "map_of cs c = (case map_of (m # ms) c of Some mapping \<Rightarrow> mapping_spec gs mapping
      | None \<Rightarrow> map_of acc c)" for c
    using cs(2) [rule_format, of c] n1 new [of c] by (cases "c = claim") (simp_all add: m split: option.splits)
  with cs(1) show ?case by (simp add: m e)
qed

lemma validate_entries:
  "validateClaimMappings cm = [] \<longleftrightarrow>
     nullish cm \<or> (\<exists>ms. cm = Some (JObj ms) \<and> (\<forall>(claim, mapping) \<in> set ms. mapping_problems claim mapping = []))"
  by (auto simp: validateClaimMappings_def nullish_def split: option.splits json.splits)

text \<open>
  A client whose mappings the operator accepted always gets what they say. On mappings that
  \<^verbatim>\<open>validateClaimMappings\<close> finds no problem with, the evaluation does not throw; each named
  claim carries the value of the first rule naming one of the account's groups, or the default
  when none does, or is absent when there is no default; no other claim is emitted; and each
  emitted value is a string under a name that is not reserved. (The members of an object have
  distinct names.)
\<close>

theorem valid_mappings_evaluate:
  assumes "validateClaimMappings cm = []" and "distinct (map fst (mapping_entries cm))"
  shows "\<exists>cs. evaluateClaimMappings cm gs = Some cs
    \<and> (\<forall>c. map_of cs c = (case map_of (mapping_entries cm) c of
             Some mapping \<Rightarrow> mapping_spec gs mapping | None \<Rightarrow> None))
    \<and> (\<forall>c v. map_of cs c = Some v \<longrightarrow> is_str v \<and> c \<notin> set RESERVED_CLAIMS)"
proof -
  have ok: "\<forall>(claim, mapping) \<in> set (mapping_entries cm). mapping_problems claim mapping = []"
    using assms(1) by (auto simp: validate_entries mapping_entries_def nullish_def split: option.splits json.splits)
  from evaluate_entries_valid [OF ok assms(2), of "[]" gs] obtain cs where
    cs: "evaluateClaimMappings cm gs = Some cs"
    "\<forall>c. map_of cs c = (case map_of (mapping_entries cm) c of
             Some mapping \<Rightarrow> mapping_spec gs mapping | None \<Rightarrow> None)"
    unfolding evaluateClaimMappings_def map_of.simps by auto
  have "is_str v \<and> c \<notin> set RESERVED_CLAIMS" if "map_of cs c = Some v" for c v
  proof -
    from that cs(2) obtain mapping where m: "map_of (mapping_entries cm) c = Some mapping"
      "mapping_spec gs mapping = Some v" by (auto split: option.splits)
    from m(1) ok have "mapping_problems c mapping = []" by (auto dest: map_of_SomeD)
    from mapping_value_valid(1) [OF this] mapping_value_valid(3) [OF this, of gs] m(2) show ?thesis by blast
  qed
  with cs show ?thesis by blast
qed


text \<open>What registration leaves in the provider's configuration.\<close>

lemma register_supported:
  "set (claimsSupported (foldl (\<lambda>r c. r\<lparr>openidClaims := set_add (openidClaims r) c,
       claimsSupported := set_add (claimsSupported r) c\<rparr>) reg names)) = set (claimsSupported reg) \<union> set names"
  by (induction names arbitrary: reg) auto

lemma registerMappedClaims_supported:
  "set (claimsSupported (snd (registerMappedClaims cm reg))) =
     set (claimsSupported reg) \<union> (fst ` set (mapping_entries cm) - set RESERVED_CLAIMS)"
proof -
  let ?names = "filter (\<lambda>c. c \<notin> set RESERVED_CLAIMS) (map fst (mapping_entries cm))"
  have n: "set ?names = fst ` set (mapping_entries cm) - set RESERVED_CLAIMS" by auto
  show ?thesis
    by (cases "?names = []") (use n in \<open>auto simp: registerMappedClaims_def Let_def register_supported\<close>)
qed

text \<open>
  A mapped claim always survives the provider's mask. Whatever was registered before, after
  the mappings of a client were evaluated for a request every claim they emitted is a name the
  provider's configuration lets through; registration only adds names, never a reserved one, and
  repeating it changes nothing.
\<close>

theorem mapped_claims_survive_mask:
  assumes "mappedClaimsFor cm gs (Some reg) = (Some cs, Some reg')"
  shows "fst ` set cs \<subseteq> set (claimsSupported reg')
    \<and> set (claimsSupported reg) \<subseteq> set (claimsSupported reg')
    \<and> set (claimsSupported reg') - set (claimsSupported reg) \<subseteq> fst ` set (mapping_entries cm) - set RESERVED_CLAIMS
    \<and> set (claimsSupported (snd (registerMappedClaims cm reg'))) = set (claimsSupported reg')"
proof (cases "mapping_entries cm = []")
  case True
  with assms show ?thesis
    by (auto simp: mappedClaimsFor_def registerMappedClaims_def)
next
  case False
  with assms have "evaluateClaimMappings cm gs = Some cs" and r: "reg' = snd (registerMappedClaims cm reg)"
    by (simp_all add: mappedClaimsFor_def)
  from evaluate_keys [OF this(1)] show ?thesis
    unfolding r registerMappedClaims_supported by blast
qed

subsection \<open>Concrete inputs\<close>

definition demo_mapping :: "json option" where
  "demo_mapping = Some (JObj [(''role'', JObj [
      (''default'', JStr ''viewer''),
      (''rules'', JArr [JObj [(''value'', JStr ''admin''), (''groups'', JArr [JStr ''local:admins''])]])])])"

definition demo_registry :: claim_registry where
  "demo_registry = \<lparr>claimsSupported = [''sub''], openidClaims = [''sub'']\<rparr>"

definition demo_client :: oidc_metadata where
  "demo_client = \<lparr>cl_allowedUsers = None, cl_allowedGroups = None, cl_clientId = ''apps.wiki'',
     cl_clientName = Some ''wiki'', cl_displayName = None, cl_uri = Some ''https://wiki'',
     cl_displayOrder = None, cl_description = None, cl_kind = Some ''OIDCClient'',
     cl_claimMappings = demo_mapping, cl_availableScopes = None, cl_allowedResources = None,
     cl_allowedCORSOrigins = [], cl_grantTypes = [''authorization_code''],
     cl_clientAuthMethod = ''client_secret_basic'', cl_applicationType = ''web'', cl_pkce = True,
     cl_overrideIncomingScopes = None, cl_headerMapping = None\<rparr>"

lemma demo_mapping_valid: "validateClaimMappings demo_mapping = []" "distinct (map fst (mapping_entries demo_mapping))"
  by code_simp+


theorem valid_mappings_evaluate_witness:
  "\<exists>cs. evaluateClaimMappings demo_mapping [''local:admins''] = Some cs \<and> map_of cs ''role'' = Some (JStr ''admin'')"
proof -
  have "(case map_of (mapping_entries demo_mapping) ''role'' of
      Some mapping \<Rightarrow> mapping_spec [''local:admins''] mapping | None \<Rightarrow> None) = Some (JStr ''admin'')"
    by code_simp
  with valid_mappings_evaluate [OF demo_mapping_valid, of "[''local:admins'']"] show ?thesis by auto
qed

theorem mapped_claims_survive_mask_witness:
  "\<exists>reg'. ''role'' \<in> set (claimsSupported reg')
     \<and> mappedClaimsFor demo_mapping [] (Some demo_registry) = (Some [(''role'', JStr ''viewer'')], Some reg')"
proof -
  let ?reg' = "snd (registerMappedClaims demo_mapping demo_registry)"
  have "evaluateClaimMappings demo_mapping [] = Some [(''role'', JStr ''viewer'')]" by code_simp
  then have "mappedClaimsFor demo_mapping [] (Some demo_registry) = (Some [(''role'', JStr ''viewer'')], Some ?reg')"
    by (simp add: mappedClaimsFor_def demo_mapping_def mapping_entries_def)
  from mapped_claims_survive_mask [OF this] this show ?thesis by auto
qed

text \<open>A name Passmower computes that is not reserved: a mapping the operator accepts can replace
  \<open>nickname\<close>, which \<open>Account.claims\<close> sets from the account's own name.\<close>

lemma mapping_can_shadow_nickname:
  "\<exists>cm. validateClaimMappings cm = []
     \<and> map_of (own_claims demo ''openid'' demo_client (demo_account ''ann'' 1 ''a@x'')) ''nickname'' = Some (JStr ''ann'')
     \<and> Option.bind (fst (account_claims demo ''id_token'' ''openid'' (demo_client\<lparr>cl_claimMappings := cm\<rparr>) [] FetchFailed
          (demo_account ''ann'' 1 ''a@x'') (Some demo_registry))) (\<lambda>cs. map_of cs ''nickname'') = Some (JStr ''root'')"
  by (rule exI [of _ "Some (JObj [(''nickname'', JObj [(''default'', JStr ''root'')])])"]) code_simp

text \<open>The groups claim of an id token depends on where the scope stands in the request.\<close>

lemma groups_scope_order:
  "map_of (own_claims demo ''groups openid'' demo_client (demo_account ''ann'' 1 ''a@x'')) ''groups'' = None
   \<and> map_of (own_claims demo ''openid groups'' demo_client (demo_account ''ann'' 1 ''a@x'')) ''groups'' = Some (JArr [])
   \<and> map_of (token_own_claims demo ''groups openid'' (demo_account ''ann'' 1 ''a@x'')) ''groups'' = Some (JArr [])"
  by code_simp

end
