(* ===== verification/Sessions.thy ===== *)
theory Sessions
  imports Grants Claims
begin

text \<open>
  Sessions kept in the store: the site sessions behind forward-auth and the dashboard
  (\<^verbatim>\<open>src/utils/session/site-session.js\<close>), the session list, the admin session and the
  impersonation links (\<^verbatim>\<open>src/services/session-service.js\<close>), the incident and access-request
  logs (\<^verbatim>\<open>incident-log.js\<close>, \<^verbatim>\<open>access-requests.js\<close>), the WebAuthn challenge store, and
  the account behind a bearer token (\<^verbatim>\<open>bearer-account.js\<close>). The store is the adapter of
  \<^verbatim>\<open>Redis\<close>; generated identifiers and the current time are arguments.
\<close>

subsection \<open>Domains\<close>

text \<open>\<open>parse_domain\<close> is the public-suffix parser: the registrable label and the top-level
  labels of a host, when it has them.\<close>

record domain_parts =
  dp_domain :: "string option"
  dp_topLevel :: "string list"

definition getBaseDomainFromUrl :: "deployment \<Rightarrow> (string \<Rightarrow> domain_parts) \<Rightarrow> string \<Rightarrow> string option" where
  "getBaseDomainFromUrl D parse_domain raw = (case parse_url D raw of
     None \<Rightarrow> None
   | Some u \<Rightarrow>
       (let d = parse_domain (u_hostname u) in
        if \<not> truthy (dp_domain d) \<or> dp_topLevel d = [] then Some (u_hostname u)
        else Some (join_with ''.'' [tmpl (dp_domain d), join_with ''.'' (dp_topLevel d)])))"

definition drop_final_dot :: "string \<Rightarrow> string" where
  "drop_final_dot h = (if ends_with ''.'' h then butlast h else h)"

definition isHostInProviderBaseDomain :: "string \<Rightarrow> string option \<Rightarrow> bool" where
  "isHostInProviderBaseDomain baseDomain host = (case host of
     None \<Rightarrow> False
   | Some h \<Rightarrow>
       (let h' = drop_final_dot (to_lower h); b = to_lower baseDomain in
        h' = b \<or> ends_with (CHR ''.'' # b) h'))"

text \<open>The two constants computed from \<open>ISSUER_URL\<close> when the modules load.\<close>

record provider_domain =
  pd_base :: string
  pd_hostname :: string

definition selfClientId :: string where
  "selfClientId = ''passmower''"

subsection \<open>Site sessions\<close>

record cookie_set =
  ck_name :: string
  ck_value :: "string option"
  ck_domain :: "string option"
  ck_maxAge :: "int option"

definition getFullSiteSessionCookieName :: "string \<Rightarrow> string" where
  "getFullSiteSessionCookieName clientId = ''_site_session'' @ ''.'' @ clientId"

definition getSiteSessionCookieDomain :: "provider_domain \<Rightarrow> string \<Rightarrow> string option" where
  "getSiteSessionCookieDomain P clientId = (if clientId = selfClientId then None else Some (pd_base P))"

definition getLegacySiteSessionCookieDomain :: "provider_domain \<Rightarrow> string \<Rightarrow> string option" where
  "getLegacySiteSessionCookieDomain P clientId =
     (if clientId = selfClientId \<and> pd_base P \<noteq> pd_hostname P then Some (pd_base P) else None)"

definition getSiteSessionScope :: "provider_domain \<Rightarrow> string \<Rightarrow> string" where
  "getSiteSessionScope P clientId =
     (case getSiteSessionCookieDomain P clientId of Some d \<Rightarrow> d | None \<Rightarrow> pd_hostname P)"

definition site_session_ttl :: int where
  "site_session_ttl = 3600"

definition site_session_record :: "string \<Rightarrow> string option \<Rightarrow> string \<Rightarrow> string \<Rightarrow> string option \<Rightarrow> json" where
  "site_session_record jti sessionId owner scope ip = JObj (
     [(''jti'', JStr jti)]
     @ (case sessionId of Some i \<Rightarrow> [(''sessionId'', JStr i)] | None \<Rightarrow> [])
     @ [(''accountId'', JStr owner), (''domain'', JStr scope)]
     @ (case ip of Some x \<Rightarrow> [(''ip'', JStr x)] | None \<Rightarrow> []))"

definition addSiteSession ::
  "'s redis \<Rightarrow> int \<Rightarrow> provider_domain \<Rightarrow> string \<Rightarrow> string option \<Rightarrow> string \<Rightarrow> string \<Rightarrow> string option \<Rightarrow> 's
     \<Rightarrow> cookie_set list \<times> json \<times> 's" where
  "addSiteSession R ms P jti sessionId owner clientId ip s =
     (let name = getFullSiteSessionCookieName clientId;
          legacy = (case getLegacySiteSessionCookieDomain P clientId of
              Some d \<Rightarrow> [\<lparr>ck_name = name, ck_value = None, ck_domain = Some d, ck_maxAge = None\<rparr>]
            | None \<Rightarrow> []);
          cookie = \<lparr>ck_name = name, ck_value = Some jti, ck_domain = getSiteSessionCookieDomain P clientId,
                     ck_maxAge = Some (site_session_ttl * 1000)\<rparr>;
          rec = site_session_record jti sessionId owner (getSiteSessionScope P clientId) ip
      in (legacy @ [cookie], rec, adapter_upsert R ms ''SiteSession'' jti rec (Some site_session_ttl) s))"

definition updateSiteSession :: "'s redis \<Rightarrow> int \<Rightarrow> json \<Rightarrow> 's \<Rightarrow> 's" where
  "updateSiteSession R ms siteSession s =
     adapter_upsert R ms ''SiteSession'' (tmpl (str_field ''jti'' siteSession)) siteSession (Some site_session_ttl) s"

definition siteSessionIpMismatch :: "deployment \<Rightarrow> json \<Rightarrow> string option \<Rightarrow> bool" where
  "siteSessionIpMismatch D siteSession ip =
     (env_is D ''SITE_SESSION_IP_BINDING'' ''true'' \<and> str_field ''ip'' siteSession \<noteq> ip)"

definition validateSiteSession ::
  "'s redis \<Rightarrow> deployment \<Rightarrow> provider_domain \<Rightarrow> string \<Rightarrow> string option \<Rightarrow> string option \<Rightarrow> 's
     \<Rightarrow> json option \<times> 's" where
  "validateSiteSession R D P clientId cookie ip s = (case record_of R ''SiteSession'' (tmpl cookie) s of
     None \<Rightarrow> (None, s)
   | Some siteSession \<Rightarrow>
       if siteSessionIpMismatch D siteSession ip
       then (None, record_destroy R ''SiteSession'' (tmpl (str_field ''jti'' siteSession)) s)
       else
         (let sessionId = field ''sessionId'' (Some siteSession);
              base0 = (if js_truthy sessionId
                       then record_of R ''Session'' (tmpl (str_field ''sessionId'' siteSession)) s
                       else Some (JBool True));
              base = (if js_truthy (field ''authorizations'' base0)
                      then field clientId (field ''authorizations'' base0) else base0) in
          (if js_truthy base \<and> field ''domain'' (Some siteSession) = Some (JStr (getSiteSessionScope P clientId))
           then Some siteSession else None, s)))"

text \<open>\<open>updateSessionReference\<close>, run when the provider saved a session under a new identifier.
  The rewritten record is stored without an expiry, as the code passes none.\<close>

definition move_reference :: "'s redis \<Rightarrow> int \<Rightarrow> string \<Rightarrow> string \<Rightarrow> 's \<Rightarrow> string \<Rightarrow> 's" where
  "move_reference R ms sessionId oldSessionId s i = (case record_of R ''SiteSession'' i s of
     None \<Rightarrow> s
   | Some siteSession \<Rightarrow>
       if field ''sessionId'' (Some siteSession) = Some (JStr oldSessionId)
       then adapter_upsert R ms ''SiteSession'' i
              (js_spread siteSession [(''sessionId'', JStr sessionId)]) None s
       else s)"

definition updateSessionReference :: "'s redis \<Rightarrow> int \<Rightarrow> string \<Rightarrow> string \<Rightarrow> string \<Rightarrow> 's \<Rightarrow> 's" where
  "updateSessionReference R ms sessionId oldSessionId owner s =
     foldl (move_reference R ms sessionId oldSessionId) s
       (adapter_getSetMembers R ''AccountSiteSession'' owner s)"

subsection \<open>Sessions of an account\<close>

text \<open>\<open>endSession\<close> ends a session only if it is one of the account's own; \<open>end_session\<close> stands
  for the provider library's end-session action.\<close>

definition endSession ::
  "'s redis \<Rightarrow> (string \<Rightarrow> 's \<Rightarrow> 's) \<Rightarrow> string \<Rightarrow> string \<Rightarrow> 's \<Rightarrow> 's" where
  "endSession R end_session owner sessionToDelete s =
     (case find (\<lambda>x. x = sessionToDelete) (adapter_getSetMembers R ''AccountSession'' owner s) of
        Some i \<Rightarrow> end_session i s
      | None \<Rightarrow> s)"

definition session_metadata :: "'s redis \<Rightarrow> 's \<Rightarrow> string \<Rightarrow> (string \<times> json) option" where
  "session_metadata R s i = (case record_of R ''Session'' i s of
     None \<Rightarrow> None
   | Some session \<Rightarrow>
       (case adapter_getSetMembers R ''UidSessions'' (tmpl (str_field ''uid'' session)) s of
          m # _ \<Rightarrow> if m = [] then None else map_option (Pair i) (record_of R ''SessionMetadata'' m s)
        | [] \<Rightarrow> None))"

definition session_mapResponse :: "'s redis \<Rightarrow> 's \<Rightarrow> string list \<Rightarrow> (string \<times> json) list" where
  "session_mapResponse R s sessions = somes (map (session_metadata R s) sessions)"

definition getSessions :: "'s redis \<Rightarrow> string \<Rightarrow> 's \<Rightarrow> (string \<times> json) list" where
  "getSessions R owner s = session_mapResponse R s (adapter_getSetMembers R ''AccountSession'' owner s)"

definition cleanupSessions :: "'s redis \<Rightarrow> string \<Rightarrow> 's \<Rightarrow> 's" where
  "cleanupSessions R owner s =
     foldl (\<lambda>s i. if record_of R ''Session'' i s = None
                   then adapter_removeFromSet R ''AccountSession'' owner i (record_destroy R ''SessionMetadata'' i s)
                   else s)
       s (adapter_getSetMembers R ''AccountSession'' owner s)"

definition admin_session_ttl :: int where
  "admin_session_ttl = 3600"

definition getAdminSession :: "'s redis \<Rightarrow> string option \<Rightarrow> 's \<Rightarrow> json option" where
  "getAdminSession R cookie s = (if truthy cookie then record_of R ''AdminSession'' (tmpl cookie) s else None)"

definition setAdminSession :: "'s redis \<Rightarrow> int \<Rightarrow> json \<Rightarrow> 's \<Rightarrow> cookie_set \<times> 's" where
  "setAdminSession R ms session s =
     (let jti = str_field ''jti'' session in
      (\<lparr>ck_name = ''_admin_session'', ck_value = jti, ck_domain = None, ck_maxAge = Some (admin_session_ttl * 1000)\<rparr>,
       adapter_upsert R ms ''AdminSession'' (tmpl jti) session (Some admin_session_ttl) s))"

definition endAdminSession :: "'s redis \<Rightarrow> json option \<Rightarrow> 's \<Rightarrow> cookie_set \<times> 's" where
  "endAdminSession R session s =
     (let jti = Option.bind session (str_field ''jti'') in
      (\<lparr>ck_name = ''_admin_session'', ck_value = None, ck_domain = None, ck_maxAge = Some 0\<rparr>,
       if truthy jti then record_destroy R ''AdminSession'' (tmpl jti) s else s))"

subsection \<open>Impersonation links\<close>

datatype impersonation_error = UnknownAccount | NotImpersonable

definition impersonation_ttl :: int where
  "impersonation_ttl = 3600"

definition createImpersonation ::
  "'s redis \<Rightarrow> int \<Rightarrow> deployment \<Rightarrow> string \<Rightarrow> string \<Rightarrow> string \<Rightarrow> account option \<Rightarrow> 's
     \<Rightarrow> (impersonation_error + string) \<times> 's" where
  "createImpersonation R ms D jti actor accId acc s = (case acc of
     None \<Rightarrow> (Inl UnknownAccount, s)
   | Some a \<Rightarrow>
       if \<not> canImpersonateAccount (Some a) then (Inl NotImpersonable, s)
       else (Inr (tmpl (penv D ''ISSUER_URL'') @ ''impersonate/'' @ jti),
             adapter_upsert R ms ''Impersonation'' jti
               (JObj [(''jti'', JStr jti), (''actor'', JStr actor), (''accountId'', JStr accId),
                      (''activated'', JBool False)]) (Some impersonation_ttl) s))"

text \<open>Activation reads the link, then writes it back activated: two commands, between which
  another browser's request may run.\<close>

definition activation_read :: "'s redis \<Rightarrow> string \<Rightarrow> 's \<Rightarrow> json option" where
  "activation_read R jti s = (case record_of R ''Impersonation'' jti s of
     Some i \<Rightarrow> if js_truthy (field ''activated'' (Some i)) then None
               else Some (js_spread i [(''activated'', JBool True)])
   | None \<Rightarrow> None)"

definition activation_write :: "'s redis \<Rightarrow> int \<Rightarrow> string \<Rightarrow> json \<Rightarrow> 's \<Rightarrow> 's" where
  "activation_write R ms jti impersonation s =
     adapter_upsert R ms ''Impersonation'' jti impersonation (Some impersonation_ttl) s"

definition activateImpersonation :: "'s redis \<Rightarrow> int \<Rightarrow> string \<Rightarrow> 's \<Rightarrow> json option \<times> 's" where
  "activateImpersonation R ms jti s = (case activation_read R jti s of
     None \<Rightarrow> (None, s)
   | Some i \<Rightarrow> (Some i, activation_write R ms jti i s))"

definition getImpersonation :: "'s redis \<Rightarrow> string option \<Rightarrow> 's \<Rightarrow> json option" where
  "getImpersonation R cookie s = (if truthy cookie then record_of R ''Impersonation'' (tmpl cookie) s else None)"

definition endImpersonation :: "'s redis \<Rightarrow> string option \<Rightarrow> string option \<Rightarrow> 's \<Rightarrow> cookie_set list \<times> 's" where
  "endImpersonation R impersonation_cookie admin_cookie s =
     ([\<lparr>ck_name = ''_impersonation'', ck_value = None, ck_domain = None, ck_maxAge = None\<rparr>,
       \<lparr>ck_name = ''_session'', ck_value = admin_cookie, ck_domain = None, ck_maxAge = None\<rparr>,
       \<lparr>ck_name = ''_session.legacy'', ck_value = admin_cookie, ck_domain = None, ck_maxAge = None\<rparr>],
      record_destroy R ''Impersonation'' (tmpl impersonation_cookie) s)"

subsection \<open>Counted logs: incidents and access requests\<close>

definition incidentsEnabled :: "deployment \<Rightarrow> bool" where
  "incidentsEnabled D = (\<not> env_is D ''INCIDENTS_ENABLED'' ''false'')"

text \<open>\<open>parse_int\<close> is \<open>Number.parseInt\<close>, \<open>None\<close> for NaN.\<close>

definition incidentTtlSeconds :: "deployment \<Rightarrow> (string \<Rightarrow> int option) \<Rightarrow> int" where
  "incidentTtlSeconds D parse_int =
     (case parse_int (case penv D ''INCIDENT_TTL_SECONDS'' of Some v \<Rightarrow> v | None \<Rightarrow> []) of
        Some n \<Rightarrow> if n > 0 then n else 7 * 24 * 3600
      | None \<Rightarrow> 7 * 24 * 3600)"

text \<open>Both logs keep one record per combination: a repeat bumps the count and refreshes the
  expiry. \<open>first_key\<close> and \<open>last_key\<close> name the two time fields.\<close>

definition count_record ::
  "'s redis \<Rightarrow> int \<Rightarrow> string \<Rightarrow> string \<Rightarrow> string \<Rightarrow> string \<Rightarrow> (string \<times> json) list \<Rightarrow> int \<Rightarrow> 's \<Rightarrow> 's" where
  "count_record R ms model i first_key last_key base ttl s =
     (let existing = record_of R model i s;
          n = (case Option.bind existing (int_field ''count'') of Some c \<Rightarrow> c | None \<Rightarrow> 0);
          first = (case Option.bind existing (\<lambda>e. field first_key (Some e)) of
                     Some t \<Rightarrow> if t = JNull then JNum ms else t | None \<Rightarrow> JNum ms) in
      adapter_appendToSet R model ''index'' i
        (adapter_upsert R ms model i
          (JObj ((''id'', JStr i) # base @ [(''count'', JNum (n + 1)), (first_key, first), (last_key, JNum ms)]))
          (Some ttl) s))"

definition incident_id :: "string \<Rightarrow> string option \<Rightarrow> string option \<Rightarrow> string \<Rightarrow> string" where
  "incident_id source accId clientId failure =
     join_with '':'' [source, (case accId of Some a \<Rightarrow> a | None \<Rightarrow> ''anonymous''),
                     (case clientId of Some c \<Rightarrow> c | None \<Rightarrow> []), failure]"

definition recordIncident ::
  "'s redis \<Rightarrow> int \<Rightarrow> deployment \<Rightarrow> (string \<Rightarrow> int option) \<Rightarrow> string \<Rightarrow> string option \<Rightarrow> string option
     \<Rightarrow> string \<Rightarrow> string list option \<Rightarrow> string list option \<Rightarrow> string option \<Rightarrow> 's \<Rightarrow> 's" where
  "recordIncident R ms D parse_int source accId clientId failure allowedGroups allowedUsers ip s =
     (if \<not> incidentsEnabled D then s
      else count_record R ms ''Incident'' (incident_id source accId clientId failure)
        ''firstSeenAt'' ''lastSeenAt''
        ([(''source'', JStr source), (''accountId'', opt_str accId), (''clientId'', opt_str clientId),
          (''failure'', JStr failure),
          (''allowedGroups'', JArr (map JStr (list_or_empty allowedGroups))),
          (''allowedUsers'', JArr (map JStr (list_or_empty allowedUsers))),
          (''sourceIp'', opt_str ip)])
        (incidentTtlSeconds D parse_int) s)"

definition groupRequestsEnabled :: "deployment \<Rightarrow> bool" where
  "groupRequestsEnabled D = env_is D ''GROUP_REQUESTS_ENABLED'' ''true''"

definition canRequestAccess :: "deployment \<Rightarrow> account option \<Rightarrow> 'c client_policy_scheme option \<Rightarrow> bool" where
  "canRequestAccess D acc client =
     (if \<not> groupRequestsEnabled D then False
      else if list_or_empty (Option.bind client cl_allowedGroups) = [] then False
      else if \<not> env_is D ''GROUP_REQUESTS_REQUIRE_EXISTING_GROUP'' ''false''
              \<and> (case acc of Some a \<Rightarrow> groups a = [] | None \<Rightarrow> True) then False
      else True)"

definition recordAccessRequest ::
  "'s redis \<Rightarrow> int \<Rightarrow> deployment \<Rightarrow> (string \<Rightarrow> int option) \<Rightarrow> string \<Rightarrow> string \<Rightarrow> string list option \<Rightarrow> 's \<Rightarrow> 's" where
  "recordAccessRequest R ms D parse_int accId clientId allowedGroups s =
     count_record R ms ''AccessRequest'' (accId @ '':'' @ clientId) ''firstRequestedAt'' ''lastRequestedAt''
       [(''accountId'', JStr accId), (''clientId'', JStr clientId),
        (''allowedGroups'', JArr (map JStr (list_or_empty allowedGroups)))]
       (incidentTtlSeconds D parse_int) s"

definition list_limit :: nat where
  "list_limit = 100"

definition list_step :: "'s redis \<Rightarrow> string \<Rightarrow> json list \<times> 's \<Rightarrow> string \<Rightarrow> json list \<times> 's" where
  "list_step R model acc i = (case record_of R model i (snd acc) of
     Some r \<Rightarrow> (fst acc @ [r], snd acc)
   | None \<Rightarrow> (fst acc, adapter_removeFromSet R model ''index'' i (snd acc)))"

definition num_or_zero :: "int option \<Rightarrow> int" where
  "num_or_zero n = (case n of Some k \<Rightarrow> k | None \<Rightarrow> 0)"

definition list_records :: "'s redis \<Rightarrow> string \<Rightarrow> string \<Rightarrow> 's \<Rightarrow> json list \<times> 's" where
  "list_records R model last_key s =
     (let (found, s') = foldl (list_step R model) ([], s) (adapter_getSetMembers R model ''index'' s) in
      (take list_limit
        (js_sort (\<lambda>a b. num_or_zero (int_field last_key b) - num_or_zero (int_field last_key a)) found), s'))"

definition listIncidents :: "'s redis \<Rightarrow> 's \<Rightarrow> json list \<times> 's" where
  "listIncidents R s = list_records R ''Incident'' ''lastSeenAt'' s"

definition listAccessRequests :: "'s redis \<Rightarrow> 's \<Rightarrow> json list \<times> 's" where
  "listAccessRequests R s = list_records R ''AccessRequest'' ''lastRequestedAt'' s"

definition dismissAccessRequest :: "'s redis \<Rightarrow> string \<Rightarrow> 's \<Rightarrow> 's" where
  "dismissAccessRequest R i s = adapter_removeFromSet R ''AccessRequest'' ''index'' i (record_destroy R ''AccessRequest'' i s)"

subsection \<open>WebAuthn challenges\<close>

definition challenge_ttl :: int where
  "challenge_ttl = 60"

definition challenge_store :: "'s redis \<Rightarrow> int \<Rightarrow> string \<Rightarrow> string \<Rightarrow> 's \<Rightarrow> 's" where
  "challenge_store R ms key challenge s =
     adapter_upsert R ms ''WebAuthnChallenge'' key (JObj [(''challenge'', JStr challenge)]) (Some challenge_ttl) s"

definition challenge_get :: "'s redis \<Rightarrow> string \<Rightarrow> 's \<Rightarrow> string option" where
  "challenge_get R key s = Option.bind (record_of R ''WebAuthnChallenge'' key s) (str_field ''challenge'')"

definition challenge_remove :: "'s redis \<Rightarrow> string \<Rightarrow> 's \<Rightarrow> 's" where
  "challenge_remove R key s = record_destroy R ''WebAuthnChallenge'' key s"

subsection \<open>Bearer tokens\<close>

text \<open>\<open>opaque\<close> and \<open>jwt\<close> are the two lookups of a token: the provider's, and the verification
  of a self-contained token; each gives the account and the scope.\<close>

record bearer_token =
  bt_accountId :: string
  bt_scope :: "string option"

definition accountFromBearer ::
  "(string \<Rightarrow> bearer_token option) \<Rightarrow> (string \<Rightarrow> bearer_token option) \<Rightarrow> (string \<Rightarrow> account option)
     \<Rightarrow> string option \<Rightarrow> string option \<Rightarrow> nat + (account \<times> string list)" where
  "accountFromBearer opaque jwt findAccount header requiredScope =
     (let parts = split_on CHR '' '' (case header of Some h \<Rightarrow> h | None \<Rightarrow> []) in
      case parts of
        scheme # token # _ \<Rightarrow>
          if scheme \<noteq> ''Bearer'' \<or> token = [] then Inl 401
          else (case coalesce (opaque token) (jwt token) of
            None \<Rightarrow> Inl 401
          | Some t \<Rightarrow>
              (let scopes = uniq (filter (\<lambda>x. x \<noteq> []) (split_on CHR '' '' (case bt_scope t of Some x \<Rightarrow> x | None \<Rightarrow> []))) in
               if truthy requiredScope \<and> tmpl requiredScope \<notin> set scopes then Inl 403
               else let acc = findAccount (bt_accountId t) in
                 if getAccountTypeAccessFailure False acc \<noteq> None then Inl 401
                 else (case acc of Some a \<Rightarrow> Inr (a, scopes) | None \<Rightarrow> Inl 401)))
      | _ \<Rightarrow> Inl 401)"

subsection \<open>Lemmas\<close>

lemma plain_models [simp]:
  "plain_name ''SiteSession''" "plain_name ''Session''" "plain_name ''Impersonation''"
  "plain_name ''Incident''" "plain_name ''AccessRequest''" "plain_name ''AdminSession''"
  "plain_name ''WebAuthnChallenge''" "plain_name ''SessionMetadata''"
  by (simp_all add: plain_name_def colon_free_def consumable_def set_names_def)

lemma ok_ttl_simps [simp]: "ok_ttl None" "ok_ttl (Some t) \<longleftrightarrow> 0 \<le> t"
  by (simp_all add: ok_ttl_def)

lemma site_session_record_fields [simp]:
  "str_field ''jti'' (site_session_record jti sid own sc ip) = Some jti"
  "field ''sessionId'' (Some (site_session_record jti sid own sc ip)) = map_option JStr sid"
  "field ''domain'' (Some (site_session_record jti sid own sc ip)) = Some (JStr sc)"
  "str_field ''ip'' (site_session_record jti sid own sc ip) = ip"
  "str_field ''sessionId'' (site_session_record jti sid own sc ip) = sid"
  by (simp_all add: site_session_record_def str_field_def split: option.split)

context redis_server
begin

lemmas look_put = records.look_put
lemmas look_drop = records.look_drop

text \<open>An operation on a set key leaves the plain records alone.\<close>

lemma look_set_op:
  assumes "plain_name n" "set_key = redis_key m i" "m \<in> List.set set_names \<or> (m = n \<and> i \<noteq> j) \<or> (colon_free m \<and> m \<noteq> n)"
  shows "record_of R n j (rd_sadd R set_key x s) = record_of R n j s"
    "record_of R n j (rd_srem R set_key x s) = record_of R n j s"
proof -
  have "set_key \<noteq> redis_key n j"
    using assms plain_nameD [OF assms(1)]
    by (cases "m \<in> List.set set_names") (auto simp: set_names_def colon_free_def)
  then show "record_of R n j (rd_sadd R set_key x s) = record_of R n j s"
    "record_of R n j (rd_srem R set_key x s) = record_of R n j s"
    using plain_nameD(2) [OF assms(1)] by (simp_all add: record_of_view view_other)
qed

end

subsection \<open>Properties of site sessions\<close>

text \<open>
  A site session opens exactly what it was issued for. After \<^verbatim>\<open>addSiteSession\<close> for one
  client, presenting its cookie for a client (the same or another) succeeds if and only if both
  clients share the session's scope (the dashboard's host is not the scope of forward-auth), the
  provider session behind it still exists and, once that session lists authorizations, lists
  that client, and with address binding on the request comes from the address it was issued to.
  A request from another address also destroys the session, so it no longer validates at all.
\<close>

theorem site_session_opens_its_scope:
  assumes "redis_server R" and "sid \<noteq> []"
    and "addSiteSession R ms P jti (Some sid) own client ip s = (cookies, rec, s')"
  shows "fst (validateSiteSession R D P client' (Some jti) ip' s') =
      (if env_is D ''SITE_SESSION_IP_BINDING'' ''true'' \<and> ip \<noteq> ip' then None
       else case record_of R ''Session'' sid s of
         None \<Rightarrow> None
       | Some base \<Rightarrow>
           if getSiteSessionScope P client' = getSiteSessionScope P client
              \<and> (if js_truthy (field ''authorizations'' (Some base))
                 then js_truthy (field client' (field ''authorizations'' (Some base))) else js_truthy (Some base))
           then Some rec else None)
    \<and> (env_is D ''SITE_SESSION_IP_BINDING'' ''true'' \<and> ip \<noteq> ip' \<longrightarrow>
         record_of R ''SiteSession'' jti (snd (validateSiteSession R D P client' (Some jti) ip' s')) = None)"
proof -
  note laws = assms(1)
  have s': "s' = adapter_upsert R ms ''SiteSession'' jti rec (Some site_session_ttl) s"
    and rec: "rec = site_session_record jti (Some sid) own (getSiteSessionScope P client) ip"
    using assms(3) by (auto simp: addSiteSession_def Let_def)
  have ss: "record_of R ''SiteSession'' jti s' = Some rec"
    "record_of R ''Session'' sid s' = record_of R ''Session'' sid s"
    by (simp_all add: s' redis_server.look_put [OF laws] site_session_ttl_def)
  have gone: "record_of R ''SiteSession'' jti (record_destroy R ''SiteSession'' jti s') = None"
    by (simp add: redis_server.look_drop [OF laws])
  have truthy_sid: "js_truthy (Some (JStr sid))" using assms(2) by (simp add: js_truthy_def)
  show ?thesis
  proof (cases "env_is D ''SITE_SESSION_IP_BINDING'' ''true'' \<and> ip \<noteq> ip'")
    case True
    then show ?thesis
      by (simp add: validateSiteSession_def ss(1) siteSessionIpMismatch_def rec [symmetric] gone)
        (simp add: rec gone)
  next
    case False
    then have "\<not> siteSessionIpMismatch D rec ip'" by (simp add: siteSessionIpMismatch_def rec)
    moreover have "field ''sessionId'' (Some rec) = Some (JStr sid)" "str_field ''sessionId'' rec = Some sid"
      "field ''domain'' (Some rec) = Some (JStr (getSiteSessionScope P client))"
      by (simp_all add: rec)
    ultimately show ?thesis using False truthy_sid
      by (cases "record_of R ''Session'' sid s")
        (auto simp: validateSiteSession_def ss Let_def js_truthy_def [of None])
  qed
qed

text \<open>Rewriting one listed reference.\<close>

lemma move_reference_look:
  assumes "redis_server R"
  shows "record_of R ''SiteSession'' j (move_reference R ms new old s i) =
    (case record_of R ''SiteSession'' i s of
       Some r \<Rightarrow> if i = j \<and> field ''sessionId'' (Some r) = Some (JStr old)
                then Some (js_spread r [(''sessionId'', JStr new)]) else record_of R ''SiteSession'' j s
     | None \<Rightarrow> record_of R ''SiteSession'' j s)"
  by (auto simp: move_reference_def redis_server.look_put [OF assms] split: option.split)

lemma js_spread_field [simp]: "field k (Some (js_spread r [(k, v)])) = Some v"
  by (simp add: js_spread_def js_assign_def update_conv')

lemma move_reference_view:
  assumes "redis_server R"
  shows "rd_view R (move_reference R ms new old s i) (redis_key ''SiteSession'' j) =
    (case record_of R ''SiteSession'' i s of
       Some r \<Rightarrow> if i = j \<and> field ''sessionId'' (Some r) = Some (JStr old)
                then Some (RStr (js_spread r [(''sessionId'', JStr new)]), None)
                else rd_view R s (redis_key ''SiteSession'' j)
     | None \<Rightarrow> rd_view R s (redis_key ''SiteSession'' j))"
  by (auto simp: move_reference_def redis_server.view_plain_upsert [OF assms]
      redis_server.stored_view_def [OF assms] split: option.split)

lemma move_references_view:
  assumes laws: "redis_server R" and ne: "new \<noteq> old"
  shows "rd_view R (foldl (move_reference R ms new old) s is) (redis_key ''SiteSession'' j) =
    (case record_of R ''SiteSession'' j s of
       Some r \<Rightarrow> if j \<in> set is \<and> field ''sessionId'' (Some r) = Some (JStr old)
                then Some (RStr (js_spread r [(''sessionId'', JStr new)]), None)
                else rd_view R s (redis_key ''SiteSession'' j)
     | None \<Rightarrow> rd_view R s (redis_key ''SiteSession'' j))"
proof (induction "is" arbitrary: s)
  case Nil
  then show ?case by (simp split: option.split)
next
  case (Cons i "is")
  show ?case
    by (auto simp: Cons.IH move_reference_look [OF laws] move_reference_view [OF laws] ne
        split: option.split)
qed

text \<open>
  When the provider moves a session to a new identifier, every site session of the account
  that referred to the old one refers to the new one afterwards, all its other fields kept, and
  no other site session changes. The rewritten records also lose their expiry: each is stored
  without one, so it outlives the hour it was issued for.
\<close>

theorem session_rotation_rewrites_references:
  assumes "redis_server R" and "new \<noteq> old"
  shows "record_of R ''SiteSession'' j (updateSessionReference R ms new old own s) =
      (case record_of R ''SiteSession'' j s of
         None \<Rightarrow> None
       | Some r \<Rightarrow>
           if j \<in> set (adapter_getSetMembers R ''AccountSiteSession'' own s)
              \<and> field ''sessionId'' (Some r) = Some (JStr old)
           then Some (js_spread r [(''sessionId'', JStr new)]) else Some r)
    \<and> (\<forall>r. record_of R ''SiteSession'' j s = Some r
         \<and> j \<in> set (adapter_getSetMembers R ''AccountSiteSession'' own s)
         \<and> field ''sessionId'' (Some r) = Some (JStr old) \<longrightarrow>
         expiry_of (rd_view R (updateSessionReference R ms new old own s) (redis_key ''SiteSession'' j)) = None)"
proof -
  note laws = assms(1)
  have view: "record_of R ''SiteSession'' j s = as_str (rd_view R s (redis_key ''SiteSession'' j))" for s
    by (rule redis_server.record_of_view [OF laws]) (simp add: consumable_def)
  show ?thesis
    unfolding updateSessionReference_def view [of "foldl _ _ _"]
    using move_references_view [OF assms, of ms s _ j] view [of s]
    by (auto simp: expiry_of_def as_str_def split: option.split)
qed

text \<open>A site session on the in-memory server, rotated; its expiry is gone.\<close>

definition demo_domain :: provider_domain where
  "demo_domain = \<lparr>pd_base = ''example.com'', pd_hostname = ''auth.example.com''\<rparr>"

definition demo_base_session :: json where
  "demo_base_session = JObj [(''accountId'', JStr ''ann''), (''uid'', JStr ''u1''),
     (''authorizations'', JObj [(''middleware-apps.wiki'', JObj [])])]"

definition demo_sessions :: mem where
  "demo_sessions = adapter_upsert mem_redis 0 ''Session'' ''s1'' demo_base_session (Some 1209600) mem_empty"

definition demo_site_store :: mem where
  "demo_site_store = snd (snd (addSiteSession mem_redis 0 demo_domain ''c1'' (Some ''s1'') ''ann''
     ''middleware-apps.wiki'' (Some ''10.0.0.1'') demo_sessions))"

theorem site_session_opens_its_scope_witness:
  "fst (validateSiteSession mem_redis demo demo_domain ''middleware-apps.wiki'' (Some ''c1'') (Some ''10.0.0.1'')
      demo_site_store) = Some (site_session_record ''c1'' (Some ''s1'') ''ann'' ''example.com'' (Some ''10.0.0.1''))"
proof -
  let ?add = "addSiteSession mem_redis 0 demo_domain ''c1'' (Some ''s1'') ''ann'' ''middleware-apps.wiki''
     (Some ''10.0.0.1'') demo_sessions"
  have sid: "''s1'' \<noteq> []" by simp
  have rec: "fst (snd ?add) = site_session_record ''c1'' (Some ''s1'') ''ann'' ''example.com'' (Some ''10.0.0.1'')"
    by (simp add: addSiteSession_def Let_def getSiteSessionScope_def getSiteSessionCookieDomain_def
        selfClientId_def demo_domain_def)
  have e: "?add = (fst ?add, site_session_record ''c1'' (Some ''s1'') ''ann'' ''example.com'' (Some ''10.0.0.1''), demo_site_store)"
    unfolding demo_site_store_def rec [symmetric] by simp
  have base: "record_of mem_redis ''Session'' ''s1'' demo_sessions = Some demo_base_session"
    by code_simp
  from site_session_opens_its_scope [OF mem_server.redis_server_axioms sid e, of demo "''middleware-apps.wiki''" "Some ''10.0.0.1''"]
  show ?thesis
    by (simp add: base demo_base_session_def js_truthy_def)
qed

theorem session_rotation_rewrites_references_witness:
  "expiry_of (rd_view mem_redis demo_site_store (redis_key ''SiteSession'' ''c1'')) = Some 3600
   \<and> expiry_of (rd_view mem_redis (updateSessionReference mem_redis 0 ''s2'' ''s1'' ''ann'' demo_site_store)
        (redis_key ''SiteSession'' ''c1'')) = None"
proof -
  have r: "record_of mem_redis ''SiteSession'' ''c1'' demo_site_store
      = Some (site_session_record ''c1'' (Some ''s1'') ''ann'' ''example.com'' (Some ''10.0.0.1''))"
    "''c1'' \<in> set (adapter_getSetMembers mem_redis ''AccountSiteSession'' ''ann'' demo_site_store)"
    "expiry_of (rd_view mem_redis demo_site_store (redis_key ''SiteSession'' ''c1'')) = Some 3600"
    by code_simp+
  have ne: "''s2'' \<noteq> ''s1''" by simp
  from conjunct2 [OF session_rotation_rewrites_references [OF mem_server.redis_server_axioms ne,
        of "''c1''" 0 "''ann''" demo_site_store]] r
  show ?thesis by simp
qed

subsection \<open>Impersonation links\<close>

text \<open>Browsers opening one link: each reads it and, if it may, writes it back activated. The
  state is the store, the requests that have read it and not yet written, and the number of
  activations granted so far.\<close>

inductive opens :: "'s redis \<Rightarrow> string \<Rightarrow> 's \<times> json list \<times> nat \<Rightarrow> 's \<times> json list \<times> nat \<Rightarrow> bool" for R jti where
  open_start: "opens R jti c c"
| open_read: "opens R jti c (s, pending, n) \<Longrightarrow> activation_read R jti s = Some i \<Longrightarrow>
     opens R jti c (s, pending @ [i], n)"
| open_write: "opens R jti c (s, i # pending, n) \<Longrightarrow>
     opens R jti c (activation_write R ms jti i s, pending, Suc n)"

lemma activation_write_read:
  assumes "redis_server R"
  shows "field ''activated'' (Some i) = Some (JBool True) \<Longrightarrow> activation_read R jti (activation_write R ms jti i s) = None"
  by (simp add: activation_read_def activation_write_def redis_server.look_put [OF assms]
      impersonation_ttl_def js_truthy_def)

lemma activation_read_activated: "activation_read R jti s = Some i \<Longrightarrow> field ''activated'' (Some i) = Some (JBool True)"
  by (auto simp: activation_read_def split: option.splits if_splits)

text \<open>
  A link that has been activated is spent: every later request for it is refused, and a
  link is only ever created for an account that may be impersonated. The rule is enforced by a
  read followed by a write, so it does not hold for requests that overlap: from any link not
  yet activated, two browsers opening it at once are both granted the impersonation.
\<close>

theorem impersonation_link_use:
  assumes "redis_server R"
  shows "(activateImpersonation R ms jti s = (Some i, s') \<longrightarrow>
            activateImpersonation R ms' jti s' = (None, s'))
    \<and> (createImpersonation R ms D jti actor target acc s = (Inr link, s'') \<longrightarrow>
            (\<exists>a. acc = Some a \<and> account_type a \<in> {None, Some ''person'', Some ''service''}
               \<and> activation_read R jti s'' \<noteq> None))
    \<and> (activation_read R jti s \<noteq> None \<longrightarrow> (\<exists>s'. opens R jti (s, [], 0) (s', [], 2)))"
proof (intro conjI impI)
  assume "activateImpersonation R ms jti s = (Some i, s')"
  then have "activation_read R jti s = Some i" "s' = activation_write R ms jti i s"
    by (auto simp: activateImpersonation_def split: option.splits)
  then show "activateImpersonation R ms' jti s' = (None, s')"
    by (simp add: activateImpersonation_def activation_write_read [OF assms] activation_read_activated)
next
  assume "createImpersonation R ms D jti actor target acc s = (Inr link, s'')"
  then obtain a where a: "acc = Some a" "canImpersonateAccount (Some a)"
    and s'': "s'' = adapter_upsert R ms ''Impersonation'' jti
               (JObj [(''jti'', JStr jti), (''actor'', JStr actor), (''accountId'', JStr target),
                      (''activated'', JBool False)]) (Some impersonation_ttl) s"
    by (auto simp: createImpersonation_def split: option.splits if_splits)
  have "activation_read R jti s'' \<noteq> None"
    by (simp add: activation_read_def s'' redis_server.look_put [OF assms] impersonation_ttl_def js_truthy_def)
  with a show "\<exists>a. acc = Some a \<and> account_type a \<in> {None, Some ''person'', Some ''service''}
       \<and> activation_read R jti s'' \<noteq> None"
    by (auto simp: canImpersonateAccount_def type_failure_None_iff)
next
  assume "activation_read R jti s \<noteq> None"
  then obtain i where i: "activation_read R jti s = Some i" by blast
  have "opens R jti (s, [], 0) (s, [i, i], 0)"
    using open_read [OF open_read [OF open_start i] i, of "[]"] by simp
  from open_write [OF open_write [OF this]]
  show "\<exists>s'. opens R jti (s, [], 0) (s', [], 2)" by (auto simp: numeral_2_eq_2)
qed

theorem impersonation_link_use_witness:
  "\<exists>s'. opens mem_redis ''l1'' (snd (createImpersonation mem_redis 0 demo ''l1'' ''root'' ''ann''
        (Some (demo_account ''ann'' 1 ''a@x'')) mem_empty), [], 0) (s', [], 2)"
proof -
  let ?s = "snd (createImpersonation mem_redis 0 demo ''l1'' ''root'' ''ann''
        (Some (demo_account ''ann'' 1 ''a@x'')) mem_empty)"
  have "activation_read mem_redis ''l1'' ?s \<noteq> None" by code_simp
  with conjunct2 [OF conjunct2 [OF impersonation_link_use [OF mem_server.redis_server_axioms]]]
  show ?thesis by blast
qed

subsection \<open>The counted logs\<close>

lemma incidentTtl_pos: "0 < incidentTtlSeconds D pi"
  by (simp add: incidentTtlSeconds_def split: option.split)

lemma incident_id_not_index: "incident_id source own cl failure \<noteq> ''index''"
proof -
  have "CHR '':'' \<in> set (incident_id source own cl failure)" by (simp add: incident_id_def)
  then show ?thesis by auto
qed

lemma count_record_look:
  assumes "redis_server R" "plain_name model" "i \<noteq> ''index''" "0 \<le> ttl"
  shows "record_of R model i (count_record R ms model i fk lk base ttl s) =
    Some (JObj ((''id'', JStr i) # base @
      [(''count'', JNum ((case Option.bind (record_of R model i s) (int_field ''count'') of Some c \<Rightarrow> c | None \<Rightarrow> 0) + 1)),
       (fk, case Option.bind (record_of R model i s) (\<lambda>e. field fk (Some e)) of
              Some t \<Rightarrow> if t = JNull then JNum ms else t | None \<Rightarrow> JNum ms),
       (lk, JNum ms)]))"
proof -
  have "record_of R model i (rd_sadd R (redis_key model ''index'') i s') = record_of R model i s'" for s'
    using redis_server.look_set_op(1) [OF assms(1,2) refl, of model "''index''" i] assms(3) by auto
  then show ?thesis
    by (simp add: count_record_def adapter_appendToSet_def Let_def redis_server.look_put [OF assms(1)] assms(2,4))
qed

lemma count_record_indexed:
  assumes "redis_server R" "plain_name model"
  shows "i \<in> set (adapter_getSetMembers R model ''index'' (count_record R ms model i fk lk base ttl s))"
  by (simp add: count_record_def adapter_appendToSet_def adapter_getSetMembers_def Let_def
      redis_server.smembers [OF assms(1)] redis_server.sadd [OF assms(1)] as_set_def)

text \<open>What one incident's record says about the occurrences so far.\<close>

definition tallies :: "int list \<Rightarrow> json option \<Rightarrow> bool" where
  "tallies ts r = (case r of
     None \<Rightarrow> ts = []
   | Some v \<Rightarrow> ts \<noteq> [] \<and> int_field ''count'' v = Some (int (length ts))
       \<and> field ''firstSeenAt'' (Some v) = Some (JNum (hd ts))
       \<and> field ''lastSeenAt'' (Some v) = Some (JNum (last ts)))"

lemma recordIncident_tallies:
  assumes "redis_server R" "incidentsEnabled D"
    and "tallies ts (record_of R ''Incident'' (incident_id src own cl fl) s)"
  shows "tallies (ts @ [t]) (record_of R ''Incident'' (incident_id src own cl fl)
           (recordIncident R t D pi src own cl fl ag au ip s))"
proof -
  let ?old = "record_of R ''Incident'' (incident_id src own cl fl) s"
  have old: "(case Option.bind ?old (int_field ''count'') of Some c \<Rightarrow> c | None \<Rightarrow> 0) = int (length ts)"
    "(case Option.bind ?old (\<lambda>e. field ''firstSeenAt'' (Some e)) of
       Some x \<Rightarrow> if x = JNull then JNum t else x | None \<Rightarrow> JNum t) = JNum (hd (ts @ [t]))"
    using assms(3) by (auto simp: tallies_def split: option.splits)
  show ?thesis
    using count_record_look [OF assms(1) _ incident_id_not_index [of src own cl fl] less_imp_le [OF incidentTtl_pos],
        of "''Incident''"] assms(2)
    by (simp add: recordIncident_def old tallies_def int_field_def)
qed

text \<open>
  The incident log counts. However often one account is refused one client for one reason,
  there is one record for it, whose count is the number of occurrences, whose first time is that
  of the first and whose last time is that of the last, and it is on the list the administrator
  reads; with the log switched off nothing is written.
\<close>

theorem incidents_counted:
  assumes "redis_server R" and "incidentsEnabled D" and "ts \<noteq> []"
    and "record_of R ''Incident'' (incident_id src own cl fl) s = None"
    and "s' = foldl (\<lambda>s t. recordIncident R t D pi src own cl fl ag au ip s) s ts"
  shows "\<exists>r. record_of R ''Incident'' (incident_id src own cl fl) s' = Some r
    \<and> int_field ''count'' r = Some (int (length ts))
    \<and> field ''firstSeenAt'' (Some r) = Some (JNum (hd ts))
    \<and> field ''lastSeenAt'' (Some r) = Some (JNum (last ts))
    \<and> incident_id src own cl fl \<in> set (adapter_getSetMembers R ''Incident'' ''index'' s')"
proof -
  let ?run = "foldl (\<lambda>s t. recordIncident R t D pi src own cl fl ag au ip s) s"
  have "tallies ts (record_of R ''Incident'' (incident_id src own cl fl) (?run ts))" for ts
  proof (induction ts rule: rev_induct)
    case Nil
    then show ?case using assms(4) by (simp add: tallies_def)
  next
    case (snoc t ts)
    then show ?case using recordIncident_tallies [OF assms(1,2) snoc.IH] by simp
  qed
  from this [of ts] have t: "tallies ts (record_of R ''Incident'' (incident_id src own cl fl) s')"
    by (simp add: assms(5))
  have "incident_id src own cl fl \<in> set (adapter_getSetMembers R ''Incident'' ''index'' s')"
    using assms(3) unfolding assms(5)
    by (cases ts rule: rev_cases) (simp_all add: recordIncident_def assms(2) count_record_indexed [OF assms(1)])
  with t assms(3) show ?thesis by (auto simp: tallies_def split: option.splits)
qed

theorem incidents_counted_witness:
  "\<exists>r. record_of mem_redis ''Incident'' (incident_id ''forward-auth'' None (Some ''wiki'') ''tos_required'')
        (recordIncident mem_redis 9 demo (\<lambda>_. None) ''forward-auth'' None (Some ''wiki'') ''tos_required'' None None None
          (recordIncident mem_redis 4 demo (\<lambda>_. None) ''forward-auth'' None (Some ''wiki'') ''tos_required'' None None None
            mem_empty)) = Some r
      \<and> int_field ''count'' r = Some 2"
proof -
  have en: "incidentsEnabled demo" by (simp add: incidentsEnabled_def env_is_def demo_def demo_env_def)
  have ne: "[4, 9 :: int] \<noteq> []" by simp
  have none: "record_of mem_redis ''Incident'' (incident_id ''forward-auth'' None (Some ''wiki'') ''tos_required'') mem_empty = None"
    by code_simp
  from incidents_counted [OF mem_server.redis_server_axioms en ne none refl, of "\<lambda>_. None" None None None]
  show ?thesis by auto
qed

end
