(* ===== verification/Usernames.thy ===== *)
theory Usernames
  imports Sessions
begin

text \<open>
  What a user may be called and what a form may hold: the username rules
  (\<^verbatim>\<open>src/utils/user/username.js\<close>, \<^verbatim>\<open>username-blacklist.js\<close>) and the request
  validation chains (\<^verbatim>\<open>src/utils/session/validator.js\<close>). The string predicates of the
  \<open>validator\<close> package are a parameter.
\<close>

subsection \<open>String predicates\<close>

record string_checks =
  vl_isLength :: "nat \<Rightarrow> nat \<Rightarrow> string \<Rightarrow> bool"
  vl_isAlphanumeric :: "string \<Rightarrow> bool"
  vl_isLowercase :: "string \<Rightarrow> bool"
  vl_isEmail :: "string \<Rightarrow> bool"

definition ascii_alnum :: "char \<Rightarrow> bool" where
  "ascii_alnum c = (ascii_alpha c \<or> ascii_digit c)"

text \<open>The documented meaning of the three predicates the username rules use.\<close>

definition checks_documented :: "string_checks \<Rightarrow> bool" where
  "checks_documented V =
     ((\<forall>a b s. list_all ascii_alnum s \<longrightarrow> (vl_isLength V a b s \<longleftrightarrow> a \<le> length s \<and> length s \<le> b))
      \<and> (\<forall>s. vl_isAlphanumeric V s \<longleftrightarrow> s \<noteq> [] \<and> list_all ascii_alnum s)
      \<and> (\<forall>s. vl_isLowercase V s \<longleftrightarrow> to_lower s = s))"

subsection \<open>Usernames\<close>

definition blacklist :: "string list" where
  "blacklist = [
    ''admin'', ''adm'', ''_apt'', ''audio'', ''avahi'', ''avahi-autoipd'', ''backup'', ''bin'',
    ''bluetooth'', ''cdrom'', ''colord'', ''crontab'', ''cups-pk-helper'', ''daemon'',
    ''debian-tor'', ''dialout'', ''dip'', ''disk'', ''dnsmasq'', ''docker'', ''fax'',
    ''_flatpak'', ''floppy'', ''freerad'', ''games'', ''gdm'', ''geoclue'', ''gnats'',
    ''gnome-initial-setup'', ''hplip'', ''input'', ''iocard'', ''irc'', ''kernoops'', ''kmem'',
    ''kvm'', ''lauri'', ''lightdm'', ''libvirt'', ''libvirt-dnsmasq'', ''libvirt-qemu'',
    ''list'', ''lp'', ''lpadmin'', ''lxc-dnsmasq'', ''mail'', ''man'', ''messagebus'',
    ''minidlna'', ''mlocate'', ''mopidy'', ''mpd'', ''netdev'', ''news'', ''nm-openvpn'',
    ''nobody'', ''nogroup'', ''operator'', ''plugdev'', ''proxy'', ''pulse'', ''pulse-access'',
    ''rdma'', ''redis'', ''render'', ''root'', ''_rpc'', ''rtkit'', ''sambashare'', ''saned'',
    ''sasl'', ''scanner'', ''shadow'', ''speech-dispatcher'', ''src'', ''ssh'', ''sshd'',
    ''ssl-cert'', ''staff'', ''statd'', ''sudo'', ''sunxi-fel'', ''sync'', ''sys'', ''syslog'',
    ''systemd-coredump'', ''systemd-journal'', ''systemd-network'', ''systemd-resolve'',
    ''systemd-timesync'', ''tape'', ''tcpdump'', ''tss'', ''tty'', ''usbmux'', ''users'',
    ''usrp'', ''utmp'', ''uucp'', ''uuidd'', ''vboxusers'', ''video'', ''voice'', ''wheel'',
    ''whoopsie'', ''www-data'', ''administrator'', ''guest'', ''null'']"

definition usernameBlacklist :: "string option \<Rightarrow> bool" where
  "usernameBlacklist value = (case value of None \<Rightarrow> True | Some v \<Rightarrow> v \<notin> set blacklist)"

record username_rule =
  ur_test :: "string option \<Rightarrow> bool"
  ur_message :: string

definition str_of :: "string option \<Rightarrow> string" where
  "str_of v = (case v of Some s \<Rightarrow> s | None \<Rightarrow> [])"

definition starts_lower :: "string \<Rightarrow> bool" where
  "starts_lower s = (case s of c # _ \<Rightarrow> is_lower c | [] \<Rightarrow> False)"

definition USERNAME_RULES :: "string_checks \<Rightarrow> username_rule list" where
  "USERNAME_RULES V =
     [\<lparr>ur_test = (\<lambda>v. vl_isLength V 3 15 (str_of v)), ur_message = ''Username must be 3-15 characters''\<rparr>,
      \<lparr>ur_test = (\<lambda>v. vl_isAlphanumeric V (str_of v)), ur_message = ''Username must be alphanumeric''\<rparr>,
      \<lparr>ur_test = usernameBlacklist, ur_message = ''Prohibited username''\<rparr>,
      \<lparr>ur_test = (\<lambda>v. starts_lower (str_of v)), ur_message = ''Username must start with a letter''\<rparr>,
      \<lparr>ur_test = (\<lambda>v. vl_isLowercase V (str_of v)), ur_message = ''Username must be lowercase''\<rparr>]"

definition isUsernameValid :: "string_checks \<Rightarrow> string option \<Rightarrow> bool" where
  "isUsernameValid V value = (if \<not> truthy value then False else list_all (\<lambda>r. ur_test r value) (USERNAME_RULES V))"

definition isUsernameAvailable :: "(string \<Rightarrow> account option) \<Rightarrow> string option \<Rightarrow> bool" where
  "isUsernameAvailable findAccount value = (if \<not> truthy value then False else findAccount (tmpl value) = None)"

definition sanitizeUsername :: "string option \<Rightarrow> string option" where
  "sanitizeUsername raw =
     (if \<not> truthy raw then None
      else
        (let lowered = hd (split_on CHR ''@'' (to_lower (tmpl raw)));
             kept = filter (\<lambda>c. is_lower c \<or> ascii_digit c) lowered;
             sanitized = take 15 (dropWhile ascii_digit kept) in
         if sanitized = [] then None else Some sanitized))"

subsection \<open>Validation chains\<close>

text \<open>The lookups the asynchronous checks make. A lookup by address can fail on an integrity
  conflict (\<open>Inl\<close>), which counts as taken.\<close>

record form_env =
  fe_deployment :: deployment
  fe_checks :: string_checks
  fe_findAccount :: "string \<Rightarrow> account option"
  fe_findByEmail :: "string \<Rightarrow> unit + account option"

datatype vcheck =
    CkLength nat nat | CkAlphanumeric | CkEmail | CkLowercase | CkCustom "string option \<Rightarrow> bool"
  | CkStartsWithLetter | CkBlackListed | CkUsernameExists | CkUsernameNotExists | CkEmailExists
  | CkValidName | CkValidCompanyName | CkDisableFrontendEdit

definition isSafeDisplayName :: "string option \<Rightarrow> bool" where
  "isSafeDisplayName value = list_all
     (\<lambda>c. c \<noteq> CHR ''<'' \<and> c \<noteq> CHR ''>'' \<and> 31 < (of_char c :: nat) \<and> (of_char c :: nat) \<noteq> 127) (str_of value)"

fun run_check :: "form_env \<Rightarrow> string option \<Rightarrow> vcheck \<Rightarrow> bool" where
  "run_check E v (CkLength a b) = vl_isLength (fe_checks E) a b (str_of v)"
| "run_check E v CkAlphanumeric = vl_isAlphanumeric (fe_checks E) (str_of v)"
| "run_check E v CkEmail = vl_isEmail (fe_checks E) (str_of v)"
| "run_check E v CkLowercase = vl_isLowercase (fe_checks E) (str_of v)"
| "run_check E v (CkCustom f) = f v"
| "run_check E v CkStartsWithLetter = starts_lower (tmpl v)"
| "run_check E v CkBlackListed = usernameBlacklist v"
| "run_check E v CkUsernameExists = (if \<not> truthy v then True else fe_findAccount E (tmpl v) = None)"
| "run_check E v CkUsernameNotExists = (if \<not> truthy v then True else fe_findAccount E (tmpl v) \<noteq> None)"
| "run_check E v CkEmailExists = (if \<not> truthy v then True
     else case fe_findByEmail E (tmpl v) of Inr u \<Rightarrow> u = None | Inl _ \<Rightarrow> False)"
| "run_check E v CkValidName = isSafeDisplayName v"
| "run_check E v CkValidCompanyName = isSafeDisplayName v"
| "run_check E v CkDisableFrontendEdit = (\<not> env_is (fe_deployment E) ''DISABLE_FRONTEND_EDIT'' ''true'')"

record validation_chain =
  vc_value :: "string option"
  vc_field :: string
  vc_message :: string
  vc_skip :: bool
  vc_checks :: "vcheck list"

record validation_error =
  ve_param :: string
  ve_msg :: string
  ve_value :: "string option"

definition new_chain :: "string option \<Rightarrow> string \<Rightarrow> string \<Rightarrow> validation_chain" where
  "new_chain value fld msg = \<lparr>vc_value = value, vc_field = fld, vc_message = msg, vc_skip = False, vc_checks = []\<rparr>"

definition chain_optional :: "validation_chain \<Rightarrow> validation_chain" where
  "chain_optional ch = (if vc_value ch = None \<or> vc_value ch = Some [] then ch\<lparr>vc_skip := True\<rparr> else ch)"

definition chain_check :: "vcheck \<Rightarrow> validation_chain \<Rightarrow> validation_chain" where
  "chain_check ck ch = ch\<lparr>vc_checks := vc_checks ch @ [ck]\<rparr>"

definition chain_validate :: "form_env \<Rightarrow> validation_chain \<Rightarrow> validation_error list" where
  "chain_validate E ch =
     (if vc_skip ch then []
      else map (\<lambda>_. \<lparr>ve_param = vc_field ch, ve_msg = vc_message ch, ve_value = vc_value ch\<rparr>)
             (filter (\<lambda>ck. \<not> run_check E (vc_value ch) ck) (vc_checks ch)))"

text \<open>\<open>ctx.validationErrors\<close>: \<open>None\<close> for \<open>false\<close>.\<close>

definition validationErrors :: "form_env \<Rightarrow> validation_chain list \<Rightarrow> validation_error list option" where
  "validationErrors E chain_list =
     (let allErrors = concat (map (chain_validate E) chain_list) in
      if length allErrors > 0 then Some allErrors else None)"

type_synonym form_body = "string \<Rightarrow> string option"

definition checkUsername :: "string_checks \<Rightarrow> form_body \<Rightarrow> validation_chain list" where
  "checkUsername V body =
     map (\<lambda>rule. chain_check (CkCustom (ur_test rule)) (new_chain (body ''username'') ''username'' (ur_message rule)))
       (USERNAME_RULES V)
     @ [chain_check CkUsernameExists (new_chain (body ''username'') ''username'' ''Username is taken'')]"

definition checkEmail :: "form_body \<Rightarrow> validation_chain list" where
  "checkEmail body = [chain_check CkEmail (new_chain (body ''email'') ''email'' ''Incorrect email'')]"

definition checkIfEmailIsTaken :: "form_body \<Rightarrow> validation_chain list" where
  "checkIfEmailIsTaken body = [chain_check CkEmailExists (new_chain (body ''email'') ''email'' ''Email is already taken'')]"

definition checkRealName :: "form_body \<Rightarrow> validation_chain list" where
  "checkRealName body =
     [chain_check (CkLength 2 50) (chain_check CkValidName (new_chain (body ''name'') ''name'' ''Name is not valid''))]"

definition checkCompanyName :: "form_body \<Rightarrow> validation_chain list" where
  "checkCompanyName body =
     [chain_check (CkLength 2 50) (chain_check CkValidCompanyName
       (chain_optional (new_chain (body ''company'') ''company'' ''Company is not valid'')))]"

definition checkAccountId :: "form_body \<Rightarrow> validation_chain list" where
  "checkAccountId body =
     [chain_check CkUsernameNotExists (new_chain (body ''accountId'') ''accountId'' ''User does not exist''),
      chain_check (CkLength 2 15) (new_chain (body ''accountId'') ''accountId'' ''User must be 2-15 characters'')]"

definition checkDisableFrontendEdit :: "string \<Rightarrow> validation_chain list" where
  "checkDisableFrontendEdit text = [chain_check CkDisableFrontendEdit (new_chain None [] text)]"

subsection \<open>Properties\<close>

lemma validate_one [simp]:
  "chain_validate E (chain_check ck (new_chain v f m)) = [] \<longleftrightarrow> run_check E v ck"
  by (simp add: chain_validate_def chain_check_def new_chain_def)

lemma checkUsername_passes:
  "validationErrors E (checkUsername V body) = None \<longleftrightarrow>
     list_all (\<lambda>r. ur_test r (body ''username'')) (USERNAME_RULES V)
     \<and> run_check E (body ''username'') CkUsernameExists"
  by (auto simp: validationErrors_def checkUsername_def Let_def list_all_iff)

text \<open>
  The username form and the upstream path accept the same names. For every submitted value
  the form reports no error exactly when the upstream enrollment path would take the value:
  valid by the shared rules and not in use; so neither path admits a name the other refuses.
\<close>

theorem username_form_matches_upstream:
  assumes "checks_documented V"
  shows "validationErrors E (checkUsername V body) = None \<longleftrightarrow>
    isUsernameValid V (body ''username'') \<and> isUsernameAvailable (fe_findAccount E) (body ''username'')"
proof (cases "truthy (body ''username'')")
  case True
  then show ?thesis by (simp add: checkUsername_passes isUsernameValid_def isUsernameAvailable_def)
next
  case False
  then have "str_of (body ''username'') = []"
    by (cases "body ''username''") (auto simp: str_of_def)
  moreover have "\<not> vl_isAlphanumeric V []" using assms by (simp add: checks_documented_def)
  ultimately show ?thesis using False
    by (simp add: checkUsername_passes isUsernameValid_def USERNAME_RULES_def)
qed

lemma upper_to_lower_fixed: "is_lower c \<or> ascii_digit c \<Longrightarrow> lower_char c = c"
  by (auto simp: is_lower_def ascii_digit_def lower_char_def Let_def)

lemma sanitized_chars:
  assumes "sanitizeUsername raw = Some c"
  shows "list_all (\<lambda>x. is_lower x \<or> ascii_digit x) c" "starts_lower c" "length c \<le> 15" "c \<noteq> []"
proof -
  define kept where "kept = filter (\<lambda>c. is_lower c \<or> ascii_digit c) (hd (split_on CHR ''@'' (to_lower (tmpl raw))))"
  have c: "c = take 15 (dropWhile ascii_digit kept)" and ne: "c \<noteq> []"
    using assms by (auto simp: sanitizeUsername_def Let_def kept_def split: if_splits)
  have k: "list_all (\<lambda>x. is_lower x \<or> ascii_digit x) kept"
    by (simp add: kept_def list_all_iff)
  show "length c \<le> 15" "c \<noteq> []" using c ne by auto
  show "list_all (\<lambda>x. is_lower x \<or> ascii_digit x) c"
    using k unfolding c list_all_iff by (meson in_set_takeD set_dropWhileD)
  obtain x xs where d: "dropWhile ascii_digit kept = x # xs" using c ne by (cases "dropWhile ascii_digit kept") auto
  then have "\<not> ascii_digit x" by (metis hd_dropWhile list.distinct(1) list.sel(1))
  moreover have "x \<in> set kept" using d by (metis list.set_intros(1) set_dropWhileD)
  ultimately have "is_lower x" using k by (auto simp: list_all_iff)
  then show "starts_lower c" by (simp add: c d starts_lower_def)
qed

text \<open>
  What the upstream path makes of an upstream name is a username but for its length and the
  blacklist: every candidate is lower case, alphanumeric, starts with a letter and has at most
  fifteen characters, so it is valid exactly when it has three characters or more and is not
  prohibited; and making a candidate of a candidate changes nothing.
\<close>

theorem sanitized_username_valid:
  assumes "checks_documented V" and "sanitizeUsername raw = Some c"
  shows "(isUsernameValid V (Some c) \<longleftrightarrow> 3 \<le> length c \<and> c \<notin> set blacklist)
    \<and> sanitizeUsername (Some c) = Some c"
proof
  note ch = sanitized_chars [OF assms(2)]
  have low: "to_lower c = c"
    using ch(1) upper_to_lower_fixed by (induction c) (auto simp: to_lower_def)
  have alnum: "list_all ascii_alnum c"
    using ch(1) by (auto simp: list_all_iff ascii_alnum_def ascii_alpha_def)
  show "isUsernameValid V (Some c) \<longleftrightarrow> 3 \<le> length c \<and> c \<notin> set blacklist"
    using assms(1) ch low alnum
    by (simp add: isUsernameValid_def USERNAME_RULES_def str_of_def usernameBlacklist_def checks_documented_def)
  have "CHR ''@'' \<notin> set c"
    using ch(1) by (auto simp: list_all_iff is_lower_def ascii_digit_def Let_def)
  moreover have "filter (\<lambda>c. is_lower c \<or> ascii_digit c) c = c"
    using ch(1) by (simp add: list_all_iff)
  moreover have "dropWhile ascii_digit c = c"
    using ch(2,4) by (cases c) (auto simp: starts_lower_def is_lower_def ascii_digit_def Let_def)
  moreover have "split_on CHR ''@'' c = [c]" if "CHR ''@'' \<notin> set c" using that by (induction c) auto
  ultimately show "sanitizeUsername (Some c) = Some c"
    using ch(3,4) by (simp add: sanitizeUsername_def low Let_def del: dropWhile_eq_Nil_conv)
qed

text \<open>The documented predicates, executable.\<close>

definition demo_checks :: string_checks where
  "demo_checks = \<lparr>vl_isLength = (\<lambda>a b s. a \<le> length s \<and> length s \<le> b),
     vl_isAlphanumeric = (\<lambda>s. s \<noteq> [] \<and> list_all ascii_alnum s),
     vl_isLowercase = (\<lambda>s. to_lower s = s), vl_isEmail = (\<lambda>s. CHR ''@'' \<in> set s)\<rparr>"

lemma demo_checks_ok: "checks_documented demo_checks"
  by (simp add: checks_documented_def demo_checks_def)

definition demo_form :: form_env where
  "demo_form = \<lparr>fe_deployment = demo, fe_checks = demo_checks, fe_findAccount = (\<lambda>_. None),
     fe_findByEmail = (\<lambda>_. Inr None)\<rparr>"

theorem username_form_matches_upstream_witness:
  "validationErrors demo_form (checkUsername demo_checks (\<lambda>_. Some ''root'')) \<noteq> None"
proof -
  have "\<not> isUsernameValid demo_checks (Some ''root'')" by code_simp
  with username_form_matches_upstream [OF demo_checks_ok, of demo_form "\<lambda>_. Some ''root''"] show ?thesis by simp
qed

theorem sanitized_username_valid_witness:
  "sanitizeUsername (Some ''42Ann.B@corp'') = Some ''annb'' \<and> isUsernameValid demo_checks (Some ''annb'')"
proof -
  have s: "sanitizeUsername (Some ''42Ann.B@corp'') = Some ''annb''" by code_simp
  have "3 \<le> length ''annb'' \<and> ''annb'' \<notin> set blacklist" by code_simp
  with sanitized_username_valid [OF demo_checks_ok s] s show ?thesis by blast
qed

end
