(* ===== verification/Kubernetes.thy ===== *)
theory Kubernetes
  imports Claims
begin

text \<open>
  The Kubernetes adapter, \<^verbatim>\<open>src/adapters/kubernetes.js\<close>: what its calls make of the API
  server's answers, the retried status mutation, Secrets and their encoding, managed labels
  (\<^verbatim>\<open>src/utils/kubernetes/managed-labels.js\<close>), and the reconnecting watch. The API server
  and the client library are a parameter: each call is a function of the cluster's state that
  returns an answer or an error code and the new state. The locale \<open>object_api\<close> states what
  the code relies on, optimistic concurrency on \<open>resourceVersion\<close> above all; other clients may
  act between any two calls.
\<close>

subsection \<open>The API server\<close>

text \<open>The calls on the objects of one kind in one namespace. \<open>ka_view\<close> is the stored object of
  a name, \<open>ka_later\<close> the order in which states of the cluster follow one another; the code
  reads neither.\<close>

record ('o, 'st, 'w) object_calls =
  ka_view :: "'w \<Rightarrow> string \<Rightarrow> 'o option"
  ka_later :: "'w \<Rightarrow> 'w \<Rightarrow> bool"
  ka_version :: "'o \<Rightarrow> nat"
  ka_with_status :: "'o \<Rightarrow> 'st \<Rightarrow> nat \<Rightarrow> 'o"
  ka_list :: "'w \<Rightarrow> (nat + 'o list) \<times> 'w"
  ka_get :: "string \<Rightarrow> 'w \<Rightarrow> (nat + 'o) \<times> 'w"
  ka_create :: "'o \<Rightarrow> 'w \<Rightarrow> (nat + 'o) \<times> 'w"
  ka_delete :: "string \<Rightarrow> 'w \<Rightarrow> (nat + unit) \<times> 'w"
  ka_replace_status :: "string \<Rightarrow> nat \<Rightarrow> 'st \<Rightarrow> 'w \<Rightarrow> (nat + 'o) \<times> 'w"

text \<open>What is documented: reads answer with a stored object; a status write succeeds only if the
  stored object still has the version it names, and then stores that object with the status
  and a new version; a version belongs to one content.\<close>

locale object_api =
  fixes K :: "('o, 'st, 'w) object_calls"
  assumes later_refl: "ka_later K w w"
    and later_trans: "ka_later K u v \<Longrightarrow> ka_later K v w \<Longrightarrow> ka_later K u w"
    and version_identifies: "ka_later K v w \<Longrightarrow> ka_view K v n = Some a \<Longrightarrow> ka_view K w n = Some b \<Longrightarrow>
      ka_version K a = ka_version K b \<Longrightarrow> a = b"
    and get_answers: "ka_get K n w = (r, w') \<Longrightarrow> ka_later K w w'
      \<and> (\<forall>a. r = Inr a \<longrightarrow> ka_view K w' n = Some a)"
    and replace_answers: "ka_replace_status K n rv st w = (r, w') \<Longrightarrow> ka_later K w w'
      \<and> (\<forall>b. r = Inr b \<longrightarrow> (\<exists>u a v'. ka_later K w u \<and> ka_view K u n = Some a \<and> ka_version K a = rv
            \<and> b = ka_with_status K a st v' \<and> ka_view K w' n = Some b))"

subsection \<open>Reads and writes\<close>

text \<open>\<open>Absent\<close> is \<open>undefined\<close>, what a 404 becomes; \<open>Failed\<close> is \<open>null\<close>, any other error, which is
  logged.\<close>

datatype 'a outcome = Found 'a | Absent | Failed

definition answer :: "('o \<Rightarrow> 'a) \<Rightarrow> nat + 'o \<Rightarrow> 'a outcome" where
  "answer mapper r = (case r of
     Inr x \<Rightarrow> Found (mapper x)
   | Inl code \<Rightarrow> if code \<noteq> 404 then Failed else Absent)"

definition listNamespacedCustomObject ::
  "('o, 'st, 'w) object_calls \<Rightarrow> ('o \<Rightarrow> 'a) \<Rightarrow> 'w \<Rightarrow> 'a list outcome \<times> 'w" where
  "listNamespacedCustomObject K mapper w = (let (r, w') = ka_list K w in (answer (map mapper) r, w'))"

definition getNamespacedCustomObject ::
  "('o, 'st, 'w) object_calls \<Rightarrow> ('o \<Rightarrow> 'a) \<Rightarrow> string \<Rightarrow> 'w \<Rightarrow> 'a outcome \<times> 'w" where
  "getNamespacedCustomObject K mapper n w = (let (r, w') = ka_get K n w in (answer mapper r, w'))"

definition createNamespacedCustomObject ::
  "('o, 'st, 'w) object_calls \<Rightarrow> ('o \<Rightarrow> 'a) \<Rightarrow> 'o \<Rightarrow> 'w \<Rightarrow> 'a outcome \<times> 'w" where
  "createNamespacedCustomObject K mapper body w = (let (r, w') = ka_create K body w in (answer mapper r, w'))"

definition deleteNamespacedCustomObject :: "('o, 'st, 'w) object_calls \<Rightarrow> string \<Rightarrow> 'w \<Rightarrow> bool \<times> 'w" where
  "deleteNamespacedCustomObject K n w = (let (r, w') = ka_delete K n w in
     (case r of Inr _ \<Rightarrow> True | Inl code \<Rightarrow> code = 404, w'))"

definition replaceNamespacedCustomObjectStatus ::
  "('o, 'st, 'w) object_calls \<Rightarrow> ('o \<Rightarrow> 'a) \<Rightarrow> string \<Rightarrow> nat \<Rightarrow> 'st \<Rightarrow> 'w \<Rightarrow> 'a option \<times> 'w" where
  "replaceNamespacedCustomObjectStatus K mapper n v st w =
     (let (r, w') = ka_replace_status K n v st w in (case r of Inr x \<Rightarrow> Some (mapper x) | Inl _ \<Rightarrow> None, w'))"

subsection \<open>The retried status mutation\<close>

text \<open>One attempt reads the object, computes the status from what it read, and writes it unless
  it is what is stored already; an error is a code. \<open>status_of\<close> is the object's stored status.
  The mutation and the status computation are one function \<open>f\<close> of the mapped object.\<close>

definition mutation_attempt ::
  "('o, 'st, 'w) object_calls \<Rightarrow> ('o \<Rightarrow> 'a) \<Rightarrow> ('o \<Rightarrow> 'st option) \<Rightarrow> ('a \<Rightarrow> 'st) \<Rightarrow> string \<Rightarrow> 'w \<Rightarrow> (nat + 'a) \<times> 'w" where
  "mutation_attempt K mapper status_of f n w = (case ka_get K n w of
     (Inl code, w1) \<Rightarrow> (Inl code, w1)
   | (Inr current, w1) \<Rightarrow>
       (let st = f (mapper current) in
        if status_of current = Some st then (Inr (mapper current), w1)
        else (case ka_replace_status K n (ka_version K current) st w1 of
                (Inl code, w2) \<Rightarrow> (Inl code, w2)
              | (Inr updated, w2) \<Rightarrow> (Inr (mapper updated), w2))))"

text \<open>\<open>null\<close> for a 404, \<open>undefined\<close> for any other error or a third conflict: here the 404 is
  \<open>Absent\<close> and the rest \<open>Failed\<close>. \<open>k\<close> counts the attempts left after this one.\<close>

fun mutation_attempts ::
  "nat \<Rightarrow> ('o, 'st, 'w) object_calls \<Rightarrow> ('o \<Rightarrow> 'a) \<Rightarrow> ('o \<Rightarrow> 'st option) \<Rightarrow> ('a \<Rightarrow> 'st) \<Rightarrow> string \<Rightarrow> 'w \<Rightarrow> 'a outcome \<times> 'w" where
  "mutation_attempts k K mapper status_of f n w = (case mutation_attempt K mapper status_of f n w of
     (Inr x, w1) \<Rightarrow> (Found x, w1)
   | (Inl code, w1) \<Rightarrow>
       if code = 404 then (Absent, w1)
       else if code = 409 then (case k of Suc k' \<Rightarrow> mutation_attempts k' K mapper status_of f n w1 | 0 \<Rightarrow> (Failed, w1))
       else (Failed, w1))"

declare mutation_attempts.simps [simp del]

definition mutateNamespacedCustomObjectStatus ::
  "('o, 'st, 'w) object_calls \<Rightarrow> ('o \<Rightarrow> 'a) \<Rightarrow> ('o \<Rightarrow> 'st option) \<Rightarrow> ('a \<Rightarrow> 'st) \<Rightarrow> string \<Rightarrow> 'w \<Rightarrow> 'a outcome \<times> 'w" where
  "mutateNamespacedCustomObjectStatus K mapper status_of f n w = mutation_attempts 2 K mapper status_of f n w"

subsection \<open>Managed labels\<close>

text \<open>The parsed value of \<open>MANAGED_RESOURCE_LABELS\<close>; \<open>Inl\<close> is the error thrown at startup.
  \<open>parse_json\<close> is \<open>JSON.parse\<close>.\<close>

datatype label_error = NotJson | NotLabelObject | NotStringLabel string

type_synonym labels = "(string \<times> string) list"

fun label_entries :: "(string \<times> json) list \<Rightarrow> label_error + labels" where
  "label_entries [] = Inr []"
| "label_entries ((k, v) # ms) = (case v of
     JStr s \<Rightarrow> (case label_entries ms of Inr ls \<Rightarrow> Inr ((k, s) # ls) | Inl e \<Rightarrow> Inl e)
   | _ \<Rightarrow> Inl (NotStringLabel k))"

definition parseManagedResourceLabels :: "(string \<Rightarrow> json option) \<Rightarrow> string option \<Rightarrow> label_error + labels" where
  "parseManagedResourceLabels parse_json raw = (case raw of
     None \<Rightarrow> Inr []
   | Some r \<Rightarrow>
       if trim r = [] then Inr []
       else (case parse_json r of
         None \<Rightarrow> Inl NotJson
       | Some (JObj ms) \<Rightarrow> label_entries ms
       | Some _ \<Rightarrow> Inl NotLabelObject))"

definition withManagedLabels :: "labels \<Rightarrow> labels option \<Rightarrow> labels option" where
  "withManagedLabels managed ls =
     (if managed = [] then ls else Some (js_assign managed (list_or_empty ls)))"

record job_manifest =
  jm_name :: string
  jm_labels :: "labels option"
  jm_template_labels :: "labels option"
  jm_spec :: json

definition withManagedJobLabels :: "labels \<Rightarrow> job_manifest \<Rightarrow> job_manifest" where
  "withManagedJobLabels managed job =
     (if managed = [] then job
      else job\<lparr>jm_labels := withManagedLabels managed (jm_labels job),
               jm_template_labels := withManagedLabels managed (jm_template_labels job)\<rparr>)"

subsection \<open>Secrets\<close>

text \<open>\<open>base64\<close>, its inverse, \<open>JSON.stringify\<close> and \<open>JSON.parse\<close> are parameters. A model value
  is a string, a list, or absent; absent and empty values are written as they are.\<close>

record codec =
  cd_encode :: "string \<Rightarrow> string"
  cd_decode :: "string \<Rightarrow> string"
  cd_stringify :: "json \<Rightarrow> string"
  cd_parse :: "string \<Rightarrow> json option"

definition generate_value :: "codec \<Rightarrow> json \<Rightarrow> string option" where
  "generate_value C v =
     (let text = (case v of JArr xs \<Rightarrow> Some (cd_stringify C v) | JStr s \<Rightarrow> Some s | _ \<Rightarrow> None) in
      case text of None \<Rightarrow> None | Some t \<Rightarrow> if t = [] then Some [] else Some (cd_encode C t))"

definition generateSecretData :: "codec \<Rightarrow> (string \<times> json) list \<Rightarrow> (string \<times> string) list" where
  "generateSecretData C model =
     somes (map (\<lambda>(k, v). map_option (Pair k) (generate_value C v)) model)"

definition parse_value :: "codec \<Rightarrow> string \<Rightarrow> json" where
  "parse_value C raw = (let text = cd_decode C raw in
     case cd_parse C text of Some v \<Rightarrow> v | None \<Rightarrow> JStr text)"

definition parseSecretData :: "codec \<Rightarrow> (string \<times> string) list \<Rightarrow> (string \<times> json) list" where
  "parseSecretData C secret = map (\<lambda>(k, raw). (k, parse_value C raw)) secret"

text \<open>Whether a Secret read back holds something other than what is wanted.\<close>

definition as_string :: "codec \<Rightarrow> json option \<Rightarrow> string" where
  "as_string C v = (case v of None \<Rightarrow> [] | Some JNull \<Rightarrow> [] | Some (JStr s) \<Rightarrow> s | Some x \<Rightarrow> cd_stringify C x)"

definition secretDataChanged :: "codec \<Rightarrow> (string \<times> json) list \<Rightarrow> (string \<times> json) list \<Rightarrow> bool" where
  "secretDataChanged C existing desired =
     (\<exists>key \<in> set (uniq (map fst existing @ map fst desired)).
        as_string C (map_of existing key) \<noteq> as_string C (map_of desired key))"

datatype create_secret_result = SecretCreated "(string \<times> json) list" | SecretExists | SecretFailed

text \<open>\<open>createSecret\<close>; \<open>create\<close> is the API call.\<close>

definition createSecret ::
  "codec \<Rightarrow> ((string \<times> string) list \<Rightarrow> labels option \<Rightarrow> 'w \<Rightarrow> (nat + (string \<times> string) list) \<times> 'w)
     \<Rightarrow> labels \<Rightarrow> bool \<Rightarrow> (string \<times> json) list \<Rightarrow> labels option \<Rightarrow> 'w \<Rightarrow> create_secret_result \<times> 'w" where
  "createSecret C create managed ignoreAlreadyExists data ls w =
     (case create (generateSecretData C data) (withManagedLabels managed ls) w of
        (Inr stored, w') \<Rightarrow> (SecretCreated (parseSecretData C stored), w')
      | (Inl code, w') \<Rightarrow> (if ignoreAlreadyExists \<and> code = 409 then SecretExists else SecretFailed, w'))"

datatype create_job_result = JobCreated | JobExists | JobFailed

definition createJob ::
  "(job_manifest \<Rightarrow> 'w \<Rightarrow> (nat + unit) \<times> 'w) \<Rightarrow> labels \<Rightarrow> bool \<Rightarrow> job_manifest \<Rightarrow> 'w \<Rightarrow> create_job_result \<times> 'w" where
  "createJob create managed ignoreAlreadyExists job w =
     (case create (withManagedJobLabels managed job) w of
        (Inr _, w') \<Rightarrow> (JobCreated, w')
      | (Inl code, w') \<Rightarrow> (if ignoreAlreadyExists \<and> code = 409 then JobExists else JobFailed, w'))"

subsection \<open>The API server's address\<close>

definition apiServerUrlViaServiceDns ::
  "(string \<Rightarrow> bool) \<Rightarrow> string option \<Rightarrow> string option \<Rightarrow> string \<Rightarrow> string option" where
  "apiServerUrlViaServiceDns isIPv6 host port mode =
     (if \<not> truthy host \<or> mode = ''never'' then None
      else if mode \<noteq> ''always'' \<and> \<not> isIPv6 (tmpl host) then None
      else Some ((if port \<in> {Some ''80'', Some ''8080'', Some ''8001''} then ''http'' else ''https'')
                 @ ''://kubernetes.default.svc:'' @ tmpl port))"

subsection \<open>The watch\<close>

text \<open>\<open>watchRestartDelayMs\<close> on an error's name and message; \<open>stream_timeout\<close> is the test of the
  message.\<close>

record watch_error =
  we_name :: string
  we_stream_timeout :: bool

definition watchRestartDelayMs :: "watch_error option \<Rightarrow> int" where
  "watchRestartDelayMs err = (case err of
     None \<Rightarrow> 0
   | Some e \<Rightarrow> if we_name e = ''TimeoutError'' \<or> we_stream_timeout e then 0 else 10 * 1000)"

text \<open>The state of one adapter's watch: whether it was told to stop, the request in flight (none,
  still being established, or established and abortable), and the restart timer. The answer of
  \<open>watch.watch\<close> and its done callback arrive as events.\<close>

datatype watch_request = NoRequest | Connecting | Streaming

record watch_state =
  ws_stopped :: bool
  ws_request :: watch_request
  ws_timer :: bool

definition watchObjects :: "watch_state \<Rightarrow> watch_state" where
  "watchObjects s = s\<lparr>ws_stopped := False, ws_request := Connecting\<rparr>"

definition stopWatching :: "watch_state \<Rightarrow> watch_state" where
  "stopWatching s = s\<lparr>ws_stopped := True, ws_timer := False,
     ws_request := (if ws_request s = Streaming then NoRequest else ws_request s)\<rparr>"

definition watch_connected :: "watch_state \<Rightarrow> watch_state" where
  "watch_connected s = (if ws_stopped s then s\<lparr>ws_request := NoRequest\<rparr> else s\<lparr>ws_request := Streaming\<rparr>)"

definition watch_done :: "watch_error option \<Rightarrow> watch_state \<Rightarrow> watch_state" where
  "watch_done err s =
     (if ws_stopped s then s\<lparr>ws_request := NoRequest\<rparr>
      else s\<lparr>ws_request := NoRequest, ws_timer := True\<rparr>)"

definition watch_timer_fires :: "watch_state \<Rightarrow> watch_state" where
  "watch_timer_fires s = (if ws_timer s then watchObjects (s\<lparr>ws_timer := False\<rparr>) else s)"

inductive watch_step :: "watch_state \<Rightarrow> watch_state \<Rightarrow> bool" where
  step_connected: "ws_request s = Connecting \<Longrightarrow> watch_step s (watch_connected s)"
| step_done: "ws_request s \<noteq> NoRequest \<Longrightarrow> watch_step s (watch_done err s)"
| step_timer: "ws_timer s \<Longrightarrow> watch_step s (watch_timer_fires s)"

inductive watch_steps :: "watch_state \<Rightarrow> watch_state \<Rightarrow> bool" where
  steps_refl: "watch_steps s s"
| steps_step: "watch_steps s t \<Longrightarrow> watch_step t u \<Longrightarrow> watch_steps s u"

inductive_cases watch_stepE: "watch_step s t"

subsection \<open>The mutation loses no update\<close>

context object_api
begin

text \<open>What a successful attempt did: nothing was needed, or the status written is the one
  computed from the very object it replaced.\<close>

definition current_based :: "('o \<Rightarrow> 'a) \<Rightarrow> ('o \<Rightarrow> 'st option) \<Rightarrow> ('a \<Rightarrow> 'st) \<Rightarrow> string \<Rightarrow> 'w \<Rightarrow> 'a \<Rightarrow> 'w \<Rightarrow> bool" where
  "current_based mapper status_of f n w x w' =
     (\<exists>u a. ka_later K w u \<and> ka_view K u n = Some a
        \<and> ((x = mapper a \<and> status_of a = Some (f (mapper a)))
           \<or> (\<exists>v'. x = mapper (ka_with_status K a (f (mapper a)) v')
                 \<and> ka_view K w' n = Some (ka_with_status K a (f (mapper a)) v'))))"

lemma current_based_mono:
  "ka_later K w0 w \<Longrightarrow> current_based mapper status_of f n w x w' \<Longrightarrow> current_based mapper status_of f n w0 x w'"
  unfolding current_based_def using later_trans by blast

lemma attempt_current:
  assumes "mutation_attempt K mapper status_of f n w = (r, w')"
  shows "ka_later K w w' \<and> (\<forall>x. r = Inr x \<longrightarrow> current_based mapper status_of f n w x w')"
proof (cases "ka_get K n w")
  case (Pair g w1)
  note g = get_answers [OF Pair]
  show ?thesis
  proof (cases g)
    case (Inl code)
    with assms Pair g show ?thesis by (auto simp: mutation_attempt_def)
  next
    case (Inr a)
    with g have a: "ka_later K w w1" "ka_view K w1 n = Some a" by auto
    let ?st = "f (mapper a)"
    show ?thesis
    proof (cases "status_of a = Some ?st")
      case True
      with assms Pair Inr have "r = Inr (mapper a)" "w' = w1" by (auto simp: mutation_attempt_def Let_def)
      with a True show ?thesis unfolding current_based_def by blast
    next
      case False
      obtain q w2 where q: "ka_replace_status K n (ka_version K a) ?st w1 = (q, w2)" by force
      note ra = replace_answers [OF q]
      have r: "r = (case q of Inl code \<Rightarrow> Inl code | Inr b \<Rightarrow> Inr (mapper b))" "w' = w2"
        using assms Pair Inr False q by (auto simp: mutation_attempt_def Let_def split: sum.splits)
      have later: "ka_later K w w'" using later_trans a(1) ra r(2) by blast
      have "current_based mapper status_of f n w x w'" if x: "r = Inr x" for x
      proof -
        from x r(1) obtain b where b: "q = Inr b" "x = mapper b" by (cases q) auto
        from ra b(1) obtain u c v' where u: "ka_later K w1 u" "ka_view K u n = Some c"
          "ka_version K c = ka_version K a" "b = ka_with_status K c ?st v'" "ka_view K w2 n = Some b" by blast
        from version_identifies [OF u(1) a(2) u(2)] u(3) have "c = a" by simp
        with u b r(2) later_trans [OF a(1) u(1)] show ?thesis unfolding current_based_def by blast
      qed
      with later show ?thesis by blast
    qed
  qed
qed

lemma attempts_unfold:
  assumes "mutation_attempt K mapper status_of f n w = (q, w1)"
  shows "mutation_attempts k K mapper status_of f n w = (case q of
     Inr x \<Rightarrow> (Found x, w1)
   | Inl code \<Rightarrow>
       if code = 404 then (Absent, w1)
       else if code = 409 then (case k of Suc k' \<Rightarrow> mutation_attempts k' K mapper status_of f n w1 | 0 \<Rightarrow> (Failed, w1))
       else (Failed, w1))"
  by (subst mutation_attempts.simps) (simp add: assms)

lemma attempts_current:
  "mutation_attempts k K mapper status_of f n w = (r, w') \<Longrightarrow>
     ka_later K w w' \<and> (\<forall>x. r = Found x \<longrightarrow> current_based mapper status_of f n w x w')"
proof (induction k arbitrary: w)
  case 0
  obtain q w1 where q: "mutation_attempt K mapper status_of f n w = (q, w1)" by force
  note a = attempt_current [OF q]
  from 0 [unfolded attempts_unfold [OF q]] have "w' = w1" "\<And>x. r = Found x \<Longrightarrow> q = Inr x"
    by (auto split: sum.splits if_splits)
  with a show ?case by auto
next
  case (Suc k)
  obtain q w1 where q: "mutation_attempt K mapper status_of f n w = (q, w1)" by force
  note a = attempt_current [OF q]
  note u = Suc.prems [unfolded attempts_unfold [OF q]]
  show ?case
  proof (cases "q = Inl 409")
    case True
    with u have "mutation_attempts k K mapper status_of f n w1 = (r, w')" by simp
    from Suc.IH [OF this] have i: "ka_later K w1 w'"
      "\<forall>x. r = Found x \<longrightarrow> current_based mapper status_of f n w1 x w'" by blast+
    have l: "ka_later K w w1" using a by simp
    show ?thesis using i(2) by (auto intro: current_based_mono [OF l] later_trans [OF l i(1)])
  next
    case False
    with u have "w' = w1" "\<And>x. r = Found x \<Longrightarrow> q = Inr x"
      by (auto split: sum.splits if_splits)
    with a show ?thesis by auto
  qed
qed

end

subsection \<open>A server that provides it\<close>

text \<open>An API server of user objects: the stored objects and the last version given out. A stored
  object of a later version than that is not one the server wrote.\<close>

type_synonym user_world = "(string \<times> user_resource) list \<times> nat"

definition mu_version :: "user_resource \<Rightarrow> nat" where
  "mu_version r = m_resourceVersion (r_metadata r)"

definition mu_view :: "user_world \<Rightarrow> string \<Rightarrow> user_resource option" where
  "mu_view w n = (case map_of (fst w) n of
     Some r \<Rightarrow> if mu_version r \<le> snd w then Some r else None
   | None \<Rightarrow> None)"

definition mu_later :: "user_world \<Rightarrow> user_world \<Rightarrow> bool" where
  "mu_later w w' = (snd w \<le> snd w'
     \<and> (\<forall>n b. mu_view w' n = Some b \<and> mu_version b \<le> snd w \<longrightarrow> mu_view w n = Some b))"

definition mu_with_version :: "user_resource \<Rightarrow> nat \<Rightarrow> user_resource" where
  "mu_with_version r v = r\<lparr>r_metadata := (r_metadata r)\<lparr>m_resourceVersion := v\<rparr>\<rparr>"

definition mu_with_status :: "user_resource \<Rightarrow> user_status \<Rightarrow> nat \<Rightarrow> user_resource" where
  "mu_with_status r st v = mu_with_version (r\<lparr>r_status := Some st\<rparr>) v"

definition mu_store :: "string \<Rightarrow> user_resource \<Rightarrow> user_world \<Rightarrow> user_world" where
  "mu_store n r w = (AList.update n (mu_with_version r (Suc (snd w))) (fst w), Suc (snd w))"

definition mem_user_objects :: "(user_resource, user_status, user_world) object_calls" where
  "mem_user_objects = \<lparr>
     ka_view = mu_view, ka_later = mu_later, ka_version = mu_version, ka_with_status = mu_with_status,
     ka_list = (\<lambda>w. (Inr (somes (map (mu_view w) (uniq (map fst (fst w))))), w)),
     ka_get = (\<lambda>n w. (case mu_view w n of Some r \<Rightarrow> Inr r | None \<Rightarrow> Inl 404, w)),
     ka_create = (\<lambda>r w. (let n = m_name (r_metadata r) in
       case mu_view w n of Some _ \<Rightarrow> (Inl 409, w)
       | None \<Rightarrow> (Inr (mu_with_version r (Suc (snd w))), mu_store n r w))),
     ka_delete = (\<lambda>n w. (case mu_view w n of None \<Rightarrow> (Inl 404, w)
       | Some _ \<Rightarrow> (Inr (), (AList.delete n (fst w), snd w)))),
     ka_replace_status = (\<lambda>n rv st w. case mu_view w n of None \<Rightarrow> (Inl 404, w)
       | Some r \<Rightarrow> (if mu_version r = rv
           then (Inr (mu_with_status r st (Suc (snd w))), mu_store n (r\<lparr>r_status := Some st\<rparr>) w)
           else (Inl 409, w)))\<rparr>"

lemma mu_version_with [simp]: "mu_version (mu_with_version r v) = v"
  by (simp add: mu_version_def mu_with_version_def)

lemma mu_view_store:
  "mu_view (mu_store n r w) m = (if m = n then Some (mu_with_version r (Suc (snd w)))
     else case map_of (fst w) m of Some b \<Rightarrow> if mu_version b \<le> Suc (snd w) then Some b else None | None \<Rightarrow> None)"
  by (cases "m = n") (simp_all add: mu_view_def mu_store_def update_conv' cong: option.case_cong)

lemma mu_later_refl: "mu_later w w"
  by (simp add: mu_later_def)

lemma mu_later_trans: "mu_later u v \<Longrightarrow> mu_later v w \<Longrightarrow> mu_later u w"
  unfolding mu_later_def by (meson order_trans)

lemma mu_version_identifies:
  assumes "mu_later v w" "mu_view v n = Some a" "mu_view w n = Some b" "mu_version a = mu_version b"
  shows "a = b"
proof -
  from assms(2) have "mu_version a \<le> snd v" by (auto simp: mu_view_def split: option.splits if_splits)
  with assms have "mu_view v n = Some b" by (auto simp: mu_later_def)
  with assms(2) show ?thesis by simp
qed

lemma mu_later_store: "mu_later w (mu_store n r w)"
  unfolding mu_later_def mu_view_store
  by (auto simp: mu_store_def mu_view_def split: option.splits if_splits)

interpretation user_server: object_api mem_user_objects
proof (unfold_locales, goal_cases)
  case (1 w)
  show ?case by (simp add: mem_user_objects_def mu_later_refl)
next
  case (2 u v w)
  then show ?case by (simp add: mem_user_objects_def) (rule mu_later_trans)
next
  case (3 v w n a b)
  then show ?case by (simp add: mem_user_objects_def) (rule mu_version_identifies)
next
  case (4 n w r w')
  then show ?case by (auto simp: mem_user_objects_def mu_later_refl split: option.splits)
next
  case (5 n rv st w r w')
  show ?case
  proof (cases "mu_view w n")
    case None
    with 5 show ?thesis by (auto simp: mem_user_objects_def mu_later_refl)
  next
    case (Some a)
    show ?thesis
    proof (cases "mu_version a = rv")
      case False
      with 5 Some show ?thesis by (auto simp: mem_user_objects_def mu_later_refl)
    next
      case True
      with 5 Some have r: "r = Inr (mu_with_status a st (Suc (snd w)))" "w' = mu_store n (a\<lparr>r_status := Some st\<rparr>) w"
        by (simp_all add: mem_user_objects_def)
      have "mu_view w' n = Some (mu_with_status a st (Suc (snd w)))"
        by (simp add: r(2) mu_view_store mu_with_status_def)
      with r Some True mu_later_refl [of w] mu_later_store [of w n "a\<lparr>r_status := Some st\<rparr>"] show ?thesis
        by (simp add: mem_user_objects_def del: split_paired_Ex) blast
    qed
  qed
qed

subsection \<open>Properties\<close>

text \<open>
  C19: A status mutation never overwrites what it has not seen. Whatever other clients write
  between its calls, when the mutation reports success either the stored status was already the
  intended one, or the status it wrote was computed from the very object it replaced, so no
  concurrent change to the object is lost; every other outcome reports no object.
\<close>

theorem status_mutation_loses_nothing:
  assumes "object_api K"
    and "mutateNamespacedCustomObjectStatus K mapper status_of f n w = (Found x, w')"
  shows "\<exists>u a. ka_later K w u \<and> ka_view K u n = Some a
    \<and> ((x = mapper a \<and> status_of a = Some (f (mapper a)))
       \<or> (\<exists>v'. x = mapper (ka_with_status K a (f (mapper a)) v')
             \<and> ka_view K w' n = Some (ka_with_status K a (f (mapper a)) v')))"
proof -
  from object_api.attempts_current [OF assms(1), of 2 mapper status_of f n w "Found x" w'] assms(2)
  have "object_api.current_based K mapper status_of f n w x w'"
    by (simp add: mutateNamespacedCustomObjectStatus_def)
  then show ?thesis unfolding object_api.current_based_def [OF assms(1)] .
qed

definition demo_user_world :: user_world where
  "demo_user_world = ([(''ann'', \<lparr>r_metadata = demo_meta ''ann'' 1, r_spec = None,
     r_passmower = Some (empty_passmower\<lparr>pm_email := Some ''a@x''\<rparr>), r_slack = None, r_github = None,
     r_identities = None, r_webauthn = None, r_status = None\<rparr>)], 1)"

theorem status_mutation_loses_nothing_witness:
  "\<exists>x w'. mutateNamespacedCustomObjectStatus mem_user_objects (\<lambda>r. r) r_status
       (\<lambda>r. getIntendedStatus demo None (fromKubernetes demo r)) ''ann'' demo_user_world = (Found x, w')
     \<and> (\<exists>u a. mu_later demo_user_world u \<and> mu_view u ''ann'' = Some a)"
proof -
  have v: "mu_view demo_user_world ''ann'' = Some (snd (hd (fst demo_user_world)))"
    by (simp add: mu_view_def demo_user_world_def mu_version_def demo_meta_def)
  have n: "r_status (snd (hd (fst demo_user_world))) = None" by (simp add: demo_user_world_def)
  obtain x w' where r: "mutateNamespacedCustomObjectStatus mem_user_objects (\<lambda>r. r) r_status
       (\<lambda>r. getIntendedStatus demo None (fromKubernetes demo r)) ''ann'' demo_user_world = (Found x, w')"
    unfolding mutateNamespacedCustomObjectStatus_def
    by (simp add: mutation_attempts.simps mutation_attempt_def mem_user_objects_def v n Let_def)
  from status_mutation_loses_nothing [OF user_server.object_api_axioms r] r
  show ?thesis by (auto simp: mem_user_objects_def)
qed

lemma map_of_map_snd: "map_of (map (\<lambda>(k, v). (k, g v)) ms) k = map_option g (map_of ms k)"
  by (induction ms) auto

text \<open>
  A Secret that holds what was written is not rewritten. Reading back the data written for a
  set of values and comparing it with those values finds no change, and finds one whenever some
  value's string form differs; so reconciling a converged client leaves its Secret alone. (The
  encodings are inverse, and a string that happens to be JSON prints back as itself.)
\<close>

theorem secret_reads_back_unchanged:
  assumes "\<And>t. cd_decode C (cd_encode C t) = t" and "cd_decode C [] = []" and "cd_parse C [] = None"
    and "\<forall>(k, v) \<in> set model. (\<exists>xs. v = JArr xs \<and> cd_stringify C v \<noteq> [] \<and> cd_parse C (cd_stringify C v) = Some v)
           \<or> (\<exists>s. v = JStr s \<and> (cd_parse C s = None \<or> (\<exists>j. cd_parse C s = Some j \<and> as_string C (Some j) = s)))"
  shows "\<not> secretDataChanged C (parseSecretData C (generateSecretData C model)) model
    \<and> (\<forall>desired k. as_string C (map_of model k) \<noteq> as_string C (map_of desired k)
         \<and> k \<in> set (map fst desired) \<longrightarrow>
         secretDataChanged C (parseSecretData C (generateSecretData C model)) desired)"
proof -
  have gen: "generateSecretData C model = map (\<lambda>(k, v). (k, the (generate_value C v))) model
      \<and> (\<forall>(k, v) \<in> set model. as_string C (Some (parse_value C (the (generate_value C v)))) = as_string C (Some v))"
    using assms(4)
  proof (induction model)
    case Nil
    then show ?case by (simp add: generateSecretData_def)
  next
    case (Cons m model)
    obtain k v where m: "m = (k, v)" by force
    from Cons.prems m consider xs where "v = JArr xs" "cd_stringify C v \<noteq> []" "cd_parse C (cd_stringify C v) = Some v"
      | s where "v = JStr s" "cd_parse C s = None \<or> (\<exists>j. cd_parse C s = Some j \<and> as_string C (Some j) = s)"
      by auto
    then have "\<exists>raw. generate_value C v = Some raw \<and> as_string C (Some (parse_value C raw)) = as_string C (Some v)"
    proof cases
      case 1
      then show ?thesis using assms(1) by (simp add: generate_value_def parse_value_def)
    next
      case 2
      then show ?thesis using assms(1-3)
        by (cases "s = []") (auto simp: generate_value_def parse_value_def as_string_def)
    qed
    with Cons m show ?case by (auto simp: generateSecretData_def)
  qed
  have reads: "as_string C (map_of (parseSecretData C (generateSecretData C model)) k) = as_string C (map_of model k)" for k
  proof -
    have "parseSecretData C (generateSecretData C model) =
        map (\<lambda>(k, v). (k, parse_value C (the (generate_value C v)))) model"
      using gen by (auto simp: parseSecretData_def)
    then have "map_of (parseSecretData C (generateSecretData C model)) k =
        map_option (\<lambda>v. parse_value C (the (generate_value C v))) (map_of model k)"
      by (simp add: map_of_map_snd)
    then show ?thesis using gen by (cases "map_of model k") (auto dest: map_of_SomeD)
  qed
  show ?thesis by (auto simp: secretDataChanged_def reads)
qed

text \<open>
  A watch that was stopped stays stopped. Whatever arrives afterwards (the answer of a
  request that was being established, its end, an error, a timer that was due) no restart is
  scheduled and no request is left streaming, until the operator asks for the watch again.
\<close>

theorem stopped_watch_stays_stopped:
  assumes "watch_steps (stopWatching s) t"
  shows "ws_stopped t \<and> \<not> ws_timer t \<and> ws_request t \<noteq> Streaming"
  using assms
proof (induction "stopWatching s" t rule: watch_steps.induct)
  case steps_refl
  then show ?case by (simp add: stopWatching_def)
next
  case (steps_step t u)
  from steps_step.hyps(3) steps_step.hyps(2) show ?case
    by (auto elim!: watch_stepE simp: watch_connected_def watch_done_def)
qed

theorem stopped_watch_stays_stopped_witness:
  "watch_steps (stopWatching \<lparr>ws_stopped = False, ws_request = Connecting, ws_timer = True\<rparr>)
     \<lparr>ws_stopped = True, ws_request = NoRequest, ws_timer = False\<rparr>
   \<and> \<not> ws_timer \<lparr>ws_stopped = True, ws_request = NoRequest, ws_timer = False\<rparr>"
proof -
  let ?s = "stopWatching \<lparr>ws_stopped = False, ws_request = Connecting, ws_timer = True\<rparr>"
  have e: "watch_connected ?s = \<lparr>ws_stopped = True, ws_request = NoRequest, ws_timer = False\<rparr>"
    by (simp add: watch_connected_def stopWatching_def)
  have "watch_step ?s (watch_connected ?s)"
    by (rule watch_step.step_connected) (simp add: stopWatching_def)
  then have "watch_steps ?s \<lparr>ws_stopped = True, ws_request = NoRequest, ws_timer = False\<rparr>"
    unfolding e by (rule steps_step [OF steps_refl])
  with stopped_watch_stays_stopped [OF this] show ?thesis by blast
qed

text \<open>An encoding for the witness: the text itself, and the one list it prints.\<close>

definition demo_secret_codec :: codec where
  "demo_secret_codec = \<lparr>cd_encode = (\<lambda>s. s), cd_decode = (\<lambda>s. s),
     cd_stringify = (\<lambda>v. ''[code]''),
     cd_parse = (\<lambda>s. if s = ''[code]'' then Some (JArr [JStr ''code'']) else None)\<rparr>"

theorem secret_reads_back_unchanged_witness:
  "\<not> secretDataChanged demo_secret_codec
     (parseSecretData demo_secret_codec (generateSecretData demo_secret_codec
        [(''OIDC_CLIENT_ID'', JStr ''apps.wiki''), (''OIDC_RESPONSE_TYPES'', JArr [JStr ''code''])]))
     [(''OIDC_CLIENT_ID'', JStr ''apps.wiki''), (''OIDC_RESPONSE_TYPES'', JArr [JStr ''code''])]"
  by (rule conjunct1 [OF secret_reads_back_unchanged]) (simp_all add: demo_secret_codec_def)

end
