(* ===== verification/Users.thy ===== *)
theory Users
  imports Kubernetes Usernames
begin

text \<open>
  Who owns an address and which account a sign-in resolves to:
  \<^verbatim>\<open>src/utils/user/identity-integrity.js\<close>, \<^verbatim>\<open>src/services/kube-oidc-user-service.js\<close>,
  and \<open>Account.createOrUpdateByEmails\<close> of \<^verbatim>\<open>src/models/account.js\<close>. The user objects live in
  the cluster and are reached through the adapter of \<^verbatim>\<open>Kubernetes\<close>.
\<close>

subsection \<open>Ownership of addresses\<close>

definition created_or_max :: "account \<Rightarrow> int" where
  "created_or_max a = (case m_creationTimestamp (a_metadata a) of Some t \<Rightarrow> t | None \<Rightarrow> max_safe_integer)"

definition accountOrder :: "deployment \<Rightarrow> account \<Rightarrow> account \<Rightarrow> int" where
  "accountOrder D a b =
     (let byCreation = created_or_max a - created_or_max b in
      if byCreation \<noteq> 0 then byCreation else locale_compare D (accountId a) (accountId b))"

record ownership =
  ow_owners :: "(string \<times> account) list"
  ow_conflicts :: "(string \<times> (string \<times> string) list) list"

definition add_claim :: "account \<Rightarrow> (string \<times> account list) list \<Rightarrow> string \<Rightarrow> (string \<times> account list) list" where
  "add_claim a m e = AList.update e (list_or_empty (map_of m e) @ [a]) m"

definition email_claims :: "deployment \<Rightarrow> account list \<Rightarrow> (string \<times> account list) list" where
  "email_claims D ordered = foldl (\<lambda>m a. foldl (add_claim a) m (getClaimedEmails D a)) [] ordered"

definition add_conflict :: "string \<Rightarrow> string \<Rightarrow> (string \<times> (string \<times> string) list) list \<Rightarrow> account
    \<Rightarrow> (string \<times> (string \<times> string) list) list" where
  "add_conflict email ownerId m dup =
     AList.update (accountId dup) (list_or_empty (map_of m (accountId dup)) @ [(email, ownerId)]) m"

definition email_conflicts :: "(string \<times> account list) list \<Rightarrow> (string \<times> (string \<times> string) list) list" where
  "email_conflicts claims = foldl (\<lambda>m (e, claimants).
     foldl (add_conflict e (accountId (hd claimants))) m (tl claimants)) [] claims"

definition assessEmailOwnership :: "deployment \<Rightarrow> account list \<Rightarrow> ownership" where
  "assessEmailOwnership D accounts =
     (let ordered = js_sort (accountOrder D) accounts; claims = email_claims D ordered in
      \<lparr>ow_owners = map (\<lambda>(e, claimants). (e, hd claimants)) claims,
       ow_conflicts = email_conflicts claims\<rparr>)"

definition isEligible :: "ownership \<Rightarrow> account \<Rightarrow> bool" where
  "isEligible ow a = (map_of (ow_conflicts ow) (accountId a) = None)"

subsection \<open>Finding a user\<close>

datatype identity_error =
    EmailsOfDifferentUsers "string list"
  | ConflictingClaims string
  | IdentityOfSeveralUsers "string list"
  | IdentityAndEmailDiffer string string

definition findUserByEmails ::
  "deployment \<Rightarrow> string option list \<Rightarrow> account list \<Rightarrow> identity_error + account option" where
  "findUserByEmails D addrs allUsers =
     (let ow = assessEmailOwnership D allUsers;
          candidates = uniq (somes (map (map_of (ow_owners ow)) (somes (map (canonicalizeEmail D) addrs)))) in
      if length candidates > 1 then Inl (EmailsOfDifferentUsers (map accountId candidates))
      else case candidates of
        [] \<Rightarrow> Inr None
      | a # _ \<Rightarrow> if \<not> isEligible ow a then Inl (ConflictingClaims (accountId a)) else Inr (Some a))"

definition findUniqueStableIdentity ::
  "deployment \<Rightarrow> (account \<Rightarrow> bool) \<Rightarrow> account list \<Rightarrow> identity_error + account option" where
  "findUniqueStableIdentity D pred allUsers =
     (let matches = filter pred allUsers in
      if length matches > 1 then Inl (IdentityOfSeveralUsers (map accountId matches))
      else case matches of
        [] \<Rightarrow> Inr None
      | a # _ \<Rightarrow>
          if \<not> isEligible (assessEmailOwnership D allUsers) a then Inl (ConflictingClaims (accountId a))
          else Inr (Some a))"

definition has_identity :: "string \<Rightarrow> string \<Rightarrow> account \<Rightarrow> bool" where
  "has_identity providerKey subject a = (Option.bind (getIdentity providerKey a) id_sub = Some subject)"

definition findUserByIdentity ::
  "deployment \<Rightarrow> string \<Rightarrow> string \<Rightarrow> account list \<Rightarrow> identity_error + account option" where
  "findUserByIdentity D providerKey subject allUsers =
     findUniqueStableIdentity D (has_identity providerKey subject) allUsers"

definition has_github_id :: "string \<Rightarrow> account \<Rightarrow> bool" where
  "has_github_id githubId a = (tmpl (getGithubId a) = githubId)"

definition findUserByGithubId :: "deployment \<Rightarrow> string \<Rightarrow> account list \<Rightarrow> identity_error + account option" where
  "findUserByGithubId D githubId allUsers = findUniqueStableIdentity D (has_github_id githubId) allUsers"

subsection \<open>Resolving a sign-in to an account\<close>

record login_identity =
  li_providerKey :: "string option"
  li_subject :: "string option"
  li_githubId :: "string option"

text \<open>The upstream's addresses, canonical, the last entry of an address kept in the place of the
  first.\<close>

definition normalize_evidence :: "deployment \<Rightarrow> email_item list \<Rightarrow> email_item list" where
  "normalize_evidence D items = last_by em_email
     (map (\<lambda>e. \<lparr>em_email = canonicalizeEmail D (em_email e), em_primary = em_primary e,
        em_verified = em_verified e, em_trusted = False, em_observedAt = em_observedAt e\<rparr>) items)"

definition login_emails :: "deployment \<Rightarrow> string option \<Rightarrow> email_item list \<Rightarrow> string list" where
  "login_emails D email evidence = somes (canonicalizeEmail D email # map em_email evidence)"

definition linkable_emails :: "deployment \<Rightarrow> string option \<Rightarrow> email_item list \<Rightarrow> login_identity \<Rightarrow> string list" where
  "linkable_emails D email evidence i = somes (
     (if truthy (li_providerKey i) then None else canonicalizeEmail D email)
     # map em_email (filter (\<lambda>e. em_verified e = Some True) evidence))"

datatype resolution =
    Resolved account
  | NoAccount
  | RefusedUnverified string
  | BlockedByIntegrity identity_error

definition resolveUser ::
  "deployment \<Rightarrow> account list \<Rightarrow> string option \<Rightarrow> email_item list \<Rightarrow> login_identity \<Rightarrow> resolution" where
  "resolveUser D users email evidence i =
     (let stable = (if truthy (li_providerKey i) \<and> truthy (li_subject i)
                    then findUserByIdentity D (tmpl (li_providerKey i)) (tmpl (li_subject i)) users
                    else case li_githubId i of
                      Some g \<Rightarrow> findUserByGithubId D g users
                    | None \<Rightarrow> Inr None) in
      case stable of
        Inl e \<Rightarrow> BlockedByIntegrity e
      | Inr user \<Rightarrow>
          (case findUserByEmails D (map Some (login_emails D email evidence)) users of
             Inl e \<Rightarrow> BlockedByIntegrity e
           | Inr emailUser \<Rightarrow>
               (case (user, emailUser) of
                  (Some u, Some v) \<Rightarrow>
                    if accountId u \<noteq> accountId v
                    then BlockedByIntegrity (IdentityAndEmailDiffer (accountId u) (accountId v))
                    else Resolved u
                | (Some u, None) \<Rightarrow> Resolved u
                | (None, Some v) \<Rightarrow>
                    if \<not> (\<exists>e \<in> set (linkable_emails D email evidence i). isEmailLinkable D v (Some e))
                    then RefusedUnverified (accountId v) else Resolved v
                | (None, None) \<Rightarrow> NoAccount)))"

subsection \<open>The user objects\<close>

text \<open>The sections of the resource that updates merge into, and the cluster calls on users: the
  object calls, and the patch of the specs, which the client library computes as the difference
  of the two given values.\<close>

record user_specs =
  sp_passmower :: "passmower_section option"
  sp_slack :: "string option option"
  sp_github :: "github_section option"
  sp_identities :: "(string \<times> identity) list option"
  sp_webauthn :: "credential list option"

record 'w user_calls =
  uc_objects :: "(user_resource, user_status, 'w) object_calls"
  uc_patch :: "string \<Rightarrow> user_specs \<Rightarrow> user_specs \<Rightarrow> 'w \<Rightarrow> (nat + user_resource) \<times> 'w"

definition getSpecs :: "account \<Rightarrow> user_specs" where
  "getSpecs a = \<lparr>sp_passmower = a_passmower a, sp_slack = a_slack a, sp_github = a_github a,
     sp_identities = a_identities a, sp_webauthn = a_webauthn a\<rparr>"

definition listUsers :: "deployment \<Rightarrow> 'w user_calls \<Rightarrow> 'w \<Rightarrow> account list outcome \<times> 'w" where
  "listUsers D U w = listNamespacedCustomObject (uc_objects U) (fromKubernetes D) w"

definition findUser :: "deployment \<Rightarrow> 'w user_calls \<Rightarrow> string \<Rightarrow> 'w \<Rightarrow> account outcome \<times> 'w" where
  "findUser D U i w = getNamespacedCustomObject (uc_objects U) (fromKubernetes D) i w"

definition found :: "'a outcome \<Rightarrow> 'a option" where
  "found r = (case r of Found x \<Rightarrow> Some x | _ \<Rightarrow> None)"

definition mutateUserStatus ::
  "deployment \<Rightarrow> tos_document option \<Rightarrow> 'w user_calls \<Rightarrow> string \<Rightarrow> (account \<Rightarrow> account) \<Rightarrow> 'w \<Rightarrow> account outcome \<times> 'w" where
  "mutateUserStatus D doc U i mutation w =
     mutateNamespacedCustomObjectStatus (uc_objects U) (fromKubernetes D) r_status
       (\<lambda>a. getIntendedStatus D doc (mutation a)) i w"

definition reconcileUserStatus ::
  "deployment \<Rightarrow> tos_document option \<Rightarrow> 'w user_calls \<Rightarrow> string \<Rightarrow> 'w \<Rightarrow> account outcome \<times> 'w" where
  "reconcileUserStatus D doc U i w = mutateUserStatus D doc U i (\<lambda>a. a) w"

definition recordEmailVerification ::
  "deployment \<Rightarrow> tos_document option \<Rightarrow> 'w user_calls \<Rightarrow> string \<Rightarrow> string option \<Rightarrow> string \<Rightarrow> 'w \<Rightarrow> account outcome \<times> 'w" where
  "recordEmailVerification D doc U i email now w =
     mutateUserStatus D doc U i (verifyEmail D email ''magic-link'' ''passmower'' now) w"

definition new_user_body ::
  "string \<Rightarrow> labels \<Rightarrow> string option \<Rightarrow> email_item list \<Rightarrow> login_identity \<Rightarrow> user_resource" where
  "new_user_body name ls email evidence i = \<lparr>
     r_metadata = \<lparr>m_name = name, m_namespace = [], m_uid = [], m_resourceVersion = 0,
        m_creationTimestamp = None, m_generation = None, m_labels = ls, m_lastManager = None\<rparr>,
     r_spec = Some \<lparr>us_email = None, us_companyEmail = None, us_name = None, us_company = None,
        us_phones = None, us_type = None, us_groups = []\<rparr>,
     r_passmower = Some (empty_passmower\<lparr>pm_email := email\<rparr>),
     r_slack = None,
     r_github = Some \<lparr>gh_id = li_githubId i, gh_login = None, gh_name = None, gh_company = None,
        gh_emails = evidence, gh_groups = []\<rparr>,
     r_identities =
       (if truthy (li_providerKey i) \<and> truthy (li_subject i)
        then Some [(tmpl (li_providerKey i), \<lparr>id_sub = li_subject i, id_active = None, id_name = None,
               id_company = None, id_emails = [], id_groups = [], id_linkClaims = []\<rparr>)]
        else None),
     r_webauthn = None, r_status = None\<rparr>"

definition createUser ::
  "deployment \<Rightarrow> tos_document option \<Rightarrow> 'w user_calls \<Rightarrow> labels \<Rightarrow> string \<Rightarrow> string \<Rightarrow> string option
     \<Rightarrow> email_item list \<Rightarrow> login_identity \<Rightarrow> 'w \<Rightarrow> account option \<times> 'w" where
  "createUser D doc U managed inst name email evidence i w =
     (let ls = list_or_empty (withManagedLabels managed (Some (claimedBy_labels inst True))) in
      case createNamespacedCustomObject (uc_objects U) (fromKubernetes D) (new_user_body name ls email evidence i) w of
        (Found user, w1) \<Rightarrow> (let (r, w2) = reconcileUserStatus D doc U (accountId user) w1 in (found r, w2))
      | (_, w1) \<Rightarrow> (None, w1))"

text \<open>\<open>updateUserSpecs\<close>; \<open>merge_into\<close> is the deep merge of the update into the specs, in which a
  list of the update replaces the list it meets.\<close>

datatype update_error = UserNotFound string | PatchRejected string

definition updateUserSpecs ::
  "deployment \<Rightarrow> tos_document option \<Rightarrow> 'w user_calls \<Rightarrow> string \<Rightarrow> (user_specs \<Rightarrow> user_specs) \<Rightarrow> 'w
     \<Rightarrow> (update_error + account outcome) \<times> 'w" where
  "updateUserSpecs D doc U i merge_into w = (case findUser D U i w of
     (Found a, w1) \<Rightarrow>
       (let existing = getSpecs a in
        case uc_patch U i existing (merge_into existing) w1 of
          (Inr r, w2) \<Rightarrow>
            (let (res, w3) = reconcileUserStatus D doc U (accountId (fromKubernetes D r)) w2 in (Inr res, w3))
        | (Inl _, w2) \<Rightarrow> (Inl (PatchRejected i), w2))
   | (_, w1) \<Rightarrow> (Inl (UserNotFound i), w1))"

definition set_slack_id :: "string option \<Rightarrow> user_specs \<Rightarrow> user_specs" where
  "set_slack_id sid sp = sp\<lparr>sp_slack := Some (case sid of Some x \<Rightarrow> Some x
     | None \<Rightarrow> Option.bind (sp_slack sp) (\<lambda>x. x))\<rparr>"

subsection \<open>Signing in\<close>

datatype login_outcome =
    LoggedIn account
  | LinkRefused string
  | LoginBlocked identity_error
  | EnrollmentDisabled
  | UsernameRequired "string option"
  | CreateFailed
  | StatusNotWritten
  | LoginThrew

text \<open>How a new account gets its name: given, generated (\<open>uid\<close>), taken from the upstream, or
  asked for.\<close>

datatype name_choice = Named string | AskName "string option" | EnrollOff | BadSource

definition choose_username ::
  "deployment \<Rightarrow> string_checks \<Rightarrow> (string \<Rightarrow> account option) \<Rightarrow> username_source option \<Rightarrow> string
     \<Rightarrow> string option \<Rightarrow> string option \<Rightarrow> name_choice \<times> username_source option" where
  "choose_username D V findAccount memo uid username preferred =
     (if truthy username then (Named (tmpl username), memo)
      else if env_is D ''ENROLL_USERS'' ''false'' then (EnrollOff, memo)
      else
        (let (source, memo') = getUsernameSource D memo; candidate = sanitizeUsername preferred in
         (case source of
            Inl _ \<Rightarrow> BadSource
          | Inr Prompt \<Rightarrow> AskName (coalesce candidate preferred)
          | Inr Upstream \<Rightarrow>
              if truthy candidate \<and> isUsernameValid V candidate \<and> isUsernameAvailable findAccount candidate
              then Named (tmpl candidate) else AskName (coalesce candidate preferred)
          | Inr Generated \<Rightarrow> Named (tmpl (coalesce username (Some uid))), memo')))"

text \<open>\<open>createOrUpdateByEmails\<close>. \<open>slack\<close> is the Slack lookup; the username memo is returned.\<close>

definition createOrUpdateByEmails ::
  "deployment \<Rightarrow> tos_document option \<Rightarrow> string_checks \<Rightarrow> 'w user_calls \<Rightarrow> labels \<Rightarrow> string
     \<Rightarrow> (account \<Rightarrow> string option) \<Rightarrow> username_source option \<Rightarrow> string
     \<Rightarrow> string option \<Rightarrow> email_item list \<Rightarrow> string option \<Rightarrow> string option \<Rightarrow> login_identity \<Rightarrow> 'w
     \<Rightarrow> login_outcome \<times> username_source option \<times> 'w" where
  "createOrUpdateByEmails D doc V U managed inst slack memo uid email githubEmails username preferred i w =
     (let evidence = normalize_evidence D githubEmails;
          finish = (\<lambda>user memo' w'.
            (let (r, w2) = updateUserSpecs D doc U (accountId user) (set_slack_id (slack user)) w' in
             (case r of Inr (Found a) \<Rightarrow> LoggedIn a | Inr _ \<Rightarrow> StatusNotWritten | Inl _ \<Rightarrow> LoginThrew, memo', w2))) in
      case listUsers D U w of
        (Found users, w1) \<Rightarrow>
          (case resolveUser D users email evidence i of
             BlockedByIntegrity e \<Rightarrow> (LoginBlocked e, memo, w1)
           | RefusedUnverified v \<Rightarrow> (LinkRefused v, memo, w1)
           | Resolved user \<Rightarrow> finish user memo w1
           | NoAccount \<Rightarrow>
               (case choose_username D V (\<lambda>n. found (fst (findUser D U n w1))) memo uid username preferred of
                  (EnrollOff, memo') \<Rightarrow> (EnrollmentDisabled, memo', w1)
                | (BadSource, memo') \<Rightarrow> (LoginThrew, memo', w1)
                | (AskName suggestion, memo') \<Rightarrow> (UsernameRequired suggestion, memo', w1)
                | (Named name, memo') \<Rightarrow>
                    (case createUser D doc U managed inst name email evidence i w1 of
                       (None, w2) \<Rightarrow> (CreateFailed, memo', w2)
                     | (Some user, w2) \<Rightarrow> finish user memo' w2)))
      | (_, w1) \<Rightarrow> (LoginThrew, memo, w1))"

subsection \<open>The EmailUnique condition\<close>

definition conflict_message :: "(string \<times> string) list \<Rightarrow> string" where
  "conflict_message conflicts =
     (if conflicts = [] then ''All claimed email addresses are unique''
      else join_with ''; '' (map (\<lambda>(e, own). e @ '' is owned by OIDCUser '' @ own) conflicts))"

definition email_unique_condition :: "(string \<times> string) list \<Rightarrow> string \<Rightarrow> condition list \<Rightarrow> condition list" where
  "email_unique_condition conflicts now cs =
     (let status = (if conflicts \<noteq> [] then ''False'' else ''True'');
          previous = find (\<lambda>c. c_type c = ''EmailUnique'') cs;
          condition = \<lparr>c_type = ''EmailUnique'', c_status = status,
            c_reason = Some (if conflicts \<noteq> [] then ''DuplicateEmail'' else ''Unique''),
            c_message = Some (conflict_message conflicts),
            c_lastTransitionTime = (case previous of
               Some p \<Rightarrow> if c_status p = status then c_lastTransitionTime p else Some now
             | None \<Rightarrow> Some now)\<rparr> in
      filter (\<lambda>c. c_type c \<noteq> ''EmailUnique'') cs @ [condition])"

definition email_condition_current :: "(string \<times> string) list \<Rightarrow> condition list \<Rightarrow> bool" where
  "email_condition_current conflicts cs = (case find (\<lambda>c. c_type c = ''EmailUnique'') cs of
     None \<Rightarrow> False
   | Some p \<Rightarrow> c_status p = (if conflicts \<noteq> [] then ''False'' else ''True'')
       \<and> c_reason p = Some (if conflicts \<noteq> [] then ''DuplicateEmail'' else ''Unique'')
       \<and> c_message p = Some (conflict_message conflicts))"

text \<open>One account of \<open>reconcileEmailUniqueness\<close>; the state is the accounts whose update failed,
  the accounts an event was created for, and the cluster.\<close>

definition reconcile_one ::
  "deployment \<Rightarrow> tos_document option \<Rightarrow> 'w user_calls \<Rightarrow> ownership \<Rightarrow> string
     \<Rightarrow> string list \<times> string list \<times> 'w \<Rightarrow> account \<Rightarrow> string list \<times> string list \<times> 'w" where
  "reconcile_one D doc U ow now st a = (case st of (errors, events, w) \<Rightarrow>
     (let conflicts = list_or_empty (map_of (ow_conflicts ow) (accountId a)) in
      if email_condition_current conflicts (a_conditions a) then st
      else (case mutateUserStatus D doc U (accountId a)
               (\<lambda>c. setConditions (email_unique_condition conflicts now (a_conditions c)) c) w of
              (Found _, w1) \<Rightarrow>
                (errors,
                 (if conflicts \<noteq> []
                     \<and> map_option c_status (find (\<lambda>c. c_type c = ''EmailUnique'') (a_conditions a)) \<noteq> Some ''False''
                  then events @ [accountId a] else events), w1)
            | (_, w1) \<Rightarrow> (errors @ [accountId a], events, w1))))"

definition reconcileEmailUniqueness ::
  "deployment \<Rightarrow> tos_document option \<Rightarrow> 'w user_calls \<Rightarrow> string \<Rightarrow> 'w
     \<Rightarrow> (nat \<times> string list \<times> string list) option \<times> 'w" where
  "reconcileEmailUniqueness D doc U now w = (case listUsers D U w of
     (Found accounts, w1) \<Rightarrow>
       (let ow = assessEmailOwnership D accounts;
            (errors, events, w2) = foldl (reconcile_one D doc U ow now) ([], [], w1) accounts in
        (Some (length (filter (\<lambda>a. \<not> isEligible ow a) accounts), errors, events), w2))
   | (_, w1) \<Rightarrow> (None, w1))"

subsection \<open>Passkeys\<close>

datatype passkey_error = CredentialExists | CredentialNotFound

definition credentials_of :: "account \<Rightarrow> credential list" where
  "credentials_of a = list_or_empty (a_webauthn a)"

definition findUserByPasskeyId :: "string \<Rightarrow> account list \<Rightarrow> account option" where
  "findUserByPasskeyId cid users = find (\<lambda>a. \<exists>c \<in> set (credentials_of a). cr_id c = cid) users"

definition addPasskey :: "credential \<Rightarrow> credential list \<Rightarrow> passkey_error + credential list" where
  "addPasskey c existing =
     (if \<exists>x \<in> set existing. cr_id x = cr_id c then Inl CredentialExists else Inr (existing @ [c]))"

definition removePasskey :: "string \<Rightarrow> credential list \<Rightarrow> passkey_error + credential list" where
  "removePasskey cid existing =
     (let updated = filter (\<lambda>c. cr_id c \<noteq> cid) existing in
      if length updated = length existing then Inl CredentialNotFound else Inr updated)"

fun update_first :: "('a \<Rightarrow> bool) \<Rightarrow> ('a \<Rightarrow> 'a) \<Rightarrow> 'a list \<Rightarrow> 'a list option" where
  "update_first P f [] = None"
| "update_first P f (x # xs) = (if P x then Some (f x # xs) else map_option ((#) x) (update_first P f xs))"

definition update_passkey :: "string \<Rightarrow> (credential \<Rightarrow> credential) \<Rightarrow> credential list \<Rightarrow> passkey_error + credential list" where
  "update_passkey cid f existing = (case update_first (\<lambda>c. cr_id c = cid) f existing of
     None \<Rightarrow> Inl CredentialNotFound | Some cs \<Rightarrow> Inr cs)"

definition renamePasskey :: "string \<Rightarrow> string \<Rightarrow> credential list \<Rightarrow> passkey_error + credential list" where
  "renamePasskey cid name = update_passkey cid (\<lambda>c. c\<lparr>cr_name := name\<rparr>)"

definition updatePasskeyCounter :: "string \<Rightarrow> int \<Rightarrow> credential list \<Rightarrow> passkey_error + credential list" where
  "updatePasskeyCounter cid n = update_passkey cid (\<lambda>c. c\<lparr>cr_counter := n\<rparr>)"

text \<open>Each of the four reads the user, computes the new list, and stores it through
  \<open>updateUserSpecs\<close>.\<close>

definition passkey_update ::
  "deployment \<Rightarrow> tos_document option \<Rightarrow> 'w user_calls \<Rightarrow> (credential list \<Rightarrow> passkey_error + credential list)
     \<Rightarrow> string \<Rightarrow> 'w \<Rightarrow> (passkey_error + (update_error + account outcome)) option \<times> 'w" where
  "passkey_update D doc U f i w = (case findUser D U i w of
     (Found a, w1) \<Rightarrow>
       (case f (credentials_of a) of
          Inl e \<Rightarrow> (Some (Inl e), w1)
        | Inr cs \<Rightarrow>
            (let (r, w2) = updateUserSpecs D doc U i (\<lambda>sp. sp\<lparr>sp_webauthn := Some cs\<rparr>) w1
             in (Some (Inr r), w2)))
   | (_, w1) \<Rightarrow> (None, w1))"

subsection \<open>Ownership lemmas\<close>

lemma map_of_update: "map_of (AList.update k v m) c = (if c = k then Some v else map_of m c)"
  by (simp add: update_conv')

lemma map_of_add_claims:
  "distinct es \<Longrightarrow> map_of (foldl (add_claim a) m es) e =
     (if e \<in> set es then Some (list_or_empty (map_of m e) @ [a]) else map_of m e)"
  by (induction es arbitrary: m) (auto simp: add_claim_def map_of_update)

definition claimants :: "deployment \<Rightarrow> account list \<Rightarrow> string \<Rightarrow> account list" where
  "claimants D ordered e = filter (\<lambda>a. e \<in> set (getClaimedEmails D a)) ordered"

lemma map_of_email_claims:
  "map_of (email_claims D ordered) e = (if claimants D ordered e = [] then None else Some (claimants D ordered e))"
proof (induction ordered rule: rev_induct)
  case Nil
  then show ?case by (simp add: email_claims_def claimants_def)
next
  case (snoc a ordered)
  have "email_claims D (ordered @ [a]) = foldl (add_claim a) (email_claims D ordered) (getClaimedEmails D a)"
    by (simp add: email_claims_def)
  then show ?case
    by (simp add: map_of_add_claims snoc.IH) (simp add: claimants_def)
qed

lemma distinct_add_claims: "distinct (map fst m) \<Longrightarrow> distinct (map fst (foldl (add_claim a) m es))"
  by (induction es arbitrary: m) (auto simp: add_claim_def distinct_update)

lemma distinct_email_claims: "distinct (map fst (email_claims D ordered))"
  by (induction ordered rule: rev_induct) (simp_all add: email_claims_def distinct_add_claims)

lemma in_email_claims:
  "(e, cs) \<in> set (email_claims D ordered) \<longleftrightarrow> cs = claimants D ordered e \<and> cs \<noteq> []"
proof -
  have "(e, cs) \<in> set (email_claims D ordered) \<longleftrightarrow> map_of (email_claims D ordered) e = Some cs"
    using distinct_email_claims by (simp add: map_of_eq_Some_iff)
  then show ?thesis by (auto simp: map_of_email_claims)
qed

lemma add_conflicts_None:
  "map_of (foldl (add_conflict e own) m dups) k = None \<longleftrightarrow> map_of m k = None \<and> k \<notin> accountId ` set dups"
  by (induction dups arbitrary: m) (auto simp: add_conflict_def map_of_update)

lemma email_conflicts_None:
  "map_of (email_conflicts claims) k = None \<longleftrightarrow> (\<forall>(e, cs) \<in> set claims. k \<notin> accountId ` set (tl cs))"
proof -
  have "map_of (foldl (\<lambda>m (e, cs). foldl (add_conflict e (accountId (hd cs))) m (tl cs)) m claims) k = None \<longleftrightarrow>
      map_of m k = None \<and> (\<forall>(e, cs) \<in> set claims. k \<notin> accountId ` set (tl cs))" for m
    by (induction claims arbitrary: m) (auto simp: add_conflicts_None)
  then show ?thesis by (simp add: email_conflicts_def)
qed

lemma isEligible_iff:
  "isEligible (assessEmailOwnership D accounts) a \<longleftrightarrow>
     (\<forall>e. accountId a \<notin> accountId ` set (tl (claimants D (js_sort (accountOrder D) accounts) e)))"
proof -
  let ?ordered = "js_sort (accountOrder D) accounts"
  have "isEligible (assessEmailOwnership D accounts) a \<longleftrightarrow>
      (\<forall>(e, cs) \<in> set (email_claims D ?ordered). accountId a \<notin> accountId ` set (tl cs))"
    by (simp add: isEligible_def assessEmailOwnership_def Let_def email_conflicts_None)
  also have "\<dots> \<longleftrightarrow> (\<forall>e. accountId a \<notin> accountId ` set (tl (claimants D ?ordered e)))"
  proof
    assume h: "\<forall>(e, cs) \<in> set (email_claims D ?ordered). accountId a \<notin> accountId ` set (tl cs)"
    show "\<forall>e. accountId a \<notin> accountId ` set (tl (claimants D ?ordered e))"
    proof
      fix e
      show "accountId a \<notin> accountId ` set (tl (claimants D ?ordered e))"
      proof (cases "claimants D ?ordered e")
        case Nil
        then show ?thesis by simp
      next
        case (Cons b bs)
        then have "(e, claimants D ?ordered e) \<in> set (email_claims D ?ordered)" by (simp add: in_email_claims)
        from bspec [OF h this] show ?thesis by simp
      qed
    qed
  next
    assume h: "\<forall>e. accountId a \<notin> accountId ` set (tl (claimants D ?ordered e))"
    show "\<forall>(e, cs) \<in> set (email_claims D ?ordered). accountId a \<notin> accountId ` set (tl cs)"
    proof (intro ballI)
      fix p assume p: "p \<in> set (email_claims D ?ordered)"
      obtain e cs where "p = (e, cs)" by (cases p)
      with p have "p = (e, claimants D ?ordered e)" by (simp add: in_email_claims)
      with spec [OF h, of e] show "case p of (e, cs) \<Rightarrow> accountId a \<notin> accountId ` set (tl cs)" by simp
    qed
  qed
  finally show ?thesis .
qed

lemma owners_iff:
  "map_of (ow_owners (assessEmailOwnership D accounts)) e = Some own \<longleftrightarrow>
     claimants D (js_sort (accountOrder D) accounts) e \<noteq> []
     \<and> own = hd (claimants D (js_sort (accountOrder D) accounts) e)"
  by (auto simp: assessEmailOwnership_def Let_def map_of_map_snd map_of_email_claims)

lemma set_claimants: "set (claimants D ordered e) = {a \<in> set ordered. e \<in> set (getClaimedEmails D a)}"
  by (auto simp: claimants_def)

text \<open>An eligible account owns every address it claims.\<close>

lemma eligible_owns:
  assumes "a \<in> set accounts" and "inj_on accountId (set accounts)"
    and "isEligible (assessEmailOwnership D accounts) a" and "e \<in> set (getClaimedEmails D a)"
  shows "map_of (ow_owners (assessEmailOwnership D accounts)) e = Some a"
proof -
  let ?cs = "claimants D (js_sort (accountOrder D) accounts) e"
  have a: "a \<in> set ?cs" using assms(1,4) by (simp add: set_claimants)
  then obtain x xs where cs: "?cs = x # xs" by (cases ?cs) auto
  have "accountId a \<notin> accountId ` set xs" using assms(3) cs by (metis isEligible_iff list.sel(3))
  with a cs have "a = x" by auto
  then show ?thesis by (simp add: owners_iff cs)
qed

lemma owner_first:
  assumes "total_comparator (accountOrder D)"
    and "map_of (ow_owners (assessEmailOwnership D accounts)) e = Some own"
    and "b \<in> set accounts" "e \<in> set (getClaimedEmails D b)"
  shows "own = b \<or> accountOrder D own b \<le> 0"
proof -
  let ?ord = "js_sort (accountOrder D) accounts"
  have "sorted_wrt (\<lambda>x y. accountOrder D x y \<le> 0) (claimants D ?ord e)"
    unfolding claimants_def by (rule sorted_wrt_filter) (rule sorted_js_sort [OF assms(1)])
  moreover have "own = hd (claimants D ?ord e)" "claimants D ?ord e \<noteq> []"
    using assms(2) by (auto simp: owners_iff)
  moreover have "b \<in> set (claimants D ?ord e)" using assms(3,4) by (simp add: set_claimants)
  ultimately show ?thesis by (cases "claimants D ?ord e") auto
qed


definition demo_pair :: "account list" where
  "demo_pair = [demo_account ''bob'' 2 ''a@x'', demo_account ''ann'' 1 ''a@x'']"

lemma demo_compare: "locale_compare demo a b = int (length a) - int (length b)"
  by (simp add: demo_def)

subsection \<open>Which account a sign-in reaches\<close>

lemma findUniqueStableIdentity_SomeD:
  assumes "findUniqueStableIdentity D pred users = Inr (Some a)"
  shows "a \<in> set users \<and> pred a \<and> isEligible (assessEmailOwnership D users) a
    \<and> (\<forall>b \<in> set users. pred b \<longrightarrow> b = a)"
proof -
  from assms obtain ms where f: "filter pred users = a # ms" "length (a # ms) \<le> 1"
    and e: "isEligible (assessEmailOwnership D users) a"
    by (auto simp: findUniqueStableIdentity_def Let_def split: if_splits list.splits)
  then have "filter pred users = [a]" by simp
  then have "set (filter pred users) = {a}" by simp
  with e show ?thesis by auto
qed

lemma findUserByEmails_SomeD:
  assumes "findUserByEmails D addrs users = Inr (Some a)"
  shows "a \<in> set users \<and> isEligible (assessEmailOwnership D users) a"
proof -
  let ?ow = "assessEmailOwnership D users"
  let ?found = "somes (map (map_of (ow_owners ?ow)) (somes (map (canonicalizeEmail D) addrs)))"
  from assms have e: "isEligible ?ow a" and u: "uniq ?found = [a]"
    by (auto simp: findUserByEmails_def Let_def split: if_splits list.splits)
  from u have "set (uniq ?found) = {a}" by simp
  then have "a \<in> set ?found" by (simp only: set_uniq insertI1)
  then obtain c where "map_of (ow_owners ?ow) c = Some a" by (auto simp: set_somes)
  then have "claimants D (js_sort (accountOrder D) users) c \<noteq> []"
    "a = hd (claimants D (js_sort (accountOrder D) users) c)" by (auto simp: owners_iff)
  then have "a \<in> set (claimants D (js_sort (accountOrder D) users) c)" by simp
  with e show ?thesis by (simp add: set_claimants)
qed

lemma linkable_cases:
  "e \<in> set (linkable_emails D email evidence i) \<Longrightarrow>
     (\<not> truthy (li_providerKey i) \<and> canonicalizeEmail D email = Some e)
     \<or> (\<exists>item \<in> set evidence. em_verified item = Some True \<and> em_email item = Some e)"
  by (auto simp: linkable_emails_def set_somes split: if_splits)

lemma normalize_evidence_from:
  assumes "item \<in> set (normalize_evidence D items)"
  shows "\<exists>raw \<in> set items. em_email item = canonicalizeEmail D (em_email raw) \<and> em_verified item = em_verified raw"
proof -
  let ?f = "\<lambda>e. \<lparr>em_email = canonicalizeEmail D (em_email e), em_primary = em_primary e,
        em_verified = em_verified e, em_trusted = False, em_observedAt = em_observedAt e\<rparr>"
  from assms have "item \<in> set (last_by em_email (map ?f items))" by (simp add: normalize_evidence_def)
  then have "item \<in> set (map ?f items)" by (rule subsetD [OF last_by_subset])
  then show ?thesis by auto
qed

lemma isEmailLinkable_cases:
  assumes "isEmailLinkable D a (Some e)"
  shows "\<exists>c. canonicalizeEmail D (Some e) = Some c \<and> c \<in> set (getClaimedEmails D a)
    \<and> (verified_for c (getEmailVerifications D a)
       \<or> canonicalizeEmail D (Option.bind (a_spec a) us_email) = Some c
       \<or> canonicalizeEmail D (Option.bind (a_spec a) us_companyEmail) = Some c
       \<or> (\<forall>i \<in> set (identity_values a). \<forall>item \<in> set (id_emails i). canonicalizeEmail D (em_email item) \<noteq> Some c))"
  using assms by (auto simp: isEmailLinkable_def split: option.splits if_splits)


lemma demo_order: "total_comparator (accountOrder demo)"
  by (auto simp: total_comparator_def accountOrder_def Let_def demo_compare)



subsection \<open>Passkeys stay apart\<close>

lemma update_first_None: "update_first P f xs = None \<longleftrightarrow> (\<forall>x \<in> set xs. \<not> P x)"
  by (induction xs) auto

lemma update_first_ids:
  "update_first (\<lambda>c. cr_id c = k) f cs = Some cs' \<Longrightarrow> \<forall>c. cr_id (f c) = cr_id c \<Longrightarrow>
     map cr_id cs' = map cr_id cs
     \<and> (\<forall>j. find (\<lambda>c. cr_id c = j) cs' =
          (if j = k then map_option f (find (\<lambda>c. cr_id c = j) cs) else find (\<lambda>c. cr_id c = j) cs))"
proof (induction cs arbitrary: cs')
  case Nil
  then show ?case by simp
next
  case (Cons c cs)
  then show ?case by (auto split: if_splits)
qed

lemma update_passkey_unknown: "update_passkey k f cs = Inl CredentialNotFound \<longleftrightarrow> k \<notin> cr_id ` set cs"
  using update_first_None [of "\<lambda>c. cr_id c = k" f cs] by (auto simp: update_passkey_def split: option.split)

lemma update_passkey_effect:
  assumes "update_passkey k f cs = Inr cs'" "\<forall>c. cr_id (f c) = cr_id c"
  shows "map cr_id cs' = map cr_id cs
     \<and> (\<forall>j. find (\<lambda>c. cr_id c = j) cs' =
          (if j = k then map_option f (find (\<lambda>c. cr_id c = j) cs) else find (\<lambda>c. cr_id c = j) cs))"
  using assms by (intro update_first_ids) (auto simp: update_passkey_def split: option.splits)

lemma filter_shorter: "length (filter P xs) = length xs \<longleftrightarrow> (\<forall>x \<in> set xs. P x)"
  by (metis filter_id_conv length_filter_less less_irrefl)

text \<open>
  Passkeys stay apart. Every operation on a user's passkeys keeps their credential ids
  distinct. A passkey is added only under a new id and behind the others; removing, renaming and
  counting fail exactly when the id is unknown; removing leaves every other passkey as it was,
  and a rename or a new counter reaches the named passkey alone.
\<close>

theorem passkeys_stay_apart:
  assumes "distinct (map cr_id cs)"
  shows "(\<forall>c. addPasskey c cs = (if cr_id c \<in> cr_id ` set cs then Inl CredentialExists else Inr (cs @ [c]))
        \<and> (\<forall>cs'. addPasskey c cs = Inr cs' \<longrightarrow> distinct (map cr_id cs')))
    \<and> (\<forall>k. (removePasskey k cs = Inl CredentialNotFound \<longleftrightarrow> k \<notin> cr_id ` set cs)
        \<and> (\<forall>cs'. removePasskey k cs = Inr cs' \<longrightarrow> distinct (map cr_id cs') \<and> set cs' = {c \<in> set cs. cr_id c \<noteq> k}))
    \<and> (\<forall>k n. (updatePasskeyCounter k n cs = Inl CredentialNotFound \<longleftrightarrow> k \<notin> cr_id ` set cs)
        \<and> (\<forall>cs'. updatePasskeyCounter k n cs = Inr cs' \<longrightarrow> map cr_id cs' = map cr_id cs
             \<and> (\<forall>j. find (\<lambda>c. cr_id c = j) cs' = (if j = k
                  then map_option (\<lambda>c. c\<lparr>cr_counter := n\<rparr>) (find (\<lambda>c. cr_id c = j) cs)
                  else find (\<lambda>c. cr_id c = j) cs))))
    \<and> (\<forall>k s. (renamePasskey k s cs = Inl CredentialNotFound \<longleftrightarrow> k \<notin> cr_id ` set cs)
        \<and> (\<forall>cs'. renamePasskey k s cs = Inr cs' \<longrightarrow> map cr_id cs' = map cr_id cs
             \<and> (\<forall>j. find (\<lambda>c. cr_id c = j) cs' = (if j = k
                  then map_option (\<lambda>c. c\<lparr>cr_name := s\<rparr>) (find (\<lambda>c. cr_id c = j) cs)
                  else find (\<lambda>c. cr_id c = j) cs))))"
proof (intro conjI allI impI)
  fix c cs' assume "addPasskey c cs = Inr cs'"
  then have "cs' = cs @ [c]" "\<forall>x \<in> set cs. cr_id x \<noteq> cr_id c" by (auto simp: addPasskey_def split: if_splits)
  then show "distinct (map cr_id cs')" using assms by auto
next
  fix k cs' assume "removePasskey k cs = Inr cs'"
  then have e: "cs' = filter (\<lambda>c. cr_id c \<noteq> k) cs" by (auto simp: removePasskey_def Let_def split: if_splits)
  show "distinct (map cr_id cs')" "set cs' = {c \<in> set cs. cr_id c \<noteq> k}"
    using assms unfolding e by (simp_all add: distinct_map_filter)
next
  fix c show "addPasskey c cs = (if cr_id c \<in> cr_id ` set cs then Inl CredentialExists else Inr (cs @ [c]))"
    by (auto simp: addPasskey_def intro: rev_image_eqI)
next
  fix k n cs' assume "updatePasskeyCounter k n cs = Inr cs'"
  from update_passkey_effect [OF this [unfolded updatePasskeyCounter_def]]
  show "map cr_id cs' = map cr_id cs" "\<And>j. find (\<lambda>c. cr_id c = j) cs' = (if j = k
      then map_option (\<lambda>c. c\<lparr>cr_counter := n\<rparr>) (find (\<lambda>c. cr_id c = j) cs) else find (\<lambda>c. cr_id c = j) cs)"
    by simp_all
next
  fix k s cs' assume "renamePasskey k s cs = Inr cs'"
  from update_passkey_effect [OF this [unfolded renamePasskey_def]]
  show "map cr_id cs' = map cr_id cs" "\<And>j. find (\<lambda>c. cr_id c = j) cs' = (if j = k
      then map_option (\<lambda>c. c\<lparr>cr_name := s\<rparr>) (find (\<lambda>c. cr_id c = j) cs) else find (\<lambda>c. cr_id c = j) cs)"
    by simp_all
qed (auto simp: updatePasskeyCounter_def renamePasskey_def update_passkey_unknown
      removePasskey_def Let_def filter_shorter)

theorem passkeys_stay_apart_witness:
  "addPasskey \<lparr>cr_id = ''k2'', cr_publicKey = [], cr_counter = 0, cr_name = ''phone''\<rparr>
     [\<lparr>cr_id = ''k1'', cr_publicKey = [], cr_counter = 7, cr_name = ''laptop''\<rparr>]
   = Inr [\<lparr>cr_id = ''k1'', cr_publicKey = [], cr_counter = 7, cr_name = ''laptop''\<rparr>,
          \<lparr>cr_id = ''k2'', cr_publicKey = [], cr_counter = 0, cr_name = ''phone''\<rparr>]"
  using passkeys_stay_apart [of "[\<lparr>cr_id = ''k1'', cr_publicKey = [], cr_counter = 7, cr_name = ''laptop''\<rparr>]"]
  by simp

end
