(* ===== verification/LeaderElection.thy ===== *)
theory LeaderElection
  imports Deployment
begin

text \<open>
  Leader election among the replicas, \<^verbatim>\<open>src/services/leader-election.js\<close>, over one
  \<open>coordination.k8s.io\<close> Lease (\<open>getLease\<close>, \<open>createLease\<close>, \<open>replaceLease\<close> of
  \<^verbatim>\<open>src/adapters/kubernetes.js\<close>). One pass of the algorithm is \<open>tick\<close>; the Lease calls are a
  parameter. A second part runs many pods against one server that compares versions, with the
  requests of different pods interleaved, and shows what the election guarantees.

  Times are instants in milliseconds, durations seconds; \<open>microTime\<close> is what a time looks like in
  the Lease. Within one turn of the event loop the clock is read once. The two callbacks are
  recorded as signals; what they do, and that they may throw, is in \<^verbatim>\<open>Operators\<close>.
\<close>

subsection \<open>The Lease\<close>

record lease_spec =
  ls_holder :: "string option"
  ls_duration :: "int option"
  ls_acquire :: "instant option"
  ls_renew :: "instant option"
  ls_transitions :: "int option"

record lease =
  lz_version :: nat
  lz_spec :: "lease_spec option"

text \<open>A refused call answers with its code, if it has one.\<close>

type_synonym api_code = "nat option"

record 'w lease_calls =
  lc_now :: "'w \<Rightarrow> instant"
  lc_read :: "'w \<Rightarrow> (api_code + lease) \<times> 'w"
  lc_create :: "lease_spec \<Rightarrow> 'w \<Rightarrow> (api_code + unit) \<times> 'w"
  lc_replace :: "lease \<Rightarrow> lease_spec \<Rightarrow> 'w \<Rightarrow> (api_code + unit) \<times> 'w"

definition getLease :: "'w lease_calls \<Rightarrow> 'w \<Rightarrow> (api_code + lease option) \<times> 'w" where
  "getLease L w = (case lc_read L w of
     (Inr l, w1) \<Rightarrow> (Inr (Some l), w1)
   | (Inl c, w1) \<Rightarrow> (if c = Some 404 then Inr None else Inl c, w1))"

text \<open>The text of a time: \<open>toISOString\<close> ends in three digits and a \<open>Z\<close>, the Lease wants six.\<close>

definition is_digit :: "char \<Rightarrow> bool" where
  "is_digit c = (c \<in> set ''0123456789'')"

definition microTime :: "string \<Rightarrow> string" where
  "microTime stamp = (case rev stamp of
     z # c # b # a # dot # rest \<Rightarrow>
       if z = CHR ''Z'' \<and> dot = CHR ''.'' \<and> is_digit a \<and> is_digit b \<and> is_digit c
       then rev (dot # rest) @ [a, b, c] @ ''000Z'' else stamp
   | _ \<Rightarrow> stamp)"

subsection \<open>Configuration\<close>

definition podIdentity :: "deployment \<Rightarrow> string \<Rightarrow> string" where
  "podIdentity D hostname = tmpl (js_or (penv D ''POD_NAME'') (Some hostname))"

definition isLeaderElectionEnabled :: "deployment \<Rightarrow> bool" where
  "isLeaderElectionEnabled D = (\<not> env_is D ''LEADER_ELECTION_ENABLED'' ''false'')"

text \<open>\<open>parse_int\<close> is \<open>Number.parseInt\<close> in base ten, \<open>None\<close> for \<open>NaN\<close>.\<close>

definition intEnv :: "deployment \<Rightarrow> (string \<Rightarrow> int option) \<Rightarrow> string \<Rightarrow> int \<Rightarrow> int" where
  "intEnv D parse_int name fallback =
     (case parse_int (case penv D name of Some s \<Rightarrow> s | None \<Rightarrow> []) of
        Some n \<Rightarrow> if n > 0 then n else fallback
      | None \<Rightarrow> fallback)"

subsection \<open>The elector\<close>

datatype signal = StartedLeading | StoppedLeading

record elector =
  el_identity :: string
  el_duration :: int
  el_deadline :: int
  el_leading :: bool
  el_timer :: bool
  el_ticking :: bool
  el_lastRenewed :: "instant option"
  el_stopped :: bool
  el_signals :: "signal list"

definition new_elector :: "deployment \<Rightarrow> (string \<Rightarrow> int option) \<Rightarrow> string \<Rightarrow> elector" where
  "new_elector D parse_int hostname = \<lparr>el_identity = podIdentity D hostname,
     el_duration = intEnv D parse_int ''LEADER_LEASE_DURATION_SECONDS'' 15,
     el_deadline = intEnv D parse_int ''LEADER_RENEW_DEADLINE_SECONDS'' 10,
     el_leading = False, el_timer = False, el_ticking = False, el_lastRenewed = None,
     el_stopped = False, el_signals = []\<rparr>"

definition startLeading :: "elector \<Rightarrow> elector" where
  "startLeading el = (if el_leading el then el
     else el\<lparr>el_leading := True, el_signals := el_signals el @ [StartedLeading]\<rparr>)"

definition stopLeading :: "elector \<Rightarrow> elector" where
  "stopLeading el = (if \<not> el_leading el then el
     else el\<lparr>el_leading := False, el_signals := el_signals el @ [StoppedLeading]\<rparr>)"

text \<open>\<open>Some\<close> code: the error is thrown again.\<close>

definition handleApiError :: "api_code \<Rightarrow> elector \<Rightarrow> api_code option \<times> elector" where
  "handleApiError c el = (if c = Some 403 \<or> c = Some 401
     then (None, startLeading (el\<lparr>el_timer := False\<rparr>)) else (Some c, el))"

definition expired :: "elector \<Rightarrow> instant \<Rightarrow> lease \<Rightarrow> bool" where
  "expired el now l = (case lz_spec l of
     None \<Rightarrow> True
   | Some s \<Rightarrow> \<not> truthy (ls_holder s)
       \<or> (case ls_renew s of
            None \<Rightarrow> True
          | Some r \<Rightarrow> now - r > (case ls_duration s of Some d \<Rightarrow> d | None \<Rightarrow> el_duration el) * 1000))"

definition acquire_spec :: "elector \<Rightarrow> instant \<Rightarrow> lease option \<Rightarrow> lease_spec" where
  "acquire_spec el now existing = \<lparr>ls_holder = Some (el_identity el), ls_duration = Some (el_duration el),
     ls_acquire = Some now, ls_renew = Some now,
     ls_transitions = Some ((case Option.bind (Option.bind existing lz_spec) ls_transitions of
        Some n \<Rightarrow> n | None \<Rightarrow> 0) + 1)\<rparr>"

definition renew_spec :: "elector \<Rightarrow> instant \<Rightarrow> lease_spec \<Rightarrow> lease_spec" where
  "renew_spec el now s = s\<lparr>ls_renew := Some now, ls_duration := Some (el_duration el)\<rparr>"

definition release_spec :: "lease_spec \<Rightarrow> lease_spec" where
  "release_spec s = s\<lparr>ls_holder := None, ls_renew := None\<rparr>"

text \<open>What a tick does about the lease it read: stand down, or send a write of its own.\<close>

datatype lease_write = Create lease_spec | Replace lease lease_spec
datatype intent = Acquiring | Renewing
datatype decision = StandDown | Request intent lease_write

definition held_spec :: "string \<Rightarrow> lease \<Rightarrow> lease_spec option" where
  "held_spec i l = (case lz_spec l of
     Some s \<Rightarrow> if ls_holder s = Some i then Some s else None
   | None \<Rightarrow> None)"

definition tick_decide :: "elector \<Rightarrow> instant \<Rightarrow> lease option \<Rightarrow> decision" where
  "tick_decide el now found = (case found of
     None \<Rightarrow> Request Acquiring (Create (acquire_spec el now None))
   | Some l \<Rightarrow>
       (case held_spec (el_identity el) l of
          Some s \<Rightarrow> Request Renewing (Replace l (renew_spec el now s))
        | None \<Rightarrow>
            if expired el now l then Request Acquiring (Replace l (acquire_spec el now (Some l)))
            else StandDown))"

definition failRenewal :: "instant \<Rightarrow> elector \<Rightarrow> elector" where
  "failRenewal now el =
     (if \<not> el_leading el then el
      else if (case el_lastRenewed el of None \<Rightarrow> True | Some t \<Rightarrow> now - t > el_deadline el * 1000)
      then stopLeading el else el)"

definition tick_answer :: "intent \<Rightarrow> api_code + unit \<Rightarrow> instant \<Rightarrow> elector \<Rightarrow> api_code option \<times> elector" where
  "tick_answer i r now el = (case r of
     Inr _ \<Rightarrow> (None, startLeading (el\<lparr>el_lastRenewed := Some now\<rparr>))
   | Inl c \<Rightarrow>
       (case i of
          Acquiring \<Rightarrow> if c = Some 409 then (None, stopLeading el) else handleApiError c el
        | Renewing \<Rightarrow>
            if c = Some 409 then (None, failRenewal now el)
            else (case handleApiError c el of
                    (Some e, el') \<Rightarrow> (Some e, el')
                  | (None, el') \<Rightarrow> (None, failRenewal now el'))))"

definition send :: "'w lease_calls \<Rightarrow> lease_write \<Rightarrow> 'w \<Rightarrow> (api_code + unit) \<times> 'w" where
  "send L wr w = (case wr of Create s \<Rightarrow> lc_create L s w | Replace l s \<Rightarrow> lc_replace L l s w)"

definition tick :: "'w lease_calls \<Rightarrow> elector \<Rightarrow> 'w \<Rightarrow> (api_code option \<times> elector) \<times> 'w" where
  "tick L el w =
     (if el_stopped el then ((None, el), w)
      else (case getLease L w of
        (Inl c, w1) \<Rightarrow> (handleApiError c el, w1)
      | (Inr found, w1) \<Rightarrow>
          (case tick_decide el (lc_now L w1) found of
             StandDown \<Rightarrow> ((None, stopLeading el), w1)
           | Request i wr \<Rightarrow>
               (let (r, w2) = send L wr w1 in (tick_answer i r (lc_now L w2) el, w2)))))"

definition tickQuietly :: "'w lease_calls \<Rightarrow> elector \<Rightarrow> 'w \<Rightarrow> elector \<times> 'w" where
  "tickQuietly L el w =
     (if el_ticking el then (el, w)
      else (let ((_, el'), w') = tick L (el\<lparr>el_ticking := True\<rparr>) w in (el'\<lparr>el_ticking := False\<rparr>, w')))"

text \<open>The interval fires only while it is set.\<close>

definition timer_fires :: "'w lease_calls \<Rightarrow> elector \<Rightarrow> 'w \<Rightarrow> elector \<times> 'w" where
  "timer_fires L el w = (if el_timer el then tickQuietly L el w else (el, w))"

definition election_start :: "'w lease_calls \<Rightarrow> elector \<Rightarrow> 'w \<Rightarrow> elector \<times> 'w" where
  "election_start L el w =
     (if el_timer el then (el, w) else tickQuietly L (el\<lparr>el_stopped := False, el_timer := True\<rparr>) w)"

definition election_stop :: "'w lease_calls \<Rightarrow> elector \<Rightarrow> 'w \<Rightarrow> elector \<times> 'w" where
  "election_stop L el w =
     (let el1 = el\<lparr>el_stopped := True, el_timer := False\<rparr> in
      if \<not> el_leading el1 then (el1, w)
      else (case getLease L w of
        (Inr (Some l), w1) \<Rightarrow>
          (case held_spec (el_identity el1) l of
             Some s \<Rightarrow> (stopLeading el1, snd (lc_replace L l (release_spec s) w1))
           | None \<Rightarrow> (stopLeading el1, w1))
      | (_, w1) \<Rightarrow> (stopLeading el1, w1)))"

subsection \<open>The server and its pods\<close>

text \<open>
  Many pods, one server. A tick is cut where other pods can act: the read's answer, the decision
  and the sending of a write, the server's handling of it, and the arrival of its answer; the
  clock may move between any two. The server accepts a write only against the version it read
  (a create only when there is no Lease), and a write that was accepted may still be answered by
  an error. A refusal by 401 or 403 is left out: then the code leads without a Lease on purpose.
  A pod is stopped between its ticks. \<open>cl_written\<close>, which no code reads, is the last spec of each
  pod that the server accepted, until the pod releases it.
\<close>

datatype flight =
    Idle
  | Got "lease option"
  | Sent intent lease_write
  | Settled intent "api_code + unit"
  | StopGot lease
  | Leaving

record cluster =
  cl_clock :: instant
  cl_version :: nat
  cl_lease :: "lease option"
  cl_pods :: "string \<Rightarrow> elector"
  cl_flight :: "string \<Rightarrow> flight"
  cl_written :: "string \<Rightarrow> lease_spec option"

definition set_pod :: "string \<Rightarrow> elector \<Rightarrow> cluster \<Rightarrow> cluster" where
  "set_pod p el c = c\<lparr>cl_pods := (cl_pods c)(p := el)\<rparr>"

definition set_flight :: "string \<Rightarrow> flight \<Rightarrow> cluster \<Rightarrow> cluster" where
  "set_flight p f c = c\<lparr>cl_flight := (cl_flight c)(p := f)\<rparr>"

definition store_spec :: "string \<Rightarrow> lease_spec \<Rightarrow> lease_spec option \<Rightarrow> cluster \<Rightarrow> cluster" where
  "store_spec p s ghost c = c\<lparr>cl_lease := Some \<lparr>lz_version = Suc (cl_version c), lz_spec = Some s\<rparr>,
     cl_version := Suc (cl_version c), cl_written := (cl_written c)(p := ghost)\<rparr>"

fun write_ok :: "cluster \<Rightarrow> lease_write \<Rightarrow> bool" where
  "write_ok c (Create s) = (cl_lease c = None)"
| "write_ok c (Replace l s) = (\<exists>l'. cl_lease c = Some l' \<and> lz_version l' = lz_version l)"

fun write_spec :: "lease_write \<Rightarrow> lease_spec" where
  "write_spec (Create s) = s"
| "write_spec (Replace l s) = s"

definition tolerated :: "api_code \<Rightarrow> bool" where
  "tolerated c = (c \<noteq> Some 401 \<and> c \<noteq> Some 403)"

inductive cluster_step :: "cluster \<Rightarrow> cluster \<Rightarrow> bool" where
  passes: "cl_clock c \<le> t \<Longrightarrow> cluster_step c (c\<lparr>cl_clock := t\<rparr>)"
| starts: "cl_flight c p = Idle \<Longrightarrow>
    cluster_step c (set_pod p ((cl_pods c p)\<lparr>el_stopped := False, el_timer := True\<rparr>) c)"
| reads: "cl_flight c p = Idle \<Longrightarrow> \<not> el_stopped (cl_pods c p) \<Longrightarrow>
    cluster_step c (set_flight p (Got (cl_lease c)) c)"
| decides: "cl_flight c p = Got found \<Longrightarrow> tick_decide (cl_pods c p) (cl_clock c) found = Request i wr \<Longrightarrow>
    cluster_step c (set_flight p (Sent i wr) c)"
| stands_down: "cl_flight c p = Got found \<Longrightarrow> tick_decide (cl_pods c p) (cl_clock c) found = StandDown \<Longrightarrow>
    cluster_step c (set_flight p Idle (set_pod p (stopLeading (cl_pods c p)) c))"
| accepted: "cl_flight c p = Sent i wr \<Longrightarrow> write_ok c wr \<Longrightarrow> r = Inr () \<or> (\<exists>e. r = Inl e \<and> tolerated e) \<Longrightarrow>
    cluster_step c (set_flight p (Settled i r) (store_spec p (write_spec wr) (Some (write_spec wr)) c))"
| refused: "cl_flight c p = Sent i wr \<Longrightarrow> tolerated e \<Longrightarrow>
    cluster_step c (set_flight p (Settled i (Inl e)) c)"
| answered: "cl_flight c p = Settled i r \<Longrightarrow>
    cluster_step c (set_flight p Idle (set_pod p (snd (tick_answer i r (cl_clock c) (cl_pods c p))) c))"
| stops: "cl_flight c p = Idle \<Longrightarrow> el_leading (cl_pods c p) \<Longrightarrow> cl_lease c = Some l \<Longrightarrow> held_spec p l \<noteq> None \<Longrightarrow>
    cluster_step c (set_flight p (StopGot l) (set_pod p ((cl_pods c p)\<lparr>el_stopped := True, el_timer := False\<rparr>) c))"
| stops_at_once: "cl_flight c p = Idle \<Longrightarrow>
    cluster_step c (set_pod p (stopLeading ((cl_pods c p)\<lparr>el_stopped := True, el_timer := False\<rparr>)) c)"
| releases: "cl_flight c p = StopGot l \<Longrightarrow> held_spec p l = Some s \<Longrightarrow> write_ok c (Replace l (release_spec s)) \<Longrightarrow>
    cluster_step c (set_flight p Leaving (store_spec p (release_spec s) None c))"
| release_refused: "cl_flight c p = StopGot l \<Longrightarrow> cluster_step c (set_flight p Leaving c)"
| leaves: "cl_flight c p = Leaving \<Longrightarrow>
    cluster_step c (set_flight p Idle (set_pod p (stopLeading (cl_pods c p)) c))"

definition fresh_cluster :: "(string \<Rightarrow> elector) \<Rightarrow> instant \<Rightarrow> cluster \<Rightarrow> bool" where
  "fresh_cluster pods t c = (c = \<lparr>cl_clock = t, cl_version = 0, cl_lease = None, cl_pods = pods,
     cl_flight = (\<lambda>_. Idle), cl_written = (\<lambda>_. None)\<rparr>
     \<and> (\<forall>p. el_identity (pods p) = p \<and> \<not> el_leading (pods p)))"

inductive cluster_run :: "(string \<Rightarrow> elector) \<Rightarrow> cluster \<Rightarrow> bool" for pods where
  run_init: "fresh_cluster pods t c \<Longrightarrow> cluster_run pods c"
| run_step: "cluster_run pods c \<Longrightarrow> cluster_step c d \<Longrightarrow> cluster_run pods d"

definition lapsed :: "lease_spec \<Rightarrow> instant \<Rightarrow> bool" where
  "lapsed s t = (\<exists>r d. ls_renew s = Some r \<and> ls_duration s = Some d \<and> t - r > d * 1000)"

definition read_ok :: "cluster \<Rightarrow> lease \<Rightarrow> bool" where
  "read_ok c l = (lz_version l \<le> cl_version c
     \<and> (\<forall>l'. cl_lease c = Some l' \<and> lz_version l' = lz_version l \<longrightarrow> l' = l))"

definition spec_ok :: "string \<Rightarrow> lease_spec \<Rightarrow> bool" where
  "spec_ok p s = (ls_holder s = Some p \<and> ls_renew s \<noteq> None \<and> ls_duration s \<noteq> None)"

text \<open>A write in flight takes nothing from another pod: the Lease it replaces is the writer's own, or had lapsed.\<close>

definition write_fair :: "cluster \<Rightarrow> string \<Rightarrow> lease_write \<Rightarrow> bool" where
  "write_fair c p wr = (spec_ok p (write_spec wr) \<and>
     (case wr of Create s \<Rightarrow> True
      | Replace l s \<Rightarrow> read_ok c l \<and> (\<forall>q u. q \<noteq> [] \<and> q \<noteq> p \<and> lz_spec l = Some u \<and> spec_ok q u \<longrightarrow> lapsed u (cl_clock c))))"

definition flight_ok :: "cluster \<Rightarrow> string \<Rightarrow> bool" where
  "flight_ok c p = (case cl_flight c p of
     Idle \<Rightarrow> True
   | Got found \<Rightarrow> (\<forall>l. found = Some l \<longrightarrow> read_ok c l)
   | Sent i wr \<Rightarrow> write_fair c p wr
   | Settled i r \<Rightarrow> (case r of Inr _ \<Rightarrow> cl_written c p \<noteq> None | Inl e \<Rightarrow> tolerated e)
   | StopGot l \<Rightarrow> read_ok c l \<and> held_spec p l \<noteq> None
   | Leaving \<Rightarrow> True)"

definition cluster_inv :: "cluster \<Rightarrow> bool" where
  "cluster_inv c = ((\<forall>l. cl_lease c = Some l \<longrightarrow> lz_version l \<le> cl_version c)
     \<and> (\<forall>p. el_identity (cl_pods c p) = p)
     \<and> (\<forall>p. flight_ok c p)
     \<and> (\<forall>p s. p \<noteq> [] \<and> cl_written c p = Some s \<longrightarrow> spec_ok p s
          \<and> (lapsed s (cl_clock c) \<or> (\<exists>l. cl_lease c = Some l \<and> lz_spec l = Some s)))
     \<and> (\<forall>p. el_leading (cl_pods c p) \<longrightarrow> cl_written c p \<noteq> None \<or> cl_flight c p = Leaving))"

subsection \<open>The invariant\<close>

lemma elector_identity [simp]:
  "el_identity (startLeading el) = el_identity el" "el_identity (stopLeading el) = el_identity el"
  "el_identity (failRenewal t el) = el_identity el" "el_identity (snd (handleApiError e el)) = el_identity el"
  by (simp_all add: startLeading_def stopLeading_def failRenewal_def handleApiError_def)

lemma stopLeading_off [simp]: "\<not> el_leading (stopLeading el)"
  by (simp add: stopLeading_def)

lemma startLeading_on [simp]: "el_leading (startLeading el)"
  by (simp add: startLeading_def)

lemma failRenewal_off: "el_leading (failRenewal t el) \<Longrightarrow> el_leading el"
  by (simp add: failRenewal_def split: if_splits)

lemma tick_answer_identity [simp]: "el_identity (snd (tick_answer i r t el)) = el_identity el"
  by (simp add: tick_answer_def handleApiError_def split: sum.split intent.split)

lemma tick_answer_tolerated:
  assumes "tolerated e"
  shows "tick_answer i (Inl e) t el = (if e = Some 409
     then (None, case i of Acquiring \<Rightarrow> stopLeading el | Renewing \<Rightarrow> failRenewal t el) else (Some e, el))"
  using assms by (simp add: tick_answer_def handleApiError_def tolerated_def split: intent.split)

lemma tick_answer_leads:
  "\<forall>e. r = Inl e \<longrightarrow> tolerated e \<Longrightarrow> el_leading (snd (tick_answer i r t el)) \<Longrightarrow> el_leading el \<or> r = Inr ()"
  by (cases r) (auto simp: tick_answer_tolerated failRenewal_off split: if_splits intent.splits)

lemma lapsed_mono: "lapsed s t \<Longrightarrow> t \<le> t' \<Longrightarrow> lapsed s t'"
  by (force simp: lapsed_def)

lemma set_pod_sel [simp]:
  "cl_clock (set_pod p el c) = cl_clock c" "cl_version (set_pod p el c) = cl_version c"
  "cl_lease (set_pod p el c) = cl_lease c" "cl_flight (set_pod p el c) = cl_flight c"
  "cl_written (set_pod p el c) = cl_written c" "cl_pods (set_pod p el c) = (cl_pods c)(p := el)"
  by (simp_all add: set_pod_def)

lemma set_flight_sel [simp]:
  "cl_clock (set_flight p f c) = cl_clock c" "cl_version (set_flight p f c) = cl_version c"
  "cl_lease (set_flight p f c) = cl_lease c" "cl_flight (set_flight p f c) = (cl_flight c)(p := f)"
  "cl_written (set_flight p f c) = cl_written c" "cl_pods (set_flight p f c) = cl_pods c"
  by (simp_all add: set_flight_def)

lemma store_spec_sel [simp]:
  "cl_clock (store_spec p s g c) = cl_clock c" "cl_version (store_spec p s g c) = Suc (cl_version c)"
  "cl_lease (store_spec p s g c) = Some \<lparr>lz_version = Suc (cl_version c), lz_spec = Some s\<rparr>"
  "cl_flight (store_spec p s g c) = cl_flight c"
  "cl_written (store_spec p s g c) = (cl_written c)(p := g)" "cl_pods (store_spec p s g c) = cl_pods c"
  by (simp_all add: store_spec_def)

lemma read_ok_cong:
  "cl_version c = cl_version d \<Longrightarrow> cl_lease c = cl_lease d \<Longrightarrow> read_ok c l = read_ok d l"
  by (simp add: read_ok_def)

lemma read_ok_store: "read_ok c l \<Longrightarrow> read_ok (store_spec p s g c) l"
  by (auto simp: read_ok_def)

lemma read_ok_current: "\<forall>l. cl_lease c = Some l \<longrightarrow> lz_version l \<le> cl_version c \<Longrightarrow> cl_lease c = Some l \<Longrightarrow> read_ok c l"
  by (auto simp: read_ok_def)

lemma write_fair_flight: "write_fair (set_flight p f c) q wr = write_fair c q wr"
proof -
  have "read_ok (set_flight p f c) = read_ok c" by (rule ext) (simp add: read_ok_def)
  then show ?thesis by (cases wr) (simp_all add: write_fair_def)
qed

text \<open>A flight stays good when the server only moves on and the pod's own ghost is kept.\<close>

definition moves_on :: "cluster \<Rightarrow> cluster \<Rightarrow> bool" where
  "moves_on c d = (cl_clock c \<le> cl_clock d \<and> (\<forall>l. read_ok c l \<longrightarrow> read_ok d l))"

lemma moves_on_simps [simp]:
  "moves_on c c" "moves_on c (set_pod p el d) = moves_on c d" "moves_on c (set_flight p f d) = moves_on c d"
  "moves_on c (store_spec p s g c)"
  "cl_clock c \<le> t \<Longrightarrow> moves_on c (c\<lparr>cl_clock := t\<rparr>)"
  by (simp_all add: moves_on_def read_ok_store) (simp_all add: read_ok_def)

lemma flight_ok_moves:
  assumes "flight_ok c p" "moves_on c d" "cl_flight d p = cl_flight c p" "cl_written d p = cl_written c p"
  shows "flight_ok d p"
proof -
  have w: "write_fair c p wr \<Longrightarrow> write_fair d p wr" for wr
    using assms(2) by (auto simp: write_fair_def moves_on_def split: lease_write.split intro: lapsed_mono)
  from assms w show ?thesis
    by (auto simp: flight_ok_def moves_on_def split: flight.splits sum.splits)
qed

lemma expired_lapsed:
  "expired el t l \<Longrightarrow> lz_spec l = Some u \<Longrightarrow> spec_ok q u \<Longrightarrow> q \<noteq> [] \<Longrightarrow> lapsed u t"
  by (auto simp: expired_def spec_ok_def lapsed_def split: option.splits)

lemma tick_decide_fair:
  assumes "tick_decide el (cl_clock c) found = Request i wr" "el_identity el = p"
    and "\<forall>l. found = Some l \<longrightarrow> read_ok c l"
  shows "write_fair c p wr"
proof (cases found)
  case None
  with assms show ?thesis
    by (auto simp: tick_decide_def write_fair_def acquire_spec_def spec_ok_def)
next
  case (Some l)
  show ?thesis
  proof (cases "held_spec p l")
    case None
    with assms Some have "expired el (cl_clock c) l" "wr = Replace l (acquire_spec el (cl_clock c) (Some l))"
      by (auto simp: tick_decide_def split: if_splits)
    with assms Some expired_lapsed [OF this(1)] show ?thesis
      by (auto simp: write_fair_def acquire_spec_def spec_ok_def)
  next
    case held: (Some u)
    with assms Some have "wr = Replace l (renew_spec el (cl_clock c) u)"
      by (simp add: tick_decide_def)
    moreover from held have "lz_spec l = Some u" "ls_holder u = Some p"
      by (auto simp: held_spec_def split: option.splits if_splits)
    ultimately show ?thesis using assms(3) Some
      by (auto simp: write_fair_def renew_spec_def spec_ok_def)
  qed
qed

lemma flight_others:
  assumes "cluster_inv c" "moves_on c d"
    and "\<forall>q. q \<noteq> p \<longrightarrow> cl_flight d q = cl_flight c q \<and> cl_written d q = cl_written c q" "flight_ok d p"
  shows "\<forall>q. flight_ok d q"
proof
  fix q
  show "flight_ok d q"
  proof (cases "q = p")
    case True
    with assms(4) show ?thesis by simp
  next
    case False
    with assms show ?thesis by (intro flight_ok_moves [of c q d]) (auto simp: cluster_inv_def)
  qed
qed

definition ghost_ok :: "cluster \<Rightarrow> bool" where
  "ghost_ok c = (\<forall>p s. p \<noteq> [] \<and> cl_written c p = Some s \<longrightarrow> spec_ok p s
     \<and> (lapsed s (cl_clock c) \<or> (\<exists>l. cl_lease c = Some l \<and> lz_spec l = Some s)))"

lemma ghost_cong:
  "ghost_ok c \<Longrightarrow> cl_clock c \<le> cl_clock d \<Longrightarrow> cl_lease d = cl_lease c \<Longrightarrow> cl_written d = cl_written c \<Longrightarrow> ghost_ok d"
  unfolding ghost_ok_def by (metis lapsed_mono)

lemma ghost_store:
  assumes g: "ghost_ok c" and f: "write_fair c p wr" "write_ok c wr"
    and n: "g = Some (write_spec wr) \<or> g = None"
  shows "ghost_ok (store_spec p (write_spec wr) g c)"
  unfolding ghost_ok_def
proof (intro allI impI)
  fix q s assume h: "q \<noteq> [] \<and> cl_written (store_spec p (write_spec wr) g c) q = Some s"
  show "spec_ok q s \<and> (lapsed s (cl_clock (store_spec p (write_spec wr) g c))
      \<or> (\<exists>l. cl_lease (store_spec p (write_spec wr) g c) = Some l \<and> lz_spec l = Some s))"
  proof (cases "q = p")
    case True
    with h n f(1) show ?thesis by (auto simp: write_fair_def)
  next
    case False
    with h g have s: "spec_ok q s" "lapsed s (cl_clock c) \<or> (\<exists>l. cl_lease c = Some l \<and> lz_spec l = Some s)"
      by (auto simp: ghost_ok_def)
    have "lapsed s (cl_clock c)"
    proof (rule ccontr)
      assume "\<not> lapsed s (cl_clock c)"
      with s obtain l where l: "cl_lease c = Some l" "lz_spec l = Some s" by blast
      with f(2) obtain l' t where w: "wr = Replace l' t" "lz_version l = lz_version l'" by (cases wr) auto
      with f(1) l(1) have "l = l'" by (auto simp: write_fair_def read_ok_def)
      with f(1) w(1) l(2) s(1) h False \<open>\<not> lapsed s (cl_clock c)\<close> show False by (auto simp: write_fair_def)
    qed
    with s(1) show ?thesis by simp
  qed
qed

lemma release_fair:
  assumes "read_ok c l" "held_spec p l = Some s"
  shows "\<forall>q u. q \<noteq> [] \<and> q \<noteq> p \<and> lz_spec l = Some u \<and> spec_ok q u \<longrightarrow> lapsed u (cl_clock c)"
  using assms by (auto simp: held_spec_def spec_ok_def split: option.splits if_splits)

lemma ghost_release:
  assumes g: "ghost_ok c" and r: "read_ok c l" "held_spec p l = Some s" "write_ok c (Replace l t)"
  shows "ghost_ok (store_spec p t None c)"
  unfolding ghost_ok_def
proof (intro allI impI)
  fix q u assume h: "q \<noteq> [] \<and> cl_written (store_spec p t None c) q = Some u"
  then have q: "q \<noteq> p" "cl_written c q = Some u" by (auto split: if_splits)
  with h g have u: "spec_ok q u" "lapsed u (cl_clock c) \<or> (\<exists>l. cl_lease c = Some l \<and> lz_spec l = Some u)"
    by (auto simp: ghost_ok_def)
  from r(1,3) have "cl_lease c = Some l" by (auto simp: read_ok_def)
  with u h q(1) release_fair [OF r(1,2)] have "lapsed u (cl_clock c)" by auto
  with u(1) show "spec_ok q u \<and> (lapsed u (cl_clock (store_spec p t None c))
      \<or> (\<exists>l. cl_lease (store_spec p t None c) = Some l \<and> lz_spec l = Some u))" by simp
qed

text \<open>The invariant, in the parts the steps are checked against.\<close>

lemma cluster_invI:
  assumes "\<forall>l. cl_lease d = Some l \<longrightarrow> lz_version l \<le> cl_version d" "\<forall>p. el_identity (cl_pods d p) = p"
    and "\<forall>p. flight_ok d p" "ghost_ok d"
    and "\<forall>p. el_leading (cl_pods d p) \<longrightarrow> cl_written d p \<noteq> None \<or> cl_flight d p = Leaving"
  shows "cluster_inv d"
  using assms by (simp add: cluster_inv_def ghost_ok_def)

lemma cluster_invD:
  assumes "cluster_inv c"
  shows "\<forall>l. cl_lease c = Some l \<longrightarrow> lz_version l \<le> cl_version c" "\<forall>p. el_identity (cl_pods c p) = p"
    "\<forall>p. flight_ok c p" "ghost_ok c"
    "\<forall>p. el_leading (cl_pods c p) \<longrightarrow> cl_written c p \<noteq> None \<or> cl_flight c p = Leaving"
  using assms by (simp_all add: cluster_inv_def ghost_ok_def)

lemma inv_local:
  assumes "cluster_inv c" "el_identity el = p" "flight_ok (set_flight p f (set_pod p el c)) p"
    and "el_leading el \<longrightarrow> cl_written c p \<noteq> None \<or> f = Leaving"
  shows "cluster_inv (set_flight p f (set_pod p el c))"
proof -
  note i = cluster_invD [OF assms(1)]
  show ?thesis
  proof (rule cluster_invI)
    show "\<forall>q. flight_ok (set_flight p f (set_pod p el c)) q"
      by (rule flight_others [OF assms(1), of _ p]) (use assms(3) in simp_all)
    show "ghost_ok (set_flight p f (set_pod p el c))" by (rule ghost_cong [OF i(4)]) simp_all
  qed (use i assms in simp_all)
qed

lemma inv_flight:
  assumes "cluster_inv c" "flight_ok (set_flight p f c) p" "cl_flight c p \<noteq> Leaving"
  shows "cluster_inv (set_flight p f c)"
proof -
  have e: "set_flight p f (set_pod p (cl_pods c p) c) = set_flight p f c"
    by (simp add: set_pod_def)
  note i = cluster_invD [OF assms(1)]
  have "el_leading (cl_pods c p) \<longrightarrow> cl_written c p \<noteq> None \<or> f = Leaving" using i(5) assms(3) by blast
  from inv_local [OF assms(1) spec [OF i(2)] _ this] assms(2) show ?thesis unfolding e by simp
qed

lemma inv_pod:
  assumes "cluster_inv c" "el_identity el = p" "el_leading el \<longrightarrow> el_leading (cl_pods c p)"
  shows "cluster_inv (set_pod p el c)"
proof -
  have e: "set_flight p (cl_flight c p) (set_pod p el c) = set_pod p el c"
    by (simp add: set_flight_def set_pod_def)
  note i = cluster_invD [OF assms(1)]
  have "flight_ok (set_pod p el c) p"
    by (rule flight_ok_moves [of c]) (use i in simp_all)
  with inv_local [OF assms(1,2), of "cl_flight c p"] assms i show ?thesis unfolding e by blast
qed

lemma inv_store:
  assumes "cluster_inv c" "ghost_ok (store_spec p s g c)" "flight_ok (set_flight p f (store_spec p s g c)) p"
    and "g \<noteq> None \<or> f = Leaving"
  shows "cluster_inv (set_flight p f (store_spec p s g c))"
proof -
  note i = cluster_invD [OF assms(1)]
  show ?thesis
  proof (rule cluster_invI)
    show "\<forall>q. flight_ok (set_flight p f (store_spec p s g c)) q"
      by (rule flight_others [OF assms(1), of _ p]) (use assms(3) in simp_all)
    show "ghost_ok (set_flight p f (store_spec p s g c))" by (rule ghost_cong [OF assms(2)]) simp_all
  qed (use i assms(4) in auto)
qed

lemma inv_clock:
  assumes "cluster_inv c" "cl_clock c \<le> t"
  shows "cluster_inv (c\<lparr>cl_clock := t\<rparr>)"
proof -
  note i = cluster_invD [OF assms(1)]
  show ?thesis
  proof (rule cluster_invI)
    show "\<forall>p. flight_ok (c\<lparr>cl_clock := t\<rparr>) p"
    proof
      fix p show "flight_ok (c\<lparr>cl_clock := t\<rparr>) p"
        by (rule flight_ok_moves [of c]) (use i assms(2) in simp_all)
    qed
    show "ghost_ok (c\<lparr>cl_clock := t\<rparr>)" by (rule ghost_cong [OF i(4)]) (use assms(2) in simp_all)
  qed (use i in simp_all)
qed

lemma flight_ok_at: "cluster_inv c \<Longrightarrow> flight_ok c p"
  by (simp add: cluster_inv_def)

lemma sent_fair: "cluster_inv c \<Longrightarrow> cl_flight c p = Sent i wr \<Longrightarrow> write_fair c p wr"
  using flight_ok_at [of c p] by (simp add: flight_ok_def)

lemma inv_step:
  assumes "cluster_inv c" "cluster_step c d"
  shows "cluster_inv d"
  using assms(2,1)
proof (induction rule: cluster_step.induct)
  case (passes c t)
  then show ?case by (simp add: inv_clock)
next
  case (starts c p)
  then show ?case using cluster_invD(2) by (intro inv_pod) simp_all
next
  case (reads c p)
  have "flight_ok (set_flight p (Got (cl_lease c)) c) p"
    using cluster_invD(1) [OF reads(3)] by (auto simp: flight_ok_def read_ok_def)
  with reads show ?case by (intro inv_flight) simp_all
next
  case (decides c p found i wr)
  then have "\<forall>l. found = Some l \<longrightarrow> read_ok c l" using flight_ok_at [of c p] by (simp add: flight_ok_def)
  from tick_decide_fair [OF decides(2) _ this] cluster_invD(2) [OF decides(3)]
  have "write_fair c p wr" by simp
  then have "flight_ok (set_flight p (Sent i wr) c) p"
    by (simp add: flight_ok_def write_fair_flight)
  with decides show ?case by (intro inv_flight) simp_all
next
  case (stands_down c p found)
  then show ?case using cluster_invD(2) by (intro inv_local) (simp_all add: flight_ok_def)
next
  case (accepted c p i wr r)
  note f = sent_fair [OF accepted(4,1)]
  have "flight_ok (set_flight p (Settled i r) (store_spec p (write_spec wr) (Some (write_spec wr)) c)) p"
    using accepted(3) by (auto simp: flight_ok_def)
  with accepted f show ?case
    by (intro inv_store ghost_store [OF cluster_invD(4)]) simp_all
next
  case (refused c p i wr e)
  then have "flight_ok (set_flight p (Settled i (Inl e)) c) p" by (simp add: flight_ok_def)
  with refused show ?case by (intro inv_flight) simp_all
next
  case (answered c p i r)
  note fl = flight_ok_at [OF answered(2), of p]
  have t: "\<forall>e. r = Inl e \<longrightarrow> tolerated e" and w: "r = Inr () \<longrightarrow> cl_written c p \<noteq> None"
    using fl answered(1) by (auto simp: flight_ok_def)
  have "el_leading (snd (tick_answer i r (cl_clock c) (cl_pods c p))) \<longrightarrow> cl_written c p \<noteq> None"
    using tick_answer_leads [OF t] w cluster_invD(5) [OF answered(2)] answered(1) by (metis flight.distinct(27))
  then show ?case using answered cluster_invD(2) by (intro inv_local) (simp_all add: flight_ok_def)
next
  case (stops c p l)
  have "flight_ok (set_flight p (StopGot l) (set_pod p ((cl_pods c p)\<lparr>el_stopped := True, el_timer := False\<rparr>) c)) p"
    using cluster_invD(1) [OF stops(5)] stops by (auto simp: flight_ok_def read_ok_def)
  with stops cluster_invD(2,5) [OF stops(5)] show ?case by (intro inv_local) auto
next
  case (stops_at_once c p)
  then show ?case using cluster_invD(2) by (intro inv_pod) simp_all
next
  case (releases c p l s)
  have "read_ok c l" using flight_ok_at [OF releases(4), of p] releases(1) by (simp add: flight_ok_def)
  from ghost_release [OF cluster_invD(4) [OF releases(4)] this releases(2,3)] releases(4)
  show ?case by (intro inv_store) (simp_all add: flight_ok_def)
next
  case (release_refused c p l)
  then show ?case by (intro inv_flight) (simp_all add: flight_ok_def)
next
  case (leaves c p)
  then show ?case using cluster_invD(2) by (intro inv_local) (simp_all add: flight_ok_def)
qed

lemma inv_run: "cluster_run pods c \<Longrightarrow> cluster_inv c"
proof (induction rule: cluster_run.induct)
  case (run_init t c)
  then show ?case by (auto simp: fresh_cluster_def cluster_inv_def flight_ok_def)
next
  case (run_step c d)
  then show ?case by (blast intro: inv_step)
qed

subsection \<open>What the election guarantees\<close>

text \<open>A pod that leads, is not on its way out, and whose last accepted write has not lapsed.\<close>

definition leads_on_lease :: "cluster \<Rightarrow> string \<Rightarrow> bool" where
  "leads_on_lease c p = (el_leading (cl_pods c p) \<and> cl_flight c p \<noteq> Leaving
     \<and> (\<forall>s. cl_written c p = Some s \<longrightarrow> \<not> lapsed s (cl_clock c)))"

text \<open>
  C24: One leader at a time. However the requests of the pods interleave, with lost races and
  lost answers, a pod that leads on a Lease that has not lapsed is the holder the Lease names;
  so no two pods lead at once, except for a pod whose own Lease has lapsed and which has not
  noticed yet.
\<close>

theorem one_leader_per_lease:
  assumes "cluster_run pods c" and "p \<noteq> []" and "leads_on_lease c p"
  shows "(\<exists>l s. cl_lease c = Some l \<and> lz_spec l = Some s \<and> ls_holder s = Some p)
    \<and> (\<forall>q. q \<noteq> [] \<and> leads_on_lease c q \<longrightarrow> q = p)"
proof -
  note i = inv_run [OF assms(1)]
  have holds: "\<exists>l s. cl_lease c = Some l \<and> lz_spec l = Some s \<and> ls_holder s = Some q"
    if q: "q \<noteq> []" "leads_on_lease c q" for q
  proof -
    from q cluster_invD(5) [OF i] obtain s where s: "cl_written c q = Some s" "\<not> lapsed s (cl_clock c)"
      by (auto simp: leads_on_lease_def)
    from cluster_invD(4) [OF i] q(1) s have "spec_ok q s" "\<exists>l. cl_lease c = Some l \<and> lz_spec l = Some s"
      unfolding ghost_ok_def by blast+
    then show ?thesis by (auto simp: spec_ok_def)
  qed
  from holds [OF assms(2,3)] obtain l s where l: "cl_lease c = Some l" "lz_spec l = Some s" "ls_holder s = Some p"
    by blast
  have "q = p" if q: "q \<noteq> []" "leads_on_lease c q" for q
    using holds [OF q] l by simp
  with l show ?thesis by blast
qed

text \<open>
  When a tick ends in leading. In a tick that neither throws nor meets a refusal by 401 or
  403, a pod that is not stopped ends leading exactly when the server accepted its write, or it
  led already, its renewal met a conflict, and the renew deadline has not passed; and it accepts
  no write but one computed from the Lease it read.
\<close>

theorem tick_leads_iff:
  assumes "\<not> el_stopped el" and "getLease L w = (Inr found, w1)"
    and "tick_decide el (lc_now L w1) found = Request i wr" and "send L wr w1 = (r, w2)"
    and "\<forall>e. r = Inl e \<longrightarrow> e = Some 409"
  shows "fst (fst (tick L el w)) = None
    \<and> (el_leading (snd (fst (tick L el w))) \<longleftrightarrow>
         r = Inr () \<or> (i = Renewing \<and> el_leading el
           \<and> (\<exists>t. el_lastRenewed el = Some t \<and> lc_now L w2 - t \<le> el_deadline el * 1000)))
    \<and> (i = Renewing \<longleftrightarrow> (\<exists>l s. found = Some l \<and> lz_spec l = Some s \<and> ls_holder s = Some (el_identity el)))
    \<and> (i = Acquiring \<longrightarrow> (\<forall>l. found = Some l \<longrightarrow> expired el (lc_now L w1) l))
    \<and> ls_holder (write_spec wr) = Some (el_identity el) \<and> ls_renew (write_spec wr) = Some (lc_now L w1)"
proof -
  have t: "fst (tick L el w) = tick_answer i r (lc_now L w2) el"
    using assms by (simp add: tick_def)
  have d: "(i = Renewing \<longleftrightarrow> (\<exists>l s. found = Some l \<and> lz_spec l = Some s \<and> ls_holder s = Some (el_identity el)))
    \<and> (i = Acquiring \<longrightarrow> (\<forall>l. found = Some l \<longrightarrow> expired el (lc_now L w1) l))
    \<and> ls_holder (write_spec wr) = Some (el_identity el) \<and> ls_renew (write_spec wr) = Some (lc_now L w1)"
    using assms(3) by (auto simp: tick_decide_def held_spec_def acquire_spec_def renew_spec_def split: option.splits if_splits)
  have a: "fst (tick_answer i r (lc_now L w2) el) = None
    \<and> (el_leading (snd (tick_answer i r (lc_now L w2) el)) \<longleftrightarrow>
         r = Inr () \<or> (i = Renewing \<and> el_leading el
           \<and> (\<exists>t. el_lastRenewed el = Some t \<and> lc_now L w2 - t \<le> el_deadline el * 1000)))"
    using assms(5) by (cases r; cases i) (auto simp: tick_answer_def failRenewal_def split: option.splits)
  from t d a show ?thesis by simp
qed

lemma tick_unreachable:
  assumes "(\<exists>e w1. getLease L w = (Inl e, w1) \<and> tolerated e)
     \<or> (\<exists>l s w1. getLease L w = (Inr (Some l), w1) \<and> held_spec (el_identity el) l = Some s
          \<and> (\<forall>t. \<exists>e w2. lc_replace L l t w1 = (Inl e, w2) \<and> tolerated e \<and> e \<noteq> Some 409))"
  shows "snd (fst (tick L el w)) = el"
  using assms
proof
  assume "\<exists>e w1. getLease L w = (Inl e, w1) \<and> tolerated e"
  then show ?thesis by (auto simp: tick_def handleApiError_def tolerated_def)
next
  assume "\<exists>l s w1. getLease L w = (Inr (Some l), w1) \<and> held_spec (el_identity el) l = Some s
          \<and> (\<forall>t. \<exists>e w2. lc_replace L l t w1 = (Inl e, w2) \<and> tolerated e \<and> e \<noteq> Some 409)"
  then obtain l s w1 where r: "getLease L w = (Inr (Some l), w1)" "held_spec (el_identity el) l = Some s"
    and x: "\<forall>t. \<exists>e w2. lc_replace L l t w1 = (Inl e, w2) \<and> tolerated e \<and> e \<noteq> Some 409" by blast
  from x obtain e w2 where "lc_replace L l (renew_spec el (lc_now L w1) s) w1 = (Inl e, w2)" "tolerated e" "e \<noteq> Some 409"
    by blast
  with r show ?thesis by (simp add: tick_def tick_decide_def send_def tick_answer_tolerated)
qed

text \<open>
  C25: A leader that cannot reach the server leads on. While every read of the Lease, or every
  renewal of its own Lease, fails with an error that is neither a conflict nor a refusal, each
  firing of the timer throws and leaves the pod as it is: if it leads it goes on leading, however
  long past its renew deadline, and however long another pod has held the lapsed Lease.
\<close>

theorem unreachable_leader_leads_on:
  assumes "\<forall>w. (\<exists>e w1. getLease L w = (Inl e, w1) \<and> tolerated e)
     \<or> (\<exists>l s w1. getLease L w = (Inr (Some l), w1) \<and> held_spec (el_identity el) l = Some s
          \<and> (\<forall>t. \<exists>e w2. lc_replace L l t w1 = (Inl e, w2) \<and> tolerated e \<and> e \<noteq> Some 409))"
    and "\<not> el_ticking el"
  shows "fst (((\<lambda>(s, w). timer_fires L s w) ^^ n) (el, w)) = el"
proof (induction n)
  case 0
  then show ?case by simp
next
  case (Suc n)
  obtain w1 where w1: "((\<lambda>(s, w). timer_fires L s w) ^^ n) (el, w) = (el, w1)"
    using Suc.IH by (cases "((\<lambda>(s, w). timer_fires L s w) ^^ n) (el, w)") simp
  have "snd (fst (tick L (el\<lparr>el_ticking := True\<rparr>) w1)) = el\<lparr>el_ticking := True\<rparr>"
    using assms(1) by (intro tick_unreachable) simp
  then have "fst (timer_fires L el w1) = el"
    using assms(2) by (cases el) (auto simp: timer_fires_def tickQuietly_def split: prod.splits)
  with w1 show ?case by simp
qed

text \<open>
  A forbidden renewal can end the operators for good. A pod that finds the Lease in its own
  name but may not write it, and that has not renewed within the deadline (a restarted pod has
  not renewed at all), gives up its timer and stands down in the same tick: it does not lead, and
  no later firing of the timer changes anything. Refused the read, the same pod leads at once.
\<close>

theorem forbidden_renewal_ends_operators:
  assumes "el_timer el" "\<not> el_ticking el" "\<not> el_stopped el"
    and "getLease L w = (Inr (Some l), w1)" "held_spec (el_identity el) l = Some s"
    and "\<forall>t. \<exists>w2. lc_replace L l t w1 = (Inl (Some 403), w2)"
    and "\<forall>w2 t. el_lastRenewed el = Some t \<longrightarrow> lc_now L w2 - t > el_deadline el * 1000"
  shows "\<exists>el' w'. timer_fires L el w = (el', w') \<and> \<not> el_leading el' \<and> \<not> el_timer el'
    \<and> ((\<lambda>(s, w). timer_fires L s w) ^^ n) (el', w') = (el', w')
    \<and> (getLease L v = (Inl (Some 403), v1) \<longrightarrow> el_leading (fst (timer_fires L el v)))"
proof -
  let ?el = "el\<lparr>el_ticking := True\<rparr>"
  from assms(6) obtain w2 where w2: "lc_replace L l (renew_spec ?el (lc_now L w1) s) w1 = (Inl (Some 403), w2)"
    by blast
  have r: "tick L ?el w = (tick_answer Renewing (Inl (Some 403)) (lc_now L w2) ?el, w2)"
    using assms w2 by (simp add: tick_def tick_decide_def send_def)
  have a: "\<not> el_leading (snd (tick_answer Renewing (Inl (Some 403)) (lc_now L w2) ?el))
      \<and> \<not> el_timer (snd (tick_answer Renewing (Inl (Some 403)) (lc_now L w2) ?el))"
    using assms(7)
    by (auto simp: tick_answer_def handleApiError_def failRenewal_def startLeading_def stopLeading_def split: option.split)
  obtain el' w' where f: "timer_fires L el w = (el', w')" by force
  have off: "\<not> el_leading el' \<and> \<not> el_timer el'"
    using f a assms(1,2) by (auto simp: timer_fires_def tickQuietly_def r split: prod.splits)
  then have "((\<lambda>(s, w). timer_fires L s w) ^^ n) (el', w') = (el', w')"
    by (induction n) (simp_all add: timer_fires_def)
  moreover have "getLease L v = (Inl (Some 403), v1) \<longrightarrow> el_leading (fst (timer_fires L el v))"
    using assms(1-3) by (simp add: timer_fires_def tickQuietly_def tick_def handleApiError_def)
  ultimately show ?thesis using f off by blast
qed

subsection \<open>Concrete runs\<close>

text \<open>A server of one Lease: its content, the last version, and a clock.\<close>

type_synonym lease_world = "lease option \<times> nat \<times> instant"

definition mem_leases :: "lease_world lease_calls" where
  "mem_leases = \<lparr>
     lc_now = (\<lambda>(l, v, t). t),
     lc_read = (\<lambda>(l, v, t). (case l of Some x \<Rightarrow> Inr x | None \<Rightarrow> Inl (Some 404), (l, v, t))),
     lc_create = (\<lambda>s (l, v, t). case l of
        None \<Rightarrow> (Inr (), (Some \<lparr>lz_version = Suc v, lz_spec = Some s\<rparr>, Suc v, t))
      | Some _ \<Rightarrow> (Inl (Some 409), (l, v, t))),
     lc_replace = (\<lambda>x s (l, v, t).
        if (case l of None \<Rightarrow> False | Some y \<Rightarrow> lz_version y = lz_version x)
        then (Inr (), (Some \<lparr>lz_version = Suc v, lz_spec = Some s\<rparr>, Suc v, t))
        else (Inl (Some 409), (l, v, t)))\<rparr>"

text \<open>The same server, reached by a pod that may read the Lease and not write it, and a server that cannot be reached.\<close>

definition readonly_leases :: "lease_world lease_calls" where
  "readonly_leases = mem_leases\<lparr>lc_replace := (\<lambda>x s w. (Inl (Some 403), w)),
     lc_read := (\<lambda>(l, v, t). (case l of Some x \<Rightarrow> Inr x | None \<Rightarrow> Inl (Some 403), (l, v, t)))\<rparr>"

definition no_leases :: "lease_world lease_calls" where
  "no_leases = mem_leases\<lparr>lc_read := (\<lambda>w. (Inl (Some 500), w))\<rparr>"

definition demo_pod :: "string \<Rightarrow> elector" where
  "demo_pod p = \<lparr>el_identity = p, el_duration = 15, el_deadline = 10, el_leading = False, el_timer = True,
     el_ticking = False, el_lastRenewed = None, el_stopped = False, el_signals = []\<rparr>"

definition demo_spec :: lease_spec where
  "demo_spec = \<lparr>ls_holder = Some ''pod-a'', ls_duration = Some 15, ls_acquire = Some 0,
     ls_renew = Some 0, ls_transitions = Some 1\<rparr>"

theorem tick_leads_iff_witness:
  "el_leading (snd (fst (tick mem_leases (demo_pod ''pod-b'') (Some \<lparr>lz_version = 1, lz_spec = Some demo_spec\<rparr>, 1, 20000))))"
proof -
  let ?el = "demo_pod ''pod-b''" and ?l = "\<lparr>lz_version = 1, lz_spec = Some demo_spec\<rparr>"
  let ?w = "(Some ?l, 1, 20000)"
  have g: "getLease mem_leases ?w = (Inr (Some ?l), ?w)"
    by (simp add: getLease_def mem_leases_def)
  have d: "tick_decide ?el (lc_now mem_leases ?w) (Some ?l) = Request Acquiring (Replace ?l (acquire_spec ?el 20000 (Some ?l)))"
    by (simp add: tick_decide_def held_spec_def expired_def demo_pod_def demo_spec_def mem_leases_def)
  have w: "send mem_leases (Replace ?l (acquire_spec ?el 20000 (Some ?l))) ?w
      = (Inr (), (Some \<lparr>lz_version = 2, lz_spec = Some (acquire_spec ?el 20000 (Some ?l))\<rparr>, 2, 20000))"
    by (simp add: send_def mem_leases_def)
  have n: "\<not> el_stopped ?el" by (simp add: demo_pod_def)
  show ?thesis using tick_leads_iff [OF n g d w] by simp
qed

theorem unreachable_leader_leads_on_witness:
  "el_leading (fst (((\<lambda>(s, w). timer_fires no_leases s w) ^^ 1000)
     ((demo_pod ''pod-a'')\<lparr>el_leading := True, el_lastRenewed := Some 0\<rparr>, (None, 0, 3600000))))"
  by (subst unreachable_leader_leads_on)
    (simp_all add: no_leases_def mem_leases_def getLease_def tolerated_def demo_pod_def)

theorem forbidden_renewal_ends_operators_witness:
  "\<exists>el' w'. timer_fires readonly_leases (demo_pod ''pod-a'') (Some \<lparr>lz_version = 1, lz_spec = Some demo_spec\<rparr>, 1, 20000) = (el', w')
     \<and> \<not> el_leading el' \<and> \<not> el_timer el'"
proof -
  have "getLease readonly_leases (Some \<lparr>lz_version = 1, lz_spec = Some demo_spec\<rparr>, 1, 20000)
      = (Inr (Some \<lparr>lz_version = 1, lz_spec = Some demo_spec\<rparr>), (Some \<lparr>lz_version = 1, lz_spec = Some demo_spec\<rparr>, 1, 20000))"
    by (simp add: getLease_def readonly_leases_def mem_leases_def)
  from forbidden_renewal_ends_operators [of "demo_pod ''pod-a''", OF _ _ _ this]
  show ?thesis by (force simp: demo_pod_def held_spec_def demo_spec_def readonly_leases_def)
qed

definition demo_cluster :: cluster where
  "demo_cluster = \<lparr>cl_clock = 0, cl_version = 0, cl_lease = None, cl_pods = demo_pod,
     cl_flight = (\<lambda>_. Idle), cl_written = (\<lambda>_. None)\<rparr>"

theorem one_leader_per_lease_witness:
  "\<exists>c. cluster_run demo_pod c \<and> leads_on_lease c ''pod-a''
     \<and> (\<exists>l s. cl_lease c = Some l \<and> lz_spec l = Some s \<and> ls_holder s = Some ''pod-a'')"
proof -
  let ?p = "''pod-a''"
  let ?wr = "Create (acquire_spec (demo_pod ?p) 0 None)"
  let ?c1 = "set_flight ?p (Got (cl_lease demo_cluster)) demo_cluster"
  let ?c2 = "set_flight ?p (Sent Acquiring ?wr) ?c1"
  let ?c3 = "set_flight ?p (Settled Acquiring (Inr ())) (store_spec ?p (write_spec ?wr) (Some (write_spec ?wr)) ?c2)"
  let ?c4 = "set_flight ?p Idle (set_pod ?p (snd (tick_answer Acquiring (Inr ()) (cl_clock ?c3) (cl_pods ?c3 ?p))) ?c3)"
  have "cluster_run demo_pod demo_cluster"
    by (rule run_init [of _ 0]) (simp add: fresh_cluster_def demo_cluster_def demo_pod_def)
  moreover have "cluster_step demo_cluster ?c1"
    by (rule cluster_step.reads) (simp_all add: demo_cluster_def demo_pod_def)
  moreover have "cluster_step ?c1 ?c2"
    by (rule cluster_step.decides [of _ _ None]) (simp_all add: demo_cluster_def tick_decide_def)
  moreover have "cluster_step ?c2 ?c3"
    by (rule cluster_step.accepted) (simp_all add: demo_cluster_def)
  moreover have "cluster_step ?c3 ?c4"
    by (rule cluster_step.answered) simp
  ultimately have run: "cluster_run demo_pod ?c4" by (blast intro: run_step)
  have "leads_on_lease ?c4 ?p"
    by (simp add: leads_on_lease_def tick_answer_def lapsed_def acquire_spec_def demo_cluster_def demo_pod_def)
  with run one_leader_per_lease [OF run _ this] show ?thesis by blast
qed

end
