(* ===== verification/Clients.thy ===== *)
theory Clients
  imports Kubernetes "HOL-Library.Char_ord" "HOL-Library.List_Lexorder"
begin

text \<open>
  The client resources: \<^verbatim>\<open>src/models/oidc-client.js\<close>,
  \<^verbatim>\<open>src/models/oidc-middleware-client.js\<close>, \<^verbatim>\<open>src/models/client-activity-state.js\<close>, and
  the helpers they use (\<^verbatim>\<open>src/utils/kubernetes/client-uri.js\<close>,
  \<^verbatim>\<open>src/utils/kubernetes/namespace-filter.js\<close>, \<^verbatim>\<open>src/utils/kubernetes/resolve-ingress-ref.js\<close>,
  \<^verbatim>\<open>src/utils/idp-display-name.js\<close>): what is stored in Redis for a client, what its Secret
  holds, and the status and conditions written back.
\<close>

subsection \<open>Addresses\<close>

definition trimTrailingSlashes :: "string \<Rightarrow> string" where
  "trimTrailingSlashes uri = rev (dropWhile (\<lambda>c. c = CHR ''/'') (rev uri))"

definition clientUri :: "string option \<Rightarrow> string" where
  "clientUri uri = (if \<not> truthy uri then [] else trimTrailingSlashes (trim (tmpl uri)))"

definition clientOrigin :: "deployment \<Rightarrow> string option \<Rightarrow> string" where
  "clientOrigin D uri =
     (let normalised = clientUri uri in
      if normalised = [] then []
      else case parse_url D normalised of
        None \<Rightarrow> []
      | Some u \<Rightarrow> if u_origin u = ''null'' then [] else u_origin u)"

definition resolveIdpDisplayName :: "deployment \<Rightarrow> string" where
  "resolveIdpDisplayName D =
     (let override = map_option trim (penv D ''IDP_DISPLAY_NAME'') in
      if truthy override then tmpl override
      else
        (let upstreams = (if \<not> env_is D ''GITHUB_ENABLED'' ''false'' then [''GitHub''] else [])
               @ map op_displayName (getOidcProviders D) in
         if length upstreams = 1 \<and> \<not> isOutboundEmailEnabled D then hd upstreams else ''Passmower''))"

definition OIDCClientId :: "string \<Rightarrow> string \<Rightarrow> string" where
  "OIDCClientId namespace clientName = namespace @ ''.'' @ clientName"

definition OIDCMiddlewareClientId :: "string \<Rightarrow> string \<Rightarrow> string" where
  "OIDCMiddlewareClientId namespace clientName = ''middleware-'' @ namespace @ ''.'' @ clientName"

definition OIDCClientSecretName :: "string \<Rightarrow> string" where
  "OIDCClientSecretName clientName = ''oidc-client-'' @ clientName @ ''-owner-secrets''"

definition TraefikMiddlewareForwardAuthAddress :: "string \<Rightarrow> string \<Rightarrow> string \<Rightarrow> string" where
  "TraefikMiddlewareForwardAuthAddress dep namespace clientId =
     ''http://'' @ dep @ ''.'' @ namespace @ ''.svc.cluster.local/forward-auth?client='' @ clientId"

definition forwardAuthRedirectUri :: "deployment \<Rightarrow> string" where
  "forwardAuthRedirectUri D = tmpl (penv D ''ISSUER_URL'') @ ''forward-auth/return''"

subsection \<open>Namespaces\<close>

text \<open>\<open>glob\<close> is \<open>picomatch(pattern)(namespace)\<close>.\<close>

record namespace_filter =
  nf_namespace :: "string option"
  nf_namespaces :: "string list"

definition NamespaceFilter :: "deployment \<Rightarrow> string \<Rightarrow> namespace_filter" where
  "NamespaceFilter D currentNamespace =
     (let selector = penv D ''NAMESPACE_SELECTOR'' in
      if truthy selector
      then (let namespaces = split_on CHR '','' (tmpl selector) in
            \<lparr>nf_namespace = (if length namespaces = 1 \<and> CHR ''*'' \<notin> set (hd namespaces) then Some (hd namespaces) else None),
             nf_namespaces = namespaces\<rparr>)
      else \<lparr>nf_namespace = Some currentNamespace, nf_namespaces = [''*'']\<rparr>)"

definition namespace_selected :: "(string \<Rightarrow> string \<Rightarrow> bool) \<Rightarrow> namespace_filter \<Rightarrow> string \<Rightarrow> bool" where
  "namespace_selected glob f namespace = (\<forall>pattern \<in> set (nf_namespaces f). glob pattern namespace)"

subsection \<open>Ingresses\<close>

record ingress =
  ing_name :: string
  ing_namespace :: string
  ing_uid :: string
  ing_annotations :: "(string \<times> string) list"
  ing_hosts :: "string option list"

definition hostsOf :: "ingress \<Rightarrow> string list" where
  "hostsOf g = somes (map (\<lambda>h. if truthy h then h else None) (ing_hosts g))"

datatype ingress_problem = NoSuchIngress | NoHost | SeveralHosts "string list" | NoRedirectPath

text \<open>\<open>resolve_url path base\<close> is \<open>new URL(path, base).href\<close>, \<open>None\<close> when it throws.\<close>

datatype ingress_result =
    IngressProblems "ingress_problem list"
  | IngressResolved string "string list"
  | IngressThrew

definition resolve_paths :: "(string \<Rightarrow> string \<Rightarrow> string option) \<Rightarrow> string \<Rightarrow> string list \<Rightarrow> string list option" where
  "resolve_paths resolve_url base paths =
     (let urls = map (\<lambda>p. resolve_url p base) paths in if None \<in> set urls then None else Some (somes urls))"

definition resolveIngressRef ::
  "(string \<Rightarrow> string \<Rightarrow> string option) \<Rightarrow> ingress option \<Rightarrow> string list \<Rightarrow> ingress_result" where
  "resolveIngressRef resolve_url found redirectPaths = (case found of
     None \<Rightarrow> IngressProblems [NoSuchIngress]
   | Some g \<Rightarrow>
       (let hosts = hostsOf g in
        if hosts = [] then IngressProblems [NoHost]
        else if length hosts > 1 then IngressProblems [SeveralHosts hosts]
        else if redirectPaths = [] then IngressProblems [NoRedirectPath]
        else (case resolve_paths resolve_url (''https://'' @ hd hosts) redirectPaths of
                None \<Rightarrow> IngressThrew
              | Some uris \<Rightarrow> IngressResolved (''https://'' @ hd hosts @ ''/'') uris)))"

subsection \<open>Activity and readiness\<close>

record client_status =
  cs_instance :: "string option"
  cs_lastUsedAt :: "instant option"
  cs_conditions :: "condition list"
  cs_resolvedUri :: "string option"
  cs_resolvedRedirectUris :: "string list option"

definition empty_status :: client_status where
  "empty_status = \<lparr>cs_instance = None, cs_lastUsedAt = None, cs_conditions = [],
     cs_resolvedUri = None, cs_resolvedRedirectUris = None\<rparr>"

record activity_state =
  ac_status :: client_status
  ac_conditions :: "condition list"
  ac_lastUsedAt :: "instant option"
  ac_creationTimestamp :: "instant option"
  ac_generation :: "nat option"
  ac_description :: "string option"

definition new_activity_state :: "metadata \<Rightarrow> string option \<Rightarrow> client_status option \<Rightarrow> activity_state" where
  "new_activity_state m description status =
     (let st = (case status of Some s \<Rightarrow> s | None \<Rightarrow> empty_status) in
      \<lparr>ac_status = st, ac_conditions = cs_conditions st, ac_lastUsedAt = cs_lastUsedAt st,
       ac_creationTimestamp = m_creationTimestamp m, ac_generation = m_generation m,
       ac_description = description\<rparr>)"

definition activity_intended_status :: "activity_state \<Rightarrow> client_status" where
  "activity_intended_status a = (ac_status a)\<lparr>cs_lastUsedAt := ac_lastUsedAt a, cs_conditions := ac_conditions a\<rparr>"

definition find_condition :: "string \<Rightarrow> condition list \<Rightarrow> condition option" where
  "find_condition ty cs = find (\<lambda>c. c_type c = ty) cs"

definition put_condition :: "condition \<Rightarrow> condition list \<Rightarrow> condition list" where
  "put_condition c cs = filter (\<lambda>x. c_type x \<noteq> c_type c) cs @ [c]"

text \<open>\<open>now\<close> as an instant and as the text written; \<open>decimal\<close> prints the number of days.\<close>

definition updateActivityCondition ::
  "(int \<Rightarrow> string) \<Rightarrow> instant \<Rightarrow> string \<Rightarrow> int \<Rightarrow> activity_state \<Rightarrow> activity_state" where
  "updateActivityCondition decimal now stamp inactiveAfterDays a =
     (case coalesce (ac_lastUsedAt a) (ac_creationTimestamp a) of
        None \<Rightarrow> a
      | Some reference \<Rightarrow>
          (let inactive = (now - reference \<ge> inactiveAfterDays * 86400000);
               previous = find_condition ''Inactive'' (ac_conditions a);
               status = (if inactive then ''True'' else ''False'') in
           a\<lparr>ac_conditions := put_condition
              \<lparr>c_type = ''Inactive'', c_status = status,
               c_reason = Some (if inactive then ''NotUsedRecently'' else ''RecentlyUsed''),
               c_message = Some (if inactive
                 then ''Client has not been used for at least '' @ decimal inactiveAfterDays @ '' days''
                 else ''Client was used within the last '' @ decimal inactiveAfterDays @ '' days''),
               c_lastTransitionTime = (case previous of
                  Some p \<Rightarrow> if c_status p = status \<and> truthy (c_lastTransitionTime p)
                            then c_lastTransitionTime p else Some stamp
                | None \<Rightarrow> Some stamp)\<rparr> (ac_conditions a)\<rparr>))"

definition updateReadyCondition ::
  "bool \<Rightarrow> string \<Rightarrow> string \<Rightarrow> string \<Rightarrow> activity_state \<Rightarrow> bool \<times> activity_state" where
  "updateReadyCondition ready reason message stamp a =
     (let previous = find_condition ''Ready'' (ac_conditions a);
          status = (if ready then ''True'' else ''False'') in
      (case previous of
         None \<Rightarrow> True
       | Some p \<Rightarrow> c_status p \<noteq> status \<or> c_reason p \<noteq> Some reason \<or> c_message p \<noteq> Some message,
       a\<lparr>ac_conditions := put_condition
          \<lparr>c_type = ''Ready'', c_status = status, c_reason = Some reason, c_message = Some message,
           c_lastTransitionTime = (case previous of
              Some p \<Rightarrow> if c_status p = status then c_lastTransitionTime p else Some stamp
            | None \<Rightarrow> Some stamp)\<rparr> (ac_conditions a)\<rparr>))"

text \<open>The fingerprint is the text of this pair.\<close>

type_synonym fingerprint = "nat option \<times> string option"

definition getReconcileFingerprint :: "activity_state \<Rightarrow> fingerprint" where
  "getReconcileFingerprint a = (ac_generation a, ac_description a)"

text \<open>\<open>ClientReconcileState\<close>: the fingerprints seen, and the clients registered with the activity
  tracker.\<close>

record reconcile_state =
  rs_fingerprints :: "string \<Rightarrow> fingerprint option"
  rs_tracked :: "string list"

definition reconcile_register :: "string \<Rightarrow> fingerprint \<Rightarrow> reconcile_state \<Rightarrow> reconcile_state" where
  "reconcile_register cid fp rs = rs\<lparr>rs_tracked := set_add (rs_tracked rs) cid,
     rs_fingerprints := (rs_fingerprints rs)(cid \<mapsto> fp)\<rparr>"

definition reconcile_isCurrent :: "string \<Rightarrow> fingerprint \<Rightarrow> reconcile_state \<Rightarrow> bool" where
  "reconcile_isCurrent cid fp rs = (rs_fingerprints rs cid = Some fp)"

definition shouldReconcile :: "string \<Rightarrow> fingerprint \<Rightarrow> reconcile_state \<Rightarrow> bool \<times> reconcile_state" where
  "shouldReconcile cid fp rs = (rs_fingerprints rs cid \<noteq> Some fp, reconcile_register cid fp rs)"

definition reconcile_unregister :: "string \<Rightarrow> reconcile_state \<Rightarrow> reconcile_state" where
  "reconcile_unregister cid rs = rs\<lparr>rs_tracked := filter (\<lambda>x. x \<noteq> cid) (rs_tracked rs),
     rs_fingerprints := (rs_fingerprints rs)(cid := None)\<rparr>"

subsection \<open>The two resources\<close>

text \<open>A resource as the API server sends it. \<open>csp_ingressRef\<close> is the name in the reference.\<close>

record client_spec =
  csp_grantTypes :: "string list"
  csp_responseTypes :: "string list"
  csp_tokenEndpointAuthMethod :: "string option"
  csp_idTokenSignedResponseAlg :: "string option"
  csp_applicationType :: "string option"
  csp_redirectUris :: "string list option"
  csp_ingressRef :: "string option"
  csp_redirectPaths :: "string list option"
  csp_allowedGroups :: "string list option"
  csp_allowedUsers :: "string list option"
  csp_claimMappings :: "json option"
  csp_overrideIncomingScopes :: "bool option"
  csp_availableScopes :: "string list"
  csp_allowedResources :: "string list option"
  csp_availableScopesDelimiter :: "string option"
  csp_uri :: "string option"
  csp_displayName :: "string option"
  csp_pkce :: "bool option"
  csp_secretMetadata :: "json option"
  csp_secretRefreshJobSpec :: "json option"
  csp_allowedCORSOrigins :: "string list option"
  csp_displayOrder :: "int option"
  csp_disabled :: "bool option"

record client_resource =
  kr_metadata :: metadata
  kr_description :: "string option"
  kr_spec :: client_spec
  kr_status :: "client_status option"

text \<open>The client model. Its secret is \<open>null\<close> until one is set, and may be set to \<open>undefined\<close>.\<close>

record oidc_client =
  oc_clientName :: string
  oc_clientNamespace :: string
  oc_clientSecret :: "json option"
  oc_grantTypes :: "string list"
  oc_responseTypes :: "string list"
  oc_tokenEndpointAuthMethod :: string
  oc_idTokenSignedResponseAlg :: string
  oc_applicationType :: string
  oc_redirectUris :: "string list"
  oc_ingressRef :: "string option"
  oc_redirectPaths :: "string list"
  oc_allowedGroups :: "string list"
  oc_allowedUsers :: "string list"
  oc_claimMappings :: json
  oc_overrideIncomingScopes :: "bool option"
  oc_availableScopes :: "string list"
  oc_allowedResources :: "string list option"
  oc_availableScopesDelimiter :: string
  oc_instanceUri :: "string option"
  oc_uri :: "string option"
  oc_displayName :: "string option"
  oc_resourceVersion :: nat
  oc_uid :: string
  oc_pkce :: bool
  oc_secretMetadata :: json
  oc_secretRefreshJobSpec :: "json option"
  oc_allowedCORSOrigins :: "string list option"
  oc_displayOrder :: int
  oc_disabled :: bool
  oc_activityState :: activity_state

definition str_or :: "string option \<Rightarrow> string \<Rightarrow> string" where
  "str_or v d = (if truthy v then tmpl v else d)"

definition null_or :: "'a option \<Rightarrow> 'a \<Rightarrow> 'a" where
  "null_or v d = (case v of Some x \<Rightarrow> x | None \<Rightarrow> d)"

definition fromIncomingClient :: "deployment \<Rightarrow> client_resource \<Rightarrow> oidc_client" where
  "fromIncomingClient D r = (let sp = kr_spec r; m = kr_metadata r in
     \<lparr>oc_clientName = m_name m, oc_clientNamespace = m_namespace m, oc_clientSecret = Some JNull,
      oc_grantTypes = csp_grantTypes sp, oc_responseTypes = csp_responseTypes sp,
      oc_tokenEndpointAuthMethod = str_or (csp_tokenEndpointAuthMethod sp) ''client_secret_basic'',
      oc_idTokenSignedResponseAlg = str_or (csp_idTokenSignedResponseAlg sp) ''RS256'',
      oc_applicationType = str_or (csp_applicationType sp) ''web'',
      oc_redirectUris = null_or (csp_redirectUris sp) [],
      oc_ingressRef = csp_ingressRef sp,
      oc_redirectPaths = null_or (csp_redirectPaths sp) [],
      oc_allowedGroups = null_or (csp_allowedGroups sp) [],
      oc_allowedUsers = null_or (csp_allowedUsers sp) [],
      oc_claimMappings = (if nullish (csp_claimMappings sp) then JObj [] else null_or (csp_claimMappings sp) JNull),
      oc_overrideIncomingScopes = csp_overrideIncomingScopes sp,
      oc_availableScopes = csp_availableScopes sp,
      oc_allowedResources = csp_allowedResources sp,
      oc_availableScopesDelimiter = null_or (csp_availableScopesDelimiter sp) '','',
      oc_instanceUri = penv D ''ISSUER_URL'', oc_uri = csp_uri sp, oc_displayName = csp_displayName sp,
      oc_resourceVersion = m_resourceVersion m, oc_uid = m_uid m,
      oc_pkce = null_or (csp_pkce sp) True,
      oc_secretMetadata = null_or (csp_secretMetadata sp) (JObj []),
      oc_secretRefreshJobSpec = csp_secretRefreshJobSpec sp,
      oc_allowedCORSOrigins = csp_allowedCORSOrigins sp,
      oc_displayOrder = null_or (csp_displayOrder sp) 0,
      oc_disabled = (csp_disabled sp = Some True),
      oc_activityState = new_activity_state m (kr_description r) (kr_status r)\<rparr>)"

definition OIDCClientCrd :: string where
  "OIDCClientCrd = ''OIDCClient''"

definition getClientId :: "oidc_client \<Rightarrow> string" where
  "getClientId c = OIDCClientId (oc_clientNamespace c) (oc_clientName c)"

definition getSecretName :: "oidc_client \<Rightarrow> string" where
  "getSecretName c = OIDCClientSecretName (oc_clientName c)"

definition getInstance :: "oidc_client \<Rightarrow> string option" where
  "getInstance c = cs_instance (ac_status (oc_activityState c))"

definition usesClientSecret :: "oidc_client \<Rightarrow> bool" where
  "usesClientSecret c = (oc_tokenEndpointAuthMethod c \<noteq> ''none'')"

definition hasSecret :: "oidc_client \<Rightarrow> bool" where
  "hasSecret c = js_truthy (oc_clientSecret c)"

definition setResolvedIngress :: "string \<Rightarrow> string list \<Rightarrow> oidc_client \<Rightarrow> oidc_client" where
  "setResolvedIngress uri redirectUris c = c\<lparr>oc_uri := Some uri, oc_redirectUris := redirectUris\<rparr>"

definition strs :: "string list \<Rightarrow> json" where
  "strs xs = JArr (map JStr xs)"

text \<open>The stored record. A member that is \<open>undefined\<close> is dropped by \<open>JSON.stringify\<close>.\<close>

definition client_toRedis :: "oidc_client \<Rightarrow> json" where
  "client_toRedis c = JObj (somes [
     Some (''client_id'', JStr (getClientId c)),
     Some (''client_name'', JStr (oc_clientName c)),
     Some (''clientNamespace'', JStr (oc_clientNamespace c)),
     map_option (Pair ''client_secret'') (oc_clientSecret c),
     Some (''grant_types'', strs (oc_grantTypes c)),
     Some (''token_endpoint_auth_method'', JStr (oc_tokenEndpointAuthMethod c)),
     Some (''id_token_signed_response_alg'', JStr (oc_idTokenSignedResponseAlg c)),
     Some (''application_type'', JStr (oc_applicationType c)),
     Some (''response_types'', strs (oc_responseTypes c)),
     Some (''redirect_uris'', strs (oc_redirectUris c)),
     Some (''allowedGroups'', strs (oc_allowedGroups c)),
     Some (''allowedUsers'', strs (oc_allowedUsers c)),
     Some (''claimMappings'', oc_claimMappings c),
     Some (''availableScopes'', strs (oc_availableScopes c)),
     Some (''allowedResources'', case oc_allowedResources c of Some xs \<Rightarrow> strs xs | None \<Rightarrow> JNull),
     map_option (\<lambda>u. (''instanceUri'', JStr u)) (oc_instanceUri c),
     map_option (\<lambda>u. (''uri'', JStr u)) (oc_uri c),
     map_option (\<lambda>n. (''displayName'', JStr n)) (oc_displayName c),
     Some (''pkce'', JBool (oc_pkce c)),
     map_option (\<lambda>b. (''overrideIncomingScopes'', JBool b)) (oc_overrideIncomingScopes c),
     map_option (\<lambda>xs. (''allowedCORSOrigins'', strs xs)) (oc_allowedCORSOrigins c),
     Some (''displayOrder'', JNum (oc_displayOrder c)),
     Some (''description'', opt_str (ac_description (oc_activityState c))),
     Some (''kind'', JStr OIDCClientCrd)])"

text \<open>The endpoints of the provider, which the provider library computes.\<close>

record provider_urls =
  pu_authorization :: string
  pu_token :: string
  pu_userinfo :: string
  pu_wellKnown :: string

definition client_secret_entry :: "oidc_client \<Rightarrow> (string \<times> json) option" where
  "client_secret_entry c = (if usesClientSecret c then map_option (Pair ''OIDC_CLIENT_SECRET'') (oc_clientSecret c) else None)"

definition client_secret_data :: "deployment \<Rightarrow> provider_urls \<Rightarrow> oidc_client \<Rightarrow> (string \<times> json) list" where
  "client_secret_data D P c = somes [
     Some (''OIDC_CLIENT_ID'', JStr (getClientId c)),
     Some (''OIDC_GRANT_TYPES'', JStr (join_with '','' (oc_grantTypes c))),
     Some (''OIDC_RESPONSE_TYPES'', JStr (join_with '','' (oc_responseTypes c))),
     Some (''OIDC_TOKEN_ENDPOINT_AUTH_METHOD'', JStr (oc_tokenEndpointAuthMethod c)),
     Some (''OIDC_ID_TOKEN_SIGNED_RESPONSE_ALG'', JStr (oc_idTokenSignedResponseAlg c)),
     Some (''OIDC_REDIRECT_URIS'', JStr (join_with '','' (oc_redirectUris c))),
     Some (''OIDC_CLIENT_URI'', JStr (clientUri (oc_uri c))),
     Some (''OIDC_CLIENT_ORIGIN'', JStr (clientOrigin D (oc_uri c))),
     map_option (\<lambda>u. (''OIDC_IDP_URI'', JStr u)) (oc_instanceUri c),
     Some (''OIDC_IDP_DISPLAY_NAME'', JStr (resolveIdpDisplayName D)),
     Some (''OIDC_IDP_WELL_KNOWN_URI'', JStr (pu_wellKnown P)),
     Some (''OIDC_AVAILABLE_SCOPES'', JStr (join_with (oc_availableScopesDelimiter c) (oc_availableScopes c))),
     Some (''OIDC_IDP_AUTH_URI'', JStr (pu_authorization P)),
     Some (''OIDC_IDP_TOKEN_URI'', JStr (pu_token P)),
     Some (''OIDC_IDP_USERINFO_URI'', JStr (pu_userinfo P)),
     Some (''OIDC_ALLOWED_GROUPS'', JStr (join_with '','' (oc_allowedGroups c))),
     Some (''OIDC_ALLOWED_USERS'', JStr (join_with '','' (oc_allowedUsers c))),
     client_secret_entry c]"

definition toClientSecret :: "deployment \<Rightarrow> provider_urls \<Rightarrow> oidc_client \<Rightarrow> (string \<times> json) list" where
  "toClientSecret D P c = sort_key fst (client_secret_data D P c)"

definition client_intended_status :: "oidc_client \<Rightarrow> client_status" where
  "client_intended_status c =
     (let st = activity_intended_status (oc_activityState c) in
      if \<not> truthy (oc_ingressRef c) then st
      else st\<lparr>cs_resolvedUri := oc_uri c, cs_resolvedRedirectUris := Some (oc_redirectUris c)\<rparr>)"

text \<open>The refresh Job. \<open>decimal\<close> prints the resource version.\<close>

definition set_member :: "string \<Rightarrow> json \<Rightarrow> json option \<Rightarrow> json" where
  "set_member k v obj = JObj (AList.update k v (members (null_or obj (JObj []))))"

definition job_spec_defaults :: "json \<Rightarrow> json" where
  "job_spec_defaults spec =
     (let template = field ''template'' (Some spec);
          podSpec = field ''spec'' template;
          restart = (if js_truthy (field ''restartPolicy'' podSpec)
                     then null_or (field ''restartPolicy'' podSpec) JNull else JStr ''OnFailure'');
          template' = set_member ''spec'' (set_member ''restartPolicy'' restart podSpec) template;
          ttl = (if nullish (field ''ttlSecondsAfterFinished'' (Some spec)) then JNum 3600
                 else null_or (field ''ttlSecondsAfterFinished'' (Some spec)) JNull) in
      set_member ''ttlSecondsAfterFinished'' ttl (Some (set_member ''template'' template' (Some spec))))"

definition getSecretRefreshJob :: "(nat \<Rightarrow> string) \<Rightarrow> oidc_client \<Rightarrow> job_manifest option" where
  "getSecretRefreshJob decimal c = (case oc_secretRefreshJobSpec c of
     None \<Rightarrow> None
   | Some spec \<Rightarrow>
       Some \<lparr>jm_name = oc_clientName c @ ''-secret-refresh-'' @ decimal (oc_resourceVersion c),
         jm_labels = Some [(''app.kubernetes.io/managed-by'', ''passmower''),
           (''app.kubernetes.io/component'', ''secret-refresh''),
           (''codemowers.cloud/oidc-client'', oc_clientName c)],
         jm_template_labels = None, jm_spec = job_spec_defaults spec\<rparr>)"

text \<open>The middleware client. \<open>headerMapping\<close> is an object or, when absent, the empty list.\<close>

record mw_client =
  mw_clientName :: string
  mw_clientNamespace :: string
  mw_allowedGroups :: "string list"
  mw_allowedUsers :: "string list"
  mw_headerMapping :: "(string \<times> string) list"
  mw_uri :: "string option"
  mw_displayName :: "string option"
  mw_resourceVersion :: nat
  mw_uid :: string
  mw_displayOrder :: int
  mw_disabled :: bool
  mw_activityState :: activity_state

record mw_resource =
  mr_metadata :: metadata
  mr_description :: "string option"
  mr_allowedGroups :: "string list option"
  mr_allowedUsers :: "string list option"
  mr_headerMapping :: "(string \<times> string) list option"
  mr_uri :: "string option"
  mr_displayName :: "string option"
  mr_displayOrder :: "int option"
  mr_disabled :: "bool option"
  mr_status :: "client_status option"

definition mw_fromIncomingClient :: "mw_resource \<Rightarrow> mw_client" where
  "mw_fromIncomingClient r = (let m = mr_metadata r in
     \<lparr>mw_clientName = m_name m, mw_clientNamespace = m_namespace m,
      mw_allowedGroups = null_or (mr_allowedGroups r) [], mw_allowedUsers = null_or (mr_allowedUsers r) [],
      mw_headerMapping = null_or (mr_headerMapping r) [],
      mw_uri = mr_uri r, mw_displayName = mr_displayName r, mw_resourceVersion = m_resourceVersion m,
      mw_uid = m_uid m, mw_displayOrder = null_or (mr_displayOrder r) 0,
      mw_disabled = (mr_disabled r = Some True),
      mw_activityState = new_activity_state m (mr_description r) (mr_status r)\<rparr>)"

definition mw_clientId :: "mw_client \<Rightarrow> string" where
  "mw_clientId c = OIDCMiddlewareClientId (mw_clientNamespace c) (mw_clientName c)"

text \<open>\<open>uuid\<close> is the fresh secret.\<close>

definition mw_toRedis :: "deployment \<Rightarrow> string \<Rightarrow> mw_client \<Rightarrow> json" where
  "mw_toRedis D uuid c = JObj (somes [
     Some (''client_id'', JStr (mw_clientId c)),
     Some (''client_name'', JStr (mw_clientName c)),
     Some (''clientNamespace'', JStr (mw_clientNamespace c)),
     Some (''client_secret'', JStr uuid),
     Some (''grant_types'', strs [''implicit'']),
     Some (''response_types'', strs [''id_token'']),
     Some (''redirect_uris'', strs [forwardAuthRedirectUri D]),
     Some (''availableScopes'', strs [''openid'']),
     Some (''allowedGroups'', strs (mw_allowedGroups c)),
     Some (''allowedUsers'', strs (mw_allowedUsers c)),
     Some (''headerMapping'', JObj (map (\<lambda>(k, v). (k, JStr v)) (mw_headerMapping c))),
     map_option (\<lambda>u. (''uri'', JStr u)) (mw_uri c),
     map_option (\<lambda>n. (''displayName'', JStr n)) (mw_displayName c),
     Some (''displayOrder'', JNum (mw_displayOrder c)),
     Some (''description'', opt_str (ac_description (mw_activityState c))),
     Some (''kind'', JStr ''OIDCMiddlewareClient'')])"

definition toMiddlewareSpec :: "string \<Rightarrow> string \<Rightarrow> mw_client \<Rightarrow> json" where
  "toMiddlewareSpec dep namespace c = JObj [(''forwardAuth'', JObj [
     (''address'', JStr (TraefikMiddlewareForwardAuthAddress dep namespace (mw_clientId c))),
     (''trustForwardHeader'', JBool True),
     (''authResponseHeaders'', strs (filter (\<lambda>h. h \<noteq> []) (map snd (mw_headerMapping c))))])]"

subsection \<open>Lemmas\<close>

lemma trimTrailingSlashes_last: "trimTrailingSlashes u \<noteq> [] \<Longrightarrow> last (trimTrailingSlashes u) \<noteq> CHR ''/''"
proof -
  assume h: "trimTrailingSlashes u \<noteq> []"
  then have "dropWhile (\<lambda>c. c = CHR ''/'') (rev u) \<noteq> []" by (simp add: trimTrailingSlashes_def)
  then have "hd (dropWhile (\<lambda>c. c = CHR ''/'') (rev u)) \<noteq> CHR ''/''" by (rule hd_dropWhile)
  then show ?thesis using h by (simp add: trimTrailingSlashes_def last_rev)
qed

lemma distinct_sort_key: "distinct (map fst (sort_key fst xs)) = distinct (map fst xs)"
  by (rule mset_eq_imp_distinct_iff) simp

definition secret_keys :: "string list" where
  "secret_keys = [''OIDC_CLIENT_ID'', ''OIDC_GRANT_TYPES'', ''OIDC_RESPONSE_TYPES'',
     ''OIDC_TOKEN_ENDPOINT_AUTH_METHOD'', ''OIDC_ID_TOKEN_SIGNED_RESPONSE_ALG'', ''OIDC_REDIRECT_URIS'',
     ''OIDC_CLIENT_URI'', ''OIDC_CLIENT_ORIGIN'', ''OIDC_IDP_URI'', ''OIDC_IDP_DISPLAY_NAME'',
     ''OIDC_IDP_WELL_KNOWN_URI'', ''OIDC_AVAILABLE_SCOPES'', ''OIDC_IDP_AUTH_URI'', ''OIDC_IDP_TOKEN_URI'',
     ''OIDC_IDP_USERINFO_URI'', ''OIDC_ALLOWED_GROUPS'', ''OIDC_ALLOWED_USERS'']"

lemma client_secret_keys:
  assumes "oc_instanceUri c = Some u"
  shows "map fst (client_secret_data D P c) = secret_keys
     @ (if usesClientSecret c \<and> oc_clientSecret c \<noteq> None then [''OIDC_CLIENT_SECRET''] else [])"
  using assms by (cases "oc_clientSecret c")
    (simp_all add: client_secret_data_def client_secret_entry_def secret_keys_def)

lemma secret_keys_distinct: "distinct (secret_keys @ [''OIDC_CLIENT_SECRET''])"
  by code_simp

lemma in_client_secret_data:
  "(''OIDC_CLIENT_URI'', JStr (clientUri (oc_uri c))) \<in> set (client_secret_data D P c)"
  "client_secret_entry c = Some e \<Longrightarrow> e \<in> set (client_secret_data D P c)"
  by (simp_all add: client_secret_data_def set_somes)

lemma client_secret_distinct:
  assumes "oc_instanceUri c = Some u"
  shows "distinct (map fst (toClientSecret D P c))"
  unfolding toClientSecret_def distinct_sort_key client_secret_keys [OF assms] using secret_keys_distinct by auto

lemma client_secret_value:
  assumes "oc_instanceUri c = Some u"
  shows "map_of (toClientSecret D P c) ''OIDC_CLIENT_SECRET'' = (if usesClientSecret c then oc_clientSecret c else None)"
proof (cases "usesClientSecret c \<and> oc_clientSecret c \<noteq> None")
  case True
  then obtain v where v: "oc_clientSecret c = Some v" by auto
  with True have "client_secret_entry c = Some (''OIDC_CLIENT_SECRET'', v)"
    by (simp add: client_secret_entry_def)
  from in_client_secret_data(2) [OF this] client_secret_distinct [OF assms] v True show ?thesis
    by (simp add: map_of_eq_Some_iff toClientSecret_def)
next
  case False
  have "''OIDC_CLIENT_SECRET'' \<notin> set secret_keys" using secret_keys_distinct by simp
  with False have "''OIDC_CLIENT_SECRET'' \<notin> set (map fst (client_secret_data D P c))"
    unfolding client_secret_keys [OF assms] by auto
  then have "map_of (toClientSecret D P c) ''OIDC_CLIENT_SECRET'' = None"
    by (simp add: map_of_eq_None_iff toClientSecret_def)
  with False show ?thesis by auto
qed

text \<open>
  What an application's Secret holds. The Secret of every client the operator reads has the
  same seventeen keys, whatever the resource leaves out, in sorted order and with no key twice,
  so a Deployment may refer to any of them; and it has the key of the client secret exactly when
  the client is confidential and has one. The application's address never ends in a slash.
\<close>

theorem client_secret_shape:
  assumes "penv D ''ISSUER_URL'' = Some issuer"
    and "c = (fromIncomingClient D r)\<lparr>oc_clientSecret := secret, oc_uri := uri, oc_redirectUris := uris\<rparr>"
  shows "sorted (map fst (toClientSecret D P c)) \<and> distinct (map fst (toClientSecret D P c))
    \<and> set (map fst (toClientSecret D P c)) = set secret_keys
        \<union> (if usesClientSecret c \<and> secret \<noteq> None then {''OIDC_CLIENT_SECRET''} else {})
    \<and> (\<forall>s. map_of (toClientSecret D P c) ''OIDC_CLIENT_URI'' = Some (JStr s) \<and> s \<noteq> [] \<longrightarrow> last s \<noteq> CHR ''/'')
    \<and> map_of (toClientSecret D P c) ''OIDC_CLIENT_SECRET'' = (if usesClientSecret c then secret else None)"
proof -
  have i: "oc_instanceUri c = Some issuer" "oc_clientSecret c = secret"
    using assms by (simp_all add: fromIncomingClient_def Let_def)
  note keys = client_secret_keys [OF i(1), of D P]
  have d: "distinct (map fst (toClientSecret D P c))" by (rule client_secret_distinct [OF i(1)])
  have "set (map fst (toClientSecret D P c)) = set (map fst (client_secret_data D P c))"
    by (simp add: toClientSecret_def)
  then have s: "set (map fst (toClientSecret D P c)) = set secret_keys
        \<union> (if usesClientSecret c \<and> secret \<noteq> None then {''OIDC_CLIENT_SECRET''} else {})"
    unfolding keys by (auto simp: i(2))
  have u: "map_of (toClientSecret D P c) ''OIDC_CLIENT_URI'' = Some (JStr (clientUri (oc_uri c)))"
    using d in_client_secret_data(1) [of c D P] by (simp add: map_of_eq_Some_iff toClientSecret_def)
  have k: "map_of (toClientSecret D P c) ''OIDC_CLIENT_SECRET'' = (if usesClientSecret c then secret else None)"
    using client_secret_value [OF i(1)] i(2) by simp
  have "sorted (map fst (toClientSecret D P c))" by (simp add: toClientSecret_def)
  moreover have "\<forall>s. map_of (toClientSecret D P c) ''OIDC_CLIENT_URI'' = Some (JStr s) \<and> s \<noteq> [] \<longrightarrow> last s \<noteq> CHR ''/''"
    unfolding u by (auto simp: clientUri_def dest: trimTrailingSlashes_last split: if_splits)
  ultimately show ?thesis using d s k by blast
qed

subsection \<open>A concrete client\<close>

definition demo_client_spec :: client_spec where
  "demo_client_spec = \<lparr>csp_grantTypes = [''authorization_code''], csp_responseTypes = [''code''],
     csp_tokenEndpointAuthMethod = None, csp_idTokenSignedResponseAlg = None, csp_applicationType = None,
     csp_redirectUris = Some [''https://wiki.example.com/cb''], csp_ingressRef = None, csp_redirectPaths = None,
     csp_allowedGroups = None, csp_allowedUsers = None, csp_claimMappings = None,
     csp_overrideIncomingScopes = None, csp_availableScopes = [''openid''], csp_allowedResources = None,
     csp_availableScopesDelimiter = None, csp_uri = Some ''https://wiki.example.com/'', csp_displayName = None,
     csp_pkce = None, csp_secretMetadata = None, csp_secretRefreshJobSpec = None,
     csp_allowedCORSOrigins = None, csp_displayOrder = None, csp_disabled = None\<rparr>"

definition demo_resource :: client_resource where
  "demo_resource = \<lparr>kr_metadata = demo_meta ''wiki'' 1, kr_description = None, kr_spec = demo_client_spec,
     kr_status = None\<rparr>"

definition demo_urls :: provider_urls where
  "demo_urls = \<lparr>pu_authorization = ''https://auth.example.com/auth'', pu_token = ''https://auth.example.com/token'',
     pu_userinfo = ''https://auth.example.com/me'',
     pu_wellKnown = ''https://auth.example.com/.well-known/openid-configuration''\<rparr>"

theorem client_secret_shape_witness:
  "map_of (toClientSecret demo demo_urls ((fromIncomingClient demo demo_resource)\<lparr>oc_clientSecret := Some (JStr ''s3''),
      oc_uri := Some ''https://wiki.example.com/'', oc_redirectUris := []\<rparr>)) ''OIDC_CLIENT_SECRET''
   = Some (JStr ''s3'')"
proof -
  have u: "usesClientSecret ((fromIncomingClient demo demo_resource)\<lparr>oc_clientSecret := Some (JStr ''s3''),
      oc_uri := Some ''https://wiki.example.com/'', oc_redirectUris := []\<rparr>)"
    by (simp add: usesClientSecret_def fromIncomingClient_def demo_resource_def demo_client_spec_def str_or_def Let_def)
  show ?thesis
    using client_secret_shape [OF demo_env_simps(1) refl, where r = demo_resource and secret = "Some (JStr ''s3'')"
      and uri = "Some ''https://wiki.example.com/''" and uris = "[]" and P = demo_urls] u by simp
qed

end
