(* ===== verification/ForwardAuth.thy ===== *)
theory ForwardAuth
  imports Sessions
begin

text \<open>
  Forward authentication (\<^verbatim>\<open>src/routes/forwardAuthRoutes.js\<close>) and the signed state that
  carries the page a user asked for through a sign-in
  (\<^verbatim>\<open>src/utils/session/forward-auth-return.js\<close>). The keyed hash and the text encoding of the
  state's payload are parameters.
\<close>

subsection \<open>The requested page\<close>

type_synonym headers = "string \<Rightarrow> string option"

definition first_value :: "string option \<Rightarrow> string option" where
  "first_value v = (case v of
     None \<Rightarrow> None
   | Some s \<Rightarrow> (let x = trim (hd (split_on CHR '','' s)) in if x = [] then None else Some x))"

definition PAGE_SCHEME :: "string \<Rightarrow> string option" where
  "PAGE_SCHEME = map_of [(''http'', ''http''), (''https'', ''https''), (''ws'', ''http''), (''wss'', ''https'')]"

text \<open>Whether a host already ends in a port.\<close>

definition has_port :: "string \<Rightarrow> bool" where
  "has_port h = (takeWhile ascii_digit (rev h) \<noteq> [] \<and>
     (case dropWhile ascii_digit (rev h) of
        c # before \<Rightarrow> c = CHR '':'' \<and>
          (case before of
             [] \<Rightarrow> False
           | b # _ \<Rightarrow> b = CHR '']'' \<or> (CHR ''['' \<notin> set before \<and> CHR '']'' \<notin> set before))
      | [] \<Rightarrow> False))"

definition requestedUrl :: "deployment \<Rightarrow> provider_domain \<Rightarrow> headers \<Rightarrow> url option" where
  "requestedUrl D P headers =
     (let proto = PAGE_SCHEME (case first_value (headers ''x-forwarded-proto'') of
                     Some p \<Rightarrow> to_lower p | None \<Rightarrow> ''https'');
          host0 = first_value (headers ''x-forwarded-host'');
          port = first_value (headers ''x-forwarded-port'');
          path = tmpl (js_or (headers ''x-forwarded-uri'') (Some ''/'')) in
      case (proto, host0) of
        (Some scheme, Some h0) \<Rightarrow>
          if \<not> starts_with ''/'' path then None
          else
            (let host = (case port of Some p \<Rightarrow> if \<not> has_port h0 then h0 @ '':'' @ p else h0 | None \<Rightarrow> h0) in
             case (parse_url D (scheme @ ''://'' @ host), parse_url D (scheme @ ''://'' @ host @ path)) of
               (Some authority, Some url) \<Rightarrow>
                 if u_username authority \<noteq> [] \<or> u_pathname authority \<noteq> ''/'' \<or> u_search authority \<noteq> []
                    \<or> u_hash authority \<noteq> [] \<or> u_host url \<noteq> u_host authority \<or> u_username url \<noteq> []
                 then None
                 else if isHostInProviderBaseDomain (pd_base P) (Some (u_hostname url)) then Some url else None
             | _ \<Rightarrow> None)
      | _ \<Rightarrow> None)"

subsection \<open>The signed state\<close>

record state_codec =
  sc_mac :: "string \<Rightarrow> string \<Rightarrow> string"
  sc_encode :: "string \<Rightarrow> int \<Rightarrow> string \<Rightarrow> string"
  sc_decode :: "string \<Rightarrow> (string option \<times> int option) option"

text \<open>What the code relies on: base64url text has no dot and is not empty, and a payload this
  process encoded decodes to what it held.\<close>

definition dot_free :: "string \<Rightarrow> bool" where
  "dot_free s = (s \<noteq> [] \<and> CHR ''.'' \<notin> set s)"

definition codec_ok :: "state_codec \<Rightarrow> bool" where
  "codec_ok C = ((\<forall>k p. dot_free (sc_mac C k p)) \<and> (\<forall>u e n. dot_free (sc_encode C u e n))
     \<and> (\<forall>u e n. sc_decode C (sc_encode C u e n) = Some (Some u, Some e)))"

definition interaction_ttl :: int where
  "interaction_ttl = 3600"

definition signReturnState :: "state_codec \<Rightarrow> string list \<Rightarrow> string \<Rightarrow> url \<Rightarrow> int \<Rightarrow> string" where
  "signReturnState C keys nonce u now_ms =
     (let payload = sc_encode C (u_href u) (now_ms div 1000 + interaction_ttl) nonce in
      payload @ ''.'' @ sc_mac C (hd keys) payload)"

definition verifyReturnState ::
  "state_codec \<Rightarrow> deployment \<Rightarrow> provider_domain \<Rightarrow> string list \<Rightarrow> string option \<Rightarrow> int \<Rightarrow> string option" where
  "verifyReturnState C D P keys state now_ms = (case state of
     None \<Rightarrow> None
   | Some st \<Rightarrow>
       (case split_on CHR ''.'' st of
          payload # signature # _ \<Rightarrow>
            if payload = [] \<or> signature = [] then None
            else if \<not> (\<exists>key \<in> set keys. sc_mac C key payload = signature) then None
            else (case sc_decode C payload of
              None \<Rightarrow> None
            | Some (du, de) \<Rightarrow>
                if \<not> (case de of Some e \<Rightarrow> e * 1000 > now_ms | None \<Rightarrow> False) then None
                else (case parse_url D (tmpl du) of
                  None \<Rightarrow> None
                | Some u \<Rightarrow>
                    if isHostInProviderBaseDomain (pd_base P) (Some (u_hostname u)) then Some (u_href u) else None))
        | _ \<Rightarrow> None))"

subsection \<open>The handlers\<close>

datatype fa_response =
    FaBody nat string
  | FaEmpty nat
  | FaHeaders "(string \<times> string) list"
  | FaAuthorize string string
  | FaSeeOther string

definition OIDCMiddlewareClientCrd :: string where
  "OIDCMiddlewareClientCrd = ''OIDCMiddlewareClient''"

definition failure_text :: "access_failure \<Rightarrow> string" where
  "failure_text f = (case f of
     AccountMissing \<Rightarrow> ''account_missing'' | AccountBanned \<Rightarrow> ''account_banned''
   | TypeNotLoginCapable \<Rightarrow> ''account_type_not_login_capable'' | ApprovalRequired \<Rightarrow> ''approval_required''
   | NameRequired \<Rightarrow> ''name_required'' | TosRequired \<Rightarrow> ''tos_required''
   | ClientAccessRequired \<Rightarrow> ''client_access_required'')"

text \<open>\<open>GET /forward-auth\<close>. \<open>lookup\<close> reads a client's metadata from the store, \<open>findAccount\<close> an
  account; \<open>req_ip\<close> is the request's address.\<close>

definition forward_auth ::
  "'s redis \<Rightarrow> deployment \<Rightarrow> provider_domain \<Rightarrow> state_codec \<Rightarrow> string list \<Rightarrow> (string \<Rightarrow> int option)
     \<Rightarrow> (string \<Rightarrow> oidc_metadata option) \<Rightarrow> (string \<Rightarrow> account option) \<Rightarrow> tos_document option
     \<Rightarrow> int \<Rightarrow> string \<Rightarrow> string option \<Rightarrow> headers \<Rightarrow> string option \<Rightarrow> string option \<Rightarrow> 's
     \<Rightarrow> fa_response \<times> 's" where
  "forward_auth R D P C keys parse_int lookup findAccount doc now_ms nonce clientParam headers cookie req_ip s =
     (if \<not> truthy clientParam then (FaBody 401 ''client parameter in authentication url is missing'', s)
      else
        (let cid = tmpl clientParam; client = lookup cid in
         if Option.bind client cl_kind \<noteq> Some OIDCMiddlewareClientCrd then (FaBody 401 ''unknown client'', s)
         else case requestedUrl D P headers of
           None \<Rightarrow> (FaBody 401 ''Endpoint URL not in the same base domain'', s)
         | Some url \<Rightarrow>
             (case validateSiteSession R D P cid cookie req_ip s of
                (None, s1) \<Rightarrow> (FaAuthorize cid (signReturnState C keys nonce url now_ms), s1)
              | (Some site, s1) \<Rightarrow>
                  if js_truthy (field ''error'' (field ''result'' (Some site)))
                  then (FaBody 401 (tmpl (Option.bind (field ''result'' (Some site)) (str_field ''error''))), s1)
                  else
                    (let owner = str_field ''accountId'' site;
                         acc = findAccount (tmpl owner) in
                     case (getAccountAccessFailure D client acc doc, acc) of
                       (None, Some a) \<Rightarrow>
                         (FaHeaders (getRemoteHeaders D (list_or_empty (Option.bind client cl_headerMapping)) a), s1)
                     | (Some failure, _) \<Rightarrow>
                         (FaEmpty 401,
                          recordIncident R now_ms D parse_int ''forward-auth'' owner (Some cid) (failure_text failure)
                            (Option.bind client cl_allowedGroups) (Option.bind client cl_allowedUsers) req_ip s1)
                     | (None, None) \<Rightarrow> (FaEmpty 401, s1)))))"

definition error_code_ok :: "string \<Rightarrow> bool" where
  "error_code_ok e = (1 \<le> length e \<and> length e \<le> 64 \<and> list_all (\<lambda>c. is_lower c \<or> c = CHR ''_'') e)"

text \<open>\<open>POST /forward-auth/return\<close>.\<close>

definition forward_auth_return ::
  "state_codec \<Rightarrow> deployment \<Rightarrow> provider_domain \<Rightarrow> string list \<Rightarrow> int \<Rightarrow> string option \<Rightarrow> string option \<Rightarrow> fa_response" where
  "forward_auth_return C D P keys now_ms state error =
     (case verifyReturnState C D P keys state now_ms of
        Some target \<Rightarrow> FaSeeOther target
      | None \<Rightarrow>
          if truthy error
          then FaBody 403 (if error_code_ok (tmpl error) then ''Sign-in was not completed: '' @ tmpl error
                           else ''Sign-in was not completed'')
          else FaBody 400 ''Invalid or expired sign-in state'')"

subsection \<open>Lemmas\<close>

lemma split_on_free: "c \<notin> set s \<Longrightarrow> split_on c s = [s]"
  by (induction s) auto

lemma split_on_append: "c \<notin> set s \<Longrightarrow> split_on c (s @ c # t) = s # split_on c t"
  by (induction s) auto

text \<open>Only the base domain and its subdomains pass.\<close>

lemma host_in_base_domain_iff:
  "isHostInProviderBaseDomain b (Some h) \<longleftrightarrow>
     drop_final_dot (to_lower h) = to_lower b \<or> (\<exists>p. drop_final_dot (to_lower h) = p @ ''.'' @ to_lower b)"
  by (auto simp: isHostInProviderBaseDomain_def ends_with_iff Let_def)

lemma verifyReturnState_SomeD:
  assumes "verifyReturnState C D P keys (Some st) now_ms = Some target"
  shows "\<exists>payload signature rest key du e u.
    split_on CHR ''.'' st = payload # signature # rest \<and> key \<in> set keys \<and> sc_mac C key payload = signature
    \<and> sc_decode C payload = Some (du, Some e) \<and> e * 1000 > now_ms
    \<and> parse_url D (tmpl du) = Some u \<and> isHostInProviderBaseDomain (pd_base P) (Some (u_hostname u))
    \<and> target = u_href u"
  using assms by (auto simp: verifyReturnState_def split: list.splits if_splits option.splits prod.splits)

subsection \<open>Properties\<close>

text \<open>
  C17: The sign-in return is not an open redirect, and a genuine one completes. Whatever is
  posted to the return path, the browser is redirected only to a page whose host is the base
  domain or below it, and only on an unexpired state whose signature a current cookie key made;
  and the state signed for a page takes the user back to that page within its lifetime, also
  after newer keys were put in front of the one that signed it.
\<close>

theorem return_state_sound_and_complete:
  assumes "codec_ok C"
  shows "(\<forall>state error target. forward_auth_return C D P keys now_ms state error = FaSeeOther target \<longrightarrow>
      (\<exists>st payload signature rest key u e du. state = Some st
         \<and> split_on CHR ''.'' st = payload # signature # rest
         \<and> key \<in> set keys \<and> signature = sc_mac C key payload
         \<and> sc_decode C payload = Some (du, Some e) \<and> now_ms < e * 1000
         \<and> parse_url D (tmpl du) = Some u \<and> target = u_href u
         \<and> (drop_final_dot (to_lower (u_hostname u)) = to_lower (pd_base P)
            \<or> (\<exists>p. drop_final_dot (to_lower (u_hostname u)) = p @ ''.'' @ to_lower (pd_base P)))))
   \<and> (\<forall>u signed_ms newer older error nonce.
        older \<noteq> [] \<and> now_ms < (signed_ms div 1000 + interaction_ttl) * 1000
        \<and> parse_url D (u_href u) = Some u
        \<and> isHostInProviderBaseDomain (pd_base P) (Some (u_hostname u)) \<longrightarrow>
        forward_auth_return C D P (newer @ older) now_ms (Some (signReturnState C older nonce u signed_ms)) error
          = FaSeeOther (u_href u))"
proof (intro conjI allI impI)
  fix state error target
  assume "forward_auth_return C D P keys now_ms state error = FaSeeOther target"
  then have v: "verifyReturnState C D P keys state now_ms = Some target"
    by (auto simp: forward_auth_return_def split: option.splits if_splits)
  then obtain st where "state = Some st" by (cases state) (auto simp: verifyReturnState_def)
  with verifyReturnState_SomeD [OF v [unfolded this]]
  show "\<exists>st payload signature rest key u e du. state = Some st
         \<and> split_on CHR ''.'' st = payload # signature # rest
         \<and> key \<in> set keys \<and> signature = sc_mac C key payload
         \<and> sc_decode C payload = Some (du, Some e) \<and> now_ms < e * 1000
         \<and> parse_url D (tmpl du) = Some u \<and> target = u_href u
         \<and> (drop_final_dot (to_lower (u_hostname u)) = to_lower (pd_base P)
            \<or> (\<exists>p. drop_final_dot (to_lower (u_hostname u)) = p @ ''.'' @ to_lower (pd_base P)))"
    unfolding host_in_base_domain_iff by blast
next
  fix u :: url and signed_ms :: int and newer older :: "string list" and error nonce
  assume a: "older \<noteq> [] \<and> now_ms < (signed_ms div 1000 + interaction_ttl) * 1000
        \<and> parse_url D (u_href u) = Some u
        \<and> isHostInProviderBaseDomain (pd_base P) (Some (u_hostname u))"
  let ?p = "sc_encode C (u_href u) (signed_ms div 1000 + interaction_ttl) nonce"
  let ?sig = "sc_mac C (hd older) ?p"
  have f: "dot_free ?p" "dot_free ?sig" and d: "sc_decode C ?p = Some (Some (u_href u), Some (signed_ms div 1000 + interaction_ttl))"
    using assms by (simp_all add: codec_ok_def)
  then have "split_on CHR ''.'' (signReturnState C older nonce u signed_ms) = [?p, ?sig]"
    by (simp add: signReturnState_def Let_def split_on_append split_on_free dot_free_def)
  moreover have "\<exists>key \<in> set (newer @ older). sc_mac C key ?p = ?sig"
    using a by (intro bexI [of _ "hd older"]) auto
  ultimately show "forward_auth_return C D P (newer @ older) now_ms
      (Some (signReturnState C older nonce u signed_ms)) error = FaSeeOther (u_href u)"
    using a f d by (simp add: forward_auth_return_def verifyReturnState_def dot_free_def del: set_append)
qed

text \<open>
  C18: Forward-auth vouches only for a user it has checked. When the endpoint answers with
  identity headers, the client is a middleware client, the requested page is in the base domain,
  the request carried a valid site session for that client, and the headers are those of the
  session's account, which passes the same access policy as a token refresh at that moment; a
  session whose account fails the policy gets no headers and leaves an incident.
\<close>

theorem forward_auth_checks_account:
  assumes "forward_auth R D P C keys pi lookup findAccount doc now_ms nonce clientParam hdrs cookie ip s = (r, s')"
  shows "(\<forall>hs. r = FaHeaders hs \<longrightarrow>
      (\<exists>cid client url site owner a. clientParam = Some cid \<and> lookup cid = Some client
         \<and> cl_kind client = Some OIDCMiddlewareClientCrd
         \<and> requestedUrl D P hdrs = Some url
         \<and> isHostInProviderBaseDomain (pd_base P) (Some (u_hostname url))
         \<and> validateSiteSession R D P cid cookie ip s = (Some site, s')
         \<and> owner = tmpl (str_field ''accountId'' site) \<and> findAccount owner = Some a
         \<and> getAccountAccessFailure D (Some client) (Some a) doc = None
         \<and> hs = getRemoteHeaders D (list_or_empty (cl_headerMapping client)) a))
    \<and> (\<forall>cid client site url f. clientParam = Some cid \<and> cid \<noteq> [] \<and> lookup cid = Some client
         \<and> cl_kind client = Some OIDCMiddlewareClientCrd \<and> requestedUrl D P hdrs = Some url
         \<and> fst (validateSiteSession R D P cid cookie ip s) = Some site
         \<and> \<not> js_truthy (field ''error'' (field ''result'' (Some site)))
         \<and> getAccountAccessFailure D (Some client) (findAccount (tmpl (str_field ''accountId'' site))) doc = Some f \<longrightarrow>
         r = FaEmpty 401
         \<and> s' = recordIncident R now_ms D pi ''forward-auth'' (str_field ''accountId'' site) (Some cid) (failure_text f)
                  (cl_allowedGroups client) (cl_allowedUsers client) ip
                  (snd (validateSiteSession R D P cid cookie ip s)))"
proof (intro conjI allI impI)
  fix hs
  assume "r = FaHeaders hs"
  with assms obtain cid client url site where
    c: "clientParam = Some cid" "lookup cid = Some client" "cl_kind client = Some OIDCMiddlewareClientCrd"
    and u: "requestedUrl D P hdrs = Some url"
    and v: "validateSiteSession R D P cid cookie ip s = (Some site, s')"
    and rest: "\<exists>a. findAccount (tmpl (str_field ''accountId'' site)) = Some a
        \<and> getAccountAccessFailure D (Some client) (Some a) doc = None
        \<and> hs = getRemoteHeaders D (list_or_empty (cl_headerMapping client)) a"
    by (cases clientParam; cases "lookup (the clientParam)")
      (auto simp: forward_auth_def Let_def split: if_splits option.splits prod.splits)
  have "isHostInProviderBaseDomain (pd_base P) (Some (u_hostname url))"
    using u by (auto simp: requestedUrl_def Let_def split: option.splits if_splits)
  with c u v rest show "\<exists>cid client url site owner a. clientParam = Some cid \<and> lookup cid = Some client
         \<and> cl_kind client = Some OIDCMiddlewareClientCrd
         \<and> requestedUrl D P hdrs = Some url
         \<and> isHostInProviderBaseDomain (pd_base P) (Some (u_hostname url))
         \<and> validateSiteSession R D P cid cookie ip s = (Some site, s')
         \<and> owner = tmpl (str_field ''accountId'' site) \<and> findAccount owner = Some a
         \<and> getAccountAccessFailure D (Some client) (Some a) doc = None
         \<and> hs = getRemoteHeaders D (list_or_empty (cl_headerMapping client)) a"
    by blast
next
  fix cid client site url f
  assume a: "clientParam = Some cid \<and> cid \<noteq> [] \<and> lookup cid = Some client
         \<and> cl_kind client = Some OIDCMiddlewareClientCrd \<and> requestedUrl D P hdrs = Some url
         \<and> fst (validateSiteSession R D P cid cookie ip s) = Some site
         \<and> \<not> js_truthy (field ''error'' (field ''result'' (Some site)))
         \<and> getAccountAccessFailure D (Some client) (findAccount (tmpl (str_field ''accountId'' site))) doc = Some f"
  obtain s1 where v: "validateSiteSession R D P cid cookie ip s = (Some site, s1)"
    using a by (cases "validateSiteSession R D P cid cookie ip s") auto
  have e: "forward_auth R D P C keys pi lookup findAccount doc now_ms nonce clientParam hdrs cookie ip s
      = (FaEmpty 401, recordIncident R now_ms D pi ''forward-auth'' (str_field ''accountId'' site) (Some cid) (failure_text f)
                  (cl_allowedGroups client) (cl_allowedUsers client) ip s1)"
    using a by (simp add: forward_auth_def Let_def v)
  with assms v show "r = FaEmpty 401"
    and "s' = recordIncident R now_ms D pi ''forward-auth'' (str_field ''accountId'' site) (Some cid) (failure_text f)
                  (cl_allowedGroups client) (cl_allowedUsers client) ip
                  (snd (validateSiteSession R D P cid cookie ip s))"
    by simp_all
qed

subsection \<open>A concrete codec and request\<close>

text \<open>A character as so many \<open>a\<close>s and a \<open>b\<close>; an instant as a sign and so many \<open>a\<close>s.\<close>

definition demo_enc :: "string \<Rightarrow> string" where
  "demo_enc u = concat (map (\<lambda>c. replicate (of_char c) CHR ''a'' @ ''b'') u)"

fun demo_dec :: "nat \<Rightarrow> string \<Rightarrow> string \<times> string" where
  "demo_dec n [] = ([], [])"
| "demo_dec n (c # s) =
     (if c = CHR ''a'' then demo_dec (Suc n) s
      else if c = CHR ''b'' then (let (u, r) = demo_dec 0 s in (char_of n # u, r))
      else ([], c # s))"

lemma demo_dec_run: "demo_dec n (replicate m CHR ''a'' @ s) = demo_dec (n + m) s"
  by (induction m arbitrary: n) auto

lemma demo_dec_enc: "demo_dec 0 (demo_enc u @ CHR ''c'' # t) = (u, CHR ''c'' # t)"
  by (induction u) (simp_all add: demo_enc_def demo_dec_run)

definition demo_codec :: state_codec where
  "demo_codec = \<lparr>sc_mac = (\<lambda>k p. ''m'' @ demo_enc (k @ p)),
     sc_encode = (\<lambda>u e n. demo_enc u @ ''c'' @ (if 0 \<le> e then ''p'' else ''n'') @ replicate (nat \<bar>e\<bar>) CHR ''a''),
     sc_decode = (\<lambda>p. let (u, r) = demo_dec 0 p in
        case r of _ # sign # rest \<Rightarrow>
          Some (Some u, Some (if sign = CHR ''p'' then int (length rest) else - int (length rest)))
        | _ \<Rightarrow> None)\<rparr>"

lemma demo_enc_chars: "set (demo_enc u) \<subseteq> set ''ab''"
  by (auto simp: demo_enc_def)

lemma demo_codec_ok: "codec_ok demo_codec"
proof -
  have "CHR ''.'' \<notin> set (demo_enc u)" for u using demo_enc_chars [of u] by auto
  then show ?thesis
    by (simp add: codec_ok_def demo_codec_def dot_free_def demo_dec_enc)
qed

definition demo_page :: url where
  "demo_page = \<lparr>u_protocol = ''https:'', u_hostname = ''wiki.example.com'', u_host = ''wiki.example.com'',
     u_pathname = ''/'', u_origin = ''https://wiki.example.com'', u_href = ''https://wiki.example.com/'',
     u_username = [], u_search = [], u_hash = []\<rparr>"

definition demo_web :: deployment where
  "demo_web = demo\<lparr>parse_url := (\<lambda>s. if starts_with ''https://wiki.example.com'' s then Some demo_page else None)\<rparr>"

theorem return_state_sound_and_complete_witness:
  "forward_auth_return demo_codec demo_web demo_domain [''new'', ''old''] 1000000
     (Some (signReturnState demo_codec [''old''] ''n'' demo_page 0)) None = FaSeeOther ''https://wiki.example.com/''"
proof -
  have href: "u_href demo_page = ''https://wiki.example.com/''" by (simp add: demo_page_def)
  have p: "parse_url demo_web (u_href demo_page) = Some demo_page"
    by (simp add: demo_web_def demo_page_def starts_with_def)
  have h: "isHostInProviderBaseDomain (pd_base demo_domain) (Some (u_hostname demo_page))"
    by code_simp
  have "[''old''] \<noteq> [] \<and> (1000000 :: int) < (0 div 1000 + interaction_ttl) * 1000"
    by (simp add: interaction_ttl_def)
  with p h conjunct2 [OF return_state_sound_and_complete [OF demo_codec_ok, of demo_web demo_domain "[]" 1000000]]
  have "forward_auth_return demo_codec demo_web demo_domain ([''new''] @ [''old'']) 1000000
     (Some (signReturnState demo_codec [''old''] ''n'' demo_page 0)) None = FaSeeOther (u_href demo_page)"
    by blast
  then show ?thesis by (simp add: href)
qed

definition demo_headers :: headers where
  "demo_headers = map_of [(''x-forwarded-proto'', ''https''), (''x-forwarded-host'', ''wiki.example.com''),
     (''x-forwarded-uri'', ''/'')]"

definition demo_middleware :: oidc_metadata where
  "demo_middleware = demo_client\<lparr>cl_clientId := ''middleware-apps.wiki'', cl_kind := Some ''OIDCMiddlewareClient'',
     cl_headerMapping := Some [(''user'', ''Remote-User'')]\<rparr>"

definition demo_member :: account where
  "demo_member = (demo_account ''ann'' 1 ''a@x'')\<lparr>
     groups := [\<lparr>g_prefix = Some ''local'', g_name = ''members''\<rparr>]\<rparr>"

theorem forward_auth_checks_account_witness:
  "\<exists>a. getAccountAccessFailure demo_web (Some demo_middleware) (Some a) None = None
     \<and> fst (forward_auth mem_redis demo_web demo_domain demo_codec [''k''] (\<lambda>_. None) (\<lambda>_. Some demo_middleware)
          (\<lambda>_. Some demo_member) None 0 ''n'' (Some ''middleware-apps.wiki'') demo_headers (Some ''c1'')
          (Some ''10.0.0.1'') demo_site_store)
        = FaHeaders (getRemoteHeaders demo_web [(''user'', ''Remote-User'')] a)"
proof -
  let ?call = "forward_auth mem_redis demo_web demo_domain demo_codec [''k''] (\<lambda>_. None) (\<lambda>_. Some demo_middleware)
          (\<lambda>_. Some demo_member) None 0 ''n'' (Some ''middleware-apps.wiki'') demo_headers (Some ''c1'')
          (Some ''10.0.0.1'') demo_site_store"
  have "fst ?call = FaHeaders [(''Remote-User'', ''ann'')]" by code_simp
  then obtain s' where call: "?call = (FaHeaders [(''Remote-User'', ''ann'')], s')"
    by (cases ?call) auto
  have "list_or_empty (cl_headerMapping demo_middleware) = [(''user'', ''Remote-User'')]"
    by (simp add: demo_middleware_def)
  with conjunct1 [OF forward_auth_checks_account [OF call]] call show ?thesis by fastforce
qed

end
