(* ===== verification/ClientOperator.thy ===== *)
theory ClientOperator
  imports Clients ForwardAuth
begin

text \<open>
  The two client operators, \<^verbatim>\<open>src/operators/kube-oidc-client-operator.js\<close> and
  \<^verbatim>\<open>src/operators/kube-oidc-middleware-client-operator.js\<close>: what the watch's ADDED, MODIFIED
  and DELETED callbacks do. The calls they make on Redis and on the cluster are a parameter. A
  handler works on the client it was given, which it changes as it goes, and may throw; a thrown
  error is caught and reported on the resource as the client stands at that moment.
\<close>

subsection \<open>Handlers that may throw\<close>

datatype client_failure =
    InvalidClaimMappings "claim_problem list"
  | IngressDiscoveryOff
  | IngressRefUnresolved string "ingress_problem list"
  | SecretUnreadable
  | SecretNotCreated
  | SecretNotUpdated
  | RefreshJobNotCreated
  | MiddlewareNotCreated
  | MiddlewareNotUpdated
  | CallThrew

definition failure_reason :: "client_failure \<Rightarrow> string" where
  "failure_reason e = (case e of
     InvalidClaimMappings _ \<Rightarrow> ''InvalidClaimMappings''
   | IngressDiscoveryOff \<Rightarrow> ''IngressRefUnresolved''
   | IngressRefUnresolved _ _ \<Rightarrow> ''IngressRefUnresolved''
   | SecretUnreadable \<Rightarrow> ''SecretReconcileFailed''
   | SecretNotCreated \<Rightarrow> ''SecretReconcileFailed''
   | SecretNotUpdated \<Rightarrow> ''SecretReconcileFailed''
   | RefreshJobNotCreated \<Rightarrow> ''RefreshJobReconcileFailed''
   | MiddlewareNotCreated \<Rightarrow> ''MiddlewareReconcileFailed''
   | MiddlewareNotUpdated \<Rightarrow> ''MiddlewareReconcileFailed''
   | CallThrew \<Rightarrow> ''ReconcileFailed'')"

text \<open>A handler takes the client and the world to a result or an error, and both as changed.\<close>

type_synonym ('c, 'w, 'a) handler = "'c \<times> 'w \<Rightarrow> (client_failure + 'a) \<times> ('c \<times> 'w)"

definition h_return :: "'a \<Rightarrow> ('c, 'w, 'a) handler" where
  "h_return x = (\<lambda>s. (Inr x, s))"

definition h_throw :: "client_failure \<Rightarrow> ('c, 'w, 'a) handler" where
  "h_throw e = (\<lambda>s. (Inl e, s))"

definition h_then :: "('c, 'w, 'a) handler \<Rightarrow> ('a \<Rightarrow> ('c, 'w, 'b) handler) \<Rightarrow> ('c, 'w, 'b) handler" where
  "h_then f g = (\<lambda>s. case f s of (Inl e, s') \<Rightarrow> (Inl e, s') | (Inr x, s') \<Rightarrow> g x s')"

definition h_client :: "('c, 'w, 'c) handler" where
  "h_client = (\<lambda>(c, w). (Inr c, (c, w)))"

definition h_update :: "('c \<Rightarrow> 'c) \<Rightarrow> ('c, 'w, unit) handler" where
  "h_update f = (\<lambda>(c, w). (Inr (), (f c, w)))"

definition h_call :: "('w \<Rightarrow> 'a \<times> 'w) \<Rightarrow> ('c, 'w, 'a) handler" where
  "h_call k = (\<lambda>(c, w). let (x, w') = k w in (Inr x, (c, w')))"

text \<open>A Redis command, which throws when the server cannot be reached.\<close>

definition h_redis :: "('w \<Rightarrow> (unit + 'a) \<times> 'w) \<Rightarrow> ('c, 'w, 'a) handler" where
  "h_redis k = (\<lambda>(c, w). case k w of
     (Inl _, w') \<Rightarrow> (Inl CallThrew, (c, w'))
   | (Inr x, w') \<Rightarrow> (Inr x, (c, w')))"

subsection \<open>The calls\<close>

record 'w client_calls =
  cc_instance :: string
  cc_find :: "string \<Rightarrow> 'w \<Rightarrow> (unit + json option) \<times> 'w"
  cc_upsert :: "string \<Rightarrow> json \<Rightarrow> 'w \<Rightarrow> (unit + unit) \<times> 'w"
  cc_destroy :: "string \<Rightarrow> 'w \<Rightarrow> (unit + unit) \<times> 'w"
  cc_getSecret :: "string \<Rightarrow> string \<Rightarrow> 'w \<Rightarrow> (string \<times> json) list outcome \<times> 'w"
  cc_createSecret :: "string \<Rightarrow> string \<Rightarrow> (string \<times> json) list \<Rightarrow> json \<Rightarrow> 'w \<Rightarrow> create_secret_result \<times> 'w"
  cc_patchSecret :: "string \<Rightarrow> string \<Rightarrow> (string \<times> json) list \<Rightarrow> json \<Rightarrow> (string \<times> json) list \<Rightarrow> 'w \<Rightarrow> bool \<times> 'w"
  cc_createJob :: "string \<Rightarrow> job_manifest \<Rightarrow> 'w \<Rightarrow> create_job_result \<times> 'w"
  cc_replaceStatus :: "string \<Rightarrow> string \<Rightarrow> nat \<Rightarrow> client_status \<Rightarrow> 'w \<Rightarrow> client_resource option \<times> 'w"
  cc_getIngress :: "string \<Rightarrow> string \<Rightarrow> 'w \<Rightarrow> ingress outcome \<times> 'w"
  cc_getClient :: "string \<Rightarrow> string \<Rightarrow> 'w \<Rightarrow> client_resource outcome \<times> 'w"
  cc_event :: "string \<Rightarrow> string \<Rightarrow> string \<Rightarrow> string \<Rightarrow> 'w \<Rightarrow> 'w"
  cc_uuid :: "'w \<Rightarrow> string \<times> 'w"
  cc_stamp :: "'w \<Rightarrow> string \<times> 'w"

text \<open>What the environment and the libraries compute: the endpoints, URL resolution, printing.\<close>

record operator_env =
  oe_deployment :: deployment
  oe_urls :: provider_urls
  oe_resolve_url :: "string \<Rightarrow> string \<Rightarrow> string option"
  oe_decimal :: "nat \<Rightarrow> string"
  oe_message :: "client_failure \<Rightarrow> string"
  oe_codec :: codec

subsection \<open>The client Secret\<close>

text \<open>\<open>toClientSecretMetadata\<close>: the owner, overridden by what the client asks for.\<close>

definition toClientSecretMetadata :: "oidc_client \<Rightarrow> json" where
  "toClientSecretMetadata c = js_spread (JObj [(''ownerReferences'', JArr [JObj [
     (''kind'', JStr OIDCClientCrd), (''name'', JStr (oc_clientName c)), (''uid'', JStr (oc_uid c)),
     (''apiVersion'', JStr ''codemowers.cloud/v1'')]])]) (members (oc_secretMetadata c))"

definition generateSecret :: "'w client_calls \<Rightarrow> (oidc_client, 'w, unit) handler" where
  "generateSecret K = h_then (h_call (cc_uuid K)) (\<lambda>uuid. h_update (\<lambda>c. c\<lparr>oc_clientSecret := Some (JStr uuid)\<rparr>))"

definition reconcileRefreshJob :: "operator_env \<Rightarrow> 'w client_calls \<Rightarrow> (oidc_client, 'w, unit) handler" where
  "reconcileRefreshJob E K = h_then h_client (\<lambda>c.
     case getSecretRefreshJob (oe_decimal E) c of
       None \<Rightarrow> h_return ()
     | Some job \<Rightarrow> h_then (h_call (cc_createJob K (oc_clientNamespace c) job)) (\<lambda>r.
         if r = JobFailed then h_throw RefreshJobNotCreated else h_return ()))"

definition adoptKubeSecret ::
  "operator_env \<Rightarrow> 'w client_calls \<Rightarrow> bool \<Rightarrow> (string \<times> json) list \<Rightarrow> (oidc_client, 'w, unit) handler" where
  "adoptKubeSecret E K refreshOnlyIfChanged existing =
     h_then h_client (\<lambda>c0.
     h_then (let s = map_of existing ''OIDC_CLIENT_SECRET'' in
             if js_truthy s \<or> \<not> usesClientSecret c0 then h_update (\<lambda>c. c\<lparr>oc_clientSecret := s\<rparr>)
             else generateSecret K) (\<lambda>_.
     h_then h_client (\<lambda>c.
       let data = toClientSecret (oe_deployment E) (oe_urls E) c in
       h_then (h_call (cc_patchSecret K (oc_clientNamespace c) (getSecretName c) data (toClientSecretMetadata c) existing)) (\<lambda>ok.
         if \<not> ok then h_throw SecretNotUpdated
         else if \<not> refreshOnlyIfChanged \<or> secretDataChanged (oe_codec E) existing data
         then reconcileRefreshJob E K else h_return ()))))"

definition reconcileClientSecret ::
  "operator_env \<Rightarrow> 'w client_calls \<Rightarrow> bool \<Rightarrow> (oidc_client, 'w, unit) handler" where
  "reconcileClientSecret E K refreshOnlyIfChanged =
     h_then h_client (\<lambda>c0.
     h_then (h_call (cc_getSecret K (oc_clientNamespace c0) (getSecretName c0))) (\<lambda>existing.
       case existing of
         Found data \<Rightarrow> adoptKubeSecret E K refreshOnlyIfChanged data
       | _ \<Rightarrow>
           h_then (generateSecret K) (\<lambda>_.
           h_then h_client (\<lambda>c.
           h_then (h_call (cc_createSecret K (oc_clientNamespace c) (getSecretName c)
               (toClientSecret (oe_deployment E) (oe_urls E) c) (toClientSecretMetadata c))) (\<lambda>created.
             case created of
               SecretExists \<Rightarrow>
                 h_then (h_call (cc_getSecret K (oc_clientNamespace c) (getSecretName c))) (\<lambda>again.
                   case again of
                     Found data \<Rightarrow> adoptKubeSecret E K False data
                   | _ \<Rightarrow> h_throw SecretUnreadable)
             | SecretFailed \<Rightarrow> h_throw SecretNotCreated
             | SecretCreated _ \<Rightarrow> reconcileRefreshJob E K)))))"

subsection \<open>The other steps of a reconcile\<close>

definition assertValidClaimMappings :: "(oidc_client, 'w, unit) handler" where
  "assertValidClaimMappings = h_then h_client (\<lambda>c.
     let problems = validateClaimMappings (Some (oc_claimMappings c)) in
     if problems \<noteq> [] then h_throw (InvalidClaimMappings problems) else h_return ())"

definition resolveClientIngress :: "operator_env \<Rightarrow> 'w client_calls \<Rightarrow> (oidc_client, 'w, unit) handler" where
  "resolveClientIngress E K = h_then h_client (\<lambda>c.
     if \<not> truthy (oc_ingressRef c) then h_return ()
     else if \<not> env_is (oe_deployment E) ''INGRESS_DISCOVERY_ENABLED'' ''true'' then h_throw IngressDiscoveryOff
     else h_then (h_call (cc_getIngress K (oc_clientNamespace c) (tmpl (oc_ingressRef c)))) (\<lambda>found.
       case resolveIngressRef (oe_resolve_url E) (case found of Found g \<Rightarrow> Some g | _ \<Rightarrow> None) (oc_redirectPaths c) of
         IngressProblems ps \<Rightarrow> h_throw (IngressRefUnresolved (tmpl (oc_ingressRef c)) ps)
       | IngressThrew \<Rightarrow> h_throw CallThrew
       | IngressResolved uri uris \<Rightarrow> h_update (setResolvedIngress uri uris)))"

definition replaceClientStatus :: "operator_env \<Rightarrow> 'w client_calls \<Rightarrow> oidc_client \<Rightarrow> 'w \<Rightarrow> oidc_client option \<times> 'w" where
  "replaceClientStatus E K c w =
     (let (r, w') = cc_replaceStatus K (oc_clientNamespace c) (oc_clientName c) (oc_resourceVersion c)
          ((client_intended_status c)\<lparr>cs_instance := Some (cc_instance K)\<rparr>) w in
      (map_option (fromIncomingClient (oe_deployment E)) r, w'))"

text \<open>\<open>updateReadyCondition\<close> on the client, with the time it would write.\<close>

definition markReady :: "'w client_calls \<Rightarrow> bool \<Rightarrow> string \<Rightarrow> string \<Rightarrow> (oidc_client, 'w, bool) handler" where
  "markReady K ready reason message = h_then (h_call (cc_stamp K)) (\<lambda>stamp. h_then h_client (\<lambda>c.
     let (changed, a) = updateReadyCondition ready reason message stamp (oc_activityState c) in
     h_then (h_update (\<lambda>c. c\<lparr>oc_activityState := a\<rparr>)) (\<lambda>_. h_return changed)))"

definition reportReady :: "operator_env \<Rightarrow> 'w client_calls \<Rightarrow> string \<Rightarrow> string \<Rightarrow> (oidc_client, 'w, unit) handler" where
  "reportReady E K reason message = h_then (markReady K True reason message) (\<lambda>changed. h_then h_client (\<lambda>c.
     h_then (h_call (replaceClientStatus E K c)) (\<lambda>updated.
       if changed \<and> updated \<noteq> None
       then h_call (\<lambda>w. ((), cc_event K (oc_clientNamespace c) (oc_clientName c) reason message w))
       else h_return ())))"

definition reportFailure :: "operator_env \<Rightarrow> 'w client_calls \<Rightarrow> client_failure \<Rightarrow> (oidc_client, 'w, unit) handler" where
  "reportFailure E K e =
     h_then (markReady K False (failure_reason e) (oe_message E e)) (\<lambda>changed. h_then h_client (\<lambda>c.
     h_then (h_call (replaceClientStatus E K c)) (\<lambda>_.
       if changed
       then h_call (\<lambda>w. ((), cc_event K (oc_clientNamespace c) (oc_clientName c) (failure_reason e) (oe_message E e) w))
       else h_return ())))"

text \<open>\<open>try body catch report\<close>; the world after it.\<close>

definition attempt :: "('c, 'w, unit) handler \<Rightarrow> (client_failure \<Rightarrow> ('c, 'w, unit) handler) \<Rightarrow> 'c \<times> 'w \<Rightarrow> 'w" where
  "attempt body report s = (case body s of
     (Inr _, (_, w)) \<Rightarrow> w
   | (Inl e, s') \<Rightarrow> snd (snd (report e s')))"

subsection \<open>The three callbacks\<close>

text \<open>Whether the client is this instance's, after claiming it where it is nobody's.\<close>

definition claimClient :: "operator_env \<Rightarrow> 'w client_calls \<Rightarrow> (oidc_client, 'w, bool) handler" where
  "claimClient E K = h_then h_client (\<lambda>c.
     h_then (h_call (replaceClientStatus E K c)) (\<lambda>r.
       case r of
         None \<Rightarrow> h_return False
       | Some claimed \<Rightarrow>
           if getInstance claimed = Some (cc_instance K)
           then h_then (h_update (\<lambda>_. claimed)) (\<lambda>_. h_return True) else h_return False))"

definition finishCreate :: "operator_env \<Rightarrow> 'w client_calls \<Rightarrow> (oidc_client, 'w, unit) handler" where
  "finishCreate E K = h_then h_client (\<lambda>c.
     if oc_disabled c
     then h_then (h_redis (cc_destroy K (getClientId c)))
            (\<lambda>_. reportReady E K ''Disabled'' ''Client is disabled and absent from Redis'')
     else h_then (if hasSecret c then h_redis (cc_upsert K (getClientId c) (client_toRedis c)) else h_return ())
            (\<lambda>_. reportReady E K ''Reconciled'' ''Client reconciliation completed successfully''))"

definition createBody :: "operator_env \<Rightarrow> 'w client_calls \<Rightarrow> bool \<Rightarrow> (oidc_client, 'w, unit) handler" where
  "createBody E K replayed = h_then assertValidClaimMappings (\<lambda>_. h_then h_client (\<lambda>c.
     if getInstance c = Some (cc_instance K)
     then h_then (resolveClientIngress E K) (\<lambda>_.
          h_then (if \<not> replayed then h_return True
                  else h_then (h_redis (cc_find K (getClientId c))) (\<lambda>r. h_return (\<not> js_truthy r))) (\<lambda>needed.
          h_then (if needed then reconcileClientSecret E K True else h_return ()) (\<lambda>_. finishCreate E K)))
     else if \<not> truthy (getInstance c)
     then h_then (claimClient E K) (\<lambda>mine.
          if mine then h_then (resolveClientIngress E K) (\<lambda>_.
                       h_then (reconcileClientSecret E K False) (\<lambda>_. finishCreate E K))
          else h_return ())
     else h_return ()))"

definition client_fingerprint :: "oidc_client \<Rightarrow> fingerprint" where
  "client_fingerprint c = getReconcileFingerprint (oc_activityState c)"

definition createOIDCClient ::
  "operator_env \<Rightarrow> 'w client_calls \<Rightarrow> oidc_client \<Rightarrow> reconcile_state \<times> 'w \<Rightarrow> reconcile_state \<times> 'w" where
  "createOIDCClient E K c = (\<lambda>(rs, w).
     (reconcile_register (getClientId c) (client_fingerprint c) rs,
      attempt (createBody E K (reconcile_isCurrent (getClientId c) (client_fingerprint c) rs)) (reportFailure E K) (c, w)))"

definition updateBody :: "operator_env \<Rightarrow> 'w client_calls \<Rightarrow> (oidc_client, 'w, unit) handler" where
  "updateBody E K = h_then assertValidClaimMappings (\<lambda>_. h_then (resolveClientIngress E K) (\<lambda>_. h_then h_client (\<lambda>c.
     if oc_disabled c
     then h_then (h_redis (cc_destroy K (getClientId c)))
            (\<lambda>_. reportReady E K ''Disabled'' ''Client is disabled and absent from Redis'')
     else h_then (reconcileClientSecret E K False) (\<lambda>_. h_then h_client (\<lambda>c'.
          h_then (h_redis (cc_upsert K (getClientId c') (client_toRedis c')))
            (\<lambda>_. reportReady E K ''Reconciled'' ''Client reconciliation completed successfully''))))))"

definition updateOIDCClient ::
  "operator_env \<Rightarrow> 'w client_calls \<Rightarrow> bool \<Rightarrow> oidc_client \<Rightarrow> reconcile_state \<times> 'w \<Rightarrow> reconcile_state \<times> 'w" where
  "updateOIDCClient E K force c = (\<lambda>(rs, w).
     let (should, rs') = shouldReconcile (getClientId c) (client_fingerprint c) rs in
     (rs',
      if \<not> should \<and> \<not> force then w
      else if getInstance c = Some (cc_instance K) then attempt (updateBody E K) (reportFailure E K) (c, w)
      else if truthy (getInstance c) then w
      else (case claimClient E K (c, w) of
              (Inr True, s) \<Rightarrow> attempt (updateBody E K) (reportFailure E K) s
            | (_, (_, w')) \<Rightarrow> w')))"

definition deleteOIDCClient ::
  "'w client_calls \<Rightarrow> oidc_client \<Rightarrow> reconcile_state \<times> 'w \<Rightarrow> reconcile_state \<times> 'w" where
  "deleteOIDCClient K c = (\<lambda>(rs, w).
     (reconcile_unregister (getClientId c) rs,
      if getInstance c \<noteq> Some (cc_instance K) then w else snd (cc_destroy K (getClientId c) w)))"

definition reconcileClientByName ::
  "operator_env \<Rightarrow> 'w client_calls \<Rightarrow> string \<Rightarrow> string \<Rightarrow> reconcile_state \<times> 'w \<Rightarrow> bool \<times> (reconcile_state \<times> 'w)" where
  "reconcileClientByName E K namespace name = (\<lambda>(rs, w). case cc_getClient K namespace name w of
     (Found r, w1) \<Rightarrow> (True, updateOIDCClient E K True (fromIncomingClient (oe_deployment E) r) (rs, w1))
   | (_, w1) \<Rightarrow> (False, (rs, w1)))"

end
