(* ===== verification/ClientRegistration.thy ===== *)
theory ClientRegistration
  imports ClientOperator
begin

text \<open>
  What the client operator registers in Redis. A small logic of handlers, one rule per way of
  building one; the contract of the calls as the locale \<open>client_server\<close>, with the operator's
  handlers proved to keep to their own client inside it; and a server of the adapter's in-memory
  Redis and a list of resources that provides it.
\<close>

subsection \<open>Reasoning about handlers\<close>

text \<open>From states with \<open>P\<close>, a result ends in \<open>Q\<close> of it and an error in \<open>F\<close>.\<close>

definition triple ::
  "('c \<times> 'w \<Rightarrow> bool) \<Rightarrow> ('c, 'w, 'a) handler \<Rightarrow> ('a \<Rightarrow> 'c \<times> 'w \<Rightarrow> bool) \<Rightarrow> ('c \<times> 'w \<Rightarrow> bool) \<Rightarrow> bool" where
  "triple P h Q F = (\<forall>s. P s \<longrightarrow> (case h s of (Inr x, s') \<Rightarrow> Q x s' | (Inl e, s') \<Rightarrow> F s'))"

lemma h_then_result: "f s = (Inr x, s') \<Longrightarrow> h_then f g s = g x s'"
  by (simp add: h_then_def)

lemma h_then_error: "f s = (Inl e, s') \<Longrightarrow> h_then f g s = (Inl e, s')"
  by (simp add: h_then_def)

lemma h_then_client: "h_then h_client g (c, w) = g c (c, w)"
  by (simp add: h_then_def h_client_def)

lemma h_then_call: "k w = (x, w') \<Longrightarrow> h_then (h_call k) g (c, w) = g x (c, w')"
  by (simp add: h_then_def h_call_def)

lemma triple_vacuous: "(\<And>s. \<not> P s) \<Longrightarrow> triple P h Q F"
  by (simp only: triple_def) simp

named_theorems handler_rules "rules for handlers, one per way of building one"

lemma triple_return [handler_rules]: "(\<And>s. P s \<Longrightarrow> Q x s) \<Longrightarrow> triple P (h_return x) Q F"
  by (simp add: triple_def h_return_def)

lemma triple_throw [handler_rules]: "(\<And>s. P s \<Longrightarrow> F s) \<Longrightarrow> triple P (h_throw e) Q F"
  by (simp add: triple_def h_throw_def)

lemma triple_then: "triple P f R F \<Longrightarrow> (\<And>x. triple (R x) (g x) Q F) \<Longrightarrow> triple P (h_then f g) Q F"
  unfolding triple_def h_then_def by (fastforce split: prod.splits sum.splits)

lemma triple_client: "(\<And>c w. P (c, w) \<Longrightarrow> Q c (c, w)) \<Longrightarrow> triple P h_client Q F"
  by (simp add: triple_def h_client_def split: prod.split)

lemma triple_update [handler_rules]: "(\<And>c w. P (c, w) \<Longrightarrow> Q () (f c, w)) \<Longrightarrow> triple P (h_update f) Q F"
  by (simp add: triple_def h_update_def split: prod.split)

lemma triple_call [handler_rules]:
  "(\<And>c w x w'. P (c, w) \<Longrightarrow> k w = (x, w') \<Longrightarrow> Q x (c, w')) \<Longrightarrow> triple P (h_call k) Q F"
  by (simp add: triple_def h_call_def Let_def split: prod.split)

lemma triple_redis [handler_rules]:
  "(\<And>c w x w'. P (c, w) \<Longrightarrow> k w = (Inr x, w') \<Longrightarrow> Q x (c, w')) \<Longrightarrow>
   (\<And>c w e w'. P (c, w) \<Longrightarrow> k w = (Inl e, w') \<Longrightarrow> F (c, w')) \<Longrightarrow> triple P (h_redis k) Q F"
  by (simp add: triple_def h_redis_def split: prod.split sum.split)

lemma triple_conseq:
  "triple P h Q F \<Longrightarrow> (\<And>s. P' s \<Longrightarrow> P s) \<Longrightarrow> (\<And>x s. Q x s \<Longrightarrow> Q' x s) \<Longrightarrow> (\<And>s. F s \<Longrightarrow> F' s) \<Longrightarrow> triple P' h Q' F'"
  unfolding triple_def by (fastforce split: prod.splits sum.splits)

text \<open>Looking at the client first: its value is known from then on.\<close>

lemma triple_looking [handler_rules]:
  "(\<And>c. triple (\<lambda>s. P s \<and> fst s = c) (g c) Q F) \<Longrightarrow> triple P (h_then h_client g) Q F"
  by (rule triple_then [where R = "\<lambda>c s. P s \<and> fst s = c"]) (auto intro: triple_client)

text \<open>An invariant, kept whether the handler throws or not.\<close>

definition keeps :: "('c \<times> 'w \<Rightarrow> bool) \<Rightarrow> ('c, 'w, 'a) handler \<Rightarrow> bool" where
  "keeps P h = triple P h (\<lambda>_. P) P"

lemma keeps_return [handler_rules]: "keeps P (h_return x)"
  by (simp add: keeps_def triple_return)

lemma keeps_throw [handler_rules]: "keeps P (h_throw e)"
  by (simp add: keeps_def triple_throw)

lemma keeps_then: "keeps P f \<Longrightarrow> (\<And>x. keeps P (g x)) \<Longrightarrow> keeps P (h_then f g)"
  unfolding keeps_def by (rule triple_then)

lemma keeps_client [handler_rules]: "keeps P h_client"
  by (simp add: keeps_def triple_client)

lemma keeps_update: "(\<And>c w. P (c, w) \<Longrightarrow> P (f c, w)) \<Longrightarrow> keeps P (h_update f)"
  by (simp add: keeps_def triple_update)

lemma keeps_call: "(\<And>c w x w'. P (c, w) \<Longrightarrow> k w = (x, w') \<Longrightarrow> P (c, w')) \<Longrightarrow> keeps P (h_call k)"
  by (simp add: keeps_def triple_call)

lemma keeps_redis: "(\<And>c w x w'. P (c, w) \<Longrightarrow> k w = (x, w') \<Longrightarrow> P (c, w')) \<Longrightarrow> keeps P (h_redis k)"
  by (simp add: keeps_def triple_redis)

lemma triple_end:
  assumes "triple P h (\<lambda>_. Q) Q" "P s"
  shows "Q (snd (h s))"
proof -
  have "case h s of (Inr x, s') \<Rightarrow> Q s' | (Inl e, s') \<Rightarrow> Q s'"
    by (rule mp [OF spec [OF assms(1) [unfolded triple_def]] assms(2)])
  then show ?thesis by (cases "fst (h s)") (simp_all add: case_prod_beta)
qed

lemma attempt_keeps:
  assumes "triple P body (\<lambda>_. P') P'" "\<And>e. keeps P' (report e)" "P s"
  shows "\<exists>c. P' (c, attempt body report s)"
proof -
  obtain r s' where b: "body s = (r, s')" by (meson surj_pair)
  from triple_end [OF assms(1,3)] b have p: "P' s'" by simp
  show ?thesis
  proof (cases r)
    case (Inr x)
    with b p show ?thesis by (cases s') (auto simp: attempt_def)
  next
    case (Inl e)
    from triple_end [OF assms(2) [of e, unfolded keeps_def] p] have "P' (snd (report e s'))" .
    moreover have "attempt body report s = snd (snd (report e s'))" by (simp add: attempt_def b Inl)
    ultimately show ?thesis by (metis prod.collapse)
  qed
qed

subsection \<open>What reaches Redis\<close>

text \<open>The calls as the operator relies on them. \<open>clients_at\<close> is the clients' records in Redis,
  which only the two Redis writes change, the named record and no other, and a write that throws
  may or may not have happened; \<open>spec_of\<close> is the spec a version of a resource has, which a
  status write does not change and whose version its answer carries on.\<close>

locale client_server =
  fixes K :: "'w client_calls"
    and clients_at :: "'w \<Rightarrow> string \<Rightarrow> json option"
    and spec_of :: "string \<Rightarrow> string \<Rightarrow> nat \<Rightarrow> client_spec"
  assumes upsert_record: "cc_upsert K i v w = (r, w') \<Longrightarrow>
      clients_at w' = (clients_at w)(i \<mapsto> v) \<or> ((\<exists>e. r = Inl e) \<and> clients_at w' = clients_at w)"
    and destroy_record: "cc_destroy K i w = (r', w') \<Longrightarrow>
      clients_at w' = (clients_at w)(i := None) \<or> ((\<exists>e. r' = Inl e) \<and> clients_at w' = clients_at w)"
    and find_record: "cc_find K i w = (f, w') \<Longrightarrow> clients_at w' = clients_at w"
    and other_calls: "cc_getSecret K ns n w = (a1, w') \<Longrightarrow> clients_at w' = clients_at w"
      "cc_createSecret K ns n d m w = (a2, w') \<Longrightarrow> clients_at w' = clients_at w"
      "cc_patchSecret K ns n d m x w = (a3, w') \<Longrightarrow> clients_at w' = clients_at w"
      "cc_createJob K ns j w = (a4, w') \<Longrightarrow> clients_at w' = clients_at w"
      "cc_getIngress K ns n w = (a5, w') \<Longrightarrow> clients_at w' = clients_at w"
      "clients_at (cc_event K ns n rs msg w) = clients_at w"
      "cc_uuid K w = (a6, w') \<Longrightarrow> clients_at w' = clients_at w"
      "cc_stamp K w = (a7, w') \<Longrightarrow> clients_at w' = clients_at w"
    and status_record: "cc_replaceStatus K ns n rv st w = (a8, w') \<Longrightarrow> clients_at w' = clients_at w"
    and status_answer: "cc_replaceStatus K ns n rv st w = (Some r8, w') \<Longrightarrow>
      m_namespace (kr_metadata r8) = ns \<and> m_name (kr_metadata r8) = n
      \<and> kr_spec r8 = spec_of ns n rv \<and> spec_of ns n (m_resourceVersion (kr_metadata r8)) = kr_spec r8"
begin

text \<open>The client at hand is the named one, with the spec \<open>sp\<close>; the other records are those of \<open>w0\<close>,
  and its own is what it was, gone, or written from a client that may be registered.\<close>

definition about :: "string \<Rightarrow> string \<Rightarrow> client_spec \<Rightarrow> oidc_client \<Rightarrow> bool" where
  "about ns n sp c = (oc_clientNamespace c = ns \<and> oc_clientName c = n \<and> spec_of ns n (oc_resourceVersion c) = sp
     \<and> oc_claimMappings c = (if nullish (csp_claimMappings sp) then JObj [] else null_or (csp_claimMappings sp) JNull)
     \<and> oc_disabled c = (csp_disabled sp = Some True) \<and> oc_ingressRef c = csp_ingressRef sp)"

definition resolved :: "oidc_client \<Rightarrow> bool" where
  "resolved c = (truthy (oc_ingressRef c) \<longrightarrow> (\<exists>host. oc_uri c = Some (''https://'' @ host @ ''/'')))"

definition registrable :: "string \<Rightarrow> string \<Rightarrow> client_spec \<Rightarrow> oidc_client \<Rightarrow> bool" where
  "registrable ns n sp c = (about ns n sp c \<and> resolved c \<and> \<not> oc_disabled c
     \<and> validateClaimMappings (Some (oc_claimMappings c)) = [])"

definition records_ok :: "string \<Rightarrow> string \<Rightarrow> client_spec \<Rightarrow> 'w \<Rightarrow> 'w \<Rightarrow> bool" where
  "records_ok ns n sp w0 w = ((\<forall>i. i \<noteq> OIDCClientId ns n \<longrightarrow> clients_at w i = clients_at w0 i)
     \<and> (clients_at w (OIDCClientId ns n) \<in> {clients_at w0 (OIDCClientId ns n), None}
        \<or> (\<exists>c. clients_at w (OIDCClientId ns n) = Some (client_toRedis c) \<and> registrable ns n sp c)))"

definition inv :: "bool \<Rightarrow> string \<Rightarrow> string \<Rightarrow> client_spec \<Rightarrow> 'w \<Rightarrow> oidc_client \<times> 'w \<Rightarrow> bool" where
  "inv r ns n sp w0 s = (about ns n sp (fst s) \<and> (r \<longrightarrow> resolved (fst s)) \<and> records_ok ns n sp w0 (snd s))"

lemma inv_pair: "inv r ns n sp w0 (c, w) = (about ns n sp c \<and> (r \<longrightarrow> resolved c) \<and> records_ok ns n sp w0 w)"
  by (simp add: inv_def)

lemma records_same: "clients_at w' = clients_at w \<Longrightarrow> records_ok ns n sp w0 w' = records_ok ns n sp w0 w"
  by (simp add: records_ok_def)

lemma keeps_call_frame:
  assumes "\<And>w x w'. k w = (x, w') \<Longrightarrow> clients_at w' = clients_at w"
  shows "keeps (inv r ns n sp w0) (h_call k)"
proof (rule keeps_call)
  fix c w x w' assume "inv r ns n sp w0 (c, w)" "k w = (x, w')"
  with records_same [OF assms [OF this(2)]] show "inv r ns n sp w0 (c, w')" by (auto simp: inv_pair)
qed

lemma keeps_set_secret: "keeps (inv r ns n sp w0) (h_update (\<lambda>c. c\<lparr>oc_clientSecret := v\<rparr>))"
  by (rule keeps_update) (simp add: inv_pair about_def resolved_def)

lemma keeps_set_activity: "keeps (inv r ns n sp w0) (h_update (\<lambda>c. c\<lparr>oc_activityState := v\<rparr>))"
  by (rule keeps_update) (simp add: inv_pair about_def resolved_def)

lemmas keeps_basic = keeps_then keeps_client keeps_return keeps_throw keeps_set_secret keeps_set_activity

lemma keeps_generateSecret: "keeps (inv r ns n sp w0) (generateSecret K)"
  unfolding generateSecret_def
  by (intro keeps_then keeps_set_secret keeps_call_frame other_calls(7))

lemma keeps_reconcileRefreshJob: "keeps (inv r ns n sp w0) (reconcileRefreshJob E K)"
  unfolding reconcileRefreshJob_def
  by (rule keeps_basic keeps_call_frame | (split option.split if_split, intro conjI allI impI) | erule other_calls)+

lemma keeps_adopt: "keeps (inv r ns n sp w0) (adoptKubeSecret E K b existing)"
  unfolding adoptKubeSecret_def Let_def
  by (rule keeps_basic keeps_generateSecret keeps_reconcileRefreshJob keeps_call_frame
    | (split if_split, intro conjI impI) | erule other_calls)+

lemma keeps_reconcileClientSecret: "keeps (inv r ns n sp w0) (reconcileClientSecret E K b)"
  unfolding reconcileClientSecret_def
  by (rule keeps_basic keeps_generateSecret keeps_reconcileRefreshJob keeps_adopt keeps_call_frame
    | (split outcome.split create_secret_result.split, intro conjI allI impI) | erule other_calls)+

lemma keeps_markReady: "keeps (inv r ns n sp w0) (markReady K b rs msg)"
  unfolding markReady_def
  by (auto split: prod.split intro!: keeps_basic keeps_call_frame simp: other_calls(8))

lemma replaceClientStatus_frame: "replaceClientStatus E K c w = (x, w') \<Longrightarrow> clients_at w' = clients_at w"
  by (auto simp: replaceClientStatus_def Let_def split: prod.splits dest: status_record)

lemma keeps_reportReady: "keeps (inv r ns n sp w0) (reportReady E K rs msg)"
  unfolding reportReady_def
  by (auto intro!: keeps_basic keeps_markReady keeps_call_frame simp: other_calls(6) replaceClientStatus_frame)

lemma keeps_reportFailure: "keeps (inv r ns n sp w0) (reportFailure E K e)"
  unfolding reportFailure_def
  by (auto intro!: keeps_basic keeps_markReady keeps_call_frame simp: other_calls(6) replaceClientStatus_frame)

lemma clientId_about: "about ns n sp c \<Longrightarrow> getClientId c = OIDCClientId ns n"
  by (simp add: about_def getClientId_def)

lemma keeps_destroy_own:
  "keeps (\<lambda>s. inv r ns n sp w0 s \<and> fst s = c) (h_redis (cc_destroy K (getClientId c)))"
proof (rule keeps_redis)
  fix c' w x w' assume h: "inv r ns n sp w0 (c', w) \<and> fst (c', w) = c" "cc_destroy K (getClientId c) w = (x, w')"
  with clientId_about have "clients_at w' = clients_at w \<or> clients_at w' = (clients_at w)(OIDCClientId ns n := None)"
    using destroy_record [OF h(2)] by (auto simp: inv_pair)
  with h(1) show "inv r ns n sp w0 (c', w') \<and> fst (c', w') = c"
    by (auto simp: inv_pair records_ok_def)
qed

lemma keeps_upsert_own:
  assumes "csp_disabled sp \<noteq> Some True"
    and "validateClaimMappings (Some (if nullish (csp_claimMappings sp) then JObj [] else null_or (csp_claimMappings sp) JNull)) = []"
  shows "keeps (\<lambda>s. inv True ns n sp w0 s \<and> fst s = c) (h_redis (cc_upsert K (getClientId c) (client_toRedis c)))"
proof (rule keeps_redis)
  fix c' w x w' assume h: "inv True ns n sp w0 (c', w) \<and> fst (c', w) = c"
    "cc_upsert K (getClientId c) (client_toRedis c) w = (x, w')"
  with assms have r: "registrable ns n sp c" by (auto simp: inv_pair registrable_def about_def)
  from h clientId_about have "clients_at w' = clients_at w
      \<or> clients_at w' = (clients_at w)(OIDCClientId ns n \<mapsto> client_toRedis c)"
    using upsert_record [OF h(2)] by (auto simp: inv_pair)
  with h(1) r show "inv True ns n sp w0 (c', w') \<and> fst (c', w') = c"
    by (auto simp: inv_pair records_ok_def)
qed

lemma keeps_known: "keeps (\<lambda>s. P s \<and> fst s = c) h \<Longrightarrow> triple (\<lambda>s. P s \<and> fst s = c) h (\<lambda>_. P) P"
  unfolding keeps_def by (erule triple_conseq) simp_all

lemma keeps_weaken: "keeps P h \<Longrightarrow> triple (\<lambda>s. P s \<and> fst s = c) h (\<lambda>_. P) P"
  unfolding keeps_def by (erule triple_conseq) simp_all

lemma inv_unresolved: "inv r ns n sp w0 s \<Longrightarrow> inv False ns n sp w0 s"
  by (simp add: inv_def)

lemma resolve_triple: "triple (inv False ns n sp w0) (resolveClientIngress E K) (\<lambda>_. inv True ns n sp w0) (inv False ns n sp w0)"
  unfolding resolveClientIngress_def
proof (rule triple_looking)
  fix c
  let ?P = "\<lambda>s. inv False ns n sp w0 s \<and> fst s = c"
  show "triple ?P
     (if \<not> truthy (oc_ingressRef c) then h_return ()
      else if \<not> env_is (oe_deployment E) ''INGRESS_DISCOVERY_ENABLED'' ''true'' then h_throw IngressDiscoveryOff
      else h_then (h_call (cc_getIngress K (oc_clientNamespace c) (tmpl (oc_ingressRef c)))) (\<lambda>found.
       case resolveIngressRef (oe_resolve_url E) (case found of Found g \<Rightarrow> Some g | _ \<Rightarrow> None) (oc_redirectPaths c) of
         IngressProblems ps \<Rightarrow> h_throw (IngressRefUnresolved (tmpl (oc_ingressRef c)) ps)
       | IngressThrew \<Rightarrow> h_throw CallThrew
       | IngressResolved uri uris \<Rightarrow> h_update (setResolvedIngress uri uris)))
     (\<lambda>_. inv True ns n sp w0) (inv False ns n sp w0)"
  proof (cases "truthy (oc_ingressRef c)")
    case False
    then show ?thesis by (auto intro!: triple_return simp: inv_def resolved_def)
  next
    case True
    have set: "\<exists>host. uri = ''https://'' @ host @ ''/''"
      if "resolveIngressRef res g ps = IngressResolved uri uris" for res g ps uri uris
      using that by (auto simp: resolveIngressRef_def Let_def split: option.splits if_splits)
    have "triple (inv False ns n sp w0)
       (case resolveIngressRef (oe_resolve_url E) (case found of Found g \<Rightarrow> Some g | _ \<Rightarrow> None) (oc_redirectPaths c) of
         IngressProblems ps \<Rightarrow> h_throw (IngressRefUnresolved (tmpl (oc_ingressRef c)) ps)
       | IngressThrew \<Rightarrow> h_throw CallThrew
       | IngressResolved uri uris \<Rightarrow> h_update (setResolvedIngress uri uris))
       (\<lambda>_. inv True ns n sp w0) (inv False ns n sp w0)" for found
      by (cases "resolveIngressRef (oe_resolve_url E) (case found of Found g \<Rightarrow> Some g | _ \<Rightarrow> None) (oc_redirectPaths c)")
        (auto intro!: triple_throw triple_update dest!: set simp: inv_pair about_def resolved_def setResolvedIngress_def)
    moreover have "triple ?P (h_call (cc_getIngress K (oc_clientNamespace c) (tmpl (oc_ingressRef c))))
       (\<lambda>_. inv False ns n sp w0) (inv False ns n sp w0)"
      by (rule keeps_weaken) (rule keeps_call_frame, erule other_calls)
    ultimately show ?thesis using True by (auto intro!: triple_throw intro: triple_then)
  qed
qed

text \<open>Claiming puts the answer in the client's place.\<close>

lemma claim_triple: "triple (inv False ns n sp w0) (claimClient E K) (\<lambda>_. inv False ns n sp w0) (inv False ns n sp w0)"
  unfolding claimClient_def
proof (rule triple_looking)
  fix c
  let ?P = "\<lambda>s. inv False ns n sp w0 s \<and> fst s = c"
  let ?R = "\<lambda>x s. inv False ns n sp w0 s \<and> (\<forall>c'. x = Some c' \<longrightarrow> about ns n sp c')"
  have "triple ?P (h_call (replaceClientStatus E K c)) ?R (inv False ns n sp w0)"
  proof (rule triple_call)
    fix c1 w x w' assume h: "inv False ns n sp w0 (c1, w) \<and> fst (c1, w) = c" "replaceClientStatus E K c w = (x, w')"
    from h(1) have a: "about ns n sp c" by (auto simp: inv_pair)
    obtain q where q: "cc_replaceStatus K (oc_clientNamespace c) (oc_clientName c) (oc_resourceVersion c)
          ((client_intended_status c)\<lparr>cs_instance := Some (cc_instance K)\<rparr>) w = (q, w')"
      "x = map_option (fromIncomingClient (oe_deployment E)) q"
      using h(2) by (auto simp: replaceClientStatus_def Let_def split: prod.splits)
    have "about ns n sp c'" if "x = Some c'" for c'
    proof -
      from that q obtain r where r: "q = Some r" "c' = fromIncomingClient (oe_deployment E) r" by auto
      from status_answer [OF q(1) [unfolded r(1)]] a r(2) show ?thesis
        by (auto simp: about_def fromIncomingClient_def Let_def)
    qed
    moreover have "records_ok ns n sp w0 w' = records_ok ns n sp w0 w"
      by (rule records_same) (rule status_record [OF q(1)])
    ultimately show "inv False ns n sp w0 (c1, w') \<and> (\<forall>c'. x = Some c' \<longrightarrow> about ns n sp c')"
      using h(1) by (auto simp: inv_pair)
  qed
  then show "triple ?P (h_then (h_call (replaceClientStatus E K c)) (\<lambda>r. case r of
       None \<Rightarrow> h_return False
     | Some claimed \<Rightarrow>
         if getInstance claimed = Some (cc_instance K)
         then h_then (h_update (\<lambda>_. claimed)) (\<lambda>_. h_return True) else h_return False))
     (\<lambda>_. inv False ns n sp w0) (inv False ns n sp w0)"
  proof (rule triple_then)
    fix x
    show "triple (?R x) (case x of
         None \<Rightarrow> h_return False
       | Some claimed \<Rightarrow>
           if getInstance claimed = Some (cc_instance K)
           then h_then (h_update (\<lambda>_. claimed)) (\<lambda>_. h_return True) else h_return False)
       (\<lambda>_. inv False ns n sp w0) (inv False ns n sp w0)"
    proof (cases x)
      case None
      then show ?thesis by (auto intro: triple_return)
    next
      case (Some claimed)
      have "triple (?R x) (h_then (h_update (\<lambda>_. claimed)) (\<lambda>_. h_return True))
          (\<lambda>_. inv False ns n sp w0) (inv False ns n sp w0)"
        by (rule triple_then [where R = "\<lambda>_. inv False ns n sp w0"])
          (auto intro!: triple_update triple_return simp: Some inv_pair)
      with Some show ?thesis by (auto intro: triple_return)
    qed
  qed
qed

definition valid_spec :: "client_spec \<Rightarrow> bool" where
  "valid_spec sp = (validateClaimMappings (Some (if nullish (csp_claimMappings sp) then JObj []
     else null_or (csp_claimMappings sp) JNull)) = [])"

lemma assert_triple:
  "triple (inv False ns n sp w0) assertValidClaimMappings (\<lambda>_ s. inv False ns n sp w0 s \<and> valid_spec sp) (inv False ns n sp w0)"
  unfolding assertValidClaimMappings_def
  by (rule triple_looking) (auto simp: Let_def valid_spec_def inv_def about_def intro!: triple_return triple_throw)

lemma report_triple: "triple (inv True ns n sp w0) (reportReady E K rs msg) (\<lambda>_. inv False ns n sp w0) (inv False ns n sp w0)"
  by (rule triple_conseq [OF keeps_reportReady [where r = True, unfolded keeps_def]]) (auto intro: inv_unresolved)

lemma secret_triple: "triple (inv True ns n sp w0) (reconcileClientSecret E K b) (\<lambda>_. inv True ns n sp w0) (inv False ns n sp w0)"
  by (rule triple_conseq [OF keeps_reconcileClientSecret [where r = True, unfolded keeps_def]]) (auto intro: inv_unresolved)

lemma own_write_triple:
  assumes "keeps (\<lambda>s. inv True ns n sp w0 s \<and> fst s = c) h"
  shows "triple (\<lambda>s. inv True ns n sp w0 s \<and> fst s = c) h (\<lambda>_. inv True ns n sp w0) (inv False ns n sp w0)"
  by (rule triple_conseq [OF assms [unfolded keeps_def]]) (auto intro: inv_unresolved)

lemma finish_triple:
  assumes "valid_spec sp"
  shows "triple (inv True ns n sp w0) (finishCreate E K) (\<lambda>_. inv False ns n sp w0) (inv False ns n sp w0)"
  unfolding finishCreate_def
proof (rule triple_looking)
  fix c
  let ?P = "\<lambda>s. inv True ns n sp w0 s \<and> fst s = c"
  let ?h = "if oc_disabled c
     then h_then (h_redis (cc_destroy K (getClientId c)))
            (\<lambda>_. reportReady E K ''Disabled'' ''Client is disabled and absent from Redis'')
     else h_then (if hasSecret c then h_redis (cc_upsert K (getClientId c) (client_toRedis c)) else h_return ())
            (\<lambda>_. reportReady E K ''Reconciled'' ''Client reconciliation completed successfully'')"
  show "triple ?P ?h (\<lambda>_. inv False ns n sp w0) (inv False ns n sp w0)"
  proof (cases "oc_disabled c \<or> (\<forall>s. \<not> ?P s)")
    case True
    then show ?thesis
    proof
      assume "oc_disabled c"
      then show ?thesis by (simp add: triple_then [OF own_write_triple [OF keeps_destroy_own] report_triple])
    next
      assume "\<forall>s. \<not> ?P s"
      then show ?thesis by (blast intro: triple_vacuous)
    qed
  next
    case False
    then have "csp_disabled sp \<noteq> Some True" by (auto simp: inv_def about_def)
    with assms keeps_upsert_own [of sp ns n w0 c]
    have "keeps ?P (if hasSecret c then h_redis (cc_upsert K (getClientId c) (client_toRedis c)) else h_return ())"
      by (simp add: valid_spec_def keeps_return)
    moreover from False have "\<not> oc_disabled c" by blast
    ultimately show ?thesis by (simp only: if_False) (rule triple_then [OF own_write_triple report_triple])
  qed
qed

lemma update_triple: "triple (inv False ns n sp w0) (updateBody E K) (\<lambda>_. inv False ns n sp w0) (inv False ns n sp w0)"
  unfolding updateBody_def
proof (rule triple_then [OF assert_triple])
  fix x :: unit
  let ?k = "\<lambda>c. if oc_disabled c
     then h_then (h_redis (cc_destroy K (getClientId c)))
            (\<lambda>_. reportReady E K ''Disabled'' ''Client is disabled and absent from Redis'')
     else h_then (reconcileClientSecret E K False) (\<lambda>_. h_then h_client (\<lambda>c'.
          h_then (h_redis (cc_upsert K (getClientId c') (client_toRedis c')))
            (\<lambda>_. reportReady E K ''Reconciled'' ''Client reconciliation completed successfully'')))"
  show "triple (\<lambda>s. inv False ns n sp w0 s \<and> valid_spec sp) (h_then (resolveClientIngress E K) (\<lambda>_. h_then h_client ?k))
     (\<lambda>_. inv False ns n sp w0) (inv False ns n sp w0)"
  proof (cases "valid_spec sp")
    case False
    then show ?thesis by (simp add: triple_def)
  next
    case True
    have "triple (\<lambda>s. inv True ns n sp w0 s \<and> fst s = c) (?k c) (\<lambda>_. inv False ns n sp w0) (inv False ns n sp w0)" for c
    proof (cases "oc_disabled c \<or> (\<forall>s. \<not> (inv True ns n sp w0 s \<and> fst s = c))")
      case True
      then show ?thesis
      proof
        assume "oc_disabled c"
        then show ?thesis by (simp add: triple_then [OF own_write_triple [OF keeps_destroy_own] report_triple])
      next
        assume "\<forall>s. \<not> (inv True ns n sp w0 s \<and> fst s = c)"
        then show ?thesis by (blast intro: triple_vacuous)
      qed
    next
      case False
      then have d: "csp_disabled sp \<noteq> Some True" by (auto simp: inv_def about_def)
      have "triple (inv True ns n sp w0) (h_then h_client (\<lambda>c'.
          h_then (h_redis (cc_upsert K (getClientId c') (client_toRedis c')))
            (\<lambda>_. reportReady E K ''Reconciled'' ''Client reconciliation completed successfully'')))
          (\<lambda>_. inv False ns n sp w0) (inv False ns n sp w0)"
        using True
        by (intro triple_looking triple_then [OF own_write_triple [OF keeps_upsert_own [OF d]] report_triple])
          (simp add: valid_spec_def)
      from triple_then [OF secret_triple this]
      have "triple (inv True ns n sp w0) (h_then (reconcileClientSecret E K False) (\<lambda>_. h_then h_client (\<lambda>c'.
          h_then (h_redis (cc_upsert K (getClientId c') (client_toRedis c')))
            (\<lambda>_. reportReady E K ''Reconciled'' ''Client reconciliation completed successfully''))))
          (\<lambda>_. inv False ns n sp w0) (inv False ns n sp w0)" .
      from triple_conseq [OF this, of "\<lambda>s. inv True ns n sp w0 s \<and> fst s = c"] False show ?thesis by simp
    qed
    from triple_then [OF resolve_triple triple_looking [OF this]] True show ?thesis by simp
  qed
qed

lemma reconcile_then_finish:
  assumes "valid_spec sp"
  shows "triple (inv True ns n sp w0) (h_then (reconcileClientSecret E K b) (\<lambda>_. finishCreate E K))
     (\<lambda>_. inv False ns n sp w0) (inv False ns n sp w0)"
  by (rule triple_then [OF secret_triple finish_triple [OF assms]])

lemma needed_triple:
  "triple (\<lambda>s. inv True ns n sp w0 s) (if \<not> replayed then h_return True
      else h_then (h_redis (cc_find K i)) (\<lambda>r. h_return (\<not> js_truthy r)))
     (\<lambda>_. inv True ns n sp w0) (inv False ns n sp w0)"
proof (cases replayed)
  case False
  then show ?thesis by (simp add: triple_return)
next
  case True
  have "keeps (inv True ns n sp w0) (h_redis (cc_find K i))"
  proof (rule keeps_redis)
    fix c w x w' assume h: "inv True ns n sp w0 (c, w)" "cc_find K i w = (x, w')"
    with records_same [OF find_record [OF h(2)]] show "inv True ns n sp w0 (c, w')" by (auto simp: inv_pair)
  qed
  then have "triple (inv True ns n sp w0) (h_redis (cc_find K i)) (\<lambda>_. inv True ns n sp w0) (inv False ns n sp w0)"
    unfolding keeps_def by (rule triple_conseq) (auto intro: inv_unresolved)
  then have "triple (inv True ns n sp w0) (h_then (h_redis (cc_find K i)) (\<lambda>r. h_return (\<not> js_truthy r)))
     (\<lambda>_. inv True ns n sp w0) (inv False ns n sp w0)"
    by (rule triple_then) (rule triple_return)
  with True show ?thesis by simp
qed

lemma create_triple: "triple (inv False ns n sp w0) (createBody E K replayed) (\<lambda>_. inv False ns n sp w0) (inv False ns n sp w0)"
  unfolding createBody_def
proof (rule triple_then [OF assert_triple], rule triple_looking)
  fix x :: unit and c
  let ?P = "\<lambda>s. (inv False ns n sp w0 s \<and> valid_spec sp) \<and> fst s = c"
  let ?own = "h_then (resolveClientIngress E K) (\<lambda>_.
          h_then (if \<not> replayed then h_return True
                  else h_then (h_redis (cc_find K (getClientId c))) (\<lambda>r. h_return (\<not> js_truthy r))) (\<lambda>needed.
          h_then (if needed then reconcileClientSecret E K True else h_return ()) (\<lambda>_. finishCreate E K)))"
  let ?new = "h_then (resolveClientIngress E K) (\<lambda>_.
                       h_then (reconcileClientSecret E K False) (\<lambda>_. finishCreate E K))"
  show "triple ?P (if getInstance c = Some (cc_instance K) then ?own
     else if \<not> truthy (getInstance c)
     then h_then (claimClient E K) (\<lambda>mine. if mine then ?new else h_return ())
     else h_return ()) (\<lambda>_. inv False ns n sp w0) (inv False ns n sp w0)"
  proof (cases "valid_spec sp")
    case False
    then show ?thesis by (auto intro: triple_vacuous)
  next
    case True
    have e: "(if needed then reconcileClientSecret E K True else h_return ())
        = (if needed then reconcileClientSecret E K True else h_return ())" for needed ..
    have cont: "triple (inv True ns n sp w0) (h_then (if needed then reconcileClientSecret E K True else h_return ()) (\<lambda>_. finishCreate E K))
        (\<lambda>_. inv False ns n sp w0) (inv False ns n sp w0)" for needed
      using reconcile_then_finish [OF True]
      by (cases needed) (auto intro: triple_then [OF triple_return finish_triple [OF True]])
    have own: "triple (inv False ns n sp w0) ?own (\<lambda>_. inv False ns n sp w0) (inv False ns n sp w0)"
      by (rule triple_then [OF resolve_triple triple_then [OF needed_triple cont]])
    have new: "triple (inv False ns n sp w0) ?new (\<lambda>_. inv False ns n sp w0) (inv False ns n sp w0)"
      by (rule triple_then [OF resolve_triple reconcile_then_finish [OF True]])
    have "triple (inv False ns n sp w0) (if mine then ?new else h_return ()) (\<lambda>_. inv False ns n sp w0) (inv False ns n sp w0)" for mine
      using new by (cases mine) (auto intro: triple_return)
    from triple_then [OF claim_triple this] own
    have "triple (inv False ns n sp w0) (if getInstance c = Some (cc_instance K) then ?own
     else if \<not> truthy (getInstance c)
     then h_then (claimClient E K) (\<lambda>mine. if mine then ?new else h_return ())
     else h_return ()) (\<lambda>_. inv False ns n sp w0) (inv False ns n sp w0)"
      by (simp add: triple_return)
    then show ?thesis by (rule triple_conseq) auto
  qed
qed

lemma inv_start:
  "spec_of (m_namespace (kr_metadata r)) (m_name (kr_metadata r)) (m_resourceVersion (kr_metadata r)) = kr_spec r \<Longrightarrow>
     inv False (m_namespace (kr_metadata r)) (m_name (kr_metadata r)) (kr_spec r) w (fromIncomingClient D r, w)"
  by (auto simp: inv_pair about_def fromIncomingClient_def Let_def records_ok_def)

lemma create_records:
  assumes "inv False ns n sp w (c, w)"
  shows "records_ok ns n sp w (snd (createOIDCClient E K c (rs, w)))"
proof -
  from attempt_keeps [OF create_triple keeps_reportFailure assms] show ?thesis
    by (auto simp: createOIDCClient_def inv_pair)
qed

lemma update_records:
  assumes "inv False ns n sp w (c, w)"
  shows "records_ok ns n sp w (snd (updateOIDCClient E K force c (rs, w)))"
proof -
  have same: "records_ok ns n sp w w" using assms by (simp add: inv_pair)
  have up: "records_ok ns n sp w (attempt (updateBody E K) (reportFailure E K) s)" if "inv False ns n sp w s" for s
    using attempt_keeps [OF update_triple keeps_reportFailure that] by (auto simp: inv_pair)
  from triple_end [OF claim_triple [of ns n sp w E] assms]
  have cl: "inv False ns n sp w (snd (claimClient E K (c, w)))" .
  obtain r c' w' where r: "claimClient E K (c, w) = (r, (c', w'))" by (metis prod.collapse)
  from cl r have cl': "inv False ns n sp w (c', w')" by simp
  then have w': "records_ok ns n sp w w'" by (simp add: inv_pair)
  show ?thesis
    using same up [OF assms] up [OF cl'] w'
    by (auto simp: updateOIDCClient_def shouldReconcile_def r split: sum.split bool.split)
qed

lemma reportReady_frame: "clients_at (snd (snd (reportReady E K rs msg (c, w)))) = clients_at w"
proof -
  obtain stamp w1 where s: "cc_stamp K w = (stamp, w1)" by force
  obtain changed a where a: "updateReadyCondition True rs msg stamp (oc_activityState c) = (changed, a)" by force
  obtain r w2 where r: "replaceClientStatus E K (c\<lparr>oc_activityState := a\<rparr>) w1 = (r, w2)" by force
  have "clients_at w2 = clients_at w"
    using other_calls(8) [OF s] replaceClientStatus_frame [OF r] by simp
  then show ?thesis
    by (simp add: reportReady_def markReady_def h_then_def h_call_def h_client_def h_update_def h_return_def
        s a r other_calls(6))
qed

lemma reportFailure_frame: "clients_at (snd (snd (reportFailure E K e (c, w)))) = clients_at w"
proof -
  obtain stamp w1 where s: "cc_stamp K w = (stamp, w1)" by force
  obtain changed a where a: "updateReadyCondition False (failure_reason e) (oe_message E e) stamp (oc_activityState c) = (changed, a)"
    by force
  obtain r w2 where r: "replaceClientStatus E K (c\<lparr>oc_activityState := a\<rparr>) w1 = (r, w2)" by force
  have "clients_at w2 = clients_at w"
    using other_calls(8) [OF s] replaceClientStatus_frame [OF r] by simp
  then show ?thesis
    by (simp add: reportFailure_def markReady_def h_then_def h_call_def h_client_def h_update_def h_return_def
        s a r other_calls(6))
qed

lemma foreign_records:
  assumes "truthy (getInstance c)" "getInstance c \<noteq> Some (cc_instance K)"
  shows "clients_at (snd (createOIDCClient E K c (rs, w))) = clients_at w"
    and "snd (updateOIDCClient E K force c (rs, w)) = w"
    and "snd (deleteOIDCClient K c (rs, w)) = w"
proof -
  show "snd (updateOIDCClient E K force c (rs, w)) = w" "snd (deleteOIDCClient K c (rs, w)) = w"
    using assms by (simp_all add: updateOIDCClient_def deleteOIDCClient_def shouldReconcile_def)
  show "clients_at (snd (createOIDCClient E K c (rs, w))) = clients_at w"
    using assms reportFailure_frame by (simp add: createOIDCClient_def attempt_def createBody_def assertValidClaimMappings_def
      h_then_def h_client_def h_return_def h_throw_def Let_def)
qed

end

subsection \<open>A server that provides it\<close>

text \<open>The in-memory Redis behind the adapter, resources whose specs stay as they are, Secrets, and
  a counter that names the fresh values.\<close>

record client_world =
  dw_redis :: mem
  dw_resources :: "((string \<times> string) \<times> (metadata \<times> client_status option)) list"
  dw_secrets :: "((string \<times> string) \<times> (string \<times> json) list) list"
  dw_ingresses :: "((string \<times> string) \<times> ingress) list"
  dw_seq :: nat

definition mem_replaceStatus ::
  "(string \<Rightarrow> string \<Rightarrow> client_spec) \<Rightarrow> string \<Rightarrow> string \<Rightarrow> nat \<Rightarrow> client_status \<Rightarrow> client_world
     \<Rightarrow> client_resource option \<times> client_world" where
  "mem_replaceStatus S ns n rv st w = (case map_of (dw_resources w) (ns, n) of
     Some (m, _) \<Rightarrow>
       if m_resourceVersion m = rv
       then (let m' = m\<lparr>m_name := n, m_namespace := ns, m_resourceVersion := Suc rv\<rparr> in
             (Some \<lparr>kr_metadata = m', kr_description = None, kr_spec = S ns n, kr_status = Some st\<rparr>,
              w\<lparr>dw_resources := AList.update (ns, n) (m', Some st) (dw_resources w)\<rparr>))
       else (None, w)
   | None \<Rightarrow> (None, w))"

definition mem_clients :: "(string \<Rightarrow> string \<Rightarrow> client_spec) \<Rightarrow> string \<Rightarrow> client_world client_calls" where
  "mem_clients S inst = \<lparr>cc_instance = inst,
     cc_find = (\<lambda>i w. (Inr (record_of mem_redis ''Client'' i (dw_redis w)), w)),
     cc_upsert = (\<lambda>i v w. (Inr (), w\<lparr>dw_redis := adapter_upsert mem_redis 0 ''Client'' i v None (dw_redis w)\<rparr>)),
     cc_destroy = (\<lambda>i w. (Inr (), w\<lparr>dw_redis := record_destroy mem_redis ''Client'' i (dw_redis w)\<rparr>)),
     cc_getSecret = (\<lambda>ns n w. (case map_of (dw_secrets w) (ns, n) of Some d \<Rightarrow> Found d | None \<Rightarrow> Absent, w)),
     cc_createSecret = (\<lambda>ns n d m w. case map_of (dw_secrets w) (ns, n) of
        Some _ \<Rightarrow> (SecretExists, w)
      | None \<Rightarrow> (SecretCreated d, w\<lparr>dw_secrets := AList.update (ns, n) d (dw_secrets w)\<rparr>)),
     cc_patchSecret = (\<lambda>ns n d m x w. case map_of (dw_secrets w) (ns, n) of
        Some _ \<Rightarrow> (True, w\<lparr>dw_secrets := AList.update (ns, n) d (dw_secrets w)\<rparr>)
      | None \<Rightarrow> (False, w)),
     cc_createJob = (\<lambda>ns j w. (JobCreated, w)),
     cc_replaceStatus = mem_replaceStatus S,
     cc_getIngress = (\<lambda>ns n w. (case map_of (dw_ingresses w) (ns, n) of Some g \<Rightarrow> Found g | None \<Rightarrow> Absent, w)),
     cc_getClient = (\<lambda>ns n w. (case map_of (dw_resources w) (ns, n) of
        Some (m, st) \<Rightarrow> Found \<lparr>kr_metadata = m, kr_description = None, kr_spec = S ns n, kr_status = st\<rparr>
      | None \<Rightarrow> Absent, w)),
     cc_event = (\<lambda>ns n r msg w. w),
     cc_uuid = (\<lambda>w. (replicate (Suc (dw_seq w)) CHR ''x'', w\<lparr>dw_seq := Suc (dw_seq w)\<rparr>)),
     cc_stamp = (\<lambda>w. (''now'', w))\<rparr>"

definition mem_clients_at :: "client_world \<Rightarrow> string \<Rightarrow> json option" where
  "mem_clients_at w i = record_of mem_redis ''Client'' i (dw_redis w)"

lemma plain_Client: "plain_name ''Client''"
  by (simp add: plain_name_def colon_free_def consumable_def set_names_def)

lemma mem_replaceStatus_redis: "mem_replaceStatus S ns n rv st w = (r, w') \<Longrightarrow> dw_redis w' = dw_redis w"
  by (auto simp: mem_replaceStatus_def Let_def split: option.splits if_splits)

interpretation mem_client_server:
  client_server "mem_clients S inst" mem_clients_at "\<lambda>ns n _. S ns n" for S :: "string \<Rightarrow> string \<Rightarrow> client_spec" and inst
proof (unfold_locales, goal_cases)
  case (1 i v w r w')
  then show ?case
    by (auto simp: mem_clients_def mem_clients_at_def fun_eq_iff mem_server.records.look_put plain_Client ok_ttl_def)
next
  case (2 i w r w')
  then show ?case
    by (auto simp: mem_clients_def mem_clients_at_def fun_eq_iff mem_server.records.look_drop plain_Client)
next
  case (13 ns n rv st w r w')
  then show ?case
    by (auto simp: mem_clients_def mem_replaceStatus_def Let_def split: option.splits if_splits)
qed (auto simp: mem_clients_def mem_clients_at_def fun_eq_iff split: option.splits dest: mem_replaceStatus_redis)

subsection \<open>Properties\<close>

lemma client_server_records:
  assumes "client_server K clients_at spec_of"
    and "spec_of (m_namespace (kr_metadata r)) (m_name (kr_metadata r)) (m_resourceVersion (kr_metadata r)) = kr_spec r"
    and "c = fromIncomingClient D r"
    and "w' = snd (createOIDCClient E K c (rs, w)) \<or> w' = snd (updateOIDCClient E K force c (rs, w))"
  shows "client_server.records_ok clients_at spec_of (m_namespace (kr_metadata r)) (m_name (kr_metadata r)) (kr_spec r) w w'"
  using assms(4) client_server.create_records [OF assms(1) client_server.inv_start [OF assms(1,2)]]
    client_server.update_records [OF assms(1) client_server.inv_start [OF assms(1,2)]]
  unfolding assms(3) by blast

text \<open>
  C27: The operator writes no Redis record but its client's own, and only valid ones. Whatever the
  calls answer, and wherever a reconcile throws, the ADDED and MODIFIED callbacks leave every
  other client's record alone; the client's own record is as before, gone, or built from the
  resource's own spec: not disabled, with claim mappings that the validation accepts, and with an
  address taken from the Ingress when it names one. A client that another instance owns has its
  record left alone, by the DELETED callback too.
\<close>

theorem operator_registers_only_valid:
  assumes "client_server K clients_at spec_of"
    and "spec_of (m_namespace (kr_metadata r)) (m_name (kr_metadata r)) (m_resourceVersion (kr_metadata r)) = kr_spec r"
    and "c = fromIncomingClient D r"
    and "w' = snd (createOIDCClient E K c (rs, w)) \<or> w' = snd (updateOIDCClient E K force c (rs, w))"
  shows "(\<forall>i. i \<noteq> getClientId c \<longrightarrow> clients_at w' i = clients_at w i)
    \<and> (clients_at w' (getClientId c) \<in> {clients_at w (getClientId c), None}
       \<or> (\<exists>c'. clients_at w' (getClientId c) = Some (client_toRedis c') \<and> getClientId c' = getClientId c
            \<and> csp_disabled (kr_spec r) \<noteq> Some True
            \<and> oc_claimMappings c' = oc_claimMappings c \<and> validateClaimMappings (Some (oc_claimMappings c)) = []
            \<and> (truthy (csp_ingressRef (kr_spec r)) \<longrightarrow> (\<exists>host. oc_uri c' = Some (''https://'' @ host @ ''/'')))))
    \<and> (truthy (getInstance c) \<and> getInstance c \<noteq> Some (cc_instance K) \<longrightarrow>
         clients_at w' = clients_at w \<and> clients_at (snd (deleteOIDCClient K c (rs, w))) = clients_at w)"
proof -
  have i: "getClientId c = OIDCClientId (m_namespace (kr_metadata r)) (m_name (kr_metadata r))"
    by (simp add: assms(3) getClientId_def fromIncomingClient_def Let_def)
  have m: "oc_claimMappings c = (if nullish (csp_claimMappings (kr_spec r)) then JObj []
      else null_or (csp_claimMappings (kr_spec r)) JNull)"
    by (simp add: assms(3) fromIncomingClient_def Let_def)
  note r = client_server_records [OF assms]
  have "clients_at w' = clients_at w \<and> clients_at (snd (deleteOIDCClient K c (rs, w))) = clients_at w"
    if "truthy (getInstance c)" "getInstance c \<noteq> Some (cc_instance K)"
    using assms(4) client_server.foreign_records [OF assms(1) that] by metis
  with r show ?thesis
    unfolding client_server.records_ok_def [OF assms(1)] i
    by (auto simp: client_server.registrable_def [OF assms(1)] client_server.resolved_def [OF assms(1)]
        client_server.about_def [OF assms(1)] m getClientId_def)
qed

lemma mem_empty_record: "record_of mem_redis ''Client'' i mem_empty = None"
proof -
  have "rd_view mem_redis mem_empty k = None" for k by (simp add: mem_redis_def mem_view_def mem_empty_def)
  then show ?thesis using plain_nameD(2) [OF plain_Client] by (simp add: mem_server.record_of_view as_str_def)
qed

definition demo_env_op :: operator_env where
  "demo_env_op = \<lparr>oe_deployment = demo, oe_urls = demo_urls, oe_resolve_url = (\<lambda>p b. Some (b @ p)),
     oe_decimal = (\<lambda>n. ''1''), oe_message = failure_reason, oe_codec = demo_secret_codec\<rparr>"

definition demo_client_world :: client_world where
  "demo_client_world = \<lparr>dw_redis = mem_empty, dw_resources = [((''auth'', ''wiki''), (demo_meta ''wiki'' 1, None))],
     dw_secrets = [], dw_ingresses = [], dw_seq = 1\<rparr>"

abbreviation demo_calls :: "client_world client_calls" where
  "demo_calls \<equiv> mem_clients (\<lambda>_ _. demo_client_spec) ''auth.passmower''"

theorem operator_registers_only_valid_witness:
  "mem_clients_at (snd (createOIDCClient demo_env_op demo_calls (fromIncomingClient demo demo_resource)
      (\<lparr>rs_fingerprints = (\<lambda>_. None), rs_tracked = []\<rparr>, demo_client_world))) ''other.client'' = None"
proof -
  have i: "getClientId (fromIncomingClient demo demo_resource) \<noteq> ''other.client''"
    by (simp add: getClientId_def OIDCClientId_def fromIncomingClient_def demo_resource_def demo_meta_def)
  have n: "mem_clients_at demo_client_world ''other.client'' = None"
    by (simp add: mem_clients_at_def demo_client_world_def mem_empty_record)
  have "(\<lambda>_ _ _. demo_client_spec) (m_namespace (kr_metadata demo_resource)) (m_name (kr_metadata demo_resource))
      (m_resourceVersion (kr_metadata demo_resource)) = kr_spec demo_resource"
    by (simp add: demo_resource_def)
  from operator_registers_only_valid [OF mem_client_server.client_server_axioms this refl disjI1 [OF refl]] i n
  show ?thesis by metis
qed

context client_server
begin

lemma adopt_public:
  assumes "\<not> usesClientSecret c" "oc_secretRefreshJobSpec c = None" "map_of d ''OIDC_CLIENT_SECRET'' = None"
  shows "\<exists>r w'. adoptKubeSecret E K b d (c, w) = (r, (c\<lparr>oc_clientSecret := None\<rparr>, w')) \<and> clients_at w' = clients_at w"
proof -
  let ?c = "c\<lparr>oc_clientSecret := None\<rparr>"
  obtain ok w' where p: "cc_patchSecret K (oc_clientNamespace ?c) (getSecretName ?c)
      (toClientSecret (oe_deployment E) (oe_urls E) ?c) (toClientSecretMetadata ?c) d w = (ok, w')" by force
  have j: "reconcileRefreshJob E K (?c, w') = (Inr (), (?c, w'))"
    using assms(2) by (simp add: reconcileRefreshJob_def h_then_def h_client_def h_return_def getSecretRefreshJob_def)
  have "\<exists>r. adoptKubeSecret E K b d (c, w) = (r, (?c, w'))"
    using assms p j
    by (simp add: adoptKubeSecret_def Let_def h_then_def h_client_def h_update_def h_call_def h_return_def h_throw_def)
  with other_calls(3) [OF p] show ?thesis by blast
qed

lemma create_public:
  assumes "getInstance c = Some (cc_instance K)" "\<not> oc_disabled c" "\<not> usesClientSecret c"
    and "validateClaimMappings (Some (oc_claimMappings c)) = []"
    and "\<not> truthy (oc_ingressRef c)" "oc_secretRefreshJobSpec c = None" "\<not> hasSecret c"
    and "\<forall>w' \<in> {w, snd (cc_find K (getClientId c) w)}. \<exists>d w1.
          cc_getSecret K (oc_clientNamespace c) (getSecretName c) w' = (Found d, w1) \<and> map_of d ''OIDC_CLIENT_SECRET'' = None"
  shows "clients_at (snd (createOIDCClient E K c (rs, w))) = clients_at w"
proof -
  have finish: "finishCreate E K (c', w) = reportReady E K ''Reconciled'' ''Client reconciliation completed successfully'' (c', w)"
    if "\<not> oc_disabled c'" "\<not> hasSecret c'" for c' w
    using that by (simp add: finishCreate_def h_then_def h_client_def h_return_def)
  have secret: "\<exists>r c' w'. h_then (reconcileClientSecret E K b) (\<lambda>_. finishCreate E K) (c, v) = (r, (c', w'))
      \<and> clients_at w' = clients_at v" if v: "v \<in> {w, snd (cc_find K (getClientId c) w)}" for b v
  proof -
    from assms(8) v obtain d w1 where g: "cc_getSecret K (oc_clientNamespace c) (getSecretName c) v = (Found d, w1)"
      "map_of d ''OIDC_CLIENT_SECRET'' = None" by meson
    obtain r w2 where a: "adoptKubeSecret E K b d (c, w1) = (r, (c\<lparr>oc_clientSecret := None\<rparr>, w2))"
      "clients_at w2 = clients_at w1" using adopt_public [OF assms(3,6) g(2)] by blast
    have f: "finishCreate E K (c\<lparr>oc_clientSecret := None\<rparr>, w2)
        = reportReady E K ''Reconciled'' ''Client reconciliation completed successfully'' (c\<lparr>oc_clientSecret := None\<rparr>, w2)"
      using assms(2) by (intro finish) (simp_all add: hasSecret_def js_truthy_def)
    show ?thesis
    proof (cases r)
      case (Inl e)
      with g a other_calls(1) [OF g(1)] show ?thesis
        by (simp add: reconcileClientSecret_def h_then_def h_client_def h_call_def)
    next
      case (Inr x)
      obtain q c' w3 where q: "reportReady E K ''Reconciled'' ''Client reconciliation completed successfully''
          (c\<lparr>oc_clientSecret := None\<rparr>, w2) = (q, (c', w3))" by (metis prod.collapse)
      with reportReady_frame [of E "''Reconciled''" "''Client reconciliation completed successfully''"
          "c\<lparr>oc_clientSecret := None\<rparr>" w2] have "clients_at w3 = clients_at w2" by simp
      with g a other_calls(1) [OF g(1)] Inr q f show ?thesis
        by (simp add: reconcileClientSecret_def h_then_def h_client_def h_call_def)
    qed
  qed
  have skip: "\<exists>r c' w'. finishCreate E K (c, w) = (r, (c', w')) \<and> clients_at w' = clients_at w" for w
    using finish [OF assms(2,7)] reportReady_frame by (metis prod.collapse)
  let ?tail = "\<lambda>needed. h_then (if needed then reconcileClientSecret E K True else h_return ()) (\<lambda>_. finishCreate E K)"
  have tail: "\<exists>r c' w'. ?tail needed (c, v) = (r, (c', w')) \<and> clients_at w' = clients_at v"
    if "v \<in> {w, snd (cc_find K (getClientId c) w)}" for needed v
    using secret [OF that, of True] skip [of v] by (cases needed) (simp_all add: h_then_def h_return_def)
  define replayed where "replayed = reconcile_isCurrent (getClientId c) (client_fingerprint c) rs"
  have own: "createBody E K replayed (c, w)
      = h_then (if \<not> replayed then h_return True
                  else h_then (h_redis (cc_find K (getClientId c))) (\<lambda>r. h_return (\<not> js_truthy r))) ?tail (c, w)"
    using assms(1,4,5)
    by (simp add: createBody_def assertValidClaimMappings_def resolveClientIngress_def h_then_def h_client_def h_return_def Let_def)
  have "\<exists>r c' w'. createBody E K replayed (c, w) = (r, (c', w')) \<and> clients_at w' = clients_at w"
  proof (cases replayed)
    case False
    with own tail [of w True] show ?thesis by (simp add: h_then_def h_return_def)
  next
    case True
    obtain f w1 where f: "cc_find K (getClientId c) w = (f, w1)" by (meson surj_pair)
    have same: "clients_at w1 = clients_at w" by (rule find_record [OF f])
    show ?thesis
    proof (cases f)
      case (Inl e)
      with own True f same show ?thesis by (simp add: h_then_def h_redis_def)
    next
      case (Inr x)
      have found: "h_then (h_redis (cc_find K (getClientId c))) (\<lambda>r. h_return (\<not> js_truthy r)) (c, w)
          = (Inr (\<not> js_truthy x), (c, w1))"
        using f Inr by (simp add: h_then_def h_redis_def h_return_def)
      have "createBody E K replayed (c, w)
          = h_then (h_then (h_redis (cc_find K (getClientId c))) (\<lambda>r. h_return (\<not> js_truthy r))) ?tail (c, w)"
        unfolding own by (simp only: True not_True_eq_False if_False)
      also have "\<dots> = ?tail (\<not> js_truthy x) (c, w1)" by (rule h_then_result) (rule found)
      finally have "createBody E K replayed (c, w) = ?tail (\<not> js_truthy x) (c, w1)" .
      with tail [of w1 "\<not> js_truthy x"] f same show ?thesis by simp
    qed
  qed
  then obtain r c' w' where body: "createBody E K (reconcile_isCurrent (getClientId c) (client_fingerprint c) rs) (c, w) = (r, (c', w'))"
    "clients_at w' = clients_at w" unfolding replayed_def by blast
  with reportFailure_frame show ?thesis
    by (cases r) (auto simp: createOIDCClient_def attempt_def)
qed

end

text \<open>A generation registered already is not worked on again.\<close>

lemma update_after_register:
  "updateOIDCClient E K False c (createOIDCClient E K c (rs, w)) = createOIDCClient E K c (rs, w)"
proof -
  have "set_add (set_add xs x) x = set_add xs x" for xs :: "string list" and x
    by (auto simp: set_add_def)
  then show ?thesis
    by (simp add: updateOIDCClient_def createOIDCClient_def shouldReconcile_def reconcile_register_def)
qed

text \<open>
  A public client whose Secret exists is not registered again. The ADDED callback of an
  enabled, valid, claimed client without a client secret, whose Secret is there (as it is after
  every restart), writes nothing to Redis even when Redis lost the record, and the MODIFIED events
  of the same generation do nothing: until its spec changes, the client stays unknown.
\<close>

theorem public_client_not_restored:
  assumes "client_server K clients_at spec_of"
    and "getInstance c = Some (cc_instance K)" "\<not> oc_disabled c" "\<not> usesClientSecret c"
    and "validateClaimMappings (Some (oc_claimMappings c)) = []"
    and "\<not> truthy (oc_ingressRef c)" "oc_secretRefreshJobSpec c = None"
    and "\<forall>w' \<in> {w, snd (cc_find K (getClientId c) w)}. \<exists>d w1.
          cc_getSecret K (oc_clientNamespace c) (getSecretName c) w' = (Found d, w1) \<and> map_of d ''OIDC_CLIENT_SECRET'' = None"
    and "\<not> hasSecret c"
  shows "clients_at (snd (createOIDCClient E K c (rs, w))) = clients_at w
    \<and> updateOIDCClient E K False c (createOIDCClient E K c (rs, w)) = createOIDCClient E K c (rs, w)"
  using client_server.create_public [OF assms(1-7,9,8)] by (simp add: update_after_register)

definition demo_public :: client_resource where
  "demo_public = demo_resource\<lparr>kr_spec := demo_client_spec\<lparr>csp_tokenEndpointAuthMethod := Some ''none''\<rparr>,
     kr_status := Some (empty_status\<lparr>cs_instance := Some ''auth.passmower''\<rparr>)\<rparr>"

definition demo_secret_world :: client_world where
  "demo_secret_world = demo_client_world\<lparr>dw_secrets :=
     [((''auth'', ''oidc-client-wiki-owner-secrets''), [(''OIDC_CLIENT_ID'', JStr ''auth.wiki'')])]\<rparr>"

lemmas demo_public_simps = demo_public_def demo_resource_def demo_client_spec_def demo_meta_def fromIncomingClient_def
  new_activity_state_def empty_status_def str_or_def null_or_def

theorem public_client_not_restored_witness:
  "mem_clients_at (snd (createOIDCClient demo_env_op (mem_clients (\<lambda>_ _. kr_spec demo_public) ''auth.passmower'')
      (fromIncomingClient demo demo_public) (\<lparr>rs_fingerprints = (\<lambda>_. None), rs_tracked = []\<rparr>, demo_secret_world))) ''auth.wiki''
   = None"
proof -
  let ?K = "mem_clients (\<lambda>_ _. kr_spec demo_public) ''auth.passmower''"
  let ?c = "fromIncomingClient demo demo_public"
  have h: "getInstance ?c = Some (cc_instance ?K)" "\<not> oc_disabled ?c" "\<not> usesClientSecret ?c"
    "validateClaimMappings (Some (oc_claimMappings ?c)) = []" "\<not> truthy (oc_ingressRef ?c)"
    "oc_secretRefreshJobSpec ?c = None" "\<not> hasSecret ?c"
    by (simp_all add: demo_public_simps getInstance_def mem_clients_def usesClientSecret_def nullish_def
        validateClaimMappings_def truthy_def hasSecret_def js_truthy_def Let_def)
  have s: "\<forall>w' \<in> {demo_secret_world, snd (cc_find ?K (getClientId ?c) demo_secret_world)}. \<exists>d w1.
      cc_getSecret ?K (oc_clientNamespace ?c) (getSecretName ?c) w' = (Found d, w1) \<and> map_of d ''OIDC_CLIENT_SECRET'' = None"
    by (simp add: mem_clients_def demo_secret_world_def getSecretName_def OIDCClientSecretName_def demo_public_simps Let_def)
  have "mem_clients_at demo_secret_world ''auth.wiki'' = None"
    by (simp add: mem_clients_at_def demo_secret_world_def demo_client_world_def mem_empty_record)
  with public_client_not_restored [OF mem_client_server.client_server_axioms h(1-6) s h(7)]
  show ?thesis by metis
qed

text \<open>
  A foreign client is left alone only while it is valid. For a client that another instance
  owns, the ADDED callback changes nothing at all when its claim mappings are valid. When they are
  not, they are refused before the owner is looked at, and the failure is reported by writing a
  status that names this instance as the owner.
\<close>

theorem invalid_foreign_client_is_claimed:
  assumes "truthy (getInstance c)" "getInstance c \<noteq> Some (cc_instance K)"
  shows "(validateClaimMappings (Some (oc_claimMappings c)) = [] \<longrightarrow> snd (createOIDCClient E K c (rs, w)) = w)
    \<and> (validateClaimMappings (Some (oc_claimMappings c)) \<noteq> [] \<longrightarrow>
        (\<exists>st w1 r w2. cs_instance st = Some (cc_instance K) \<and> w1 = snd (cc_stamp K w)
          \<and> cc_replaceStatus K (oc_clientNamespace c) (oc_clientName c) (oc_resourceVersion c) st w1 = (r, w2)
          \<and> (snd (createOIDCClient E K c (rs, w)) = w2
             \<or> (\<exists>msg. snd (createOIDCClient E K c (rs, w))
                  = cc_event K (oc_clientNamespace c) (oc_clientName c) ''InvalidClaimMappings'' msg w2))))"
proof (cases "validateClaimMappings (Some (oc_claimMappings c)) = []")
  case True
  with assms show ?thesis
    by (simp add: createOIDCClient_def attempt_def createBody_def assertValidClaimMappings_def
        h_then_def h_client_def h_return_def Let_def)
next
  case False
  let ?e = "InvalidClaimMappings (validateClaimMappings (Some (oc_claimMappings c)))"
  have b: "createBody E K b (c, w) = (Inl ?e, (c, w))" for b
    using False by (simp add: createBody_def assertValidClaimMappings_def h_then_def h_client_def h_throw_def Let_def)
  obtain stamp w1 where s: "cc_stamp K w = (stamp, w1)" by (meson surj_pair)
  obtain changed a where a: "updateReadyCondition False ''InvalidClaimMappings'' (oe_message E ?e) stamp (oc_activityState c)
      = (changed, a)" by (meson surj_pair)
  let ?c = "c\<lparr>oc_activityState := a\<rparr>"
  let ?st = "(client_intended_status ?c)\<lparr>cs_instance := Some (cc_instance K)\<rparr>"
  obtain r w2 where r: "cc_replaceStatus K (oc_clientNamespace c) (oc_clientName c) (oc_resourceVersion c) ?st w1 = (r, w2)"
    by (meson surj_pair)
  have "snd (createOIDCClient E K c (rs, w)) = (if changed
      then cc_event K (oc_clientNamespace c) (oc_clientName c) ''InvalidClaimMappings'' (oe_message E ?e) w2 else w2)"
    using s a r by (simp add: createOIDCClient_def attempt_def b reportFailure_def markReady_def failure_reason_def
        replaceClientStatus_def h_then_def h_client_def h_return_def h_call_def h_update_def)
  moreover have "cs_instance ?st = Some (cc_instance K)" by simp
  ultimately show ?thesis using False r s by (metis snd_conv)
qed

definition demo_foreign :: client_resource where
  "demo_foreign = demo_resource\<lparr>kr_spec := demo_client_spec\<lparr>csp_claimMappings := Some (JArr [])\<rparr>,
     kr_status := Some (empty_status\<lparr>cs_instance := Some ''other.passmower''\<rparr>)\<rparr>"

theorem invalid_foreign_client_is_claimed_witness:
  "map_option (cs_instance \<circ> the \<circ> snd) (map_of (dw_resources (snd (createOIDCClient demo_env_op
      (mem_clients (\<lambda>_ _. kr_spec demo_foreign) ''auth.passmower'') (fromIncomingClient demo demo_foreign)
      (\<lparr>rs_fingerprints = (\<lambda>_. None), rs_tracked = []\<rparr>, demo_client_world)))) (''auth'', ''wiki''))
   = Some (Some ''auth.passmower'')"
proof -
  let ?K = "mem_clients (\<lambda>_ _. kr_spec demo_foreign) ''auth.passmower''"
  let ?c = "fromIncomingClient demo demo_foreign"
  have h: "truthy (getInstance ?c)" "getInstance ?c \<noteq> Some (cc_instance ?K)"
    "validateClaimMappings (Some (oc_claimMappings ?c)) \<noteq> []"
    by (simp_all add: demo_foreign_def demo_public_simps getInstance_def mem_clients_def nullish_def
        validateClaimMappings_def truthy_def Let_def)
  have n: "oc_clientNamespace ?c = ''auth''" "oc_clientName ?c = ''wiki''" "oc_resourceVersion ?c = 1"
    by (simp_all add: demo_foreign_def demo_public_simps Let_def)
  have e: "cc_stamp ?K w = (''now'', w)" "cc_event ?K a b d msg w = w" "cc_instance ?K = ''auth.passmower''" for w a b d msg
    by (simp_all add: mem_clients_def)
  from invalid_foreign_client_is_claimed [OF h(1,2), of demo_env_op "\<lparr>rs_fingerprints = (\<lambda>_. None), rs_tracked = []\<rparr>" demo_client_world]
    h(3) obtain st r w2 where st: "cs_instance st = Some ''auth.passmower''"
      "cc_replaceStatus ?K ''auth'' ''wiki'' 1 st demo_client_world = (r, w2)"
      "snd (createOIDCClient demo_env_op ?K ?c (\<lparr>rs_fingerprints = (\<lambda>_. None), rs_tracked = []\<rparr>, demo_client_world)) = w2"
    unfolding n e by auto
  have "map_option (cs_instance \<circ> the \<circ> snd) (map_of (dw_resources w2) (''auth'', ''wiki'')) = Some (Some ''auth.passmower'')"
    using st(1,2) by (auto simp: mem_clients_def mem_replaceStatus_def demo_client_world_def demo_meta_def Let_def)
  with st(3) show ?thesis by simp
qed

end
