(* ===== verification/MiddlewareOperator.thy ===== *)
theory MiddlewareOperator
  imports ClientRegistration
begin

text \<open>
  The middleware client operator, \<^verbatim>\<open>src/operators/kube-oidc-middleware-client-operator.js\<close>: the
  ADDED, MODIFIED and DELETED callbacks for an OIDCMiddlewareClient, which keep a Traefik
  Middleware beside the resource and its record in Redis. The handlers are built as the client
  operator's are. The contract of the calls is the locale \<open>middleware_server\<close>.
\<close>

record 'w mw_calls =
  mc_deployment :: deployment
  mc_name :: string
  mc_namespace :: string
  mc_instance :: string
  mc_message :: "client_failure \<Rightarrow> string"
  mc_upsert :: "string \<Rightarrow> json \<Rightarrow> 'w \<Rightarrow> (unit + unit) \<times> 'w"
  mc_destroy :: "string \<Rightarrow> 'w \<Rightarrow> (unit + unit) \<times> 'w"
  mc_getMiddleware :: "string \<Rightarrow> string \<Rightarrow> 'w \<Rightarrow> json outcome \<times> 'w"
  mc_createMiddleware :: "string \<Rightarrow> string \<Rightarrow> json \<Rightarrow> string \<Rightarrow> 'w \<Rightarrow> bool \<times> 'w"
  mc_patchMiddleware :: "string \<Rightarrow> string \<Rightarrow> json \<Rightarrow> json \<Rightarrow> 'w \<Rightarrow> bool \<times> 'w"
  mc_replaceStatus :: "string \<Rightarrow> string \<Rightarrow> nat \<Rightarrow> client_status \<Rightarrow> 'w \<Rightarrow> mw_resource option \<times> 'w"
  mc_event :: "string \<Rightarrow> string \<Rightarrow> string \<Rightarrow> string \<Rightarrow> 'w \<Rightarrow> 'w"
  mc_uuid :: "'w \<Rightarrow> string \<times> 'w"
  mc_stamp :: "'w \<Rightarrow> string \<times> 'w"

definition mw_instance :: "mw_client \<Rightarrow> string option" where
  "mw_instance c = cs_instance (ac_status (mw_activityState c))"

definition mw_setConditions :: "condition list \<Rightarrow> mw_client \<Rightarrow> mw_client" where
  "mw_setConditions cs c = c\<lparr>mw_activityState := (mw_activityState c)\<lparr>ac_conditions := cs\<rparr>\<rparr>"

text \<open>Every status write stamps a fresh Claimed condition, on the client too.\<close>

definition mw_replaceStatus :: "'w mw_calls \<Rightarrow> (mw_client, 'w, mw_client option) handler" where
  "mw_replaceStatus K = h_then (h_call (mc_stamp K)) (\<lambda>now.
     h_then (h_update (\<lambda>c. mw_setConditions (condition_set ''Claimed'' True now (ac_conditions (mw_activityState c))) c)) (\<lambda>_.
     h_then h_client (\<lambda>c.
     h_then (h_call (mc_replaceStatus K (mw_clientNamespace c) (mw_clientName c) (mw_resourceVersion c)
        ((activity_intended_status (mw_activityState c))\<lparr>cs_instance := Some (mc_instance K)\<rparr>))) (\<lambda>r.
     h_return (map_option mw_fromIncomingClient r)))))"

definition createOrReplaceClientMiddleware :: "'w mw_calls \<Rightarrow> (mw_client, 'w, unit) handler" where
  "createOrReplaceClientMiddleware K = h_then h_client (\<lambda>c.
     h_then (h_call (mc_getMiddleware K (mw_clientNamespace c) (mw_clientName c))) (\<lambda>existing.
     let spec = toMiddlewareSpec (mc_name K) (mc_namespace K) c in
     case existing of
       Found old \<Rightarrow> h_then (h_call (mc_patchMiddleware K (mw_clientNamespace c) (mw_clientName c) spec old)) (\<lambda>ok.
         if ok then h_return () else h_throw MiddlewareNotUpdated)
     | _ \<Rightarrow> h_then (h_call (mc_createMiddleware K (mw_clientNamespace c) (mw_clientName c) spec (mw_uid c))) (\<lambda>ok.
         if ok then h_return () else h_throw MiddlewareNotCreated)))"

definition mw_markReady :: "'w mw_calls \<Rightarrow> bool \<Rightarrow> string \<Rightarrow> string \<Rightarrow> (mw_client, 'w, bool) handler" where
  "mw_markReady K ready reason message = h_then (h_call (mc_stamp K)) (\<lambda>stamp. h_then h_client (\<lambda>c.
     let (changed, a) = updateReadyCondition ready reason message stamp (mw_activityState c) in
     h_then (h_update (\<lambda>c. c\<lparr>mw_activityState := a\<rparr>)) (\<lambda>_. h_return changed)))"

definition mw_reportReady :: "'w mw_calls \<Rightarrow> string \<Rightarrow> string \<Rightarrow> (mw_client, 'w, unit) handler" where
  "mw_reportReady K reason message = h_then (mw_markReady K True reason message) (\<lambda>changed.
     h_then (mw_replaceStatus K) (\<lambda>updated. h_then h_client (\<lambda>c.
       if changed \<and> updated \<noteq> None
       then h_call (\<lambda>w. ((), mc_event K (mw_clientNamespace c) (mw_clientName c) reason message w))
       else h_return ())))"

definition mw_reportFailure :: "'w mw_calls \<Rightarrow> client_failure \<Rightarrow> (mw_client, 'w, unit) handler" where
  "mw_reportFailure K e = h_then (mw_markReady K False (failure_reason e) (mc_message K e)) (\<lambda>changed.
     h_then (mw_replaceStatus K) (\<lambda>_. h_then h_client (\<lambda>c.
       if changed
       then h_call (\<lambda>w. ((), mc_event K (mw_clientNamespace c) (mw_clientName c) (failure_reason e) (mc_message K e) w))
       else h_return ())))"

definition mw_upsert :: "'w mw_calls \<Rightarrow> (mw_client, 'w, unit) handler" where
  "mw_upsert K = h_then (h_call (mc_uuid K)) (\<lambda>uuid. h_then h_client (\<lambda>c.
     h_redis (mc_upsert K (mw_clientId c) (mw_toRedis (mc_deployment K) uuid c))))"

definition mw_drop :: "'w mw_calls \<Rightarrow> (mw_client, 'w, unit) handler" where
  "mw_drop K = h_then h_client (\<lambda>c. h_then (h_redis (mc_destroy K (mw_clientId c)))
     (\<lambda>_. mw_reportReady K ''Disabled'' ''Client is disabled and absent from Redis''))"

text \<open>Whether the client is this instance's after the status write that claims it.\<close>

definition mw_claim :: "'w mw_calls \<Rightarrow> (mw_client, 'w, bool) handler" where
  "mw_claim K = h_then (mw_replaceStatus K) (\<lambda>r. case r of
       None \<Rightarrow> h_return False
     | Some claimed \<Rightarrow>
         if mw_instance claimed = Some (mc_instance K)
         then h_then (h_update (\<lambda>_. claimed)) (\<lambda>_. h_return True) else h_return False)"

definition mw_install :: "'w mw_calls \<Rightarrow> (mw_client, 'w, unit) handler" where
  "mw_install K = h_then (createOrReplaceClientMiddleware K) (\<lambda>_. h_then h_client (\<lambda>c.
     if mw_disabled c then mw_drop K
     else h_then (mw_upsert K) (\<lambda>_.
       mw_reportReady K ''Reconciled'' ''Traefik Middleware and Redis record are up to date'')))"

definition mw_createBody :: "'w mw_calls \<Rightarrow> (mw_client, 'w, unit) handler" where
  "mw_createBody K = h_then h_client (\<lambda>c.
     if mw_instance c = Some (mc_instance K) then mw_install K
     else if \<not> truthy (mw_instance c)
     then h_then (mw_claim K) (\<lambda>mine. if mine then mw_install K else h_return ())
     else h_return ())"

definition mw_create :: "'w mw_calls \<Rightarrow> mw_client \<Rightarrow> reconcile_state \<times> 'w \<Rightarrow> reconcile_state \<times> 'w" where
  "mw_create K c = (\<lambda>(rs, w).
     (reconcile_register (mw_clientId c) (getReconcileFingerprint (mw_activityState c)) rs,
      attempt (mw_createBody K) (mw_reportFailure K) (c, w)))"

definition mw_updateBody :: "'w mw_calls \<Rightarrow> (mw_client, 'w, unit) handler" where
  "mw_updateBody K = h_then h_client (\<lambda>c. if mw_disabled c then mw_drop K else mw_install K)"

definition mw_update :: "'w mw_calls \<Rightarrow> mw_client \<Rightarrow> reconcile_state \<times> 'w \<Rightarrow> reconcile_state \<times> 'w" where
  "mw_update K c = (\<lambda>(rs, w).
     let (should, rs') = shouldReconcile (mw_clientId c) (getReconcileFingerprint (mw_activityState c)) rs in
     (rs',
      if \<not> should then w
      else if mw_instance c = Some (mc_instance K) then attempt (mw_updateBody K) (mw_reportFailure K) (c, w)
      else if truthy (mw_instance c) then w
      else (case mw_claim K (c, w) of
              (Inr True, s) \<Rightarrow> attempt (mw_updateBody K) (mw_reportFailure K) s
            | (_, (_, w')) \<Rightarrow> w')))"

definition mw_delete :: "'w mw_calls \<Rightarrow> mw_client \<Rightarrow> reconcile_state \<times> 'w \<Rightarrow> reconcile_state \<times> 'w" where
  "mw_delete K c = (\<lambda>(rs, w).
     (reconcile_unregister (mw_clientId c) rs,
      if mw_instance c \<noteq> Some (mc_instance K) then w else snd (mc_destroy K (mw_clientId c) w)))"

subsection \<open>The contract of the calls\<close>

text \<open>\<open>clients_at\<close> is the clients' records in Redis and \<open>middleware_at\<close> the Middlewares' specs. A
  Redis write that throws may or may not have happened; a patch computed from the spec that is
  there installs the one it is asked for.\<close>

locale middleware_server =
  fixes K :: "'w mw_calls"
    and clients_at :: "'w \<Rightarrow> string \<Rightarrow> json option"
    and middleware_at :: "'w \<Rightarrow> string \<times> string \<Rightarrow> json option"
  assumes upsert_record: "mc_upsert K i v w = (r, w') \<Longrightarrow> middleware_at w' = middleware_at w
      \<and> (clients_at w' = (clients_at w)(i \<mapsto> v) \<or> ((\<exists>e. r = Inl e) \<and> clients_at w' = clients_at w))"
    and destroy_record: "mc_destroy K i w = (r', w') \<Longrightarrow> middleware_at w' = middleware_at w
      \<and> (clients_at w' = (clients_at w)(i := None) \<or> ((\<exists>e. r' = Inl e) \<and> clients_at w' = clients_at w))"
    and get_middleware: "mc_getMiddleware K ns n w = (g, w') \<Longrightarrow> clients_at w' = clients_at w
      \<and> middleware_at w' = middleware_at w \<and> (\<forall>old. g = Found old \<longrightarrow> middleware_at w (ns, n) = Some old)"
    and create_middleware: "mc_createMiddleware K ns n spec uid w = (ok, w') \<Longrightarrow> clients_at w' = clients_at w
      \<and> middleware_at w' = (if ok then (middleware_at w)((ns, n) \<mapsto> spec) else middleware_at w)"
    and patch_middleware: "mc_patchMiddleware K ns n spec old w = (ok, w') \<Longrightarrow> clients_at w' = clients_at w
      \<and> (middleware_at w (ns, n) = Some old \<longrightarrow> ok \<longrightarrow> middleware_at w' = (middleware_at w)((ns, n) \<mapsto> spec))"
    and status_write: "mc_replaceStatus K ns n rv st w = (a, w') \<Longrightarrow> clients_at w' = clients_at w
      \<and> middleware_at w' = middleware_at w
      \<and> (\<forall>x. a = Some x \<longrightarrow> m_namespace (mr_metadata x) = ns \<and> m_name (mr_metadata x) = n)"
    and other_calls: "clients_at (mc_event K ns n rs msg w) = clients_at w"
      "middleware_at (mc_event K ns n rs msg w) = middleware_at w"
      "mc_uuid K w = (u, w') \<Longrightarrow> clients_at w' = clients_at w \<and> middleware_at w' = middleware_at w"
      "mc_stamp K w = (u, w') \<Longrightarrow> clients_at w' = clients_at w \<and> middleware_at w' = middleware_at w"
begin

text \<open>The client at hand is the named one and Redis is as it was.\<close>

definition unwritten :: "string \<Rightarrow> string \<Rightarrow> 'w \<Rightarrow> mw_client \<times> 'w \<Rightarrow> bool" where
  "unwritten ns n w0 s = (mw_clientNamespace (fst s) = ns \<and> mw_clientName (fst s) = n
     \<and> clients_at (snd s) = clients_at w0)"

text \<open>The client's own record was written only for an enabled client whose Middleware is there.\<close>

definition backed :: "string \<Rightarrow> string \<Rightarrow> json option \<Rightarrow> json option \<Rightarrow> bool" where
  "backed ns n record installed = (\<exists>uuid c. record = Some (mw_toRedis (mc_deployment K) uuid c)
     \<and> mw_clientId c = OIDCMiddlewareClientId ns n \<and> \<not> mw_disabled c
     \<and> installed = Some (toMiddlewareSpec (mc_name K) (mc_namespace K) c))"

definition written :: "string \<Rightarrow> string \<Rightarrow> 'w \<Rightarrow> mw_client \<times> 'w \<Rightarrow> bool" where
  "written ns n w0 s = (mw_clientNamespace (fst s) = ns \<and> mw_clientName (fst s) = n
     \<and> (\<forall>i. i \<noteq> OIDCMiddlewareClientId ns n \<longrightarrow> clients_at (snd s) i = clients_at w0 i)
     \<and> (clients_at (snd s) (OIDCMiddlewareClientId ns n) \<in> {clients_at w0 (OIDCMiddlewareClientId ns n), None}
        \<or> backed ns n (clients_at (snd s) (OIDCMiddlewareClientId ns n)) (middleware_at (snd s) (ns, n))))"

lemma unwritten_written: "unwritten ns n w0 s \<Longrightarrow> written ns n w0 s"
  by (simp add: unwritten_def written_def)

lemma unwritten_frame:
  "clients_at w' = clients_at w \<Longrightarrow> unwritten ns n w0 (c, w') = unwritten ns n w0 (c, w)"
  by (simp add: unwritten_def)

lemma written_frame:
  "clients_at w' = clients_at w \<Longrightarrow> middleware_at w' = middleware_at w \<Longrightarrow> written ns n w0 (c, w') = written ns n w0 (c, w)"
  by (simp add: written_def)

lemma keeps_call_frame:
  assumes "\<And>w x w'. k w = (x, w') \<Longrightarrow> clients_at w' = clients_at w \<and> middleware_at w' = middleware_at w"
  shows "keeps (written ns n w0) (h_call k)" "keeps (unwritten ns n w0) (h_call k)"
  by (rule keeps_call; use assms written_frame unwritten_frame in metis)+

lemma keeps_renamed:
  assumes "\<And>c. mw_clientNamespace (f c) = mw_clientNamespace c \<and> mw_clientName (f c) = mw_clientName c"
  shows "keeps (written ns n w0) (h_update f)" "keeps (unwritten ns n w0) (h_update f)"
  using assms by (auto intro!: keeps_update simp: written_def unwritten_def)

lemma status_frame: "mc_replaceStatus K ns n rv st w = (a, w') \<Longrightarrow>
    clients_at w' = clients_at w \<and> middleware_at w' = middleware_at w"
  by (drule status_write) simp

lemmas keeps_parts = keeps_then keeps_client keeps_return keeps_call_frame keeps_renamed

lemma keeps_replaceStatus:
  "keeps (written ns n w0) (mw_replaceStatus K)" "keeps (unwritten ns n w0) (mw_replaceStatus K)"
  unfolding mw_replaceStatus_def
  by (auto intro!: keeps_parts simp: other_calls status_frame mw_setConditions_def)

lemma keeps_markReady: "keeps (written ns n w0) (mw_markReady K b rs msg)"
  unfolding mw_markReady_def by (auto split: prod.split intro!: keeps_parts simp: other_calls)

lemma keeps_reports:
  "keeps (written ns n w0) (mw_reportReady K rs msg)" "keeps (written ns n w0) (mw_reportFailure K e)"
  unfolding mw_reportReady_def mw_reportFailure_def
  by (auto intro!: keeps_parts keeps_markReady keeps_replaceStatus simp: other_calls)

lemma middleware_triple:
  "triple (\<lambda>s. unwritten ns n w0 s \<and> fst s = c) (createOrReplaceClientMiddleware K)
     (\<lambda>_ s. unwritten ns n w0 s \<and> fst s = c \<and> middleware_at (snd s) (ns, n) = Some (toMiddlewareSpec (mc_name K) (mc_namespace K) c))
     (written ns n w0)"
  unfolding triple_def
proof (intro allI impI)
  fix s assume h: "unwritten ns n w0 s \<and> fst s = c"
  then obtain w where s: "s = (c, w)" by (metis prod.collapse)
  with h have c: "mw_clientNamespace c = ns" "mw_clientName c = n" "clients_at w = clients_at w0" by (auto simp: unwritten_def)
  let ?spec = "toMiddlewareSpec (mc_name K) (mc_namespace K) c"
  let ?post = "\<lambda>r. case r of (Inr x, s') \<Rightarrow> unwritten ns n w0 s' \<and> fst s' = c \<and> middleware_at (snd s') (ns, n) = Some ?spec
      | (Inl e, s') \<Rightarrow> written ns n w0 s'"
  obtain g w1 where g: "mc_getMiddleware K ns n w = (g, w1)" by (meson surj_pair)
  note g' = get_middleware [OF g]
  obtain ok w2 where k: "mc_createMiddleware K ns n ?spec (mw_uid c) w1 = (ok, w2)" by (meson surj_pair)
  have fresh: "?post (h_then (h_call (mc_createMiddleware K ns n ?spec (mw_uid c))) (\<lambda>ok.
         if ok then h_return () else h_throw MiddlewareNotCreated) (c, w1))"
    using create_middleware [OF k] k c g' unwritten_written [of ns n w0 "(c, w2)"]
    by (auto simp: h_then_def h_call_def h_return_def h_throw_def unwritten_def)
  have there: "?post (h_then (h_call (mc_patchMiddleware K ns n ?spec old)) (\<lambda>ok.
         if ok then h_return () else h_throw MiddlewareNotUpdated) (c, w1))" if "g = Found old" for old
  proof -
    obtain ok w2 where k: "mc_patchMiddleware K ns n ?spec old w1 = (ok, w2)" by (meson surj_pair)
    from patch_middleware [OF k] k c g' that unwritten_written [of ns n w0 "(c, w2)"] show ?thesis
      by (auto simp: h_then_def h_call_def h_return_def h_throw_def unwritten_def)
  qed
  have "createOrReplaceClientMiddleware K (c, w) = (case g of
       Found old \<Rightarrow> h_then (h_call (mc_patchMiddleware K ns n ?spec old)) (\<lambda>ok.
         if ok then h_return () else h_throw MiddlewareNotUpdated)
     | _ \<Rightarrow> h_then (h_call (mc_createMiddleware K ns n ?spec (mw_uid c))) (\<lambda>ok.
         if ok then h_return () else h_throw MiddlewareNotCreated)) (c, w1)"
    using g by (cases g) (simp_all add: createOrReplaceClientMiddleware_def h_then_client h_then_call c Let_def)
  with fresh there show "?post (createOrReplaceClientMiddleware K s)" unfolding s by (cases g) simp_all
qed

lemma keeps_written: "keeps (written ns n w0) h \<Longrightarrow> triple (\<lambda>s. written ns n w0 s \<and> fst s = c) h (\<lambda>_. written ns n w0) (written ns n w0)"
  unfolding keeps_def by (erule triple_conseq) simp_all

lemma ready_triple: "triple (written ns n w0) (mw_reportReady K rs msg) (\<lambda>_. written ns n w0) (written ns n w0)"
  using keeps_reports(1) unfolding keeps_def .

lemma upsert_triple:
  assumes "\<not> mw_disabled c"
  shows "triple (\<lambda>s. unwritten ns n w0 s \<and> fst s = c
      \<and> middleware_at (snd s) (ns, n) = Some (toMiddlewareSpec (mc_name K) (mc_namespace K) c))
    (mw_upsert K) (\<lambda>_. written ns n w0) (written ns n w0)"
  unfolding triple_def
proof (intro allI impI, elim conjE)
  fix s assume h: "unwritten ns n w0 s" "fst s = c"
    "middleware_at (snd s) (ns, n) = Some (toMiddlewareSpec (mc_name K) (mc_namespace K) c)"
  then obtain w where s: "s = (c, w)" by (metis prod.collapse)
  from h s have c: "mw_clientNamespace c = ns" "mw_clientName c = n" "clients_at w = clients_at w0" by (auto simp: unwritten_def)
  obtain uuid w1 where u: "mc_uuid K w = (uuid, w1)" by (meson surj_pair)
  obtain r w2 where p: "mc_upsert K (mw_clientId c) (mw_toRedis (mc_deployment K) uuid c) w1 = (r, w2)" by (meson surj_pair)
  have i: "mw_clientId c = OIDCMiddlewareClientId ns n" using c by (simp add: mw_clientId_def)
  note m = conjunct1 [OF upsert_record [OF p]] other_calls(3) [OF u]
  have "written ns n w0 (c, w2)"
  proof (cases "clients_at w2 = (clients_at w1)(mw_clientId c \<mapsto> mw_toRedis (mc_deployment K) uuid c)")
    case True
    have "backed ns n (Some (mw_toRedis (mc_deployment K) uuid c)) (middleware_at w2 (ns, n))"
      using h(3) s m i assms by (auto simp: backed_def)
    with True m c i show ?thesis by (simp add: written_def)
  next
    case False
    with upsert_record [OF p] m c show ?thesis by (auto simp: written_def)
  qed
  moreover have "mw_upsert K s = (case r of Inl _ \<Rightarrow> Inl CallThrew | Inr x \<Rightarrow> Inr x, (c, w2))"
    using u p unfolding s
    by (simp add: mw_upsert_def h_then_call h_then_client h_redis_def split: sum.split)
  ultimately show "case mw_upsert K s of (Inr x, s') \<Rightarrow> written ns n w0 s' | (Inl e, s') \<Rightarrow> written ns n w0 s'"
    by (cases r) simp_all
qed

lemma drop_triple: "triple (written ns n w0) (mw_drop K) (\<lambda>_. written ns n w0) (written ns n w0)"
  unfolding mw_drop_def
proof (rule triple_looking, rule triple_then [OF _ ready_triple])
  fix c
  let ?P = "\<lambda>s. written ns n w0 s \<and> fst s = c"
  have "keeps ?P (h_redis (mc_destroy K (mw_clientId c)))"
  proof (rule keeps_redis)
    fix c' w x w' assume "written ns n w0 (c', w) \<and> fst (c', w) = c" "mc_destroy K (mw_clientId c) w = (x, w')"
    with destroy_record [OF this(2)] show "written ns n w0 (c', w') \<and> fst (c', w') = c"
      by (elim conjE disjE) (simp_all add: written_def mw_clientId_def)
  qed
  then show "triple ?P (h_redis (mc_destroy K (mw_clientId c))) (\<lambda>_. written ns n w0) (written ns n w0)"
    unfolding keeps_def by (rule triple_conseq) simp_all
qed

lemma install_triple: "triple (unwritten ns n w0) (mw_install K) (\<lambda>_. written ns n w0) (written ns n w0)"
proof -
  have known: "triple (\<lambda>s. unwritten ns n w0 s \<and> fst s = c) (mw_install K) (\<lambda>_. written ns n w0) (written ns n w0)"
    for c :: mw_client
    unfolding mw_install_def
  proof (rule triple_then [OF middleware_triple], rule triple_looking)
    fix c'
    let ?P = "\<lambda>s. (unwritten ns n w0 s \<and> fst s = c
      \<and> middleware_at (snd s) (ns, n) = Some (toMiddlewareSpec (mc_name K) (mc_namespace K) c)) \<and> fst s = c'"
    show "triple ?P (if mw_disabled c' then mw_drop K else h_then (mw_upsert K) (\<lambda>_.
       mw_reportReady K ''Reconciled'' ''Traefik Middleware and Redis record are up to date'')) (\<lambda>_. written ns n w0) (written ns n w0)"
    proof (cases "mw_disabled c' \<or> c' \<noteq> c")
      case True
      then show ?thesis
      proof
        assume "mw_disabled c'"
        then show ?thesis by (auto intro: triple_conseq [OF drop_triple] unwritten_written)
      next
        assume "c' \<noteq> c"
        then show ?thesis by (intro triple_vacuous) auto
      qed
    next
      case False
      then have "triple ?P (mw_upsert K) (\<lambda>_. written ns n w0) (written ns n w0)"
        by (intro triple_conseq [OF upsert_triple [of c]]) auto
      with False show ?thesis by (auto intro: triple_then [OF _ ready_triple])
    qed
  qed
  show ?thesis
    unfolding triple_def
  proof (intro allI impI)
    fix s assume "unwritten ns n w0 s"
    then have h: "unwritten ns n w0 s \<and> fst s = fst s" by simp
    show "case mw_install K s of (Inr x, s') \<Rightarrow> written ns n w0 s' | (Inl e, s') \<Rightarrow> written ns n w0 s'"
      by (rule mp [OF spec [OF known [of "fst s", unfolded triple_def]] h])
  qed
qed

lemma claim_triple: "triple (unwritten ns n w0) (mw_claim K) (\<lambda>_. unwritten ns n w0) (written ns n w0)"
  unfolding mw_claim_def
proof (rule triple_then)
  show "triple (unwritten ns n w0) (mw_replaceStatus K)
     (\<lambda>x s. unwritten ns n w0 s \<and> (\<forall>c. x = Some c \<longrightarrow> mw_clientNamespace c = ns \<and> mw_clientName c = n)) (written ns n w0)"
    unfolding triple_def
  proof (intro allI impI)
    fix s assume h: "unwritten ns n w0 s"
    obtain c w where s: "s = (c, w)" by (metis prod.collapse)
    obtain now w1 where t: "mc_stamp K w = (now, w1)" by (meson surj_pair)
    let ?c = "mw_setConditions (condition_set ''Claimed'' True now (ac_conditions (mw_activityState c))) c"
    obtain r w2 where r: "mc_replaceStatus K ns n (mw_resourceVersion c)
       ((activity_intended_status (mw_activityState ?c))\<lparr>cs_instance := Some (mc_instance K)\<rparr>) w1 = (r, w2)" by (meson surj_pair)
    have "mw_replaceStatus K s = (Inr (map_option mw_fromIncomingClient r), (?c, w2))"
      using h t r unfolding s mw_replaceStatus_def
      by (simp add: unwritten_def h_then_def h_call_def h_update_def h_client_def h_return_def mw_setConditions_def)
    with h status_write [OF r] other_calls(4) [OF t] show "case mw_replaceStatus K s of
        (Inr x, s') \<Rightarrow> unwritten ns n w0 s' \<and> (\<forall>c. x = Some c \<longrightarrow> mw_clientNamespace c = ns \<and> mw_clientName c = n)
      | (Inl e, s') \<Rightarrow> written ns n w0 s'"
      unfolding s by (auto simp: unwritten_def mw_setConditions_def mw_fromIncomingClient_def Let_def)
  qed
  fix x :: "mw_client option"
  let ?R = "\<lambda>s. unwritten ns n w0 s \<and> (\<forall>c. x = Some c \<longrightarrow> mw_clientNamespace c = ns \<and> mw_clientName c = n)"
  show "triple ?R (case x of None \<Rightarrow> h_return False
     | Some claimed \<Rightarrow>
         if mw_instance claimed = Some (mc_instance K)
         then h_then (h_update (\<lambda>_. claimed)) (\<lambda>_. h_return True) else h_return False) (\<lambda>_. unwritten ns n w0) (written ns n w0)"
    by (cases x) (auto intro!: triple_return triple_then [OF triple_update [where Q = "\<lambda>_. unwritten ns n w0"]] simp: unwritten_def)
qed

lemma create_triple: "triple (unwritten ns n w0) (mw_createBody K) (\<lambda>_. written ns n w0) (written ns n w0)"
  unfolding mw_createBody_def
proof (rule triple_looking)
  fix c :: mw_client
  have "triple (unwritten ns n w0) (if mine then mw_install K else h_return ()) (\<lambda>_. written ns n w0) (written ns n w0)" for mine
    using install_triple by (auto intro: triple_return unwritten_written)
  from triple_then [OF claim_triple this] install_triple
  have "triple (unwritten ns n w0) (if mw_instance c = Some (mc_instance K) then mw_install K
     else if \<not> truthy (mw_instance c) then h_then (mw_claim K) (\<lambda>mine. if mine then mw_install K else h_return ())
     else h_return ()) (\<lambda>_. written ns n w0) (written ns n w0)"
    by (auto intro: triple_return unwritten_written)
  then show "triple (\<lambda>s. unwritten ns n w0 s \<and> fst s = c) (if mw_instance c = Some (mc_instance K) then mw_install K
     else if \<not> truthy (mw_instance c) then h_then (mw_claim K) (\<lambda>mine. if mine then mw_install K else h_return ())
     else h_return ()) (\<lambda>_. written ns n w0) (written ns n w0)"
    by (rule triple_conseq) auto
qed

lemma update_triple: "triple (unwritten ns n w0) (mw_updateBody K) (\<lambda>_. written ns n w0) (written ns n w0)"
  unfolding mw_updateBody_def
proof (rule triple_looking)
  fix c :: mw_client
  have "triple (unwritten ns n w0) (if mw_disabled c then mw_drop K else mw_install K) (\<lambda>_. written ns n w0) (written ns n w0)"
    using install_triple by (auto intro: triple_conseq [OF drop_triple] unwritten_written)
  then show "triple (\<lambda>s. unwritten ns n w0 s \<and> fst s = c) (if mw_disabled c then mw_drop K else mw_install K)
      (\<lambda>_. written ns n w0) (written ns n w0)"
    by (rule triple_conseq) auto
qed

lemma create_written: "\<exists>c'. written (mw_clientNamespace c) (mw_clientName c) w (c', snd (mw_create K c (rs, w)))"
  using attempt_keeps [OF create_triple keeps_reports(2), of "mw_clientNamespace c" "mw_clientName c" w "(c, w)"]
  by (simp add: mw_create_def unwritten_def)

lemma update_written: "\<exists>c'. written (mw_clientNamespace c) (mw_clientName c) w (c', snd (mw_update K c (rs, w)))"
proof -
  let ?ns = "mw_clientNamespace c" and ?n = "mw_clientName c"
  have start: "unwritten ?ns ?n w (c, w)" by (simp add: unwritten_def)
  have up: "\<exists>c'. written ?ns ?n w (c', attempt (mw_updateBody K) (mw_reportFailure K) s)" if "unwritten ?ns ?n w s" for s
    by (rule attempt_keeps [OF update_triple keeps_reports(2) that])
  obtain r c' w' where cl: "mw_claim K (c, w) = (r, (c', w'))" by (metis prod.collapse)
  have "case mw_claim K (c, w) of (Inr x, s') \<Rightarrow> unwritten ?ns ?n w s' | (Inl e, s') \<Rightarrow> written ?ns ?n w s'"
    by (rule mp [OF spec [OF claim_triple [unfolded triple_def]] start])
  with cl have u: "case r of Inr x \<Rightarrow> unwritten ?ns ?n w (c', w') | Inl e \<Rightarrow> written ?ns ?n w (c', w')" by simp
  show ?thesis
    using up [OF start] up [of "(c', w')"] u unwritten_written [OF start] unwritten_written [of ?ns ?n w "(c', w')"]
    by (auto simp: mw_update_def shouldReconcile_def cl split: sum.splits bool.splits)
qed

lemma foreign_untouched:
  assumes "truthy (mw_instance c)" "mw_instance c \<noteq> Some (mc_instance K)"
  shows "snd (mw_create K c (rs, w)) = w" "snd (mw_update K c (rs, w)) = w" "snd (mw_delete K c (rs, w)) = w"
  using assms by (simp_all add: mw_create_def attempt_def mw_createBody_def h_then_client h_return_def mw_update_def
      mw_delete_def shouldReconcile_def)

end

subsection \<open>A server that provides it\<close>

record mw_world =
  ww_redis :: mem
  ww_middlewares :: "((string \<times> string) \<times> json) list"
  ww_resources :: "((string \<times> string) \<times> mw_resource) list"
  ww_seq :: nat

definition mem_mw_status ::
  "string \<Rightarrow> string \<Rightarrow> nat \<Rightarrow> client_status \<Rightarrow> mw_world \<Rightarrow> mw_resource option \<times> mw_world" where
  "mem_mw_status ns n rv st w = (case map_of (ww_resources w) (ns, n) of
     Some r \<Rightarrow>
       if m_resourceVersion (mr_metadata r) = rv
       then (let r' = r\<lparr>mr_metadata := (mr_metadata r)\<lparr>m_namespace := ns, m_name := n, m_resourceVersion := Suc rv\<rparr>,
                         mr_status := Some st\<rparr> in
             (Some r', w\<lparr>ww_resources := AList.update (ns, n) r' (ww_resources w)\<rparr>))
       else (None, w)
   | None \<Rightarrow> (None, w))"

definition mem_mw :: "deployment \<Rightarrow> string \<Rightarrow> string \<Rightarrow> mw_world mw_calls" where
  "mem_mw D name ns0 = \<lparr>mc_deployment = D, mc_name = name, mc_namespace = ns0, mc_instance = ns0 @ ''.'' @ name,
     mc_message = failure_reason,
     mc_upsert = (\<lambda>i v w. (Inr (), w\<lparr>ww_redis := adapter_upsert mem_redis 0 ''Client'' i v None (ww_redis w)\<rparr>)),
     mc_destroy = (\<lambda>i w. (Inr (), w\<lparr>ww_redis := record_destroy mem_redis ''Client'' i (ww_redis w)\<rparr>)),
     mc_getMiddleware = (\<lambda>ns n w. (case map_of (ww_middlewares w) (ns, n) of Some s \<Rightarrow> Found s | None \<Rightarrow> Absent, w)),
     mc_createMiddleware = (\<lambda>ns n s uid w. case map_of (ww_middlewares w) (ns, n) of
        Some _ \<Rightarrow> (False, w)
      | None \<Rightarrow> (True, w\<lparr>ww_middlewares := AList.update (ns, n) s (ww_middlewares w)\<rparr>)),
     mc_patchMiddleware = (\<lambda>ns n s old w. (True, w\<lparr>ww_middlewares := AList.update (ns, n) s (ww_middlewares w)\<rparr>)),
     mc_replaceStatus = mem_mw_status,
     mc_event = (\<lambda>ns n r msg w. w),
     mc_uuid = (\<lambda>w. (replicate (ww_seq w) CHR ''x'', w\<lparr>ww_seq := Suc (ww_seq w)\<rparr>)),
     mc_stamp = (\<lambda>w. (''now'', w))\<rparr>"

definition mem_mw_clients :: "mw_world \<Rightarrow> string \<Rightarrow> json option" where
  "mem_mw_clients w i = record_of mem_redis ''Client'' i (ww_redis w)"

definition mem_mw_installed :: "mw_world \<Rightarrow> string \<times> string \<Rightarrow> json option" where
  "mem_mw_installed w = map_of (ww_middlewares w)"

interpretation mem_middleware_server:
  middleware_server "mem_mw D name ns0" mem_mw_clients mem_mw_installed for D name ns0
proof (unfold_locales, goal_cases)
  case (1 i v w r w')
  then show ?case
    by (auto simp: mem_mw_def mem_mw_clients_def mem_mw_installed_def fun_eq_iff
        mem_server.records.look_put plain_Client ok_ttl_def)
next
  case (2 i w r w')
  then show ?case
    by (auto simp: mem_mw_def mem_mw_clients_def mem_mw_installed_def fun_eq_iff mem_server.records.look_drop plain_Client)
next
  case (6 ns n rv st w a w')
  then show ?case
    by (auto simp: mem_mw_def mem_mw_status_def mem_mw_clients_def mem_mw_installed_def fun_eq_iff Let_def
        split: option.splits if_splits)
qed (auto simp: mem_mw_def mem_mw_clients_def mem_mw_installed_def fun_eq_iff update_conv' split: option.splits if_splits)

subsection \<open>Properties\<close>

text \<open>
  C29: A middleware client reaches Redis behind its Traefik Middleware. Whatever the calls answer
  and wherever a callback throws, ADDED and MODIFIED leave every other client's record alone, and
  the client's own record is as before, gone, or the record of an enabled client whose Middleware
  is installed with that client's forward-auth address and response headers. A client of another
  instance is left alone altogether, by DELETED too.
\<close>

theorem middleware_before_record:
  assumes "middleware_server K clients_at middleware_at"
    and "w' = snd (mw_create K c (rs, w)) \<or> w' = snd (mw_update K c (rs, w))"
  shows "(\<forall>i. i \<noteq> mw_clientId c \<longrightarrow> clients_at w' i = clients_at w i)
    \<and> (clients_at w' (mw_clientId c) \<in> {clients_at w (mw_clientId c), None}
       \<or> (\<exists>uuid c'. clients_at w' (mw_clientId c) = Some (mw_toRedis (mc_deployment K) uuid c')
            \<and> mw_clientId c' = mw_clientId c \<and> \<not> mw_disabled c'
            \<and> middleware_at w' (mw_clientNamespace c, mw_clientName c)
                = Some (toMiddlewareSpec (mc_name K) (mc_namespace K) c')))
    \<and> (truthy (mw_instance c) \<and> mw_instance c \<noteq> Some (mc_instance K) \<longrightarrow>
         w' = w \<and> snd (mw_delete K c (rs, w)) = w)"
proof -
  from assms(2) middleware_server.create_written [OF assms(1)] middleware_server.update_written [OF assms(1)]
  obtain c' where "middleware_server.written K clients_at middleware_at (mw_clientNamespace c) (mw_clientName c) w (c', w')"
    by metis
  moreover have "w' = w \<and> snd (mw_delete K c (rs, w)) = w"
    if "truthy (mw_instance c)" "mw_instance c \<noteq> Some (mc_instance K)"
    using assms(2) middleware_server.foreign_untouched [OF assms(1) that] by metis
  ultimately show ?thesis
    unfolding middleware_server.written_def [OF assms(1)] middleware_server.backed_def [OF assms(1)]
    by (auto simp: mw_clientId_def)
qed

definition demo_mw :: mw_client where
  "demo_mw = mw_fromIncomingClient \<lparr>mr_metadata = demo_meta ''wiki'' 1, mr_description = None, mr_allowedGroups = None,
     mr_allowedUsers = None, mr_headerMapping = Some [(''user'', ''Remote-User'')], mr_uri = None, mr_displayName = None,
     mr_displayOrder = None, mr_disabled = None, mr_status = Some (empty_status\<lparr>cs_instance := Some ''auth.passmower''\<rparr>)\<rparr>"

definition demo_mw_world :: mw_world where
  "demo_mw_world = \<lparr>ww_redis = mem_empty, ww_middlewares = [], ww_resources = [], ww_seq = 1\<rparr>"

theorem middleware_before_record_witness:
  "mem_mw_clients (snd (mw_create (mem_mw demo ''passmower'' ''auth'') demo_mw
      (\<lparr>rs_fingerprints = (\<lambda>_. None), rs_tracked = []\<rparr>, demo_mw_world))) ''auth.other'' = None"
proof -
  have "mw_clientId demo_mw \<noteq> ''auth.other''"
    by (simp add: demo_mw_def mw_fromIncomingClient_def mw_clientId_def OIDCMiddlewareClientId_def demo_meta_def Let_def)
  moreover have "mem_mw_clients demo_mw_world ''auth.other'' = None"
    by (simp add: mem_mw_clients_def demo_mw_world_def mem_empty_record)
  ultimately show ?thesis
    using middleware_before_record [OF mem_middleware_server.middleware_server_axioms disjI1 [OF refl]] by metis
qed

end
