(* ===== verification/ClientSecrets.thy ===== *)
theory ClientSecrets
  imports ClientRegistration
begin

text \<open>
  Reconciles of one client overlap (\<^verbatim>\<open>#reconcileClientSecret\<close> in
  \<^verbatim>\<open>src/operators/kube-oidc-client-operator.js\<close>): between two calls on the cluster another
  reconcile, in this process or in another replica, may make its own. Here a reconcile of the
  Secret is cut at its calls, one step each. Run without interruption the steps are the
  operator's handler; interleaved in any order, on a cluster with the contract \<open>secret_server\<close>,
  they implement a register that is written once.
\<close>

subsection \<open>One call at a time\<close>

datatype secret_phase =
    Fetching bool
  | Creating
  | Refetching
  | Adopting bool "(string \<times> json) list"
  | Refreshing
  | Settled
  | Broken client_failure

definition adopted_secret :: "'w client_calls \<Rightarrow> oidc_client \<Rightarrow> json option \<Rightarrow> 'w \<Rightarrow> oidc_client \<times> 'w" where
  "adopted_secret K c s w =
     (if js_truthy s \<or> \<not> usesClientSecret c then (c\<lparr>oc_clientSecret := s\<rparr>, w)
      else let (uuid, w') = cc_uuid K w in (c\<lparr>oc_clientSecret := Some (JStr uuid)\<rparr>, w'))"

definition refresh_step :: "operator_env \<Rightarrow> 'w client_calls \<Rightarrow> oidc_client \<Rightarrow> 'w \<Rightarrow> secret_phase \<times> 'w" where
  "refresh_step E K c w = (case getSecretRefreshJob (oe_decimal E) c of
     None \<Rightarrow> (Settled, w)
   | Some job \<Rightarrow> (let (r, w') = cc_createJob K (oc_clientNamespace c) job w in
       (if r = JobFailed then Broken RefreshJobNotCreated else Settled, w')))"

fun secret_step ::
  "operator_env \<Rightarrow> 'w client_calls \<Rightarrow> secret_phase \<Rightarrow> oidc_client \<Rightarrow> 'w \<Rightarrow> secret_phase \<times> oidc_client \<times> 'w" where
  "secret_step E K (Fetching b) c w =
     (let (r, w') = cc_getSecret K (oc_clientNamespace c) (getSecretName c) w in
      (case r of Found d \<Rightarrow> Adopting b d | _ \<Rightarrow> Creating, c, w'))"
| "secret_step E K Creating c w =
     (let (uuid, w1) = cc_uuid K w; c' = c\<lparr>oc_clientSecret := Some (JStr uuid)\<rparr>;
          (r, w2) = cc_createSecret K (oc_clientNamespace c') (getSecretName c')
            (toClientSecret (oe_deployment E) (oe_urls E) c') (toClientSecretMetadata c') w1 in
      (case r of SecretCreated _ \<Rightarrow> Refreshing | SecretExists \<Rightarrow> Refetching | SecretFailed \<Rightarrow> Broken SecretNotCreated, c', w2))"
| "secret_step E K Refetching c w =
     (let (r, w') = cc_getSecret K (oc_clientNamespace c) (getSecretName c) w in
      (case r of Found d \<Rightarrow> Adopting False d | _ \<Rightarrow> Broken SecretUnreadable, c, w'))"
| "secret_step E K (Adopting b existing) c w =
     (let (c', w1) = adopted_secret K c (map_of existing ''OIDC_CLIENT_SECRET'') w;
          data = toClientSecret (oe_deployment E) (oe_urls E) c';
          (ok, w2) = cc_patchSecret K (oc_clientNamespace c') (getSecretName c') data (toClientSecretMetadata c') existing w1 in
      (if \<not> ok then Broken SecretNotUpdated
       else if \<not> b \<or> secretDataChanged (oe_codec E) existing data then Refreshing else Settled, c', w2))"
| "secret_step E K Refreshing c w = (let (p, w') = refresh_step E K c w in (p, c, w'))"
| "secret_step E K p c w = (p, c, w)"

fun secret_steps ::
  "operator_env \<Rightarrow> 'w client_calls \<Rightarrow> nat \<Rightarrow> secret_phase \<times> oidc_client \<times> 'w \<Rightarrow> secret_phase \<times> oidc_client \<times> 'w" where
  "secret_steps E K 0 s = s"
| "secret_steps E K (Suc n) (p, c, w) = secret_steps E K n (secret_step E K p c w)"

definition secret_outcome :: "secret_phase \<times> oidc_client \<times> 'w \<Rightarrow> ((client_failure + unit) \<times> oidc_client \<times> 'w) option" where
  "secret_outcome s = (case s of
     (Settled, r) \<Rightarrow> Some (Inr (), r) | (Broken e, r) \<Rightarrow> Some (Inl e, r) | _ \<Rightarrow> None)"

lemma steps_done [simp]: "secret_steps E K n (Settled, s) = (Settled, s)" "secret_steps E K n (Broken e, s) = (Broken e, s)"
  by (induction n; cases s; simp)+

lemma steps_numeral: "secret_steps E K (numeral k) (p, c, w) = secret_steps E K (pred_numeral k) (secret_step E K p c w)"
  by (simp add: numeral_eq_Suc)

lemma refresh_alone:
  "secret_outcome (secret_steps E K (Suc n) (Refreshing, c, w)) = Some (reconcileRefreshJob E K (c, w))"
  by (simp add: secret_outcome_def refresh_step_def reconcileRefreshJob_def h_then_client h_return_def h_then_def
      h_call_def h_client_def h_throw_def split: option.split prod.split)

lemma adopt_alone:
  "secret_outcome (secret_steps E K (Suc (Suc n)) (Adopting b existing, c, w)) = Some (adoptKubeSecret E K b existing (c, w))"
proof -
  let ?s = "map_of existing ''OIDC_CLIENT_SECRET''"
  obtain c' w1 where a: "adopted_secret K c ?s w = (c', w1)" by (meson surj_pair)
  obtain ok w2 where p: "cc_patchSecret K (oc_clientNamespace c') (getSecretName c')
      (toClientSecret (oe_deployment E) (oe_urls E) c') (toClientSecretMetadata c') existing w1 = (ok, w2)" by (meson surj_pair)
  have "(if js_truthy ?s \<or> \<not> usesClientSecret c then h_update (\<lambda>c. c\<lparr>oc_clientSecret := ?s\<rparr>)
             else generateSecret K) (c, w) = (Inr (), (c', w1))"
    using a by (auto simp: adopted_secret_def generateSecret_def h_update_def h_then_def h_call_def Let_def split: prod.splits if_splits)
  then have "adoptKubeSecret E K b existing (c, w) = (if \<not> ok then (Inl SecretNotUpdated, (c', w2))
      else if \<not> b \<or> secretDataChanged (oe_codec E) existing (toClientSecret (oe_deployment E) (oe_urls E) c')
      then reconcileRefreshJob E K (c', w2) else (Inr (), (c', w2)))"
    using p by (simp add: adoptKubeSecret_def h_then_client Let_def h_then_result [where s = "(c, w)"] h_then_call
        h_throw_def h_return_def)
  with a p refresh_alone [of E K n c' w2] show ?thesis
    by (simp add: Let_def secret_outcome_def)
qed

lemma steps_alone:
  "secret_outcome (secret_steps E K 5 (Fetching b, c, w)) = Some (reconcileClientSecret E K b (c, w))"
proof -
  obtain r w1 where g: "cc_getSecret K (oc_clientNamespace c) (getSecretName c) w = (r, w1)" by (meson surj_pair)
  obtain uuid w2 where u: "cc_uuid K w1 = (uuid, w2)" by (meson surj_pair)
  let ?c = "c\<lparr>oc_clientSecret := Some (JStr uuid)\<rparr>"
  have n: "getSecretName ?c = getSecretName c" by (simp add: getSecretName_def)
  obtain k w3 where k: "cc_createSecret K (oc_clientNamespace c) (getSecretName c)
      (toClientSecret (oe_deployment E) (oe_urls E) ?c) (toClientSecretMetadata ?c) w2 = (k, w3)" by (meson surj_pair)
  obtain r2 w4 where g2: "cc_getSecret K (oc_clientNamespace c) (getSecretName c) w3 = (r2, w4)" by (meson surj_pair)
  show ?thesis
  proof (cases "\<exists>d. r = Found d")
    case True
    then obtain d where "r = Found d" ..
    with g have "secret_steps E K 5 (Fetching b, c, w) = secret_steps E K (Suc (Suc 2)) (Adopting b d, c, w1)"
      by (simp add: numeral_eq_Suc)
    moreover from g True \<open>r = Found d\<close> have "reconcileClientSecret E K b (c, w) = adoptKubeSecret E K b d (c, w1)"
      by (simp add: reconcileClientSecret_def h_then_client h_then_call)
    ultimately show ?thesis by (simp only: adopt_alone)
  next
    case False
    let ?after = "case k of
        SecretExists \<Rightarrow> (case r2 of Found d \<Rightarrow> adoptKubeSecret E K False d (?c, w4) | _ \<Rightarrow> (Inl SecretUnreadable, (?c, w4)))
      | SecretFailed \<Rightarrow> (Inl SecretNotCreated, (?c, w3))
      | SecretCreated _ \<Rightarrow> reconcileRefreshJob E K (?c, w3)"
    have gen: "generateSecret K (c, w1) = (Inr (), (?c, w2))"
      using u by (simp add: generateSecret_def h_then_call h_update_def)
    from False g have "reconcileClientSecret E K b (c, w) = ?after"
      using k g2
      by (cases r; cases k; cases r2)
        (simp_all add: reconcileClientSecret_def h_then_client h_then_call h_then_result [where f = "generateSecret K" and s = "(c, w1)", OF gen]
          h_throw_def n)
    moreover have "secret_steps E K 5 (Fetching b, c, w) = secret_steps E K 3 (secret_step E K Creating c w1)"
      using False g by (cases r) (simp_all add: steps_numeral)
    moreover have "secret_outcome (secret_steps E K 3 (secret_step E K Creating c w1)) = Some ?after"
    proof (cases k)
      case (SecretCreated x)
      with u k have "secret_steps E K 3 (secret_step E K Creating c w1) = secret_steps E K (Suc 2) (Refreshing, ?c, w3)"
        by (simp add: Let_def n numeral_eq_Suc)
      with SecretCreated show ?thesis by (simp only: refresh_alone create_secret_result.case)
    next
      case SecretExists
      with u k g2 have s: "secret_steps E K 3 (secret_step E K Creating c w1) = secret_steps E K (Suc (Suc 0))
          (case r2 of Found d \<Rightarrow> Adopting False d | _ \<Rightarrow> Broken SecretUnreadable, ?c, w4)"
        by (simp add: Let_def n numeral_eq_Suc)
      show ?thesis
      proof (cases r2)
        case (Found d)
        with s SecretExists show ?thesis by (simp only: adopt_alone create_secret_result.case outcome.case)
      qed (simp_all only: s, simp_all add: SecretExists secret_outcome_def)
    next
      case SecretFailed
      with u k show ?thesis by (simp add: Let_def n numeral_eq_Suc secret_outcome_def)
    qed
    ultimately show ?thesis by simp
  qed
qed

subsection \<open>Many reconciles\<close>

text \<open>Reconciles numbered by their arrival, and the world they share.\<close>

record 'w secret_system =
  sy_phase :: "nat \<Rightarrow> secret_phase"
  sy_client :: "nat \<Rightarrow> oidc_client"
  sy_world :: 'w

definition move :: "operator_env \<Rightarrow> 'w client_calls \<Rightarrow> nat \<Rightarrow> 'w secret_system \<Rightarrow> 'w secret_system" where
  "move E K i s = (let (p, c, w) = secret_step E K (sy_phase s i) (sy_client s i) (sy_world s) in
     \<lparr>sy_phase = (sy_phase s)(i := p), sy_client = (sy_client s)(i := c), sy_world = w\<rparr>)"

text \<open>The rest of the cluster may do anything that leaves the Secret \<open>key\<close> alone.\<close>

inductive secret_moves ::
  "operator_env \<Rightarrow> 'w client_calls \<Rightarrow> ('w \<Rightarrow> string \<times> string \<Rightarrow> (string \<times> json) list option) \<Rightarrow> string \<times> string
     \<Rightarrow> 'w secret_system \<Rightarrow> 'w secret_system \<Rightarrow> bool"
  for E K secret_at key where
  own: "secret_moves E K secret_at key s (move E K i s)"
| elsewhere: "secret_at w key = secret_at (sy_world s) key \<Longrightarrow> secret_moves E K secret_at key s (s\<lparr>sy_world := w\<rparr>)"

text \<open>What it implements: a register that is written once, and the answers read from it.\<close>

record register =
  reg_value :: "json option"
  reg_answer :: "nat \<Rightarrow> json option"

inductive register_step :: "register \<Rightarrow> register \<Rightarrow> bool" where
  write_once: "reg_value r = None \<Longrightarrow> js_truthy (Some v) \<Longrightarrow> register_step r (r\<lparr>reg_value := Some v\<rparr>)"
| answer: "reg_value r = Some v \<Longrightarrow> reg_answer r i = None \<Longrightarrow>
    register_step r (r\<lparr>reg_answer := (reg_answer r)(i \<mapsto> v)\<rparr>)"

definition held_secret :: "(string \<times> json) list option \<Rightarrow> json option" where
  "held_secret d = (case d of Some d \<Rightarrow> map_of d ''OIDC_CLIENT_SECRET'' | None \<Rightarrow> None)"

definition as_register :: "('w \<Rightarrow> string \<times> string \<Rightarrow> (string \<times> json) list option) \<Rightarrow> string \<times> string
     \<Rightarrow> 'w secret_system \<Rightarrow> register" where
  "as_register secret_at key s = \<lparr>reg_value = held_secret (secret_at (sy_world s) key),
     reg_answer = (\<lambda>i. if sy_phase s i = Settled then oc_clientSecret (sy_client s i) else None)\<rparr>"

text \<open>The contract of the cluster: reading is reading, a Secret is created only where there is
  none, and a patch leaves each key with the value asked for or the one it had. Nothing here
  deletes a Secret. A call that fails may have been carried out all the same.\<close>

locale secret_server =
  fixes K :: "'w client_calls"
    and secret_at :: "'w \<Rightarrow> string \<times> string \<Rightarrow> (string \<times> json) list option"
  assumes get_secret: "cc_getSecret K ns n w = (g, w') \<Longrightarrow> secret_at w' = secret_at w
      \<and> (\<forall>d. g = Found d \<longrightarrow> secret_at w (ns, n) = Some d)"
    and create_secret: "cc_createSecret K ns n d m w = (r, w') \<Longrightarrow>
      (case r of
         SecretCreated _ \<Rightarrow> secret_at w (ns, n) = None \<and> secret_at w' = (secret_at w)((ns, n) \<mapsto> d)
       | SecretExists \<Rightarrow> secret_at w (ns, n) \<noteq> None \<and> secret_at w' = secret_at w
       | SecretFailed \<Rightarrow> secret_at w' = secret_at w
           \<or> secret_at w (ns, n) = None \<and> secret_at w' = (secret_at w)((ns, n) \<mapsto> d))"
    and patch_secret: "cc_patchSecret K ns n d m x w = (ok, w') \<Longrightarrow> secret_at w' = secret_at w
      \<or> (\<exists>cur new. secret_at w (ns, n) = Some cur \<and> secret_at w' = (secret_at w)((ns, n) \<mapsto> new)
           \<and> (\<forall>k. map_of new k = map_of d k \<or> map_of new k = map_of cur k))"
    and other_calls: "cc_createJob K ns j w = (a, w') \<Longrightarrow> secret_at w' = secret_at w"
      "cc_uuid K w = (u, w') \<Longrightarrow> secret_at w' = secret_at w \<and> u \<noteq> []"
begin

text \<open>A reconcile of the client that owns the Secret, at each phase, while the Secret holds \<open>v\<close>.\<close>

definition owns :: "string \<times> string \<Rightarrow> oidc_client \<Rightarrow> bool" where
  "owns key c = ((oc_clientNamespace c, getSecretName c) = key \<and> usesClientSecret c \<and> oc_instanceUri c \<noteq> None)"

definition phase_ok :: "json option \<Rightarrow> secret_phase \<Rightarrow> oidc_client \<Rightarrow> bool" where
  "phase_ok v p c = (case p of
     Refetching \<Rightarrow> v \<noteq> None
   | Adopting b d \<Rightarrow> v \<noteq> None \<and> map_of d ''OIDC_CLIENT_SECRET'' = v
   | Refreshing \<Rightarrow> v \<noteq> None \<and> oc_clientSecret c = v
   | Settled \<Rightarrow> v \<noteq> None \<and> oc_clientSecret c = v
   | _ \<Rightarrow> True)"

definition held_ok :: "(string \<times> json) list option \<Rightarrow> bool" where
  "held_ok d = (d = None \<or> js_truthy (held_secret d))"

definition secret_inv :: "string \<times> string \<Rightarrow> 'w secret_system \<Rightarrow> bool" where
  "secret_inv key s = (held_ok (secret_at (sy_world s) key)
     \<and> (\<forall>i. owns key (sy_client s i) \<and> phase_ok (held_secret (secret_at (sy_world s) key)) (sy_phase s i) (sy_client s i)))"

lemma owns_set [simp]: "owns key (c\<lparr>oc_clientSecret := v\<rparr>) = owns key c"
  by (simp add: owns_def getSecretName_def usesClientSecret_def)

lemma held_None [simp]: "held_secret None = None"
  by (simp add: held_secret_def)

lemma secret_data:
  "owns key c \<Longrightarrow> map_of (toClientSecret D P c) ''OIDC_CLIENT_SECRET'' = oc_clientSecret c"
  using client_secret_value by (auto simp: owns_def)

lemma held_ok_Some: "held_ok (Some d) = js_truthy (map_of d ''OIDC_CLIENT_SECRET'')"
  by (simp add: held_ok_def held_secret_def)

lemma held_some: "held_ok d \<Longrightarrow> d \<noteq> None \<Longrightarrow> held_secret d \<noteq> None"
  by (cases "held_secret d") (auto simp: held_ok_def js_truthy_def)

lemma held_Some [simp]: "held_secret (Some d) = map_of d ''OIDC_CLIENT_SECRET''"
  by (simp add: held_secret_def)

lemma fresh_truthy: "u \<noteq> [] \<Longrightarrow> js_truthy (Some (JStr u))"
  by (simp add: js_truthy_def)

text \<open>One step of one reconcile: the Secret's value stays, or is set where there was none.\<close>

lemma step_ok:
  assumes st: "secret_step E K p c w = (p', c', w')" and own: "owns key c"
    and h: "held_ok (secret_at w key)" and p: "phase_ok (held_secret (secret_at w key)) p c"
  shows "owns key c' \<and> held_ok (secret_at w' key)
     \<and> phase_ok (held_secret (secret_at w' key)) p' c'
     \<and> (held_secret (secret_at w' key) = held_secret (secret_at w key) \<or> held_secret (secret_at w key) = None)
     \<and> (p = Settled \<longrightarrow> p' = Settled \<and> c' = c \<and> w' = w)"
proof -
  from own have k: "key = (oc_clientNamespace c, getSecretName c)" by (auto simp: owns_def)
  show ?thesis
  proof (cases p)
    case (Fetching b)
    obtain r w1 where g: "cc_getSecret K (oc_clientNamespace c) (getSecretName c) w = (r, w1)" by (meson surj_pair)
    from get_secret [OF g] g st own h Fetching held_some [OF h] show ?thesis
      by (cases r) (auto simp: phase_ok_def k)
  next
    case Refetching
    obtain r w1 where g: "cc_getSecret K (oc_clientNamespace c) (getSecretName c) w = (r, w1)" by (meson surj_pair)
    from get_secret [OF g] g st own h Refetching held_some [OF h] show ?thesis
      by (cases r) (auto simp: phase_ok_def k)
  next
    case Creating
    obtain u w1 where u: "cc_uuid K w = (u, w1)" by (meson surj_pair)
    let ?c = "c\<lparr>oc_clientSecret := Some (JStr u)\<rparr>"
    obtain r w2 where r: "cc_createSecret K (oc_clientNamespace ?c) (getSecretName ?c)
            (toClientSecret (oe_deployment E) (oe_urls E) ?c) (toClientSecretMetadata ?c) w1 = (r, w2)" by (meson surj_pair)
    have n: "getSecretName ?c = getSecretName c" by (simp add: getSecretName_def)
    have d: "map_of (toClientSecret (oe_deployment E) (oe_urls E) ?c) ''OIDC_CLIENT_SECRET'' = Some (JStr u)"
      using secret_data [of key ?c] own by simp
    note f = other_calls(2) [OF u] create_secret [OF r]
    from st Creating u r have s: "c' = ?c" "w' = w2"
      "p' = (case r of SecretCreated _ \<Rightarrow> Refreshing | SecretExists \<Rightarrow> Refetching | SecretFailed \<Rightarrow> Broken SecretNotCreated)"
      by (simp_all add: Let_def n)
    from f h own d held_some [OF h] show ?thesis
      unfolding s by (cases r) (auto simp: k n Creating phase_ok_def held_ok_Some fresh_truthy)
  next
    case (Adopting b ex)
    from p Adopting have e: "map_of ex ''OIDC_CLIENT_SECRET'' = held_secret (secret_at w key)"
      "held_secret (secret_at w key) \<noteq> None" by (simp_all add: phase_ok_def)
    with h have t: "js_truthy (map_of ex ''OIDC_CLIENT_SECRET'')" by (auto simp: held_ok_def)
    let ?c = "c\<lparr>oc_clientSecret := map_of ex ''OIDC_CLIENT_SECRET''\<rparr>"
    let ?d = "toClientSecret (oe_deployment E) (oe_urls E) ?c"
    have n: "getSecretName ?c = getSecretName c" by (simp add: getSecretName_def)
    obtain ok w2 where r: "cc_patchSecret K (oc_clientNamespace ?c) (getSecretName ?c) ?d (toClientSecretMetadata ?c) ex w = (ok, w2)"
      by (meson surj_pair)
    from st Adopting t r have s: "c' = ?c" "w' = w2"
      "p' = (if \<not> ok then Broken SecretNotUpdated else if \<not> b \<or> secretDataChanged (oe_codec E) ex ?d then Refreshing else Settled)"
      by (simp_all add: adopted_secret_def Let_def)
    have d: "map_of ?d ''OIDC_CLIENT_SECRET'' = held_secret (secret_at w key)"
      using secret_data [of key ?c] own e(1) by simp
    have "held_secret (secret_at w2 key) = held_secret (secret_at w key)"
      using patch_secret [OF r]
    proof
      assume "secret_at w2 = secret_at w"
      then show ?thesis by simp
    next
      assume "\<exists>cur new. secret_at w (oc_clientNamespace ?c, getSecretName ?c) = Some cur
        \<and> secret_at w2 = (secret_at w)((oc_clientNamespace ?c, getSecretName ?c) \<mapsto> new)
        \<and> (\<forall>k. map_of new k = map_of ?d k \<or> map_of new k = map_of cur k)"
      then obtain cur new where "secret_at w key = Some cur" "secret_at w2 key = Some new"
        "map_of new ''OIDC_CLIENT_SECRET'' = map_of ?d ''OIDC_CLIENT_SECRET''
          \<or> map_of new ''OIDC_CLIENT_SECRET'' = map_of cur ''OIDC_CLIENT_SECRET''"
        unfolding k n by auto
      with d show ?thesis by auto
    qed
    with t e own h show ?thesis unfolding s by (auto simp: Adopting phase_ok_def held_ok_def)
  next
    case Refreshing
    have "secret_at w' = secret_at w \<and> c' = c \<and> (p' = Settled \<or> (\<exists>e. p' = Broken e))"
      using st Refreshing other_calls(1) [of "oc_clientNamespace c"]
      by (auto simp: refresh_step_def split: option.splits prod.splits if_splits)
    with p own h show ?thesis by (auto simp: Refreshing phase_ok_def)
  qed (use assms in auto)
qed

lemma move_inv:
  assumes "secret_inv key s" "secret_step E K (sy_phase s i) (sy_client s i) (sy_world s) = (p', c', w')"
  shows "owns key c' \<and> held_ok (secret_at w' key)
     \<and> phase_ok (held_secret (secret_at w' key)) p' c'
     \<and> (held_secret (secret_at w' key) = held_secret (secret_at (sy_world s) key) \<or> held_secret (secret_at (sy_world s) key) = None)
     \<and> (sy_phase s i = Settled \<longrightarrow> p' = Settled \<and> c' = sy_client s i \<and> w' = sy_world s)"
  by (rule step_ok [OF assms(2)]) (use assms(1) in \<open>simp_all add: secret_inv_def\<close>)

lemma phase_ok_None: "phase_ok None p c \<Longrightarrow> phase_ok v p c"
  by (cases p) (simp_all add: phase_ok_def)

lemma secret_inv_step: "secret_moves E K secret_at key s s' \<Longrightarrow> secret_inv key s \<Longrightarrow> secret_inv key s'"
proof (induction rule: secret_moves.induct)
  case (own s i)
  obtain p' c' w' where m: "secret_step E K (sy_phase s i) (sy_client s i) (sy_world s) = (p', c', w')"
    by (metis prod.collapse)
  from move_inv [OF own m] own m show ?case
    by (auto simp: move_def secret_inv_def intro: phase_ok_None)
next
  case (elsewhere w s)
  then show ?case by (simp add: secret_inv_def)
qed

lemma simulates:
  assumes "secret_moves E K secret_at key s s'" "secret_inv key s"
  shows "register_step\<^sup>*\<^sup>* (as_register secret_at key s) (as_register secret_at key s')"
  using assms
proof (induction rule: secret_moves.induct)
  case (elsewhere w s)
  then show ?case by (simp add: as_register_def cong: if_cong)
next
  case (own s i)
  obtain p' c' w' where m: "secret_step E K (sy_phase s i) (sy_client s i) (sy_world s) = (p', c', w')"
    by (metis prod.collapse)
  let ?r = "as_register secret_at key s" and ?v = "held_secret (secret_at w' key)"
  let ?mid = "?r\<lparr>reg_value := ?v\<rparr>"
  note k = move_inv [OF own m]
  have written: "register_step\<^sup>*\<^sup>* ?r ?mid"
  proof (cases "?v = held_secret (secret_at (sy_world s) key)")
    case True
    then show ?thesis by (simp add: as_register_def)
  next
    case False
    with k have "reg_value ?r = None" "held_ok (secret_at w' key)" by (auto simp: as_register_def)
    moreover from False k obtain v where "?v = Some v" by (cases "?v") auto
    ultimately have "register_step ?r ?mid"
      by (auto intro: write_once simp: held_ok_def)
    then show ?thesis by blast
  qed
  have a: "reg_answer (as_register secret_at key (move E K i s))
      = (reg_answer ?r)(i := (if p' = Settled then oc_clientSecret c' else None))"
    by (auto simp: as_register_def move_def m)
  have "register_step\<^sup>*\<^sup>* ?mid (as_register secret_at key (move E K i s))"
  proof (cases "p' = Settled \<and> sy_phase s i \<noteq> Settled")
    case True
    with k obtain v where v: "?v = Some v" "oc_clientSecret c' = Some v" by (auto simp: phase_ok_def)
    have "register_step ?mid (?mid\<lparr>reg_answer := (reg_answer ?mid)(i \<mapsto> v)\<rparr>)"
      by (rule answer) (use True v in \<open>simp_all add: as_register_def\<close>)
    moreover have "as_register secret_at key (move E K i s) = ?mid\<lparr>reg_answer := (reg_answer ?mid)(i \<mapsto> v)\<rparr>"
      using a True v by (simp add: as_register_def move_def m)
    ultimately show ?thesis by auto
  next
    case False
    with k have "(reg_answer ?r)(i := (if p' = Settled then oc_clientSecret c' else None)) = reg_answer ?r"
      by (auto simp: as_register_def)
    with a have "as_register secret_at key (move E K i s) = ?mid"
      by (simp add: as_register_def move_def m)
    then show ?thesis by simp
  qed
  with written show ?case by simp
qed

lemma run_simulates:
  assumes "(secret_moves E K secret_at key)\<^sup>*\<^sup>* s s'" "secret_inv key s"
  shows "register_step\<^sup>*\<^sup>* (as_register secret_at key s) (as_register secret_at key s') \<and> secret_inv key s'"
  using assms
  by (induction rule: rtranclp_induct) (auto intro: secret_inv_step dest: simulates intro: rtranclp_trans)

lemma settled_agree:
  "secret_inv key s \<Longrightarrow> sy_phase s i = Settled \<Longrightarrow>
     oc_clientSecret (sy_client s i) = held_secret (secret_at (sy_world s) key)
     \<and> js_truthy (oc_clientSecret (sy_client s i))"
proof -
  assume h: "secret_inv key s" "sy_phase s i = Settled"
  then have "phase_ok (held_secret (secret_at (sy_world s) key)) Settled (sy_client s i)"
    unfolding secret_inv_def by metis
  then have "held_secret (secret_at (sy_world s) key) \<noteq> None"
    "oc_clientSecret (sy_client s i) = held_secret (secret_at (sy_world s) key)" by (simp_all add: phase_ok_def)
  moreover from h(1) have "held_ok (secret_at (sy_world s) key)" by (simp add: secret_inv_def)
  ultimately show ?thesis by (auto simp: held_ok_def)
qed

end

text \<open>Once written, the register keeps its value and its answers.\<close>

lemma register_stable:
  "register_step\<^sup>*\<^sup>* r r' \<Longrightarrow> (reg_value r = Some v \<longrightarrow> reg_value r' = Some v) \<and> (reg_answer r i = Some a \<longrightarrow> reg_answer r' i = Some a)"
  by (induction rule: rtranclp_induct) (auto elim!: register_step.cases)

interpretation mem_secret_server: secret_server "mem_clients S inst" "\<lambda>w. map_of (dw_secrets w)" for S inst
proof (unfold_locales, goal_cases)
  case (3 ns n d m x w ok w')
  show ?case
  proof (cases "map_of (dw_secrets w) (ns, n)")
    case (Some cur)
    with 3 have "map_of (dw_secrets w') = (map_of (dw_secrets w))((ns, n) \<mapsto> d)"
      by (auto simp: mem_clients_def update_conv')
    with Some show ?thesis by blast
  qed (use 3 in \<open>simp add: mem_clients_def\<close>)
qed (auto simp: mem_clients_def update_conv' split: option.splits)

subsection \<open>Properties\<close>

text \<open>
  Cutting the reconcile at its calls changes nothing. The operator's handler for the Secret
  of a client, with its result or its error, the client it leaves and the world it leaves, is what
  the single calls give when nothing comes in between.
\<close>

theorem secret_reconcile_in_steps:
  "secret_outcome (secret_steps E K 5 (Fetching b, c, w)) = Some (reconcileClientSecret E K b (c, w))"
  by (rule steps_alone)

text \<open>
  C30: Overlapping reconciles converge on one client secret. Any number of reconciles of one
  confidential client, cut at their calls and interleaved in any order with anything that leaves
  the client's Secret alone, implement a register written at most once: the Secret's value never
  changes once it is there, and every reconcile that completes holds that value. The Secret is
  absent at first, or has a client secret.
\<close>

theorem secret_reconciles_agree:
  assumes "secret_server K secret_at"
    and "secret_at (sy_world s) key = None \<or> js_truthy (held_secret (secret_at (sy_world s) key))"
    and "\<forall>i. (\<exists>b. sy_phase s i = Fetching b) \<and> (oc_clientNamespace (sy_client s i), getSecretName (sy_client s i)) = key
           \<and> usesClientSecret (sy_client s i) \<and> oc_instanceUri (sy_client s i) \<noteq> None"
    and "(secret_moves E K secret_at key)\<^sup>*\<^sup>* s s'"
  shows "register_step\<^sup>*\<^sup>* (as_register secret_at key s) (as_register secret_at key s')
    \<and> (\<forall>i. sy_phase s' i = Settled \<longrightarrow>
         oc_clientSecret (sy_client s' i) = held_secret (secret_at (sy_world s') key)
         \<and> js_truthy (oc_clientSecret (sy_client s' i)))
    \<and> (\<forall>v. held_secret (secret_at (sy_world s) key) = Some v \<longrightarrow> held_secret (secret_at (sy_world s') key) = Some v)"
proof -
  have "phase_ok v (Fetching b) c" if "secret_server.phase_ok = phase_ok" for v b c phase_ok
    using that secret_server.phase_ok_def [OF assms(1)] by auto
  then have "secret_server.secret_inv secret_at key s"
    using assms(2,3) unfolding secret_server.secret_inv_def [OF assms(1)] secret_server.held_ok_def [OF assms(1)]
      secret_server.owns_def [OF assms(1)] by metis
  from secret_server.run_simulates [OF assms(1,4) this]
  have r: "register_step\<^sup>*\<^sup>* (as_register secret_at key s) (as_register secret_at key s')"
    "secret_server.secret_inv secret_at key s'" by blast+
  have "held_secret (secret_at (sy_world s') key) = Some v" if "held_secret (secret_at (sy_world s) key) = Some v" for v
    using register_stable [OF r(1), of v] that by (simp add: as_register_def)
  with r secret_server.settled_agree [OF assms(1) r(2)] show ?thesis by blast
qed

definition demo_switched :: "(string \<times> json) list option \<Rightarrow> client_world secret_system" where
  "demo_switched d = \<lparr>sy_phase = (\<lambda>_. Fetching False), sy_client = (\<lambda>_. fromIncomingClient demo demo_resource),
     sy_world = demo_client_world\<lparr>dw_secrets := (case d of None \<Rightarrow> [] | Some d \<Rightarrow> [((''auth'', ''oidc-client-wiki-owner-secrets''), d)])\<rparr>\<rparr>"

definition run_schedule :: "nat list \<Rightarrow> client_world secret_system \<Rightarrow> client_world secret_system" where
  "run_schedule is s = foldl (\<lambda>s i. move demo_env_op demo_calls i s) s is"

lemma run_reaches:
  "(secret_moves demo_env_op demo_calls secret_at key)\<^sup>*\<^sup>* s (run_schedule is s)"
  unfolding run_schedule_def
proof (induction "is" arbitrary: s)
  case (Cons i "is")
  have "secret_moves demo_env_op demo_calls secret_at key s (move demo_env_op demo_calls i s)" by (rule own)
  with Cons [of "move demo_env_op demo_calls i s"] show ?case by simp
qed simp

theorem secret_reconciles_agree_witness:
  "let s = run_schedule [0, 1, 0, 1, 0, 1, 1, 1] (demo_switched None) in
     sy_phase s 0 = Settled \<and> sy_phase s 1 = Settled \<and> oc_clientSecret (sy_client s 0) = oc_clientSecret (sy_client s 1)"
proof -
  let ?at = "\<lambda>w. map_of (dw_secrets w)" and ?key = "(''auth'', ''oidc-client-wiki-owner-secrets'')"
  let ?s = "demo_switched None" and ?s' = "run_schedule [0, 1, 0, 1, 0, 1, 1, 1] (demo_switched None)"
  have start: "?at (sy_world ?s) ?key = None \<or> js_truthy (held_secret (?at (sy_world ?s) ?key))"
    by (simp add: demo_switched_def)
  have all: "\<forall>i. (\<exists>b. sy_phase ?s i = Fetching b) \<and> (oc_clientNamespace (sy_client ?s i), getSecretName (sy_client ?s i)) = ?key
      \<and> usesClientSecret (sy_client ?s i) \<and> oc_instanceUri (sy_client ?s i) \<noteq> None"
    by (simp add: demo_switched_def demo_public_simps getSecretName_def OIDCClientSecretName_def usesClientSecret_def ex_bool_eq Let_def)
  have "sy_phase ?s' 0 = Settled" "sy_phase ?s' 1 = Settled" by code_simp+
  with secret_reconciles_agree [OF mem_secret_server.secret_server_axioms start all run_reaches]
  show ?thesis unfolding Let_def by simp
qed

text \<open>
  A client switched from public to confidential may be left with a stale secret. Its Secret is
  there without a client secret, so no create decides between two reconciles: each generates one
  of its own and patches it in. Both complete, and the first goes on with a secret that is no
  longer the Secret's.
\<close>

theorem switched_client_secrets_diverge:
  "let s = run_schedule [0, 1, 0, 0, 1, 1] (demo_switched (Some [])) in
     sy_phase s 0 = Settled \<and> sy_phase s 1 = Settled
     \<and> oc_clientSecret (sy_client s 0) = Some (JStr ''xx'')
     \<and> oc_clientSecret (sy_client s 1) = Some (JStr ''xxx'')
     \<and> held_secret (map_of (dw_secrets (sy_world s)) (''auth'', ''oidc-client-wiki-owner-secrets'')) = Some (JStr ''xxx'')"
  by code_simp

end
