(* ===== verification/Reconciler.thy ===== *)
theory Reconciler
  imports Clients Redis
begin

text \<open>
  Keeping Redis and the cluster together: the sweep that removes client records whose resource is
  gone (\<^verbatim>\<open>src/services/client-redis-reconciler.js\<close>), and the detector that restarts the
  operators when Redis lost its data (\<^verbatim>\<open>src/services/redis-wipe-detector.js\<close>). The calls of the
  sweep are a parameter, with the contract \<open>sweep_server\<close>; the restart is a step relation, since
  standing down may fall into a restart.
\<close>

subsection \<open>The interval\<close>

datatype interval_error = BadInterval

text \<open>\<open>js_number\<close> is \<open>Number\<close>, \<open>None\<close> when the result is not an integer.\<close>

definition getReconcileIntervalMs :: "deployment \<Rightarrow> (string \<Rightarrow> int option) \<Rightarrow> interval_error + int" where
  "getReconcileIntervalMs D js_number =
     (if \<not> truthy (penv D ''RECONCILE_INTERVAL_MS'') then Inr (5 * 60 * 1000)
      else case js_number (tmpl (penv D ''RECONCILE_INTERVAL_MS'')) of
        Some n \<Rightarrow> if n < 0 then Inl BadInterval else Inr n
      | None \<Rightarrow> Inl BadInterval)"

subsection \<open>The sweep\<close>

text \<open>The namespace and id of a listed client; a list is \<open>None\<close> when it failed. The Redis calls may
  throw; \<open>sw_glob\<close> is picomatch.\<close>

record 'w sweep_calls =
  sw_list :: "string \<Rightarrow> string option \<Rightarrow> 'w \<Rightarrow> (string \<times> string) list option \<times> 'w"
  sw_members :: "'w \<Rightarrow> (unit + string list) \<times> 'w"
  sw_find :: "string \<Rightarrow> 'w \<Rightarrow> (unit + json option) \<times> 'w"
  sw_destroy :: "string \<Rightarrow> 'w \<Rightarrow> (unit + unit) \<times> 'w"
  sw_get :: "string \<Rightarrow> string \<Rightarrow> string \<Rightarrow> 'w \<Rightarrow> unit outcome \<times> 'w"
  sw_glob :: "string \<Rightarrow> string \<Rightarrow> bool"

definition sweptKinds :: "string list" where
  "sweptKinds = [''OIDCClient'', ''OIDCMiddlewareClient'']"

text \<open>The ids of a list's clients in scope; \<open>None\<close> when a list failed, and the rest are not asked for.\<close>

definition in_scope_ids :: "'w sweep_calls \<Rightarrow> namespace_filter \<Rightarrow> (string \<times> string) list \<Rightarrow> string list" where
  "in_scope_ids K f clients = map snd (filter (\<lambda>(ns, i). namespace_selected (sw_glob K) f ns) clients)"

fun listLiveClientIds :: "'w sweep_calls \<Rightarrow> namespace_filter \<Rightarrow> string list \<Rightarrow> 'w \<Rightarrow> string list option \<times> 'w" where
  "listLiveClientIds K f [] w = (Some [], w)"
| "listLiveClientIds K f (kind # kinds) w = (case sw_list K kind (nf_namespace f) w of
     (None, w1) \<Rightarrow> (None, w1)
   | (Some clients, w1) \<Rightarrow> (case listLiveClientIds K f kinds w1 of
       (None, w2) \<Rightarrow> (None, w2)
     | (Some live, w2) \<Rightarrow> (Some (in_scope_ids K f clients @ live), w2)))"

definition confirmAbsent :: "'w sweep_calls \<Rightarrow> json \<Rightarrow> 'w \<Rightarrow> bool \<times> 'w" where
  "confirmAbsent K r w =
     (let (found, w') = sw_get K (tmpl (str_field ''kind'' r)) (tmpl (str_field ''clientNamespace'' r))
            (tmpl (str_field ''client_name'' r)) w in (found = Absent, w'))"

text \<open>Whether a record is this sweep's to judge; \<open>None\<close> where picomatch throws, on a namespace that
  is no string.\<close>

definition judged :: "'w sweep_calls \<Rightarrow> namespace_filter \<Rightarrow> json \<Rightarrow> bool option" where
  "judged K f r =
     (if \<not> (\<exists>k \<in> set sweptKinds. str_field ''kind'' r = Some k) then Some False
      else case str_field ''clientNamespace'' r of
        None \<Rightarrow> None
      | Some ns \<Rightarrow> Some (namespace_selected (sw_glob K) f ns))"

text \<open>One member of the set: whether it was removed, or an error was thrown.\<close>

definition sweep_member ::
  "'w sweep_calls \<Rightarrow> namespace_filter \<Rightarrow> string list \<Rightarrow> string \<Rightarrow> 'w \<Rightarrow> (unit + bool) \<times> 'w" where
  "sweep_member K f live i w =
     (let destroy = (\<lambda>w. case sw_destroy K i w of (Inl e, w') \<Rightarrow> (Inl e, w') | (Inr _, w') \<Rightarrow> (Inr True, w')) in
      if i \<in> set live then (Inr False, w)
      else case sw_find K i w of
        (Inl e, w1) \<Rightarrow> (Inl e, w1)
      | (Inr record, w1) \<Rightarrow>
          if \<not> js_truthy record then destroy w1
          else case judged K f (the record) of
            None \<Rightarrow> (Inl (), w1)
          | Some False \<Rightarrow> (Inr False, w1)
          | Some True \<Rightarrow> (let (gone, w2) = confirmAbsent K (the record) w1 in
              if \<not> gone then (Inr False, w2) else destroy w2))"

fun removeOrphans ::
  "'w sweep_calls \<Rightarrow> namespace_filter \<Rightarrow> string list \<Rightarrow> string list \<Rightarrow> string list \<Rightarrow> 'w \<Rightarrow> (unit + string list) \<times> 'w" where
  "removeOrphans K f live [] removed w = (Inr removed, w)"
| "removeOrphans K f live (i # ids) removed w = (case sweep_member K f live i w of
     (Inl e, w') \<Rightarrow> (Inl e, w')
   | (Inr gone, w') \<Rightarrow> removeOrphans K f live ids (if gone then removed @ [i] else removed) w')"

definition sweep_round :: "'w sweep_calls \<Rightarrow> namespace_filter \<Rightarrow> 'w \<Rightarrow> (unit + string list) \<times> 'w" where
  "sweep_round K f w = (case listLiveClientIds K f sweptKinds w of
     (None, w1) \<Rightarrow> (Inr [], w1)
   | (Some live, w1) \<Rightarrow> (case sw_members K w1 of
       (Inl e, w2) \<Rightarrow> (Inl e, w2)
     | (Inr ids, w2) \<Rightarrow> removeOrphans K f live ids [] w2))"

text \<open>The reconciler's own state. A sweep that finds another running does nothing.\<close>

record reconciler =
  rc_timer :: bool
  rc_running :: bool

definition sweep :: "'w sweep_calls \<Rightarrow> namespace_filter \<Rightarrow> reconciler \<Rightarrow> 'w \<Rightarrow> (unit + string list) \<times> reconciler \<times> 'w" where
  "sweep K f rc w =
     (if rc_running rc then (Inr [], rc, w)
      else let (r, w') = sweep_round K f w in (r, rc\<lparr>rc_running := False\<rparr>, w'))"

definition reconciler_start :: "int \<Rightarrow> 'w sweep_calls \<Rightarrow> namespace_filter \<Rightarrow> reconciler \<Rightarrow> 'w \<Rightarrow> reconciler \<times> 'w" where
  "reconciler_start intervalMs K f rc w =
     (if rc_timer rc \<or> intervalMs = 0 then (rc, w) else snd (sweep K f (rc\<lparr>rc_timer := True\<rparr>) w))"

definition reconciler_stop :: "reconciler \<Rightarrow> reconciler" where
  "reconciler_stop rc = rc\<lparr>rc_timer := False\<rparr>"

subsection \<open>The contract of the calls\<close>

text \<open>\<open>record_at\<close> is the clients' records, \<open>member\<close> the set of their ids, \<open>exists\<close> whether a
  resource is there. The sweep runs alone. A destroy that throws may or may not have happened.\<close>

locale sweep_server =
  fixes K :: "'w sweep_calls"
    and record_at :: "'w \<Rightarrow> string \<Rightarrow> json option"
    and member :: "'w \<Rightarrow> string \<Rightarrow> bool"
    and exists :: "'w \<Rightarrow> string \<Rightarrow> string \<Rightarrow> string \<Rightarrow> bool"
  assumes list_call: "sw_list K k nso w = (r, w') \<Longrightarrow>
      record_at w' = record_at w \<and> member w' = member w \<and> exists w' = exists w"
    and members_call: "sw_members K w = (rm, w') \<Longrightarrow>
      record_at w' = record_at w \<and> member w' = member w \<and> exists w' = exists w
      \<and> (\<forall>xs. rm = Inr xs \<longrightarrow> distinct xs \<and> set xs = {i. member w i})"
    and find_call: "sw_find K i w = (rf, w') \<Longrightarrow>
      record_at w' = record_at w \<and> member w' = member w \<and> exists w' = exists w
      \<and> (\<forall>x. rf = Inr x \<longrightarrow> x = record_at w i)"
    and get_call: "sw_get K k ns n w = (g, w') \<Longrightarrow>
      record_at w' = record_at w \<and> member w' = member w \<and> exists w' = exists w
      \<and> (g = Absent \<longrightarrow> \<not> exists w k ns n) \<and> (g = Found () \<longrightarrow> exists w k ns n)"
    and destroy_call: "sw_destroy K i w = (rd, w') \<Longrightarrow> exists w' = exists w
      \<and> (record_at w' = (record_at w)(i := None) \<and> member w' = (member w)(i := False)
         \<or> (\<exists>e. rd = Inl e) \<and> record_at w' = record_at w \<and> member w' = member w)"
begin

text \<open>An id whose record may go: it has none, or one of a swept kind, in scope, whose resource is
  not there.\<close>

definition orphan :: "namespace_filter \<Rightarrow> 'w \<Rightarrow> string \<Rightarrow> bool" where
  "orphan f w i = (case record_at w i of
     None \<Rightarrow> True
   | Some r \<Rightarrow> \<not> js_truthy (Some r) \<or> judged K f r = Some True
       \<and> \<not> exists w (tmpl (str_field ''kind'' r)) (tmpl (str_field ''clientNamespace'' r)) (tmpl (str_field ''client_name'' r)))"

text \<open>What is different after a sweep that began at \<open>w0\<close>: exactly the ids in \<open>gone\<close>, orphans all.\<close>

definition swept :: "namespace_filter \<Rightarrow> string set \<Rightarrow> 'w \<Rightarrow> string set \<Rightarrow> 'w \<Rightarrow> bool" where
  "swept f live w0 gone w = (exists w = exists w0
     \<and> (\<forall>i. record_at w i = (if i \<in> gone then None else record_at w0 i))
     \<and> (\<forall>i. member w i = (member w0 i \<and> i \<notin> gone))
     \<and> (\<forall>i \<in> gone. i \<notin> live \<and> orphan f w0 i))"

lemma swept_frame:
  "record_at w' = record_at w \<Longrightarrow> member w' = member w \<Longrightarrow> exists w' = exists w \<Longrightarrow> swept f live w0 gone w' = swept f live w0 gone w"
  by (simp add: swept_def)

lemma destroyed:
  assumes "swept f live w0 gone w" "i \<notin> live" "orphan f w0 i" "sw_destroy K i w = (r, w')"
  shows "(case r of Inr _ \<Rightarrow> swept f live w0 (insert i gone) w'
     | Inl _ \<Rightarrow> swept f live w0 gone w' \<or> swept f live w0 (insert i gone) w')"
proof -
  have gone: "swept f live w0 (insert i gone) w'"
    if "exists w' = exists w" "record_at w' = (record_at w)(i := None)" "member w' = (member w)(i := False)"
    using that assms(1-3) unfolding swept_def by simp
  have kept: "swept f live w0 gone w'"
    if "exists w' = exists w" "record_at w' = record_at w" "member w' = member w"
    using that assms(1) unfolding swept_def by simp
  from destroy_call [OF assms(4)] gone kept show ?thesis by (cases r) auto
qed

lemma member_swept:
  assumes h: "swept f (set live) w0 gone w" and i: "i \<notin> gone" and m: "sweep_member K f live i w = (r, w')"
  shows "(case r of
      Inr True \<Rightarrow> swept f (set live) w0 (insert i gone) w'
    | Inr False \<Rightarrow> swept f (set live) w0 gone w' \<and> (i \<in> set live \<or> \<not> orphan f w0 i
         \<or> (\<exists>k ns n u. fst (sw_get K k ns n u) = Failed))
    | Inl _ \<Rightarrow> swept f (set live) w0 gone w' \<or> swept f (set live) w0 (insert i gone) w')"
proof (cases "i \<in> set live")
  case True
  with h m show ?thesis by (auto simp: sweep_member_def)
next
  case live: False
  obtain q w1 where q: "sw_find K i w = (q, w1)" by (meson surj_pair)
  from find_call [OF q] have h1: "swept f (set live) w0 gone w1" "\<And>x. q = Inr x \<Longrightarrow> x = record_at w0 i"
    using h i swept_frame [of w1 w] by (auto simp: swept_def)
  obtain d w2 where d: "sw_destroy K i w1 = (d, w2)" by (meson surj_pair)
  show ?thesis
  proof (cases q)
    case (Inl e)
    with m live q h1 show ?thesis by (auto simp: sweep_member_def)
  next
    case (Inr x)
    note x = h1(2) [OF Inr]
    show ?thesis
    proof (cases "js_truthy x")
      case False
      with x have o: "orphan f w0 i" by (auto simp: orphan_def split: option.split)
      from destroyed [OF h1(1) live o d] m live q Inr False d show ?thesis
        by (cases d) (auto simp: sweep_member_def split: sum.splits)
    next
      case True
      then obtain v where v: "x = Some v" by (cases x) (auto simp: js_truthy_def)
      with True have t: "js_truthy (Some v)" by simp
      have step: "sweep_member K f live i w = (case judged K f v of
            None \<Rightarrow> (Inl (), w1)
          | Some False \<Rightarrow> (Inr False, w1)
          | Some True \<Rightarrow> (let (gone, w2) = confirmAbsent K v w1 in
              if \<not> gone then (Inr False, w2)
              else case sw_destroy K i w2 of (Inl e, w') \<Rightarrow> (Inl e, w') | (Inr _, w') \<Rightarrow> (Inr True, w')))"
        using live q t by (simp add: sweep_member_def Inr v split: option.split bool.split)
      have r0: "record_at w0 i = Some v" using x v by simp
      show ?thesis
      proof (cases "judged K f v")
        case None
        with m step h1(1) show ?thesis by auto
      next
        case (Some b)
        show ?thesis
        proof (cases b)
          case False
          with Some r0 t have "\<not> orphan f w0 i" by (simp add: orphan_def)
          with m step h1(1) Some False show ?thesis by auto
        next
          case b: True
          obtain g w3 where g: "sw_get K (tmpl (str_field ''kind'' v)) (tmpl (str_field ''clientNamespace'' v))
              (tmpl (str_field ''client_name'' v)) w1 = (g, w3)" by (meson surj_pair)
          from get_call [OF g] h1(1) have h3: "swept f (set live) w0 gone w3" and ex: "exists w1 = exists w0"
            using swept_frame [of w3 w1] by (auto simp: swept_def)
          show ?thesis
          proof (cases "g = Absent")
            case True
            with get_call [OF g] ex r0 Some b have o: "orphan f w0 i" by (simp add: orphan_def)
            obtain e w4 where e: "sw_destroy K i w3 = (e, w4)" by (meson surj_pair)
            from destroyed [OF h3 live o e] m step Some b g True e show ?thesis
              by (cases e) (auto simp: confirmAbsent_def)
          next
            case False
            have "\<not> orphan f w0 i \<or> (\<exists>k ns n u. fst (sw_get K k ns n u) = Failed)"
            proof (cases g)
              case (Found y)
              with get_call [OF g] ex r0 t show ?thesis by (simp add: orphan_def)
            next
              case Failed
              with g have "fst (sw_get K (tmpl (str_field ''kind'' v)) (tmpl (str_field ''clientNamespace'' v))
                  (tmpl (str_field ''client_name'' v)) w1) = Failed" by simp
              then show ?thesis by blast
            qed (use False in simp)
            with m step Some b g False h3 show ?thesis by (auto simp: confirmAbsent_def)
          qed
        qed
      qed
    qed
  qed
qed

text \<open>What a round did: \<open>gone\<close> is removed, and with an answer, nothing but live ids, ids that are no
  orphans, and ids whose resource could not be read is left.\<close>

definition removal :: "namespace_filter \<Rightarrow> string set \<Rightarrow> 'w \<Rightarrow> string set \<Rightarrow> unit + string list \<Rightarrow> 'w \<Rightarrow> bool" where
  "removal f live w0 ids r w' = (\<exists>gone. gone \<subseteq> ids \<and> swept f live w0 gone w'
     \<and> (\<forall>xs. r = Inr xs \<longrightarrow> gone = set xs
          \<and> (\<forall>i \<in> ids - gone. i \<in> live \<or> \<not> orphan f w0 i \<or> (\<exists>k ns n u. fst (sw_get K k ns n u) = Failed))))"

lemma removeOrphans_removal:
  assumes "removeOrphans K f live ids removed w = (r, w')" "swept f (set live) w0 (set removed) w"
    and "distinct ids" "set ids \<inter> set removed = {}"
    and "\<forall>i \<in> seen - set removed. i \<in> set live \<or> \<not> orphan f w0 i \<or> (\<exists>k ns n u. fst (sw_get K k ns n u) = Failed)"
    and "set removed \<subseteq> seen"
  shows "removal f (set live) w0 (set ids \<union> seen) r w'"
  using assms
proof (induction ids arbitrary: removed w seen)
  case Nil
  then show ?case unfolding removal_def by (intro exI [of _ "set removed"]) auto
next
  case (Cons i ids)
  obtain q w1 where q: "sweep_member K f live i w = (q, w1)" by (meson surj_pair)
  from Cons.prems have i: "i \<notin> set removed" by auto
  note m = member_swept [OF Cons.prems(2) i q]
  show ?case
  proof (cases q)
    case (Inl e)
    with m Cons.prems q have "r = Inl e" "w' = w1"
      "swept f (set live) w0 (set removed) w1 \<or> swept f (set live) w0 (insert i (set removed)) w1" by auto
    then show ?thesis unfolding removal_def using Cons.prems(6) by (metis (no_types, lifting) Inl_Inr_False Un_iff
        insert_subset le_supI2 list.set_intros(1) subset_insertI2 list.simps(15))
  next
    case (Inr b)
    let ?removed = "if b then removed @ [i] else removed"
    have run: "removeOrphans K f live ids ?removed w1 = (r, w')" using Cons.prems(1) q Inr by simp
    have "removal f (set live) w0 (set ids \<union> insert i seen) r w'"
    proof (rule Cons.IH [OF run])
      show "swept f (set live) w0 (set ?removed) w1" using m Inr by (cases b) (auto split: if_splits)
      show "distinct ids" "set ids \<inter> set ?removed = {}" using Cons.prems(3,4) by auto
      show "\<forall>j \<in> insert i seen - set ?removed. j \<in> set live \<or> \<not> orphan f w0 j \<or> (\<exists>k ns n u. fst (sw_get K k ns n u) = Failed)"
        using m Inr Cons.prems(5) by (cases b) auto
      show "set ?removed \<subseteq> insert i seen" using Cons.prems(6) by auto
    qed
    then show ?thesis by simp
  qed
qed

lemma list_frame:
  "listLiveClientIds K f kinds w = (r, w') \<Longrightarrow> record_at w' = record_at w \<and> member w' = member w \<and> exists w' = exists w"
proof (induction kinds arbitrary: w r w')
  case (Cons k kinds)
  obtain q w1 where q: "sw_list K k (nf_namespace f) w = (q, w1)" by (meson surj_pair)
  obtain q2 w2 where q2: "listLiveClientIds K f kinds w1 = (q2, w2)" by (meson surj_pair)
  from list_call [OF q] Cons.IH [OF q2] Cons.prems q q2 show ?case by (auto split: option.splits)
qed simp

lemma swept_start: "record_at w = record_at w0 \<Longrightarrow> member w = member w0 \<Longrightarrow> exists w = exists w0 \<Longrightarrow> swept f live w0 {} w"
  by (simp add: swept_def)

lemma round_removal:
  assumes "sweep_round K f w = (r, w')"
  shows "(case fst (listLiveClientIds K f sweptKinds w) of
      None \<Rightarrow> r = Inr [] \<and> swept f {} w {} w'
    | Some live \<Rightarrow> removal f (set live) w {i. member w i} r w')"
proof -
  obtain l w1 where l: "listLiveClientIds K f sweptKinds w = (l, w1)" by (meson surj_pair)
  obtain m w2 where m: "sw_members K w1 = (m, w2)" by (meson surj_pair)
  note fr = list_frame [OF l] members_call [OF m]
  show ?thesis
  proof (cases l)
    case None
    with l assms fr(1) show ?thesis by (auto simp: sweep_round_def swept_start)
  next
    case (Some live)
    show ?thesis
    proof (cases m)
      case (Inl e)
      with l m assms Some fr have "r = Inl e" "swept f (set live) w {} w'" by (auto simp: sweep_round_def swept_start)
      with l Some show ?thesis by (auto simp: removal_def)
    next
      case (Inr ids)
      with l m assms Some have "removeOrphans K f live ids [] w2 = (r, w')" by (simp add: sweep_round_def)
      from removeOrphans_removal [OF this, of w "{}"] fr Inr have "removal f (set live) w (set ids) r w'"
        by (simp add: swept_start)
      with l Some Inr fr show ?thesis by simp
    qed
  qed
qed

end

subsection \<open>The adapter provides it\<close>

text \<open>The record store beside a cluster that lists its resources as (kind, namespace, name).\<close>

type_synonym resource_name = "string \<times> string \<times> string"

definition resource_client_id :: "resource_name \<Rightarrow> string" where
  "resource_client_id r = (case r of (kind, ns, n) \<Rightarrow>
     if kind = ''OIDCClient'' then OIDCClientId ns n else OIDCMiddlewareClientId ns n)"

definition store_sweep :: "'s redis \<Rightarrow> (string \<Rightarrow> string \<Rightarrow> bool) \<Rightarrow> ('s \<times> resource_name list) sweep_calls" where
  "store_sweep R glob = \<lparr>
     sw_list = (\<lambda>kind nso w. (Some (map (\<lambda>r. (fst (snd r), resource_client_id r))
        (filter (\<lambda>(k, ns, n). k = kind \<and> (nso = None \<or> nso = Some ns)) (snd w))), w)),
     sw_members = (\<lambda>w. (Inr (adapter_getSetMembers R ''Clients'' ''1'' (fst w)), w)),
     sw_find = (\<lambda>i w. (Inr (record_of R ''Client'' i (fst w)), w)),
     sw_destroy = (\<lambda>i w. (Inr (), (record_destroy R ''Client'' i (fst w), snd w))),
     sw_get = (\<lambda>kind ns n w. (if (kind, ns, n) \<in> set (snd w) then Found () else Absent, w)),
     sw_glob = glob\<rparr>"

definition store_record_at :: "'s redis \<Rightarrow> 's \<times> resource_name list \<Rightarrow> string \<Rightarrow> json option" where
  "store_record_at R w i = record_of R ''Client'' i (fst w)"

definition store_member :: "'s redis \<Rightarrow> 's \<times> resource_name list \<Rightarrow> string \<Rightarrow> bool" where
  "store_member R w i = (i \<in> set (adapter_getSetMembers R ''Clients'' ''1'' (fst w)))"

definition cluster_has :: "'s \<times> resource_name list \<Rightarrow> string \<Rightarrow> string \<Rightarrow> string \<Rightarrow> bool" where
  "cluster_has w kind ns n = ((kind, ns, n) \<in> set (snd w))"

context redis_server
begin

lemma Clients_after_destroy:
  "List.set (adapter_getSetMembers R ''Clients'' ''1'' (record_destroy R ''Client'' i s))
     = List.set (adapter_getSetMembers R ''Clients'' ''1'' s) - {i}"
proof -
  have n: "''Client'' \<notin> List.set consumable" "referencable ''Client'' = Some \<lparr>rf_listName = ''Clients'', rf_ownerKey = None, rf_expireKey = None\<rparr>"
    by (simp_all add: consumable_def referencable_def)
  have k: "redis_key ''Client'' i \<noteq> redis_key ''Clients'' ''1''" by (simp add: redis_key_def)
  have "rd_view R (record_destroy R ''Client'' i s) (redis_key ''Clients'' ''1'')
      = (let xs = filter (\<lambda>y. y \<noteq> i) (as_set (rd_view R s (redis_key ''Clients'' ''1''))) in
         if xs = [] then None else Some (RSet xs, expiry_of (rd_view R s (redis_key ''Clients'' ''1''))))"
    using n k by (simp add: record_destroy_def adapter_destroy_def adapter_find_def owner_of_def srem del Let_def)
  then have "as_set (rd_view R (record_destroy R ''Client'' i s) (redis_key ''Clients'' ''1''))
      = filter (\<lambda>y. y \<noteq> i) (as_set (rd_view R s (redis_key ''Clients'' ''1'')))"
    by (cases "filter (\<lambda>y. y \<noteq> i) (as_set (rd_view R s (redis_key ''Clients'' ''1'')))") (simp_all add: as_set_def)
  then show ?thesis
    unfolding adapter_getSetMembers_def conjunct2 [OF smembers] by auto
qed

lemma store_sweep_server:
  "sweep_server (store_sweep R glob) (store_record_at R) (store_member R) cluster_has"
proof (unfold_locales, goal_cases)
  case (5 i w rd w')
  then have "store_record_at R w' = (store_record_at R w)(i := None)" "store_member R w' = (store_member R w)(i := False)"
    by (auto simp: store_sweep_def store_record_at_def store_member_def fun_eq_iff Clients_after_destroy records.look_drop
        plain_name_def colon_free_def consumable_def set_names_def)
  with 5 show ?case by (auto simp: store_sweep_def cluster_has_def fun_eq_iff)
next
  case (2 w rm w')
  then show ?case using smembers by (auto simp: store_sweep_def store_member_def adapter_getSetMembers_def)
qed (auto simp: store_sweep_def store_record_at_def cluster_has_def split: if_splits)

end

interpretation mem_sweep: sweep_server "store_sweep mem_redis glob" "store_record_at mem_redis" "store_member mem_redis" cluster_has
  for glob
  by (rule mem_server.store_sweep_server)

subsection \<open>A Redis that lost its data\<close>

text \<open>The detector: \<open>find\<close> of the marker and writing it may throw, and so may the callback.\<close>

record 'w wipe_calls =
  wc_find :: "'w \<Rightarrow> (unit + bool) \<times> 'w"
  wc_mark :: "'w \<Rightarrow> (unit + unit) \<times> 'w"
  wc_onWipe :: "'w \<Rightarrow> (unit + unit) \<times> 'w"

definition wipe_check :: "'w wipe_calls \<Rightarrow> bool \<Rightarrow> 'w \<Rightarrow> (unit + bool) \<times> 'w" where
  "wipe_check K running w =
     (if running then (Inr False, w)
      else case wc_find K w of
        (Inl e, w1) \<Rightarrow> (Inl e, w1)
      | (Inr True, w1) \<Rightarrow> (Inr False, w1)
      | (Inr False, w1) \<Rightarrow> (case wc_mark K w1 of
          (Inl e, w2) \<Rightarrow> (Inl e, w2)
        | (Inr _, w2) \<Rightarrow> (case wc_onWipe K w2 of
            (Inl e, w3) \<Rightarrow> (Inl e, w3)
          | (Inr _, w3) \<Rightarrow> (Inr True, w3))))"

text \<open>\<open>restartOnRedisWipe\<close>. What \<open>start\<close> started is named by a number; \<open>wr_current\<close> is what
  \<open>stop\<close> stops, \<open>wr_restarting\<close> that the callback waits for \<open>start\<close>, and \<open>wr_marker\<close> that Redis
  holds the marker.\<close>

record watchers =
  wr_running :: "nat list"
  wr_current :: nat
  wr_stopped :: bool
  wr_restarting :: bool
  wr_timer :: bool
  wr_marker :: bool

inductive watchers_step :: "watchers \<Rightarrow> watchers \<Rightarrow> bool" where
  wiped: "watchers_step s (s\<lparr>wr_marker := False\<rparr>)"
| found: "wr_timer s \<Longrightarrow> \<not> wr_restarting s \<Longrightarrow> \<not> wr_marker s \<Longrightarrow>
    watchers_step s (s\<lparr>wr_marker := True, wr_restarting := True, wr_running := removeAll (wr_current s) (wr_running s)\<rparr>)"
| restarted: "wr_restarting s \<Longrightarrow> h \<notin> set (wr_running s) \<Longrightarrow> h \<noteq> wr_current s \<Longrightarrow>
    watchers_step s (s\<lparr>wr_restarting := False,
      wr_running := (if wr_stopped s then wr_running s else h # wr_running s),
      wr_current := (if wr_stopped s then wr_current s else h)\<rparr>)"
| failed: "wr_restarting s \<Longrightarrow> watchers_step s (s\<lparr>wr_restarting := False\<rparr>)"
| stand_down: "watchers_step s (s\<lparr>wr_stopped := True, wr_timer := False,
      wr_running := removeAll (wr_current s) (wr_running s)\<rparr>)"

definition watchers_started :: "nat \<Rightarrow> bool \<Rightarrow> watchers" where
  "watchers_started h marked = \<lparr>wr_running = [h], wr_current = h, wr_stopped = False, wr_restarting = False,
     wr_timer = True, wr_marker = marked\<rparr>"

definition watchers_inv :: "watchers \<Rightarrow> bool" where
  "watchers_inv s = (set (wr_running s) \<subseteq> {wr_current s} \<and> (wr_stopped s \<longrightarrow> wr_running s = [] \<and> \<not> wr_timer s)
     \<and> (wr_restarting s \<longrightarrow> wr_running s = []) \<and> length (wr_running s) \<le> 1)"

lemma watchers_inv_start: "watchers_inv (watchers_started h m)"
  by (simp add: watchers_inv_def watchers_started_def)

lemma removeAll_only: "set xs \<subseteq> {x} \<Longrightarrow> removeAll x xs = []"
  by (induction xs) auto

lemma watchers_inv_step: "watchers_step s s' \<Longrightarrow> watchers_inv s \<Longrightarrow> watchers_inv s'"
  by (induction rule: watchers_step.induct) (auto simp: watchers_inv_def removeAll_only)

lemma watchers_inv_run: "watchers_step\<^sup>*\<^sup>* s s' \<Longrightarrow> watchers_inv s \<Longrightarrow> watchers_inv s'"
  by (induction rule: rtranclp_induct) (auto intro: watchers_inv_step)

subsection \<open>Properties\<close>

text \<open>
  C31: The sweep removes orphans, and all it can tell. With a failed list it removes nothing. With
  both lists, the records and set members that differ afterwards are the removed ones: members of
  the set that were not listed as live, without a record, or with one of a swept kind in a selected
  namespace whose resource is not there. When the sweep answers, the answer names them, and what it
  leaves was live, was no orphan, or could not be read; when it throws, what it removed until then
  were orphans all the same.
\<close>

theorem sweep_removes_orphans:
  assumes "sweep_server K record_at member exists"
    and "sweep K f rc w = (r, rc', w')" "\<not> rc_running rc"
  shows "\<not> rc_running rc' \<and> (case fst (listLiveClientIds K f sweptKinds w) of
      None \<Rightarrow> r = Inr [] \<and> record_at w' = record_at w \<and> member w' = member w
    | Some live \<Rightarrow> \<exists>gone \<subseteq> {i. member w i}.
        (\<forall>i. record_at w' i = (if i \<in> gone then None else record_at w i) \<and> member w' i = (member w i \<and> i \<notin> gone))
        \<and> (\<forall>i \<in> gone. i \<notin> set live \<and> (\<forall>rec. record_at w i = Some rec \<and> js_truthy (Some rec) \<longrightarrow>
             judged K f rec = Some True \<and> \<not> exists w (tmpl (str_field ''kind'' rec))
               (tmpl (str_field ''clientNamespace'' rec)) (tmpl (str_field ''client_name'' rec))))
        \<and> (\<forall>xs. r = Inr xs \<longrightarrow> gone = set xs \<and> (\<forall>i. member w i \<and> i \<notin> gone \<longrightarrow> i \<in> set live
             \<or> (\<exists>rec. record_at w i = Some rec \<and> (judged K f rec \<noteq> Some True \<or>
                  exists w (tmpl (str_field ''kind'' rec)) (tmpl (str_field ''clientNamespace'' rec)) (tmpl (str_field ''client_name'' rec))))
             \<or> (\<exists>k ns n u. fst (sw_get K k ns n u) = Failed))))"
proof -
  note d = sweep_server.orphan_def [OF assms(1)] sweep_server.swept_def [OF assms(1)] sweep_server.removal_def [OF assms(1)]
  from assms(2,3) have s: "sweep_round K f w = (r, w')" "\<not> rc_running rc'"
    by (auto simp: sweep_def split: prod.splits)
  note r = sweep_server.round_removal [OF assms(1) s(1)]
  show ?thesis
  proof (cases "fst (listLiveClientIds K f sweptKinds w)")
    case None
    with r s(2) show ?thesis by (simp add: d fun_eq_iff)
  next
    case (Some live)
    with r obtain gone where g: "gone \<subseteq> {i. member w i}" "sweep_server.swept K record_at member exists f (set live) w gone w'"
      "\<forall>xs. r = Inr xs \<longrightarrow> gone = set xs \<and> (\<forall>i \<in> {i. member w i} - gone. i \<in> set live
          \<or> \<not> sweep_server.orphan K record_at exists f w i \<or> (\<exists>k ns n u. fst (sw_get K k ns n u) = Failed))"
      by (auto simp: sweep_server.removal_def [OF assms(1)])
    have o: "judged K f rec = Some True \<and> \<not> exists w (tmpl (str_field ''kind'' rec))
               (tmpl (str_field ''clientNamespace'' rec)) (tmpl (str_field ''client_name'' rec))"
      if "i \<in> gone" "record_at w i = Some rec \<and> js_truthy (Some rec)" for i rec
      using g(2) that unfolding d by auto
    have n: "\<exists>rec. record_at w i = Some rec \<and> (judged K f rec \<noteq> Some True \<or>
        exists w (tmpl (str_field ''kind'' rec)) (tmpl (str_field ''clientNamespace'' rec)) (tmpl (str_field ''client_name'' rec)))"
      if "\<not> sweep_server.orphan K record_at exists f w i" for i
      using that unfolding d by (auto split: option.splits)
    have k: "record_at w' i = (if i \<in> gone then None else record_at w i) \<and> member w' i = (member w i \<and> i \<notin> gone)" for i
      using g(2) unfolding sweep_server.swept_def [OF assms(1)] by blast
    have l: "i \<notin> set live" if "i \<in> gone" for i
      using g(2) that unfolding sweep_server.swept_def [OF assms(1)] by blast
    have x: "gone = set xs \<and> (\<forall>i. member w i \<and> i \<notin> gone \<longrightarrow> i \<in> set live
             \<or> (\<exists>rec. record_at w i = Some rec \<and> (judged K f rec \<noteq> Some True \<or>
                  exists w (tmpl (str_field ''kind'' rec)) (tmpl (str_field ''clientNamespace'' rec)) (tmpl (str_field ''client_name'' rec))))
             \<or> (\<exists>k ns n u. fst (sw_get K k ns n u) = Failed))" if "r = Inr xs" for xs
    proof
      show "gone = set xs" using g(3) that by simp
      show "\<forall>i. member w i \<and> i \<notin> gone \<longrightarrow> i \<in> set live
             \<or> (\<exists>rec. record_at w i = Some rec \<and> (judged K f rec \<noteq> Some True \<or>
                  exists w (tmpl (str_field ''kind'' rec)) (tmpl (str_field ''clientNamespace'' rec)) (tmpl (str_field ''client_name'' rec))))
             \<or> (\<exists>k ns n u. fst (sw_get K k ns n u) = Failed)"
      proof (intro allI impI)
        fix i assume i: "member w i \<and> i \<notin> gone"
        with g(3) that have "i \<in> set live \<or> \<not> sweep_server.orphan K record_at exists f w i
            \<or> (\<exists>k ns n u. fst (sw_get K k ns n u) = Failed)" by simp
        with n [of i] show "i \<in> set live
             \<or> (\<exists>rec. record_at w i = Some rec \<and> (judged K f rec \<noteq> Some True \<or>
                  exists w (tmpl (str_field ''kind'' rec)) (tmpl (str_field ''clientNamespace'' rec)) (tmpl (str_field ''client_name'' rec))))
             \<or> (\<exists>k ns n u. fst (sw_get K k ns n u) = Failed)" by argo
      qed
    qed
    show ?thesis
      unfolding Some option.case
    proof (intro conjI exI [of _ gone])
      show "\<not> rc_running rc'" by (rule s(2))
      show "gone \<subseteq> {i. member w i}" by (rule g(1))
    qed (intro allI ballI impI conjI; use k l o x in metis)+
  qed
qed

definition demo_stale :: "mem \<times> resource_name list" where
  "demo_stale = (adapter_upsert mem_redis 0 ''Client'' ''auth.wiki''
     (JObj [(''kind'', JStr ''OIDCClient''), (''clientNamespace'', JStr ''auth''), (''client_name'', JStr ''wiki'')]) None mem_empty,
     [])"

definition demo_sweep :: "(unit + string list) \<times> reconciler \<times> (mem \<times> resource_name list)" where
  "demo_sweep = sweep (store_sweep mem_redis (\<lambda>_ _. True)) \<lparr>nf_namespace = None, nf_namespaces = []\<rparr>
     \<lparr>rc_timer = True, rc_running = False\<rparr> demo_stale"

theorem sweep_removes_orphans_witness:
  "store_record_at mem_redis (snd (snd demo_sweep)) ''auth.wiki'' = None"
proof -
  have e: "fst demo_sweep = Inr [''auth.wiki'']" by code_simp
  have l: "fst (listLiveClientIds (store_sweep mem_redis (\<lambda>_ _. True)) \<lparr>nf_namespace = None, nf_namespaces = []\<rparr> sweptKinds demo_stale)
      = Some []" by code_simp
  have s: "sweep (store_sweep mem_redis (\<lambda>_ _. True)) \<lparr>nf_namespace = None, nf_namespaces = []\<rparr>
      \<lparr>rc_timer = True, rc_running = False\<rparr> demo_stale = (Inr [''auth.wiki''], fst (snd demo_sweep), snd (snd demo_sweep))"
    using e unfolding demo_sweep_def by (metis prod.collapse)
  have n: "\<not> rc_running \<lparr>rc_timer = True, rc_running = False\<rparr>" by simp
  note t = sweep_removes_orphans [OF mem_sweep.sweep_server_axioms s n, unfolded l option.case]
  from conjunct2 [OF t] obtain gone where
    k: "\<forall>i. store_record_at mem_redis (snd (snd demo_sweep)) i = (if i \<in> gone then None else store_record_at mem_redis demo_stale i)
        \<and> store_member mem_redis (snd (snd demo_sweep)) i = (store_member mem_redis demo_stale i \<and> i \<notin> gone)"
    and g: "Inr [''auth.wiki''] = (Inr [''auth.wiki''] :: unit + string list) \<longrightarrow> gone = set [''auth.wiki'']"
    by (elim exE conjE) (drule_tac x = "[''auth.wiki'']" in spec, iprover)
  from g have "''auth.wiki'' \<in> gone" by simp
  with k show ?thesis by simp
qed

text \<open>
  Only one set of operators runs. However wipes, restarts that succeed or fail, and standing
  down fall into one another, at most one set of watches is running, the one that standing down
  would stop; none runs once stood down, not even when that fell into a restart. A set of watches
  starts as a whole or not at all here; what a start leaves running that fails part-way is in
  \<open>Operators\<close>.
\<close>

theorem one_set_of_watches:
  assumes "watchers_step\<^sup>*\<^sup>* (watchers_started h marked) s"
  shows "length (wr_running s) \<le> 1 \<and> set (wr_running s) \<subseteq> {wr_current s} \<and> (wr_stopped s \<longrightarrow> wr_running s = [])"
  using watchers_inv_run [OF assms watchers_inv_start] by (simp add: watchers_inv_def)

theorem one_set_of_watches_witness:
  "let s = \<lparr>wr_running = [], wr_current = 0, wr_stopped = True, wr_restarting = False, wr_timer = False, wr_marker = True\<rparr> in
   length (wr_running s) \<le> 1"
proof -
  let ?s1 = "\<lparr>wr_running = [], wr_current = 0, wr_stopped = False, wr_restarting = True, wr_timer = True, wr_marker = True\<rparr>"
  let ?s2 = "\<lparr>wr_running = [], wr_current = 0, wr_stopped = True, wr_restarting = True, wr_timer = False, wr_marker = True\<rparr>"
  let ?s3 = "\<lparr>wr_running = [], wr_current = 0, wr_stopped = True, wr_restarting = False, wr_timer = False, wr_marker = True\<rparr>"
  have "watchers_step (watchers_started 0 False) ?s1"
    using found [of "watchers_started 0 False"] by (simp add: watchers_started_def)
  moreover have "watchers_step ?s1 ?s2" using stand_down [of ?s1] by simp
  moreover have "watchers_step ?s2 ?s3" using restarted [of ?s2 1] by simp
  ultimately have "watchers_step\<^sup>*\<^sup>* (watchers_started 0 False) ?s3"
    by (meson rtranclp.rtrancl_into_rtrancl rtranclp.rtrancl_refl)
  from one_set_of_watches [OF this] show ?thesis by (simp add: Let_def)
qed

end
