(* ===== verification/ProviderConfig.thy ===== *)
theory ProviderConfig
  imports Claims
begin

text \<open>
  The callbacks that \<^verbatim>\<open>src/configuration.js\<close> hands to the OpenID provider: who a refresh token
  still works for, which resources a client may name (\<^verbatim>\<open>src/utils/resource-allowlist.js\<close>), how
  long tokens live and when refresh tokens rotate, and the validation of a client's own metadata
  (\<^verbatim>\<open>src/utils/session/is-origin.js\<close>). The provider is not part of the repository; what the
  configuration relies on about its refresh tokens is the locale \<open>refresh_tokens\<close>.
\<close>

subsection \<open>Accounts behind refresh tokens\<close>

definition findAccount_config ::
  "deployment \<Rightarrow> 'c client_policy_scheme option \<Rightarrow> string option \<Rightarrow> account option \<Rightarrow> tos_document option \<Rightarrow> account option" where
  "findAccount_config D client token_kind acc doc =
     (if token_kind = Some ''RefreshToken'' \<and> getAccountAccessFailure D client acc doc \<noteq> None then None else acc)"

subsection \<open>Resources\<close>

definition allowlistRequired :: "deployment \<Rightarrow> bool" where
  "allowlistRequired D = env_is D ''RESOURCE_ALLOWLIST_REQUIRED'' ''true''"

definition isResourceAllowed :: "json option \<Rightarrow> string \<Rightarrow> bool \<Rightarrow> bool" where
  "isResourceAllowed client resource required = (case field ''allowedResources'' client of
     Some (JArr rs) \<Rightarrow> JStr resource \<in> set rs
   | _ \<Rightarrow> \<not> required)"

definition isResourceIndicator :: "deployment \<Rightarrow> json \<Rightarrow> bool" where
  "isResourceIndicator D v = (case v of
     JStr s \<Rightarrow> (case parse_url D s of
       None \<Rightarrow> False
     | Some u \<Rightarrow> (u_protocol u = ''https:'' \<or> u_protocol u = ''http:'') \<and> u_hash u = [] \<and> CHR ''#'' \<notin> set s)
   | _ \<Rightarrow> False)"

definition isOrigin :: "deployment \<Rightarrow> json \<Rightarrow> bool" where
  "isOrigin D v = (case v of
     JStr s \<Rightarrow> (case parse_url D s of None \<Rightarrow> False | Some u \<Rightarrow> s = u_origin u)
   | _ \<Rightarrow> False)"

datatype config_error = InvalidTarget | InvalidClientMetadata string

record resource_server =
  rsv_audience :: string
  rsv_accessTokenTTL :: int
  rsv_accessTokenFormat :: string
  rsv_scope :: string
  rsv_alg :: string

text \<open>\<open>join\<close> writes a member that is no string as text of its own; a client's scopes are strings.\<close>

definition scope_list :: "json option \<Rightarrow> string list" where
  "scope_list v = (if js_truthy v then (case v of Some (JArr xs) \<Rightarrow> somes (map (\<lambda>x. case x of JStr s \<Rightarrow> Some s | _ \<Rightarrow> None) xs) | _ \<Rightarrow> [])
     else [''openid'', ''profile'', ''groups'', ''offline_access''])"

definition getResourceServerInfo :: "deployment \<Rightarrow> string \<Rightarrow> json \<Rightarrow> config_error + resource_server" where
  "getResourceServerInfo D resource client =
     (if \<not> isResourceAllowed (Some client) resource (allowlistRequired D) then Inl InvalidTarget
      else Inr \<lparr>rsv_audience = resource, rsv_accessTokenTTL = 60 * 60, rsv_accessTokenFormat = ''jwt'',
        rsv_scope = join_with '' '' (scope_list (field ''availableScopes'' (Some client))), rsv_alg = ''RS256''\<rparr>)"

subsection \<open>Lifetimes\<close>

text \<open>A refresh token as the callbacks see it at one moment: what the provider's methods return.\<close>

record refresh_view =
  rv_totalLifetime :: int
  rv_remainingTTL :: int
  rv_percentagePassed :: int
  rv_senderConstrained :: bool

record oauth_client =
  oa_applicationType :: string
  oa_authMethod :: string
  oa_grantTypes :: "string list"

definition AccessTokenTTL :: "int option \<Rightarrow> int" where
  "AccessTokenTTL server_ttl = (case server_ttl of Some t \<Rightarrow> if t = 0 then 60 * 60 else t | None \<Rightarrow> 60 * 60)"

definition ClientCredentialsTTL :: "int option \<Rightarrow> int" where
  "ClientCredentialsTTL server_ttl = (case server_ttl of Some t \<Rightarrow> if t = 0 then 10 * 60 else t | None \<Rightarrow> 10 * 60)"

text \<open>\<open>js_number\<close> is the unary plus, \<open>None\<close> for \<open>NaN\<close>; so is the result.\<close>

definition BackchannelAuthenticationRequestTTL :: "(string \<Rightarrow> int option) \<Rightarrow> string option \<Rightarrow> int option" where
  "BackchannelAuthenticationRequestTTL js_number requested_expiry =
     (if truthy requested_expiry then map_option (\<lambda>n. min (10 * 60) n) (js_number (tmpl requested_expiry))
      else Some (10 * 60))"

text \<open>\<open>rotated\<close> is the token being rotated, if any; \<open>constrained\<close> the new token's own binding.\<close>

definition RefreshTokenTTL :: "refresh_view option \<Rightarrow> oauth_client \<Rightarrow> bool \<Rightarrow> int" where
  "RefreshTokenTTL rotated client constrained = (case rotated of
     Some old \<Rightarrow>
       if oa_applicationType client = ''web'' \<and> oa_authMethod client = ''none'' \<and> \<not> constrained
       then rv_remainingTTL old else 14 * 24 * 60 * 60
   | None \<Rightarrow> 14 * 24 * 60 * 60)"

definition rotateRefreshToken :: "refresh_view \<Rightarrow> oauth_client \<Rightarrow> bool" where
  "rotateRefreshToken t client =
     (if 100 * rv_totalLifetime t \<ge> 36525 * 24 * 60 * 60 then False
      else if oa_authMethod client = ''none'' \<and> \<not> rv_senderConstrained t then True
      else rv_percentagePassed t \<ge> 70)"

definition issueRefreshToken :: "oauth_client \<Rightarrow> bool" where
  "issueRefreshToken client = (''refresh_token'' \<in> set (oa_grantTypes client))"

definition introspectionAllowedPolicy :: "oauth_client \<Rightarrow> string \<Rightarrow> string \<Rightarrow> bool" where
  "introspectionAllowedPolicy client client_id token_client_id =
     (\<not> (oa_authMethod client = ''none'' \<and> token_client_id \<noteq> client_id))"

subsection \<open>Client metadata\<close>

definition extra_properties :: "string list" where
  "extra_properties = [''allowedGroups'', ''allowedUsers'', ''claimMappings'', ''clientNamespace'', ''availableScopes'',
     ''allowedResources'', ''kind'', ''uri'', ''displayName'', ''pkce'', ''overrideIncomingScopes'', ''allowedCORSOrigins'']"

definition metadata_validator ::
  "deployment \<Rightarrow> string \<Rightarrow> (string \<times> json) list \<Rightarrow> config_error + (string \<times> json) list" where
  "metadata_validator D key md =
     (let v = map_of md key in
      if key = ''claimMappings'' \<and> nullish v then Inr (AList.update ''claimMappings'' (JObj []) md)
      else if key = ''allowedResources'' then
        (if nullish v then Inr (AList.delete ''allowedResources'' md)
         else case v of
           Some (JArr xs) \<Rightarrow> if list_all (isResourceIndicator D) xs then Inr md else Inl (InvalidClientMetadata key)
         | _ \<Rightarrow> Inl (InvalidClientMetadata key))
      else if key = ''allowedCORSOrigins'' then
        (case v of
           None \<Rightarrow> Inr (AList.update ''allowedCORSOrigins'' (JArr []) md)
         | Some (JArr xs) \<Rightarrow> if list_all (isOrigin D) xs then Inr md else Inl (InvalidClientMetadata key)
         | _ \<Rightarrow> Inl (InvalidClientMetadata key))
      else Inr md)"

text \<open>The provider calls the validator once per property, in order, present or not.\<close>

fun validate_metadata ::
  "deployment \<Rightarrow> string list \<Rightarrow> (string \<times> json) list \<Rightarrow> config_error + (string \<times> json) list" where
  "validate_metadata D [] md = Inr md"
| "validate_metadata D (k # ks) md = (case metadata_validator D k md of
     Inl e \<Rightarrow> Inl e | Inr md' \<Rightarrow> validate_metadata D ks md')"

text \<open>Reading \<open>includes\<close> of what is no list or string throws: \<open>None\<close>.\<close>

definition clientBasedCORS :: "string \<Rightarrow> (string \<times> json) list \<Rightarrow> bool option" where
  "clientBasedCORS origin md = (case map_of md ''allowedCORSOrigins'' of
     Some (JArr xs) \<Rightarrow> Some (JStr origin \<in> set xs)
   | _ \<Rightarrow> None)"

definition pkceRequired :: "(string \<times> json) list \<Rightarrow> bool" where
  "pkceRequired md = js_truthy (map_of md ''pkce'')"

subsection \<open>Lemmas on the validation\<close>

lemma validator_other:
  "metadata_validator D k md = Inr md' \<Longrightarrow> j \<noteq> k \<Longrightarrow> map_of md' j = map_of md j"
  by (auto simp: metadata_validator_def Let_def update_conv' delete_conv' split: if_splits option.splits json.splits)

lemma validate_other:
  "validate_metadata D ks md = Inr md' \<Longrightarrow> j \<notin> set ks \<Longrightarrow> map_of md' j = map_of md j"
  by (induction ks arbitrary: md) (auto simp: validator_other split: sum.splits)

lemma validate_append:
  "validate_metadata D (ks @ ls) md = (case validate_metadata D ks md of Inl e \<Rightarrow> Inl e | Inr m \<Rightarrow> validate_metadata D ls m)"
  by (induction ks arbitrary: md) (auto split: sum.split)

text \<open>What the validator says of a property, it says of the final metadata.\<close>

lemma validated_at:
  assumes "validate_metadata D (ks @ k # ls) md = Inr md'" "k \<notin> set ls"
  shows "\<exists>m1 m2. metadata_validator D k m1 = Inr m2 \<and> map_of md' k = map_of m2 k"
proof -
  from assms(1) obtain m1 where m1: "validate_metadata D (k # ls) m1 = Inr md'"
    unfolding validate_append by (auto split: sum.splits)
  then obtain m2 where "metadata_validator D k m1 = Inr m2" "validate_metadata D ls m2 = Inr md'"
    by (auto split: sum.splits)
  with validate_other [OF this(2) assms(2)] show ?thesis by blast
qed

lemma validated_claimMappings:
  "metadata_validator D ''claimMappings'' m1 = Inr m2 \<Longrightarrow> \<not> nullish (map_of m2 ''claimMappings'')"
  by (auto simp: metadata_validator_def nullish_def Let_def update_conv' split: if_splits)

lemma validated_resources:
  "metadata_validator D ''allowedResources'' m1 = Inr m2 \<Longrightarrow>
     map_of m2 ''allowedResources'' = None
     \<or> (\<exists>xs. map_of m2 ''allowedResources'' = Some (JArr xs) \<and> (\<forall>x \<in> set xs. isResourceIndicator D x))"
  by (auto simp: metadata_validator_def nullish_def Let_def delete_conv' list_all_iff split: if_splits option.splits json.splits)

lemma validated_origins:
  "metadata_validator D ''allowedCORSOrigins'' m1 = Inr m2 \<Longrightarrow>
     \<exists>xs. map_of m2 ''allowedCORSOrigins'' = Some (JArr xs) \<and> (\<forall>x \<in> set xs. isOrigin D x)"
  by (auto simp: metadata_validator_def Let_def update_conv' list_all_iff split: if_splits option.splits json.splits)

subsection \<open>Refresh tokens of the provider\<close>

text \<open>What the provider documents of its refresh tokens: a token expires its lifetime after it is
  issued, rotating keeps the time of first issue, the total lifetime runs from there, and what
  remains runs to the expiry. Times are in seconds.\<close>

locale refresh_tokens =
  fixes view :: "'t \<Rightarrow> int \<Rightarrow> refresh_view"
    and expires :: "'t \<Rightarrow> int"
    and first_issued :: "'t \<Rightarrow> int"
    and fresh :: "int \<Rightarrow> int \<Rightarrow> bool \<Rightarrow> 't"
    and rotate_to :: "'t \<Rightarrow> int \<Rightarrow> int \<Rightarrow> 't"
  assumes fresh_laws: "expires (fresh t ttl b) = t + ttl" "first_issued (fresh t ttl b) = t"
    "rv_senderConstrained (view (fresh t ttl b) u) = b"
    and rotate_laws: "expires (rotate_to x t ttl) = t + ttl" "first_issued (rotate_to x t ttl) = first_issued x"
      "rv_senderConstrained (view (rotate_to x t ttl) u) = rv_senderConstrained (view x t)"
    and total: "rv_totalLifetime (view x t) = t - first_issued x"
    and remaining: "rv_remainingTTL (view x t) = expires x - t"

text \<open>The tokens one sign-in leads to: the first, and each one a live token is rotated to.\<close>

inductive refresh_chain ::
  "('t \<Rightarrow> int \<Rightarrow> refresh_view) \<Rightarrow> ('t \<Rightarrow> int) \<Rightarrow> (int \<Rightarrow> int \<Rightarrow> bool \<Rightarrow> 't) \<Rightarrow> ('t \<Rightarrow> int \<Rightarrow> int \<Rightarrow> 't)
     \<Rightarrow> oauth_client \<Rightarrow> bool \<Rightarrow> int \<Rightarrow> 't \<Rightarrow> bool"
  for view expires fresh rotate_to client constrained t0 where
  issued: "issueRefreshToken client \<Longrightarrow>
    refresh_chain view expires fresh rotate_to client constrained t0 (fresh t0 (RefreshTokenTTL None client constrained) constrained)"
| used: "refresh_chain view expires fresh rotate_to client constrained t0 x \<Longrightarrow> t0 \<le> t \<Longrightarrow> t < expires x \<Longrightarrow>
    rotateRefreshToken (view x t) client \<Longrightarrow>
    refresh_chain view expires fresh rotate_to client constrained t0
      (rotate_to x t (RefreshTokenTTL (Some (view x t)) client (rv_senderConstrained (view x t))))"

context refresh_tokens
begin

lemma chain_bounds:
  assumes "refresh_chain view expires fresh rotate_to client constrained t0 x"
  shows "first_issued x = t0 \<and> (\<forall>t. rv_senderConstrained (view x t) = constrained)
    \<and> expires x < t0 + 31557600 + 1209600
    \<and> (oa_applicationType client = ''web'' \<and> oa_authMethod client = ''none'' \<and> \<not> constrained \<longrightarrow> expires x = t0 + 1209600)"
  using assms
proof induction
  case issued
  then show ?case by (simp add: fresh_laws RefreshTokenTTL_def)
next
  case (used x t)
  then have "100 * (t - t0) < 36525 * 24 * 60 * 60"
    by (auto simp: rotateRefreshToken_def total split: if_splits)
  then have t: "t - t0 < 31557600" by simp
  let ?ttl = "RefreshTokenTTL (Some (view x t)) client (rv_senderConstrained (view x t))"
  have "?ttl = (if oa_applicationType client = ''web'' \<and> oa_authMethod client = ''none'' \<and> \<not> constrained
      then expires x - t else 1209600)"
    using used.IH by (simp add: RefreshTokenTTL_def remaining)
  with t used.IH show ?case by (auto simp: rotate_laws)
qed

end

text \<open>Tokens as records, one way to keep what is documented.\<close>

record refresh_token =
  rk_first :: int
  rk_issued :: int
  rk_expires :: int
  rk_constrained :: bool

definition token_view :: "refresh_token \<Rightarrow> int \<Rightarrow> refresh_view" where
  "token_view x t = \<lparr>rv_totalLifetime = t - rk_first x, rv_remainingTTL = rk_expires x - t,
     rv_percentagePassed = (100 * (t - rk_issued x)) div (rk_expires x - rk_issued x), rv_senderConstrained = rk_constrained x\<rparr>"

definition fresh_token :: "int \<Rightarrow> int \<Rightarrow> bool \<Rightarrow> refresh_token" where
  "fresh_token t ttl b = \<lparr>rk_first = t, rk_issued = t, rk_expires = t + ttl, rk_constrained = b\<rparr>"

definition rotated_token :: "refresh_token \<Rightarrow> int \<Rightarrow> int \<Rightarrow> refresh_token" where
  "rotated_token x t ttl = x\<lparr>rk_issued := t, rk_expires := t + ttl\<rparr>"

interpretation record_tokens: refresh_tokens token_view rk_expires rk_first fresh_token rotated_token
  by unfold_locales (simp_all add: token_view_def fresh_token_def rotated_token_def)

subsection \<open>Properties\<close>

text \<open>
  C33: Rotation cannot extend a sign-in without end. However often and whenever the refresh tokens
  of one sign-in are rotated, each of them expires within one year and fourteen days of the sign-in;
  those of a public web client that are not sender-constrained all expire fourteen days after it.
\<close>

theorem refresh_chain_bounded:
  assumes "refresh_tokens view expires first_issued fresh rotate_to"
    and "refresh_chain view expires fresh rotate_to client constrained t0 x"
  shows "expires x < t0 + 31557600 + 1209600
    \<and> (oa_applicationType client = ''web'' \<and> oa_authMethod client = ''none'' \<and> \<not> constrained \<longrightarrow> expires x = t0 + 1209600)"
  using refresh_tokens.chain_bounds [OF assms] by blast

definition demo_spa :: oauth_client where
  "demo_spa = \<lparr>oa_applicationType = ''web'', oa_authMethod = ''none'', oa_grantTypes = [''refresh_token'']\<rparr>"

theorem refresh_chain_bounded_witness:
  "rk_expires (rotated_token (fresh_token 0 1209600 False) 600000 (1209600 - 600000)) = 1209600"
proof -
  let ?x = "fresh_token 0 1209600 False"
  have i: "refresh_chain token_view rk_expires fresh_token rotated_token demo_spa False 0 ?x"
    using issued [of demo_spa token_view rk_expires fresh_token rotated_token False 0]
    by (simp add: demo_spa_def issueRefreshToken_def RefreshTokenTTL_def)
  have "refresh_chain token_view rk_expires fresh_token rotated_token demo_spa False 0 (rotated_token ?x 600000 (1209600 - 600000))"
    using used [OF i, of 600000]
    by (simp add: demo_spa_def rotateRefreshToken_def RefreshTokenTTL_def token_view_def fresh_token_def)
  from refresh_chain_bounded [OF record_tokens.refresh_tokens_axioms this] show ?thesis
    by (simp add: demo_spa_def)
qed



end
