(* ===== verification/Effects.thy ===== *)
theory Effects
  imports Json
begin

text \<open>
  Handlers that call out to the world and may throw: a small state-and-error monad, the loop
  \<open>for ... of\<close>, and one proof rule per construct. The services and routes are written in it.
\<close>

type_synonym ('w, 'e, 'a) effect = "'w \<Rightarrow> ('e + 'a) \<times> 'w"

definition e_return :: "'a \<Rightarrow> ('w, 'e, 'a) effect" where
  "e_return x = (\<lambda>w. (Inr x, w))"

definition e_throw :: "'e \<Rightarrow> ('w, 'e, 'a) effect" where
  "e_throw e = (\<lambda>w. (Inl e, w))"

definition e_then :: "('w, 'e, 'a) effect \<Rightarrow> ('a \<Rightarrow> ('w, 'e, 'b) effect) \<Rightarrow> ('w, 'e, 'b) effect" where
  "e_then m f = (\<lambda>w. case m w of (Inl e, w') \<Rightarrow> (Inl e, w') | (Inr x, w') \<Rightarrow> f x w')"

text \<open>A call that answers, and one that may throw an error of its own.\<close>

definition e_call :: "('w \<Rightarrow> 'a \<times> 'w) \<Rightarrow> ('w, 'e, 'a) effect" where
  "e_call k = (\<lambda>w. let (x, w') = k w in (Inr x, w'))"

definition e_try :: "'e \<Rightarrow> ('w \<Rightarrow> (unit + 'a) \<times> 'w) \<Rightarrow> ('w, 'e, 'a) effect" where
  "e_try e k = (\<lambda>w. case k w of (Inl _, w') \<Rightarrow> (Inl e, w') | (Inr x, w') \<Rightarrow> (Inr x, w'))"

definition e_require :: "bool \<Rightarrow> 'e \<Rightarrow> ('w, 'e, unit) effect" where
  "e_require b e = (if b then e_return () else e_throw e)"

text \<open>A value, or the error of not having one.\<close>

definition e_get :: "'e \<Rightarrow> 'a option \<Rightarrow> ('w, 'e, 'a) effect" where
  "e_get e v = (case v of None \<Rightarrow> e_throw e | Some x \<Rightarrow> e_return x)"

text \<open>\<open>for (const x of xs)\<close>, carrying a value along.\<close>

fun e_each :: "'a list \<Rightarrow> 's \<Rightarrow> ('a \<Rightarrow> 's \<Rightarrow> ('w, 'e, 's) effect) \<Rightarrow> ('w, 'e, 's) effect" where
  "e_each [] s f = e_return s"
| "e_each (x # xs) s f = e_then (f x s) (\<lambda>s'. e_each xs s' f)"

text \<open>From worlds with \<open>P\<close>, a result ends in \<open>Q\<close> of it and an error in \<open>F\<close>.\<close>

definition runs :: "('w \<Rightarrow> bool) \<Rightarrow> ('w, 'e, 'a) effect \<Rightarrow> ('a \<Rightarrow> 'w \<Rightarrow> bool) \<Rightarrow> ('w \<Rightarrow> bool) \<Rightarrow> bool" where
  "runs P m Q F = (\<forall>w. P w \<longrightarrow> (case m w of (Inr x, w') \<Rightarrow> Q x w' | (Inl e, w') \<Rightarrow> F w'))"

named_theorems effect_rules "one rule per construct"

lemma runs_return [effect_rules]: "(\<And>w. P w \<Longrightarrow> Q x w) \<Longrightarrow> runs P (e_return x) Q F"
  by (simp add: runs_def e_return_def)

lemma runs_throw [effect_rules]: "(\<And>w. P w \<Longrightarrow> F w) \<Longrightarrow> runs P (e_throw e) Q F"
  by (simp add: runs_def e_throw_def)

lemma runs_then: "runs P m R F \<Longrightarrow> (\<And>x. runs (R x) (f x) Q F) \<Longrightarrow> runs P (e_then m f) Q F"
  unfolding runs_def e_then_def by (fastforce split: prod.splits sum.splits)

lemma runs_call [effect_rules]: "(\<And>w x w'. P w \<Longrightarrow> k w = (x, w') \<Longrightarrow> Q x w') \<Longrightarrow> runs P (e_call k) Q F"
  by (simp add: runs_def e_call_def Let_def split: prod.split)

lemma runs_try [effect_rules]:
  "(\<And>w x w'. P w \<Longrightarrow> k w = (Inr x, w') \<Longrightarrow> Q x w') \<Longrightarrow> (\<And>w u w'. P w \<Longrightarrow> k w = (Inl u, w') \<Longrightarrow> F w') \<Longrightarrow>
   runs P (e_try e k) Q F"
  by (simp add: runs_def e_try_def split: prod.split sum.split)

lemma runs_require [effect_rules]:
  "(\<And>w. P w \<Longrightarrow> b \<Longrightarrow> Q () w) \<Longrightarrow> (\<And>w. P w \<Longrightarrow> \<not> b \<Longrightarrow> F w) \<Longrightarrow> runs P (e_require b e) Q F"
  by (simp add: e_require_def runs_return runs_throw)

lemma runs_get [effect_rules]:
  "(\<And>w x. P w \<Longrightarrow> v = Some x \<Longrightarrow> Q x w) \<Longrightarrow> (\<And>w. P w \<Longrightarrow> F w) \<Longrightarrow> runs P (e_get e v) Q F"
  by (cases v) (simp_all add: e_get_def runs_return runs_throw)

lemma runs_conseq:
  "runs P m Q F \<Longrightarrow> (\<And>w. P' w \<Longrightarrow> P w) \<Longrightarrow> (\<And>x w. Q x w \<Longrightarrow> Q' x w) \<Longrightarrow> (\<And>w. F w \<Longrightarrow> F' w) \<Longrightarrow> runs P' m Q' F'"
  unfolding runs_def by (fastforce split: prod.splits sum.splits)

lemma runs_fact: "(b \<Longrightarrow> runs P m Q F) \<Longrightarrow> runs (\<lambda>w. P w \<and> b) m Q F"
  by (cases b) (simp_all add: runs_def)

lemma runs_each:
  assumes "\<And>x s. x \<in> set xs \<Longrightarrow> runs (I s) (f x s) I F"
  shows "runs (I s) (e_each xs s f) I F"
  using assms by (induction xs arbitrary: s) (auto intro!: runs_return intro: runs_then)

text \<open>An invariant, kept whether the handler throws or not.\<close>

definition stays :: "('w \<Rightarrow> bool) \<Rightarrow> ('w, 'e, 'a) effect \<Rightarrow> bool" where
  "stays P m = runs P m (\<lambda>_. P) P"

lemma stays_return [effect_rules]: "stays P (e_return x)"
  by (simp add: stays_def runs_return)

lemma stays_throw [effect_rules]: "stays P (e_throw e)"
  by (simp add: stays_def runs_throw)

lemma stays_require [effect_rules]: "stays P (e_require b e)"
  by (simp add: stays_def runs_require)

lemma stays_get [effect_rules]: "stays P (e_get e v)"
  by (simp add: stays_def runs_get)

lemma stays_then [effect_rules]: "stays P m \<Longrightarrow> (\<And>x. stays P (f x)) \<Longrightarrow> stays P (e_then m f)"
  unfolding stays_def by (rule runs_then)

lemma stays_if [effect_rules]: "(b \<Longrightarrow> stays P m) \<Longrightarrow> (\<not> b \<Longrightarrow> stays P m') \<Longrightarrow> stays P (if b then m else m')"
  by simp

lemma stays_option [effect_rules]:
  "stays P m \<Longrightarrow> (\<And>x. v = Some x \<Longrightarrow> stays P (f x)) \<Longrightarrow> stays P (case v of None \<Rightarrow> m | Some x \<Rightarrow> f x)"
  by (cases v) simp_all

lemma stays_sum [effect_rules]:
  "(\<And>e. stays P (g e)) \<Longrightarrow> (\<And>x. stays P (f x)) \<Longrightarrow> stays P (case v of Inl e \<Rightarrow> g e | Inr x \<Rightarrow> f x)"
  by (cases v) simp_all

lemma stays_call: "(\<And>w x w'. P w \<Longrightarrow> k w = (x, w') \<Longrightarrow> P w') \<Longrightarrow> stays P (e_call k)"
  by (simp add: stays_def runs_call)

lemma stays_try: "(\<And>w x w'. P w \<Longrightarrow> k w = (x, w') \<Longrightarrow> P w') \<Longrightarrow> stays P (e_try e k)"
  by (simp add: stays_def runs_try)

lemma stays_each [effect_rules]: "(\<And>x s. x \<in> set xs \<Longrightarrow> stays P (f x s)) \<Longrightarrow> stays P (e_each xs s f)"
  by (induction xs arbitrary: s) (auto intro: effect_rules)

lemma stays_end: "stays P m \<Longrightarrow> P w \<Longrightarrow> P (snd (m w))"
  unfolding stays_def runs_def by (metis (no_types, lifting) case_prod_beta prod.collapse sum.case_eq_if)

lemma runs_result:
  assumes "runs P m Q F" "P w" "m w = (r, w')"
  shows "case r of Inr x \<Rightarrow> Q x w' | Inl e \<Rightarrow> F w'"
  using assms unfolding runs_def by (metis (no_types, lifting) case_prod_conv sum.case_eq_if)

text \<open>Running: what a handler does where its first part answers or throws.\<close>

lemma e_then_result: "m w = (Inr x, w') \<Longrightarrow> e_then m f w = f x w'"
  by (simp add: e_then_def)

lemma e_then_error: "m w = (Inl e, w') \<Longrightarrow> e_then m f w = (Inl e, w')"
  by (simp add: e_then_def)

lemma e_then_call: "k w = (x, w') \<Longrightarrow> e_then (e_call k) f w = f x w'"
  by (simp add: e_then_def e_call_def)

lemma e_then_return [simp]: "e_then (e_return x) f = f x"
  by (simp add: e_then_def e_return_def)

lemma e_then_throw [simp]: "e_then (e_throw e) f = e_throw e"
  by (simp add: e_then_def e_throw_def)

end
