(* ===== verification/Scim.thy ===== *)
theory Scim
  imports Effects Access
begin

text \<open>
  SCIM provisioning: the connection (\<^verbatim>\<open>src/models/scim-connection.js\<close>) and its credentials
  (\<^verbatim>\<open>src/services/scim-connection-service.js\<close>), the directory of subjects and groups that one
  connection owns (\<^verbatim>\<open>src/models/scim-directory-resource.js\<close>,
  \<^verbatim>\<open>src/services/scim-directory-service.js\<close>), and the operations of the protocol
  (\<^verbatim>\<open>src/services/scim-service.js\<close>). The calls on the cluster are a parameter; a request is the JSON
  it carries. An identity is a record of the members the service writes.
\<close>

subsection \<open>Connections\<close>

record scim_linking =
  ln_provider :: string
  ln_tenantClaim :: string
  ln_tenantValue :: string
  ln_subjectClaim :: string

record scim_connection =
  sc_id :: string
  sc_uid :: string
  sc_resourceVersion :: nat
  sc_group :: group
  sc_grantMode :: string
  sc_tokenHashes :: "string list"
  sc_disabled :: bool
  sc_linking :: "scim_linking option"

record scim_connection_spec =
  sp_group :: group
  sp_grantMode :: "string option"
  sp_tokenHashes :: "string list option"
  sp_disabled :: "bool option"
  sp_linking :: "scim_linking option"

definition scim_fromKubernetes :: "string \<Rightarrow> string option \<Rightarrow> nat \<Rightarrow> scim_connection_spec \<Rightarrow> scim_connection" where
  "scim_fromKubernetes name uid version s =
     \<lparr>sc_id = name, sc_uid = (case uid of Some u \<Rightarrow> u | None \<Rightarrow> name), sc_resourceVersion = version,
      sc_group = sp_group s, sc_grantMode = (case sp_grantMode s of Some g \<Rightarrow> g | None \<Rightarrow> ''all-users''),
      sc_tokenHashes = (case sp_tokenHashes s of Some h \<Rightarrow> h | None \<Rightarrow> []),
      sc_disabled = (sp_disabled s = Some True), sc_linking = sp_linking s\<rparr>"

definition sc_sourceKey :: "scim_connection \<Rightarrow> string" where
  "sc_sourceKey c = ''scim-'' @ sc_uid c"

text \<open>\<open>sha\<close> is SHA-256 as bytes and \<open>of_hex\<close> reads hexadecimal, stopping where it ends.\<close>

definition equalHash :: "(string \<Rightarrow> nat list) \<Rightarrow> nat list \<Rightarrow> string \<Rightarrow> bool" where
  "equalHash of_hex presented expected =
     (length presented = 32 \<and> length (of_hex expected) = 32 \<and> presented = of_hex expected)"

definition scim_authenticate :: "(string \<Rightarrow> nat list) \<Rightarrow> (string \<Rightarrow> nat list) \<Rightarrow> scim_connection \<Rightarrow> string option \<Rightarrow> bool" where
  "scim_authenticate sha of_hex c token =
     (truthy token \<and> (\<exists>h \<in> set (sc_tokenHashes c). equalHash of_hex (sha (tmpl token)) h))"

subsection \<open>Directory resources\<close>

datatype scim_kind = SCIMSubject | SCIMGroup

text \<open>\<open>externalId\<close> is kept as it came; the other members are strings where the service writes them.\<close>

record scim_identity =
  si_resourceType :: string
  si_externalId :: "json option"
  si_userName :: "string option"
  si_displayName :: "string option"
  si_active :: "bool option"
  si_emails :: "(string \<times> bool) list option"
  si_sourceGroups :: "string list option"
  si_groups :: "group list option"
  si_createdAt :: "string option"
  si_lastModified :: "string option"

record dir_resource =
  dr_accountId :: string
  dr_resourceVersion :: nat
  dr_kind :: scim_kind
  dr_identity :: scim_identity
  dr_connectionUid :: string
  dr_linkedAccountId :: "string option"

definition dr_is_group :: "dir_resource \<Rightarrow> bool" where
  "dr_is_group r = (dr_kind r = SCIMGroup)"

definition getIdentity :: "scim_connection \<Rightarrow> string \<Rightarrow> dir_resource \<Rightarrow> scim_identity option" where
  "getIdentity c sourceKey r =
     (if sourceKey = sc_sourceKey c \<and> dr_connectionUid r = sc_uid c then Some (dr_identity r) else None)"

subsection \<open>The calls\<close>

text \<open>A list is \<open>None\<close> when it failed, a resource when it is not there or the request failed.
  \<open>sd_link\<close> replaces the status, \<open>sd_onChange\<close> is the projection onto the linked account.\<close>

record 'w scim_calls =
  sd_list :: "scim_kind \<Rightarrow> 'w \<Rightarrow> dir_resource list option \<times> 'w"
  sd_get :: "scim_kind \<Rightarrow> string \<Rightarrow> 'w \<Rightarrow> dir_resource option \<times> 'w"
  sd_create :: "scim_kind \<Rightarrow> string \<Rightarrow> string \<Rightarrow> string \<Rightarrow> scim_identity \<Rightarrow> 'w \<Rightarrow> dir_resource option \<times> 'w"
  sd_patch :: "scim_kind \<Rightarrow> string \<Rightarrow> scim_identity \<Rightarrow> scim_identity \<Rightarrow> 'w \<Rightarrow> dir_resource option \<times> 'w"
  sd_link :: "string \<Rightarrow> nat \<Rightarrow> string \<Rightarrow> 'w \<Rightarrow> dir_resource option \<times> 'w"
  sd_onChange :: "dir_resource \<Rightarrow> 'w \<Rightarrow> (unit + unit) \<times> 'w"
  sd_now :: "'w \<Rightarrow> string \<times> 'w"
  sd_digest :: "string \<Rightarrow> string"
  sd_string :: "json \<Rightarrow> string"

text \<open>A \<open>ScimError\<close> with its status and type; any other error is answered as an internal one.\<close>

datatype scim_failure = ScimError nat "string option" | ServerError

type_synonym ('w, 'a) scim = "('w, scim_failure, 'a) effect"

subsection \<open>The directory\<close>

definition dir_list :: "'w scim_calls \<Rightarrow> scim_connection \<Rightarrow> scim_kind \<Rightarrow> ('w, dir_resource list) scim" where
  "dir_list K c kind = e_then (e_call (sd_list K kind)) (\<lambda>rs.
     e_return (filter (\<lambda>r. dr_connectionUid r = sc_uid c) (case rs of Some rs \<Rightarrow> rs | None \<Rightarrow> [])))"

definition dir_listUsers :: "'w scim_calls \<Rightarrow> scim_connection \<Rightarrow> ('w, dir_resource list) scim" where
  "dir_listUsers K c = e_then (dir_list K c SCIMSubject) (\<lambda>ss. e_then (dir_list K c SCIMGroup) (\<lambda>gs. e_return (ss @ gs)))"

definition dir_findUser :: "'w scim_calls \<Rightarrow> scim_connection \<Rightarrow> string \<Rightarrow> ('w, dir_resource option) scim" where
  "dir_findUser K c i = e_then (e_call (sd_get K SCIMSubject i)) (\<lambda>s.
     case s of
       Some r \<Rightarrow> if dr_connectionUid r = sc_uid c then e_return (Some r)
         else e_then (e_call (sd_get K SCIMGroup i)) (\<lambda>g. e_return (case g of
           Some r \<Rightarrow> if dr_connectionUid r = sc_uid c then Some r else None | None \<Rightarrow> None))
     | None \<Rightarrow> e_then (e_call (sd_get K SCIMGroup i)) (\<lambda>g. e_return (case g of
           Some r \<Rightarrow> if dr_connectionUid r = sc_uid c then Some r else None | None \<Rightarrow> None)))"

definition createProvisionedUser ::
  "'w scim_calls \<Rightarrow> scim_connection \<Rightarrow> string \<Rightarrow> scim_kind \<Rightarrow> scim_identity \<Rightarrow> ('w, dir_resource option) scim" where
  "createProvisionedUser K c i kind identity =
     e_then (e_call (sd_create K kind i (sc_id c) (sc_uid c) identity)) (\<lambda>created.
       case created of
         None \<Rightarrow> e_return None
       | Some r \<Rightarrow> e_then (e_try ServerError (sd_onChange K r)) (\<lambda>_. e_return (Some r)))"

definition updateUserSpecs :: "'w scim_calls \<Rightarrow> scim_connection \<Rightarrow> string \<Rightarrow> scim_identity \<Rightarrow> ('w, dir_resource) scim" where
  "updateUserSpecs K c i identity =
     e_then (dir_findUser K c i) (\<lambda>found. e_then (e_get ServerError found) (\<lambda>r.
     e_then (e_call (sd_patch K (dr_kind r) i identity (dr_identity r))) (\<lambda>updated.
     e_then (e_get ServerError updated) (\<lambda>u.
     e_then (e_try ServerError (sd_onChange K u)) (\<lambda>_. e_return u)))))"

definition linkSubject :: "'w scim_calls \<Rightarrow> dir_resource \<Rightarrow> string \<Rightarrow> ('w, dir_resource) scim" where
  "linkSubject K subject account =
     (if dr_is_group subject then e_throw ServerError
      else e_then (e_call (sd_link K (dr_accountId subject) (dr_resourceVersion subject) account)) (e_get ServerError))"

subsection \<open>Reading requests\<close>

definition resourceId :: "'w scim_calls \<Rightarrow> string \<Rightarrow> string \<Rightarrow> string \<Rightarrow> string" where
  "resourceId K kind connectionId externalId =
     ''scim-'' @ kind @ ''-'' @ take 24 (sd_digest K (connectionId @ CHR 0x00 # externalId))"

definition email_entry :: "json \<Rightarrow> (string \<times> bool) option" where
  "email_entry e = map_option (\<lambda>v. (v, field ''primary'' (Some e) = Some (JBool True))) (str_field ''value'' e)"

definition emailsFrom :: "json option \<Rightarrow> (string \<times> bool) list" where
  "emailsFrom v = (case v of Some (JArr es) \<Rightarrow> somes (map email_entry es) | _ \<Rightarrow> [])"

text \<open>A member that must be a string and not blank.\<close>

definition required_name :: "string \<Rightarrow> json option \<Rightarrow> string option" where
  "required_name k resource = (case field k resource of
     Some (JStr s) \<Rightarrow> if trim s = [] then None else Some s
   | _ \<Rightarrow> None)"

definition text_of :: "'w scim_calls \<Rightarrow> json option \<Rightarrow> string" where
  "text_of K v = (case v of None \<Rightarrow> ''undefined'' | Some j \<Rightarrow> sd_string K j)"

text \<open>\<open>a ?? b\<close> on members.\<close>

definition given :: "json option \<Rightarrow> json option \<Rightarrow> json option" where
  "given a b = (if nullish a then b else a)"

definition projectGroups :: "scim_connection \<Rightarrow> scim_identity \<Rightarrow> scim_identity" where
  "projectGroups c s =
     (let granted = (si_active s \<noteq> Some False
        \<and> (sc_grantMode c = ''all-users'' \<or> list_or_empty (si_sourceGroups s) \<noteq> [])) in
      s\<lparr>si_groups := Some (if granted then [sc_group c] else [])\<rparr>)"

definition userIdentity ::
  "'w scim_calls \<Rightarrow> json \<Rightarrow> string \<Rightarrow> json option \<Rightarrow> string option \<Rightarrow> string list \<Rightarrow> string \<Rightarrow> scim_identity" where
  "userIdentity K resource userName externalId createdAt sourceGroups now =
     (let displayName = given (field ''displayName'' (Some resource)) (field ''formatted'' (field ''name'' (Some resource))) in
      \<lparr>si_resourceType = ''User'', si_externalId = externalId, si_userName = Some userName,
       si_displayName = (if js_truthy displayName then Some (text_of K displayName) else None),
       si_active = Some (field ''active'' (Some resource) \<noteq> Some (JBool False)),
       si_emails = Some (emailsFrom (field ''emails'' (Some resource))),
       si_sourceGroups = Some sourceGroups, si_groups = None,
       si_createdAt = createdAt, si_lastModified = Some now\<rparr>)"

subsection \<open>What is answered\<close>

record scim_meta =
  me_resourceType :: string
  me_created :: "string option"
  me_lastModified :: "string option"
  me_version :: string
  me_location :: string

record user_resource =
  ur_id :: string
  ur_externalId :: "json option"
  ur_userName :: "string option"
  ur_displayName :: "string option"
  ur_active :: bool
  ur_emails :: "(string \<times> bool) list"
  ur_meta :: scim_meta

record group_resource =
  gr_id :: string
  gr_externalId :: "json option"
  gr_displayName :: "string option"
  gr_members :: "(string \<times> string \<times> string option) list"
  gr_meta :: scim_meta

definition baseUrl :: "scim_connection \<Rightarrow> string" where
  "baseUrl c = (let url = ''/scim/v2/'' @ sc_id c in if ends_with ''/'' url then butlast url else url)"

definition scim_meta_of :: "'w scim_calls \<Rightarrow> scim_connection \<Rightarrow> string \<Rightarrow> dir_resource \<Rightarrow> scim_meta" where
  "scim_meta_of K c ty r = \<lparr>me_resourceType = ty, me_created = si_createdAt (dr_identity r),
     me_lastModified = si_lastModified (dr_identity r),
     me_version = ''W/'' @ [CHR 0x22] @ sd_string K (JNum (int (dr_resourceVersion r))) @ [CHR 0x22],
     me_location = baseUrl c @ ''/'' @ ty @ ''s/'' @ dr_accountId r\<rparr>"

definition userResource :: "'w scim_calls \<Rightarrow> scim_connection \<Rightarrow> dir_resource \<Rightarrow> user_resource" where
  "userResource K c r = (let s = dr_identity r in
     \<lparr>ur_id = dr_accountId r, ur_externalId = si_externalId s, ur_userName = si_userName s,
      ur_displayName = si_displayName s, ur_active = (si_active s \<noteq> Some False),
      ur_emails = list_or_empty (si_emails s), ur_meta = scim_meta_of K c ''User'' r\<rparr>)"

subsection \<open>Users\<close>

definition scim_listUsers :: "'w scim_calls \<Rightarrow> scim_connection \<Rightarrow> ('w, dir_resource list) scim" where
  "scim_listUsers K c = e_then (dir_listUsers K c) (\<lambda>rs.
     e_return (filter (\<lambda>r. \<not> dr_is_group r \<and> getIdentity c (sc_sourceKey c) r \<noteq> None) rs))"

definition scim_listGroups :: "'w scim_calls \<Rightarrow> scim_connection \<Rightarrow> ('w, dir_resource list) scim" where
  "scim_listGroups K c = e_then (dir_listUsers K c) (\<lambda>rs.
     e_return (filter (\<lambda>r. dr_is_group r \<and> getIdentity c (sc_sourceKey c) r \<noteq> None
        \<and> si_active (dr_identity r) \<noteq> Some False) rs))"

definition scim_findUser :: "'w scim_calls \<Rightarrow> scim_connection \<Rightarrow> string \<Rightarrow> ('w, dir_resource) scim" where
  "scim_findUser K c i = e_then (dir_findUser K c i) (\<lambda>found. case found of
     Some r \<Rightarrow> if dr_is_group r \<or> getIdentity c (sc_sourceKey c) r = None then e_throw (ScimError 404 None) else e_return r
   | None \<Rightarrow> e_throw (ScimError 404 None))"

definition scim_findGroup :: "'w scim_calls \<Rightarrow> scim_connection \<Rightarrow> string \<Rightarrow> ('w, dir_resource) scim" where
  "scim_findGroup K c i = e_then (dir_findUser K c i) (\<lambda>found. case found of
     Some r \<Rightarrow> if \<not> dr_is_group r \<or> getIdentity c (sc_sourceKey c) r = None \<or> si_active (dr_identity r) = Some False
               then e_throw (ScimError 404 None) else e_return r
   | None \<Rightarrow> e_throw (ScimError 404 None))"

definition externalId_of :: "'w scim_calls \<Rightarrow> json option \<Rightarrow> string \<Rightarrow> string" where
  "externalId_of K externalId name = (if js_truthy externalId then text_of K externalId else name)"

definition createUser :: "'w scim_calls \<Rightarrow> scim_connection \<Rightarrow> json option \<Rightarrow> ('w, user_resource) scim" where
  "createUser K c resource =
     e_then (e_get (ScimError 400 (Some ''invalidValue'')) (required_name ''userName'' resource)) (\<lambda>userName.
     let externalId = externalId_of K (field ''externalId'' resource) userName in
     e_then (scim_listUsers K c) (\<lambda>users.
     e_then (e_require (\<not> (\<exists>r \<in> set users. si_externalId (dr_identity r) = Some (JStr externalId)
         \<or> si_userName (dr_identity r) = Some userName)) (ScimError 409 (Some ''uniqueness''))) (\<lambda>_.
     e_then (e_call (sd_now K)) (\<lambda>createdAt.
     e_then (e_call (sd_now K)) (\<lambda>now.
     e_then (createProvisionedUser K c (resourceId K ''u'' (sc_uid c) externalId) SCIMSubject
        (projectGroups c (userIdentity K (the resource) userName (Some (JStr externalId)) (Some createdAt) [] now))) (\<lambda>created.
     e_then (e_get (ScimError 409 (Some ''uniqueness'')) created) (\<lambda>r. e_return (userResource K c r))))))))"

definition replaceUser :: "'w scim_calls \<Rightarrow> scim_connection \<Rightarrow> string \<Rightarrow> json option \<Rightarrow> ('w, user_resource) scim" where
  "replaceUser K c i resource =
     e_then (scim_findUser K c i) (\<lambda>account.
     e_then (e_get (ScimError 400 (Some ''invalidValue'')) (required_name ''userName'' resource)) (\<lambda>userName.
     let previous = dr_identity account in
     e_then (e_call (sd_now K)) (\<lambda>now.
     e_then (updateUserSpecs K c i (projectGroups c (userIdentity K (the resource) userName
        (given (field ''externalId'' resource) (si_externalId previous)) (si_createdAt previous)
        (list_or_empty (si_sourceGroups previous)) now))) (\<lambda>r. e_return (userResource K c r)))))"

text \<open>\<open>emails[...].value\<close>\<close>

definition email_sub_path :: "string \<Rightarrow> bool" where
  "email_sub_path p = (starts_with ''emails['' p \<and> ends_with ''].value'' p \<and> length p \<ge> 14
     \<and> CHR '']'' \<notin> set (take (length p - 14) (drop 7 p)))"

definition patchableUserValues :: "'w scim_calls \<Rightarrow> json \<Rightarrow> scim_identity \<Rightarrow> scim_identity" where
  "patchableUserValues K value s =
     (let f = (\<lambda>k. field k (Some value)) in
      s\<lparr>si_userName := (if f ''userName'' \<noteq> None then Some (text_of K (f ''userName'')) else si_userName s),
        si_displayName := (if f ''displayName'' \<noteq> None then Some (text_of K (f ''displayName'')) else si_displayName s),
        si_externalId := (if f ''externalId'' \<noteq> None then Some (JStr (text_of K (f ''externalId''))) else si_externalId s),
        si_active := (if f ''active'' \<noteq> None then Some (f ''active'' \<noteq> Some (JBool False)) else si_active s),
        si_emails := (if f ''emails'' \<noteq> None then Some (emailsFrom (f ''emails'')) else si_emails s),
        si_sourceGroups := Some (list_or_empty (si_sourceGroups s))\<rparr>)"

definition is_object :: "json option \<Rightarrow> bool" where
  "is_object v = (case v of Some (JObj _) \<Rightarrow> True | Some (JArr _) \<Rightarrow> True | _ \<Rightarrow> False)"

definition is_str_value :: "json option \<Rightarrow> bool" where
  "is_str_value v = (case v of Some j \<Rightarrow> is_str j | None \<Rightarrow> False)"

text \<open>The items of \<open>operations ?? []\<close>; \<open>None\<close> where iterating throws.\<close>

definition operation_items :: "json option \<Rightarrow> json list option" where
  "operation_items v = (if nullish v then Some [] else case v of
     Some (JArr xs) \<Rightarrow> Some xs | Some (JStr s) \<Rightarrow> Some (map (\<lambda>ch. JStr [ch]) s) | _ \<Rightarrow> None)"

definition operation_op :: "'w scim_calls \<Rightarrow> json \<Rightarrow> string" where
  "operation_op K oper = to_lower (if js_truthy (field ''op'' (Some oper)) then text_of K (field ''op'' (Some oper)) else [])"

text \<open>The path of an operation: absent, a string, or what has no \<open>toLowerCase\<close>.\<close>

definition operation_path :: "json \<Rightarrow> string option option" where
  "operation_path oper = (case field ''path'' (Some oper) of
     None \<Rightarrow> Some None | Some JNull \<Rightarrow> Some None | Some (JStr s) \<Rightarrow> Some (Some s) | _ \<Rightarrow> None)"

definition patch_user_operation :: "'w scim_calls \<Rightarrow> json \<Rightarrow> scim_identity \<Rightarrow> scim_failure + scim_identity" where
  "patch_user_operation K oper s =
     (let op = operation_op K oper; v = field ''value'' (Some oper) in
      if oper = JNull then Inl ServerError
      else if op \<notin> {''add'', ''replace'', ''remove''} then Inl (ScimError 400 (Some ''invalidSyntax''))
      else case operation_path oper of
        None \<Rightarrow> Inl ServerError
      | Some p \<Rightarrow>
          (let path = map_option to_lower p in
           if \<not> truthy path \<and> is_object v then Inr (patchableUserValues K (the v) s)
           else if path = Some ''active'' then
             Inr (s\<lparr>si_active := Some (if op = ''remove'' then False else v \<noteq> Some (JBool False))\<rparr>)
           else if path = Some ''username'' then
             (if op = ''remove'' then Inl (ScimError 400 (Some ''mutability''))
              else Inr (s\<lparr>si_userName := Some (text_of K v)\<rparr>))
           else if path = Some ''displayname'' then
             Inr (s\<lparr>si_displayName := (if op = ''remove'' then None else Some (text_of K v))\<rparr>)
           else if path = Some ''externalid'' then
             Inr (s\<lparr>si_externalId := (if op = ''remove'' then None else Some (JStr (text_of K v)))\<rparr>)
           else if starts_with ''emails'' (tmpl path) \<and> path \<noteq> None then
             (if op = ''remove'' then Inr (s\<lparr>si_emails := Some []\<rparr>)
              else if path = Some ''emails'' then Inr (s\<lparr>si_emails := Some (emailsFrom v)\<rparr>)
              else if email_sub_path (tmpl path) \<and> is_str_value v then
                Inr (s\<lparr>si_emails := Some [(case v of Some (JStr e) \<Rightarrow> e | _ \<Rightarrow> [], True)]\<rparr>)
              else Inl (ScimError 400 (Some ''invalidPath'')))
           else Inl (ScimError 400 (Some ''invalidPath''))))"

fun patch_user_operations :: "'w scim_calls \<Rightarrow> json list \<Rightarrow> scim_identity \<Rightarrow> scim_failure + scim_identity" where
  "patch_user_operations K [] s = Inr s"
| "patch_user_operations K (oper # opers) s = (case patch_user_operation K oper s of
     Inl e \<Rightarrow> Inl e | Inr s' \<Rightarrow> patch_user_operations K opers s')"

definition patchUser :: "'w scim_calls \<Rightarrow> scim_connection \<Rightarrow> string \<Rightarrow> json option \<Rightarrow> ('w, user_resource) scim" where
  "patchUser K c i operations =
     e_then (scim_findUser K c i) (\<lambda>account.
     e_then (e_get ServerError (operation_items operations)) (\<lambda>opers.
     case patch_user_operations K opers (dr_identity account) of
       Inl e \<Rightarrow> e_throw e
     | Inr s \<Rightarrow> e_then (e_call (sd_now K)) (\<lambda>now.
         e_then (updateUserSpecs K c i (projectGroups c (s\<lparr>si_lastModified := Some now\<rparr>)))
           (\<lambda>r. e_return (userResource K c r)))))"

definition deactivateUser :: "'w scim_calls \<Rightarrow> scim_connection \<Rightarrow> string \<Rightarrow> ('w, user_resource) scim" where
  "deactivateUser K c i = patchUser K c i (Some (JArr [JObj [(''op'', JStr ''replace''), (''path'', JStr ''active''),
     (''value'', JBool False)]]))"

end
