(* ===== verification/ScimGroups.thy ===== *)
theory ScimGroups
  imports Scim
begin

text \<open>
  The groups of a SCIM connection (\<^verbatim>\<open>src/services/scim-service.js\<close>): their operations, and the
  membership kept on the subjects.
\<close>

subsection \<open>Members\<close>

definition member_of :: "string \<Rightarrow> scim_identity \<Rightarrow> bool" where
  "member_of g s = (g \<in> set (list_or_empty (si_sourceGroups s)))"

definition group_members :: "string \<Rightarrow> dir_resource list \<Rightarrow> dir_resource list" where
  "group_members g users = filter (\<lambda>r. member_of g (dr_identity r)) users"

definition groupResource :: "'w scim_calls \<Rightarrow> scim_connection \<Rightarrow> dir_resource \<Rightarrow> dir_resource list \<Rightarrow> group_resource" where
  "groupResource K c r users = (let s = dr_identity r in
     \<lparr>gr_id = dr_accountId r, gr_externalId = si_externalId s, gr_displayName = si_displayName s,
      gr_members = map (\<lambda>u. (dr_accountId u, baseUrl c @ ''/Users/'' @ dr_accountId u, si_userName (dr_identity u)))
        (group_members (dr_accountId r) users),
      gr_meta = scim_meta_of K c ''Group'' r\<rparr>)"

definition answer_group :: "'w scim_calls \<Rightarrow> scim_connection \<Rightarrow> string \<Rightarrow> ('w, group_resource) scim" where
  "answer_group K c i = e_then (scim_findGroup K c i) (\<lambda>r. e_then (scim_listUsers K c) (\<lambda>users.
     e_return (groupResource K c r users)))"

text \<open>The ids of a members list; \<open>None\<close> where reading \<open>value\<close> of \<open>null\<close> throws.\<close>

definition member_ids :: "'w scim_calls \<Rightarrow> json list \<Rightarrow> string list option" where
  "member_ids K ms = (if JNull \<in> set ms then None else Some (uniq (map (\<lambda>m. text_of K (field ''value'' (Some m))) ms)))"

definition member_change :: "string \<Rightarrow> bool \<Rightarrow> scim_identity \<Rightarrow> scim_identity option" where
  "member_change g wants s =
     (let current = list_or_empty (si_sourceGroups s) in
      if wants \<and> g \<notin> set current then Some (s\<lparr>si_sourceGroups := Some (current @ [g])\<rparr>)
      else if \<not> wants \<and> g \<in> set current then Some (s\<lparr>si_sourceGroups := Some (filter (\<lambda>x. x \<noteq> g) current)\<rparr>)
      else None)"

definition set_member_step :: "'w scim_calls \<Rightarrow> scim_connection \<Rightarrow> string \<Rightarrow> string list \<Rightarrow> dir_resource \<Rightarrow> ('w, unit) scim" where
  "set_member_step K c g desired user = (case member_change g (dr_accountId user \<in> set desired) (dr_identity user) of
     None \<Rightarrow> e_return ()
   | Some s \<Rightarrow> e_then (e_call (sd_now K)) (\<lambda>now.
       e_then (updateUserSpecs K c (dr_accountId user) ((projectGroups c s)\<lparr>si_lastModified := Some now\<rparr>)) (\<lambda>_. e_return ())))"

definition replace_among ::
  "'w scim_calls \<Rightarrow> scim_connection \<Rightarrow> string \<Rightarrow> string list \<Rightarrow> dir_resource list \<Rightarrow> ('w, unit) scim" where
  "replace_among K c g desired users =
     e_then (e_require (\<forall>i \<in> set desired. \<exists>u \<in> set users. dr_accountId u = i) (ScimError 400 (Some ''invalidValue''))) (\<lambda>_.
     e_each users () (\<lambda>user _. set_member_step K c g desired user))"

definition json_list_or_empty :: "json option \<Rightarrow> json list" where
  "json_list_or_empty v = (case v of Some (JArr xs) \<Rightarrow> xs | _ \<Rightarrow> [])"

definition replaceMembers :: "'w scim_calls \<Rightarrow> scim_connection \<Rightarrow> string \<Rightarrow> json option \<Rightarrow> ('w, unit) scim" where
  "replaceMembers K c g ms =
     e_then (e_get ServerError (member_ids K (json_list_or_empty ms))) (\<lambda>desired.
     e_then (scim_listUsers K c) (replace_among K c g desired))"

text \<open>\<open>(members ?? []).map\<close>, which only a list has.\<close>

definition addMembers :: "'w scim_calls \<Rightarrow> scim_connection \<Rightarrow> string \<Rightarrow> json option \<Rightarrow> ('w, unit) scim" where
  "addMembers K c g ms =
     e_then (scim_listUsers K c) (\<lambda>users.
     e_then (e_get ServerError (if nullish ms then Some [] else case ms of Some (JArr xs) \<Rightarrow> member_ids K xs | _ \<Rightarrow> None)) (\<lambda>added.
     replace_among K c g (uniq (map dr_accountId (group_members g users) @ added)) users))"

definition removeMembers :: "'w scim_calls \<Rightarrow> scim_connection \<Rightarrow> string \<Rightarrow> string list \<Rightarrow> ('w, unit) scim" where
  "removeMembers K c g ids =
     e_then (scim_listUsers K c) (\<lambda>users.
     replace_among K c g (uniq (filter (\<lambda>i. i \<notin> set ids) (map dr_accountId (group_members g users)))) users)"

subsection \<open>Groups\<close>

text \<open>Whether a list of members names one that is not there. With no users every member is unknown
  before its value is read, and \<open>null\<close> then counts as none.\<close>

fun unknown_member :: "'w scim_calls \<Rightarrow> string list \<Rightarrow> json list \<Rightarrow> scim_failure + bool" where
  "unknown_member K users [] = Inr False"
| "unknown_member K users (m # ms) =
     (if users = [] then Inr (m \<noteq> JNull)
      else if m = JNull then Inl ServerError
      else if text_of K (field ''value'' (Some m)) \<notin> set users then Inr True
      else unknown_member K users ms)"

definition group_identity :: "string \<Rightarrow> string \<Rightarrow> string option \<Rightarrow> string \<Rightarrow> scim_identity" where
  "group_identity externalId displayName createdAt now =
     \<lparr>si_resourceType = ''Group'', si_externalId = Some (JStr externalId), si_userName = None,
      si_displayName = Some displayName, si_active = None, si_emails = None, si_sourceGroups = None,
      si_groups = None, si_createdAt = createdAt, si_lastModified = Some now\<rparr>"

definition check_members :: "'w scim_calls \<Rightarrow> scim_connection \<Rightarrow> json option \<Rightarrow> ('w, unit) scim" where
  "check_members K c ms = (case ms of
     Some (JArr xs) \<Rightarrow> e_then (scim_listUsers K c) (\<lambda>users. case unknown_member K (map dr_accountId users) xs of
       Inl e \<Rightarrow> e_throw e
     | Inr unknown \<Rightarrow> e_require (\<not> unknown) (ScimError 400 (Some ''invalidValue'')))
   | _ \<Rightarrow> e_return ())"

definition createGroup :: "'w scim_calls \<Rightarrow> scim_connection \<Rightarrow> json option \<Rightarrow> ('w, group_resource) scim" where
  "createGroup K c resource =
     e_then (e_get (ScimError 400 (Some ''invalidValue'')) (required_name ''displayName'' resource)) (\<lambda>displayName.
     let externalId = externalId_of K (field ''externalId'' resource) displayName;
         i = resourceId K ''g'' (sc_uid c) externalId;
         ms = field ''members'' resource in
     e_then (check_members K c ms) (\<lambda>_.
     e_then (scim_listGroups K c) (\<lambda>groups.
     e_then (e_require (\<not> (\<exists>r \<in> set groups. si_externalId (dr_identity r) = Some (JStr externalId)
         \<or> si_displayName (dr_identity r) = Some displayName)) (ScimError 409 (Some ''uniqueness''))) (\<lambda>_.
     e_then (dir_findUser K c i) (\<lambda>tombstoned. case tombstoned of
       Some t \<Rightarrow>
         e_then (e_call (sd_now K)) (\<lambda>created.
         e_then (e_call (sd_now K)) (\<lambda>now.
         e_then (updateUserSpecs K c i (group_identity externalId displayName
            (case si_createdAt (dr_identity t) of Some x \<Rightarrow> Some x | None \<Rightarrow> Some created) now)) (\<lambda>_.
         e_then (replaceMembers K c i ms) (\<lambda>_. answer_group K c i))))
     | None \<Rightarrow>
         e_then (e_call (sd_now K)) (\<lambda>created.
         e_then (createProvisionedUser K c i SCIMGroup (group_identity externalId displayName (Some created) created)) (\<lambda>account.
         e_then (e_get (ScimError 409 (Some ''uniqueness'')) account) (\<lambda>_.
         e_then (if json_list_or_empty ms \<noteq> [] then replaceMembers K c i ms else e_return ()) (\<lambda>_.
         answer_group K c i)))))))))"

definition replaceGroup :: "'w scim_calls \<Rightarrow> scim_connection \<Rightarrow> string \<Rightarrow> json option \<Rightarrow> ('w, group_resource) scim" where
  "replaceGroup K c i resource =
     e_then (scim_findGroup K c i) (\<lambda>account.
     e_then (e_get (ScimError 400 (Some ''invalidValue'')) (required_name ''displayName'' resource)) (\<lambda>displayName.
     e_then (e_call (sd_now K)) (\<lambda>now.
     e_then (updateUserSpecs K c i ((dr_identity account)\<lparr>si_displayName := Some displayName,
        si_externalId := given (field ''externalId'' resource) (si_externalId (dr_identity account)),
        si_lastModified := Some now\<rparr>)) (\<lambda>_.
     e_then (replaceMembers K c i (field ''members'' resource)) (\<lambda>_. answer_group K c i)))))"

text \<open>\<open>members[value eq "..."]\<close>, in any case: the value.\<close>

definition member_filter :: "string \<Rightarrow> string option" where
  "member_filter p =
     (let value = take (length p - 20) (drop 18 p) in
      if starts_with (''members[value eq '' @ [CHR 0x22]) (to_lower p) \<and> ends_with [CHR 0x22, CHR '']''] p
         \<and> length p > 20 \<and> CHR 0x22 \<notin> set value
      then Some value else None)"

definition rename_group :: "'w scim_calls \<Rightarrow> scim_connection \<Rightarrow> string \<Rightarrow> dir_resource \<Rightarrow> string \<Rightarrow> ('w, dir_resource) scim" where
  "rename_group K c i account name =
     e_then (e_call (sd_now K)) (\<lambda>now.
       updateUserSpecs K c i ((dr_identity account)\<lparr>si_displayName := Some name, si_lastModified := Some now\<rparr>))"

definition patch_group_operation ::
  "'w scim_calls \<Rightarrow> scim_connection \<Rightarrow> string \<Rightarrow> json \<Rightarrow> dir_resource \<Rightarrow> ('w, dir_resource) scim" where
  "patch_group_operation K c i oper account =
     (let op = operation_op K oper; v = field ''value'' (Some oper); g = dr_accountId account;
          after = (\<lambda>m. e_then m (\<lambda>_. e_return account)) in
      if oper = JNull then e_throw ServerError
      else if op \<notin> {''add'', ''replace'', ''remove''} then e_throw (ScimError 400 (Some ''invalidSyntax''))
      else if \<not> js_truthy (field ''path'' (Some oper)) \<and> is_object v then
        (if field ''displayName'' v = None \<and> field ''members'' v = None then e_throw (ScimError 400 (Some ''invalidValue''))
         else e_then (if field ''displayName'' v \<noteq> None then rename_group K c i account (text_of K (field ''displayName'' v))
                      else e_return account) (\<lambda>account'.
           if field ''members'' v \<noteq> None
           then e_then (replaceMembers K c (dr_accountId account') (field ''members'' v)) (\<lambda>_. e_return account')
           else e_return account'))
      else case operation_path oper of
        None \<Rightarrow> e_throw ServerError
      | Some path \<Rightarrow>
          if map_option to_lower path = Some ''displayname'' then
            (if op = ''remove'' then e_throw (ScimError 400 (Some ''mutability''))
             else rename_group K c i account (text_of K v))
          else if map_option to_lower path = Some ''members'' then
            after (if op = ''replace'' then replaceMembers K c g v
                   else if op = ''add'' then addMembers K c g v
                   else replaceMembers K c g None)
          else (case Option.bind path member_filter of
            Some member \<Rightarrow> if op = ''remove'' then after (removeMembers K c g [member])
                          else e_throw (ScimError 400 (Some ''invalidPath''))
          | None \<Rightarrow> e_throw (ScimError 400 (Some ''invalidPath''))))"

definition patchGroup :: "'w scim_calls \<Rightarrow> scim_connection \<Rightarrow> string \<Rightarrow> json option \<Rightarrow> ('w, group_resource) scim" where
  "patchGroup K c i operations =
     e_then (scim_findGroup K c i) (\<lambda>account.
     e_then (e_get ServerError (operation_items operations)) (\<lambda>opers.
     e_then (e_each opers account (\<lambda>oper account. patch_group_operation K c i oper account)) (\<lambda>_.
     answer_group K c i)))"

definition deleteGroup :: "'w scim_calls \<Rightarrow> scim_connection \<Rightarrow> string \<Rightarrow> ('w, unit) scim" where
  "deleteGroup K c i =
     e_then (scim_findGroup K c i) (\<lambda>account.
     e_then (replaceMembers K c (dr_accountId account) None) (\<lambda>_.
     e_then (e_call (sd_now K)) (\<lambda>now.
     e_then (updateUserSpecs K c i ((dr_identity account)\<lparr>si_active := Some False, si_lastModified := Some now\<rparr>))
       (\<lambda>_. e_return ()))))"

end
