(* ===== verification/ScimContract.thy ===== *)
theory ScimContract
  imports ScimGroups
begin

text \<open>
  What the SCIM operations promise. The contract of the directory calls is the locale
  \<open>directory_server\<close>; inside it, every operation is shown to keep to its own connection and to
  leave each of its subjects with the projection that its state calls for, and a replacement of
  members to set the membership. A directory held as a list provides the contract.
\<close>

subsection \<open>Requests\<close>

datatype scim_request =
    CreateUser "json option" | ReplaceUser string "json option" | PatchUser string "json option" | DeactivateUser string
  | CreateGroup "json option" | ReplaceGroup string "json option" | PatchGroup string "json option" | DeleteGroup string

text \<open>A mutating request, its answer left out.\<close>

definition unanswered :: "('w, 'a) scim \<Rightarrow> ('w, unit) scim" where
  "unanswered m = e_then m (\<lambda>_. e_return ())"

fun scim_perform :: "'w scim_calls \<Rightarrow> scim_connection \<Rightarrow> scim_request \<Rightarrow> ('w, unit) scim" where
  "scim_perform K c (CreateUser r) = unanswered (createUser K c r)"
| "scim_perform K c (ReplaceUser i r) = unanswered (replaceUser K c i r)"
| "scim_perform K c (PatchUser i ops) = unanswered (patchUser K c i ops)"
| "scim_perform K c (DeactivateUser i) = unanswered (deactivateUser K c i)"
| "scim_perform K c (CreateGroup r) = unanswered (createGroup K c r)"
| "scim_perform K c (ReplaceGroup i r) = unanswered (replaceGroup K c i r)"
| "scim_perform K c (PatchGroup i ops) = unanswered (patchGroup K c i ops)"
| "scim_perform K c (DeleteGroup i) = deleteGroup K c i"

subsection \<open>The contract\<close>

text \<open>\<open>dir_at\<close> is the resource of a kind and name. The calls change the named resource and no other.
  A create or a patch that does not answer may have been carried out all the same; a patch computed
  from the identity that is there installs the one it is asked for.\<close>

locale directory_server =
  fixes K :: "'w scim_calls"
    and dir_at :: "'w \<Rightarrow> scim_kind \<Rightarrow> string \<Rightarrow> dir_resource option"
  assumes named: "dir_at w kind n = Some x \<Longrightarrow> dr_accountId x = n \<and> dr_kind x = kind"
    and list_call: "sd_list K kind w = (rl, w') \<Longrightarrow> dir_at w' = dir_at w
      \<and> (\<forall>rs. rl = Some rs \<longrightarrow> distinct (map dr_accountId rs)
           \<and> (\<forall>x. x \<in> set rs \<longleftrightarrow> dir_at w kind (dr_accountId x) = Some x))"
    and get_call: "sd_get K kind n w = (rg, w') \<Longrightarrow> dir_at w' = dir_at w \<and> (\<forall>x. rg = Some x \<longrightarrow> dir_at w kind n = Some x)"
    and create_call: "sd_create K kind n ref uid s w = (rc, w') \<Longrightarrow>
      (\<forall>k m. (k, m) \<noteq> (kind, n) \<longrightarrow> dir_at w' k m = dir_at w k m)
      \<and> (dir_at w' kind n = dir_at w kind n \<and> rc = None
         \<or> dir_at w kind n = None \<and> (\<exists>x. dir_at w' kind n = Some x \<and> dr_identity x = s \<and> dr_connectionUid x = uid \<and> rc \<in> {None, Some x}))"
    and patch_call: "sd_patch K kind n new old w = (rp, w') \<Longrightarrow>
      (\<forall>k m. (k, m) \<noteq> (kind, n) \<longrightarrow> dir_at w' k m = dir_at w k m)
      \<and> (dir_at w' kind n = dir_at w kind n \<and> rp = None
         \<or> (\<exists>x y. dir_at w kind n = Some x \<and> dir_at w' kind n = Some y \<and> dr_connectionUid y = dr_connectionUid x
              \<and> dr_linkedAccountId y = dr_linkedAccountId x \<and> (dr_identity x = old \<longrightarrow> dr_identity y = new) \<and> rp \<in> {None, Some y}))"
    and change_call: "sd_onChange K x w = (ru, w') \<Longrightarrow> dir_at w' = dir_at w"
    and now_call: "sd_now K w = (t, w') \<Longrightarrow> dir_at w' = dir_at w"
begin

text \<open>The connection's own resources are named as the service names them, and each subject carries
  the groups its state and its connection give it.\<close>

definition kept :: "scim_connection \<Rightarrow> 'w \<Rightarrow> bool" where
  "kept c w = (\<forall>kind n x. dir_at w kind n = Some x \<and> dr_connectionUid x = sc_uid c \<longrightarrow>
     (case kind of SCIMSubject \<Rightarrow> starts_with ''scim-u-'' n \<and> projectGroups c (dr_identity x) = dr_identity x
      | SCIMGroup \<Rightarrow> starts_with ''scim-g-'' n))"

definition apart :: "scim_connection \<Rightarrow> 'w \<Rightarrow> 'w \<Rightarrow> bool" where
  "apart c w0 w = (\<forall>kind n x. dr_connectionUid x \<noteq> sc_uid c \<longrightarrow> (dir_at w kind n = Some x \<longleftrightarrow> dir_at w0 kind n = Some x))"

definition safe :: "scim_connection \<Rightarrow> 'w \<Rightarrow> 'w \<Rightarrow> bool" where
  "safe c w0 w = (kept c w \<and> apart c w0 w)"

lemma safe_frame: "dir_at w' = dir_at w \<Longrightarrow> safe c w0 w' = safe c w0 w"
  by (simp add: safe_def kept_def apart_def)

lemma same_everywhere:
  "\<forall>k m. (k, m) \<noteq> (kind, n) \<longrightarrow> dir_at w' k m = dir_at w k m \<Longrightarrow> dir_at w' kind n = dir_at w kind n \<Longrightarrow> dir_at w' = dir_at w"
proof (intro ext)
  fix k m assume h: "\<forall>k m. (k, m) \<noteq> (kind, n) \<longrightarrow> dir_at w' k m = dir_at w k m" "dir_at w' kind n = dir_at w kind n"
  show "dir_at w' k m = dir_at w k m"
  proof (cases "(k, m) = (kind, n)")
    case True
    with h(2) show ?thesis by simp
  next
    case False
    with h(1) show ?thesis by blast
  qed
qed

lemma stays_frame: "(\<And>w x w'. k w = (x, w') \<Longrightarrow> dir_at w' = dir_at w) \<Longrightarrow> stays (safe c w0) (e_call k)"
  by (rule stays_call) (metis safe_frame)

lemma stays_frame_try: "(\<And>w x w'. k w = (x, w') \<Longrightarrow> dir_at w' = dir_at w) \<Longrightarrow> stays (safe c w0) (e_try e k)"
  by (rule stays_try) (metis safe_frame)

lemma stays_sd_list: "stays (safe c w0) (e_call (sd_list K kind))"
  by (rule stays_frame) (drule list_call, simp)

lemma stays_sd_get: "stays (safe c w0) (e_call (sd_get K kind n))"
  by (rule stays_frame) (drule get_call, simp)

lemma stays_now: "stays (safe c w0) (e_call (sd_now K))"
  by (rule stays_frame) (drule now_call, simp)

lemma stays_change: "stays (safe c w0) (e_try e (sd_onChange K x))"
  by (rule stays_frame_try) (drule change_call, simp)

lemmas stays_reads = stays_sd_list stays_sd_get stays_now stays_change

lemma stays_dir_list: "stays (safe c w0) (dir_list K c kind)"
  unfolding dir_list_def by (intro effect_rules stays_reads)

lemma stays_dir_listUsers: "stays (safe c w0) (dir_listUsers K c)"
  unfolding dir_listUsers_def by (intro effect_rules stays_dir_list)

lemma stays_scim_listUsers: "stays (safe c w0) (scim_listUsers K c)"
  unfolding scim_listUsers_def by (intro effect_rules stays_dir_listUsers)

lemma stays_scim_listGroups: "stays (safe c w0) (scim_listGroups K c)"
  unfolding scim_listGroups_def by (intro effect_rules stays_dir_listUsers)

text \<open>Looking a resource up: what is found is there, under its name, and is the connection's.\<close>

lemma find_runs_frame:
  assumes frame: "\<And>w w'. dir_at w' = dir_at w \<Longrightarrow> I w \<Longrightarrow> I w'"
  shows "runs I (dir_findUser K c n) (\<lambda>f w. I w \<and> (\<forall>x. f = Some x \<longrightarrow>
      dir_at w (dr_kind x) n = Some x \<and> dr_accountId x = n \<and> dr_connectionUid x = sc_uid c)) I"
  unfolding runs_def
proof (intro allI impI)
  fix w assume h: "I w"
  obtain s w1 where s: "sd_get K SCIMSubject n w = (s, w1)" by (meson surj_pair)
  obtain g w2 where g: "sd_get K SCIMGroup n w1 = (g, w2)" by (meson surj_pair)
  note l = get_call [OF s] get_call [OF g]
  from l h frame have "I w1" "I w2" by metis+
  have sx: "dir_at w1 (dr_kind x) n = Some x \<and> dr_accountId x = n" if "s = Some x" for x
    using that l(1) named by metis
  have gx: "dir_at w2 (dr_kind x) n = Some x \<and> dr_accountId x = n" if "g = Some x" for x
    using that l(2) named by metis
  have first: "dir_findUser K c n w = (case s of
      Some r \<Rightarrow> if dr_connectionUid r = sc_uid c then e_return (Some r) w1
        else (Inr (case g of Some r \<Rightarrow> if dr_connectionUid r = sc_uid c then Some r else None | None \<Rightarrow> None), w2)
    | None \<Rightarrow> (Inr (case g of Some r \<Rightarrow> if dr_connectionUid r = sc_uid c then Some r else None | None \<Rightarrow> None), w2))"
    by (simp add: dir_findUser_def e_return_def e_then_call [where k = "sd_get K SCIMSubject n" and w = w, OF s]
        e_then_call [where k = "sd_get K SCIMGroup n" and w = w1, OF g] split: option.split)
  show "case dir_findUser K c n w of
      (Inr f, w') \<Rightarrow> I w' \<and> (\<forall>x. f = Some x \<longrightarrow> dir_at w' (dr_kind x) n = Some x \<and> dr_accountId x = n \<and> dr_connectionUid x = sc_uid c)
    | (Inl e, w') \<Rightarrow> I w'"
  proof (cases "\<exists>x. s = Some x \<and> dr_connectionUid x = sc_uid c")
    case True
    then obtain x where x: "s = Some x" "dr_connectionUid x = sc_uid c" by blast
    then have "dir_findUser K c n w = (Inr (Some x), w1)" unfolding first by (simp add: e_return_def)
    with sx [OF x(1)] x(2) \<open>I w1\<close> show ?thesis by simp
  next
    case False
    then have "dir_findUser K c n w = (Inr (case g of Some r \<Rightarrow> if dr_connectionUid r = sc_uid c then Some r else None | None \<Rightarrow> None), w2)"
      unfolding first by (cases s) auto
    with gx \<open>I w2\<close> show ?thesis by (cases g) auto
  qed
qed

lemma find_runs:
  "runs (safe c w0) (dir_findUser K c n) (\<lambda>f w. safe c w0 w \<and> (\<forall>x. f = Some x \<longrightarrow>
      dir_at w (dr_kind x) n = Some x \<and> dr_accountId x = n \<and> dr_connectionUid x = sc_uid c)) (safe c w0)"
  by (rule find_runs_frame) (metis safe_frame)

lemma stays_find: "stays (safe c w0) (dir_findUser K c n)"
  unfolding stays_def by (rule runs_conseq [OF find_runs]) auto

text \<open>Writing an identity: a projected one, or one of a name that no subject has.\<close>

lemma safe_write:
  assumes "safe c w0 w" "\<forall>k m. (k, m) \<noteq> (kind, n) \<longrightarrow> dir_at w' k m = dir_at w k m"
    and "dir_at w kind n = None \<or> (\<exists>x. dir_at w kind n = Some x \<and> dr_connectionUid x = sc_uid c)"
    and "dir_at w' kind n = Some y" "dr_connectionUid y = sc_uid c"
    and "kind = SCIMSubject \<Longrightarrow> starts_with ''scim-u-'' n \<and> projectGroups c (dr_identity y) = dr_identity y"
    and "kind = SCIMGroup \<Longrightarrow> starts_with ''scim-g-'' n"
  shows "safe c w0 w'"
proof -
  have "kept c w'"
    unfolding kept_def
  proof (intro allI impI)
    fix k m and x :: dir_resource assume x: "dir_at w' k m = Some x \<and> dr_connectionUid x = sc_uid c"
    show "case k of SCIMSubject \<Rightarrow> starts_with ''scim-u-'' m \<and> projectGroups c (dr_identity x) = dr_identity x
        | SCIMGroup \<Rightarrow> starts_with ''scim-g-'' m"
    proof (cases "(k, m) = (kind, n)")
      case True
      with x assms(4,6,7) show ?thesis by (cases k) auto
    next
      case False
      with x assms(1,2) show ?thesis by (simp add: safe_def kept_def)
    qed
  qed
  moreover have "apart c w0 w'"
    unfolding apart_def
  proof (intro allI impI)
    fix k m and x :: dir_resource assume x: "dr_connectionUid x \<noteq> sc_uid c"
    show "(dir_at w' k m = Some x) = (dir_at w0 k m = Some x)"
    proof (cases "(k, m) = (kind, n)")
      case True
      from assms(1) x have "(dir_at w kind n = Some x) = (dir_at w0 kind n = Some x)" by (simp add: safe_def apart_def)
      with True x assms(3-5) show ?thesis by auto
    next
      case False
      with x assms(1,2) show ?thesis by (simp add: safe_def apart_def)
    qed
  qed
  ultimately show ?thesis by (simp add: safe_def)
qed

lemma starts_u_g: "starts_with ''scim-u-'' n \<Longrightarrow> \<not> starts_with ''scim-g-'' n"
  by (auto simp: starts_with_iff)

lemma stays_update:
  assumes "\<not> starts_with ''scim-u-'' n \<or> projectGroups c s = s"
  shows "stays (safe c w0) (updateUserSpecs K c n s)"
  unfolding stays_def updateUserSpecs_def
proof (rule runs_then [OF find_runs], rule runs_then [where R = "\<lambda>r w. safe c w0 w
      \<and> dir_at w (dr_kind r) n = Some r \<and> dr_accountId r = n \<and> dr_connectionUid r = sc_uid c"])
  fix f
  show "runs (\<lambda>w. safe c w0 w \<and> (\<forall>x. f = Some x \<longrightarrow> dir_at w (dr_kind x) n = Some x \<and> dr_accountId x = n
      \<and> dr_connectionUid x = sc_uid c)) (e_get ServerError f)
     (\<lambda>r w. safe c w0 w \<and> dir_at w (dr_kind r) n = Some r \<and> dr_accountId r = n \<and> dr_connectionUid r = sc_uid c) (safe c w0)"
    by (rule runs_get) auto
  fix r
  have "runs (\<lambda>w. safe c w0 w \<and> dir_at w (dr_kind r) n = Some r \<and> dr_accountId r = n \<and> dr_connectionUid r = sc_uid c)
     (e_call (sd_patch K (dr_kind r) n s (dr_identity r))) (\<lambda>_. safe c w0) (safe c w0)"
  proof (rule runs_call)
    fix w u w' assume h: "safe c w0 w \<and> dir_at w (dr_kind r) n = Some r \<and> dr_accountId r = n \<and> dr_connectionUid r = sc_uid c"
      and p: "sd_patch K (dr_kind r) n s (dr_identity r) w = (u, w')"
    note l = patch_call [OF p]
    show "safe c w0 w'"
    proof (cases "dir_at w' (dr_kind r) n = dir_at w (dr_kind r) n")
      case True
      from safe_frame [OF same_everywhere [OF conjunct1 [OF l] this]] h show ?thesis by blast
    next
      case False
      with conjunct2 [OF l] obtain x y where xy: "dir_at w (dr_kind r) n = Some x" "dir_at w' (dr_kind r) n = Some y"
        "dr_connectionUid y = dr_connectionUid x" "dr_identity x = dr_identity r \<longrightarrow> dr_identity y = s" by blast
      with h have y: "dir_at w' (dr_kind r) n = Some y" "dr_connectionUid y = sc_uid c" "dr_identity y = s" by simp_all
      have k: "case dr_kind r of SCIMSubject \<Rightarrow> starts_with ''scim-u-'' n \<and> projectGroups c (dr_identity r) = dr_identity r
          | SCIMGroup \<Rightarrow> starts_with ''scim-g-'' n"
        using h unfolding safe_def kept_def by blast
      show ?thesis
      proof (rule safe_write [OF conjunct1 [OF h] conjunct1 [OF l] _ y(1,2)])
        show "dir_at w (dr_kind r) n = None \<or> (\<exists>x. dir_at w (dr_kind r) n = Some x \<and> dr_connectionUid x = sc_uid c)"
          using h by simp
        show "dr_kind r = SCIMSubject \<Longrightarrow> starts_with ''scim-u-'' n \<and> projectGroups c (dr_identity y) = dr_identity y"
          using k y(3) assms by simp
        show "dr_kind r = SCIMGroup \<Longrightarrow> starts_with ''scim-g-'' n"
          using k by simp
      qed
    qed
  qed
  then show "runs (\<lambda>w. safe c w0 w \<and> dir_at w (dr_kind r) n = Some r \<and> dr_accountId r = n \<and> dr_connectionUid r = sc_uid c)
     (e_then (e_call (sd_patch K (dr_kind r) n s (dr_identity r))) (\<lambda>updated.
      e_then (e_get ServerError updated) (\<lambda>u. e_then (e_try ServerError (sd_onChange K u)) (\<lambda>_. e_return u))))
     (\<lambda>_. safe c w0) (safe c w0)"
    by (rule runs_then) (unfold stays_def [symmetric], intro effect_rules stays_change)
qed

lemma stays_create:
  assumes "kind = SCIMSubject \<Longrightarrow> starts_with ''scim-u-'' n \<and> projectGroups c s = s"
    and "kind = SCIMGroup \<Longrightarrow> starts_with ''scim-g-'' n"
  shows "stays (safe c w0) (createProvisionedUser K c n kind s)"
proof -
  have create: "stays (safe c w0) (e_call (sd_create K kind n (sc_id c) (sc_uid c) s))"
  proof (rule stays_call)
    fix w x w' assume h: "safe c w0 w" and p: "sd_create K kind n (sc_id c) (sc_uid c) s w = (x, w')"
    note l = create_call [OF p]
    show "safe c w0 w'"
    proof (cases "dir_at w' kind n = dir_at w kind n")
      case True
      from safe_frame [OF same_everywhere [OF conjunct1 [OF l] this]] h show ?thesis by blast
    next
      case False
      with conjunct2 [OF l] obtain y where y: "dir_at w kind n = None" "dir_at w' kind n = Some y" "dr_identity y = s"
        "dr_connectionUid y = sc_uid c" by blast
      show ?thesis
        by (rule safe_write [OF h conjunct1 [OF l] disjI1 [OF y(1)] y(2,4)]) (simp_all add: y(3) assms)
    qed
  qed
  show ?thesis
    unfolding createProvisionedUser_def
    by (rule stays_then [OF create]) (auto split: option.split intro!: effect_rules stays_change)
qed

text \<open>The operations, one by one.\<close>

lemma projected: "projectGroups c ((projectGroups c s)\<lparr>si_lastModified := t\<rparr>) = (projectGroups c s)\<lparr>si_lastModified := t\<rparr>"
  "projectGroups c (projectGroups c s) = projectGroups c s"
  by (simp_all add: projectGroups_def Let_def)

lemma stays_scim_findUser: "stays (safe c w0) (scim_findUser K c i)"
  unfolding scim_findUser_def by (intro effect_rules stays_find)

lemma group_found:
  "runs (safe c w0) (scim_findGroup K c i) (\<lambda>r w. safe c w0 w \<and> starts_with ''scim-g-'' i) (safe c w0)"
  unfolding scim_findGroup_def
proof (rule runs_then [OF find_runs])
  fix f
  show "runs (\<lambda>w. safe c w0 w \<and> (\<forall>x. f = Some x \<longrightarrow> dir_at w (dr_kind x) i = Some x \<and> dr_accountId x = i
        \<and> dr_connectionUid x = sc_uid c))
      (case f of None \<Rightarrow> e_throw (ScimError 404 None)
       | Some r \<Rightarrow> if \<not> dr_is_group r \<or> getIdentity c (sc_sourceKey c) r = None \<or> si_active (dr_identity r) = Some False
           then e_throw (ScimError 404 None) else e_return r)
      (\<lambda>r w. safe c w0 w \<and> starts_with ''scim-g-'' i) (safe c w0)"
  proof (cases f)
    case None
    then show ?thesis by (simp add: runs_throw)
  next
    case (Some x)
    have "starts_with ''scim-g-'' i"
      if "safe c w0 w" "dir_at w (dr_kind x) i = Some x" "dr_connectionUid x = sc_uid c" "dr_is_group x" for w
      using that unfolding safe_def kept_def dr_is_group_def by fastforce
    with Some show ?thesis by (auto intro!: runs_throw runs_return)
  qed
qed

lemma with_group:
  assumes "\<And>r. starts_with ''scim-g-'' i \<Longrightarrow> stays (safe c w0) (f r)"
  shows "stays (safe c w0) (e_then (scim_findGroup K c i) f)"
  unfolding stays_def
proof (rule runs_then [OF group_found])
  fix r
  show "runs (\<lambda>w. safe c w0 w \<and> starts_with ''scim-g-'' i) (f r) (\<lambda>_. safe c w0) (safe c w0)"
    using assms [unfolded stays_def] by (rule runs_fact)
qed

lemma stays_scim_findGroup: "stays (safe c w0) (scim_findGroup K c i)"
  unfolding stays_def by (rule runs_conseq [OF group_found]) auto

lemma stays_update_user: "stays (safe c w0) (updateUserSpecs K c n (projectGroups c s))"
  "stays (safe c w0) (updateUserSpecs K c n ((projectGroups c s)\<lparr>si_lastModified := t\<rparr>))"
  by (rule stays_update, simp add: projected)+

lemma stays_update_group: "starts_with ''scim-g-'' n \<Longrightarrow> stays (safe c w0) (updateUserSpecs K c n s)"
  by (rule stays_update) (metis starts_u_g)

lemmas stays_directory = stays_scim_listUsers stays_scim_listGroups stays_scim_findUser stays_find stays_update_user
  stays_update_group stays_now

lemma stays_answer: "stays (safe c w0) (answer_group K c i)"
  unfolding answer_group_def by (intro effect_rules stays_scim_findGroup stays_directory)

lemma stays_step: "stays (safe c w0) (set_member_step K c g desired user)"
  unfolding set_member_step_def by (cases "member_change g (dr_accountId user \<in> set desired) (dr_identity user)")
    (auto intro!: effect_rules stays_directory)

lemma stays_among: "stays (safe c w0) (replace_among K c g desired users)"
  unfolding replace_among_def by (intro effect_rules stays_step)

lemma stays_members: "stays (safe c w0) (replaceMembers K c g ms)" "stays (safe c w0) (addMembers K c g ms)"
  "stays (safe c w0) (removeMembers K c g ids)"
  unfolding replaceMembers_def addMembers_def removeMembers_def by (intro effect_rules stays_directory stays_among)+

lemma stays_check: "stays (safe c w0) (check_members K c ms)"
  unfolding check_members_def
  by (auto split: option.split json.split sum.split intro!: effect_rules stays_directory)

lemma resourceId_kinds: "starts_with ''scim-u-'' (resourceId K ''u'' c e)" "starts_with ''scim-g-'' (resourceId K ''g'' c e)"
  by (simp_all add: resourceId_def starts_with_iff)

lemma stays_createUser: "stays (safe c w0) (createUser K c r)"
  unfolding createUser_def Let_def
  by (intro effect_rules stays_directory stays_create) (simp_all add: projected resourceId_kinds)

lemma stays_replaceUser: "stays (safe c w0) (replaceUser K c i r)"
  unfolding replaceUser_def Let_def by (intro effect_rules stays_directory)

lemma stays_patchUser: "stays (safe c w0) (patchUser K c i r)"
  unfolding patchUser_def by (intro effect_rules stays_directory)

lemma stays_createGroup: "stays (safe c w0) (createGroup K c r)"
  unfolding createGroup_def Let_def
  by (intro effect_rules stays_directory stays_create stays_check stays_members stays_answer) (simp_all add: resourceId_kinds)

lemma stays_replaceGroup: "stays (safe c w0) (replaceGroup K c i r)"
  unfolding replaceGroup_def
  by (rule with_group) (intro effect_rules stays_directory stays_members stays_answer)

lemma stays_rename: "starts_with ''scim-g-'' i \<Longrightarrow> stays (safe c w0) (rename_group K c i a n)"
  unfolding rename_group_def by (intro effect_rules stays_directory)

lemma stays_patch_group: "starts_with ''scim-g-'' i \<Longrightarrow> stays (safe c w0) (patch_group_operation K c i oper a)"
  unfolding patch_group_operation_def Let_def by (intro effect_rules stays_rename stays_members)

lemma stays_patchGroup: "stays (safe c w0) (patchGroup K c i r)"
  unfolding patchGroup_def
  by (rule with_group) (intro effect_rules stays_patch_group stays_answer)

lemma stays_deleteGroup: "stays (safe c w0) (deleteGroup K c i)"
  unfolding deleteGroup_def
  by (rule with_group) (intro effect_rules stays_directory stays_members)

lemma request_is_safe: "stays (safe c w0) (scim_perform K c q)"
  by (cases q) (auto simp: unanswered_def deactivateUser_def intro!: effect_rules stays_createUser stays_replaceUser
      stays_patchUser stays_createGroup stays_replaceGroup stays_patchGroup stays_deleteGroup)

lemma request_keeps:
  assumes "kept c w"
  shows "kept c (snd (scim_perform K c q w)) \<and> apart c w (snd (scim_perform K c q w))"
  using stays_end [OF request_is_safe, of c w w q] assms by (simp add: safe_def apart_def)

subsection \<open>The membership a replacement sets\<close>

lemma update_runs:
  assumes "d SCIMSubject n = Some u" "dr_connectionUid u = sc_uid c"
    and "\<forall>x. d SCIMGroup n = Some x \<longrightarrow> dr_connectionUid x \<noteq> sc_uid c"
  shows "runs (\<lambda>v. dir_at v = d) (updateUserSpecs K c n s) (\<lambda>_ v. (\<forall>k m. (k, m) \<noteq> (SCIMSubject, n) \<longrightarrow> dir_at v k m = d k m)
      \<and> (\<exists>x. dir_at v SCIMSubject n = Some x \<and> dr_identity x = s \<and> dr_connectionUid x = sc_uid c)) (\<lambda>_. True)"
    (is "runs _ _ (\<lambda>_. ?Q) _")
  unfolding updateUserSpecs_def
proof (rule runs_then [where R = "\<lambda>f v. dir_at v = d \<and> (\<forall>x. f = Some x \<longrightarrow>
      d (dr_kind x) n = Some x \<and> dr_accountId x = n \<and> dr_connectionUid x = sc_uid c)"])
  show "runs (\<lambda>v. dir_at v = d) (dir_findUser K c n) (\<lambda>f v. dir_at v = d \<and> (\<forall>x. f = Some x \<longrightarrow>
      d (dr_kind x) n = Some x \<and> dr_accountId x = n \<and> dr_connectionUid x = sc_uid c)) (\<lambda>_. True)"
    by (rule runs_conseq [OF find_runs_frame [where I = "\<lambda>v. dir_at v = d"]]) auto
  fix f
  have "runs (\<lambda>v. dir_at v = d \<and> (\<forall>x. f = Some x \<longrightarrow> d (dr_kind x) n = Some x \<and> dr_accountId x = n \<and> dr_connectionUid x = sc_uid c))
      (e_get ServerError f) (\<lambda>r v. dir_at v = d \<and> r = u) (\<lambda>_. True)"
    by (rule runs_get) (use assms scim_kind.exhaust in \<open>metis option.inject\<close>, simp)
  moreover have "runs (\<lambda>v. dir_at v = d \<and> r = u) (e_then (e_call (sd_patch K (dr_kind r) n s (dr_identity r)))
      (\<lambda>updated. e_then (e_get ServerError updated) (\<lambda>u. e_then (e_try ServerError (sd_onChange K u)) (\<lambda>_. e_return u))))
      (\<lambda>_. ?Q) (\<lambda>_. True)" for r
  proof (rule runs_then [where R = "\<lambda>updated v. updated \<noteq> None \<longrightarrow> ?Q v"])
    show "runs (\<lambda>v. dir_at v = d \<and> r = u) (e_call (sd_patch K (dr_kind r) n s (dr_identity r)))
        (\<lambda>updated v. updated \<noteq> None \<longrightarrow> ?Q v) (\<lambda>_. True)"
    proof (rule runs_call, intro impI)
      fix v x v' assume h: "dir_at v = d \<and> r = u" and p: "sd_patch K (dr_kind r) n s (dr_identity r) v = (x, v')" and x: "x \<noteq> None"
      have k: "dr_kind r = SCIMSubject" using h assms(1) named by metis
      show "?Q v'" using patch_call [OF p] h x assms(1,2) unfolding k by auto
    qed
    fix updated
    show "runs (\<lambda>v. updated \<noteq> None \<longrightarrow> ?Q v) (e_then (e_get ServerError updated)
        (\<lambda>u. e_then (e_try ServerError (sd_onChange K u)) (\<lambda>_. e_return u))) (\<lambda>_. ?Q) (\<lambda>_. True)"
    proof (rule runs_then [where R = "\<lambda>_. ?Q"])
      show "runs (\<lambda>v. updated \<noteq> None \<longrightarrow> ?Q v) (e_get ServerError updated) (\<lambda>_. ?Q) (\<lambda>_. True)"
        by (rule runs_get) auto
      fix y
      show "runs ?Q (e_then (e_try ServerError (sd_onChange K y)) (\<lambda>_. e_return y)) (\<lambda>_. ?Q) (\<lambda>_. True)"
        by (rule runs_then [where R = "\<lambda>_. ?Q"], rule runs_try) (auto dest!: change_call intro!: runs_return)
    qed
  qed
  ultimately show "runs (\<lambda>v. dir_at v = d \<and> (\<forall>x. f = Some x \<longrightarrow> d (dr_kind x) n = Some x \<and> dr_accountId x = n \<and> dr_connectionUid x = sc_uid c))
      (e_then (e_get ServerError f) (\<lambda>r. e_then (e_call (sd_patch K (dr_kind r) n s (dr_identity r)))
      (\<lambda>updated. e_then (e_get ServerError updated) (\<lambda>u. e_then (e_try ServerError (sd_onChange K u)) (\<lambda>_. e_return u)))))
      (\<lambda>_. ?Q) (\<lambda>_. True)"
    by (rule runs_then)
qed

text \<open>One subject of the loop, from any directory where it is still as it was listed.\<close>

definition settled :: "scim_connection \<Rightarrow> string \<Rightarrow> string list \<Rightarrow> 'w \<Rightarrow> string \<Rightarrow> bool" where
  "settled c g ids v n = (\<exists>x. dir_at v SCIMSubject n = Some x \<and> dr_connectionUid x = sc_uid c
     \<and> member_of g (dr_identity x) = (n \<in> set ids))"

lemma member_change_member: "member_change g wants s = Some s' \<Longrightarrow> member_of g (s'\<lparr>si_groups := p, si_lastModified := t\<rparr>) = wants"
  "member_change g wants s = None \<Longrightarrow> member_of g s = wants"
  by (auto simp: member_change_def member_of_def Let_def list_or_empty_def split: if_splits)

lemma project_member: "member_of g ((projectGroups c s)\<lparr>si_lastModified := t\<rparr>) = member_of g s"
  by (simp add: projectGroups_def member_of_def Let_def)

lemma step_runs:
  assumes "d SCIMSubject (dr_accountId u) = Some u" "dr_connectionUid u = sc_uid c"
    and "\<forall>x. d SCIMGroup (dr_accountId u) = Some x \<longrightarrow> dr_connectionUid x \<noteq> sc_uid c"
  shows "runs (\<lambda>v. dir_at v = d) (set_member_step K c g ids u)
     (\<lambda>_ v. (\<forall>k m. (k, m) \<noteq> (SCIMSubject, dr_accountId u) \<longrightarrow> dir_at v k m = d k m) \<and> settled c g ids v (dr_accountId u))
     (\<lambda>_. True)"
proof (cases "member_change g (dr_accountId u \<in> set ids) (dr_identity u)")
  case None
  with assms member_change_member(2) [OF None] show ?thesis
    by (auto simp: set_member_step_def settled_def intro!: runs_return)
next
  case (Some s)
  have m: "member_of g ((projectGroups c s)\<lparr>si_lastModified := t\<rparr>) = (dr_accountId u \<in> set ids)" for t
    using member_change_member(1) [OF Some, where p = "si_groups s" and t = "si_lastModified s"] by (simp add: project_member)
  have "runs (\<lambda>v. dir_at v = d) (e_call (sd_now K)) (\<lambda>_ v. dir_at v = d) (\<lambda>_. True)"
    by (rule runs_call) (auto dest: now_call)
  moreover have "runs (\<lambda>v. dir_at v = d)
     (e_then (updateUserSpecs K c (dr_accountId u) ((projectGroups c s)\<lparr>si_lastModified := Some now\<rparr>)) (\<lambda>_. e_return ()))
     (\<lambda>_ v. (\<forall>k m. (k, m) \<noteq> (SCIMSubject, dr_accountId u) \<longrightarrow> dir_at v k m = d k m) \<and> settled c g ids v (dr_accountId u))
     (\<lambda>_. True)" for now
    by (rule runs_then [OF update_runs [where d = d, OF assms]], rule runs_return) (use m in \<open>auto simp: settled_def\<close>)
  ultimately show ?thesis unfolding set_member_step_def Some option.case by (rule runs_then)
qed

text \<open>The loop: subjects still to come are as listed, those passed are settled.\<close>

definition listed_still :: "scim_connection \<Rightarrow> dir_resource list \<Rightarrow> 'w \<Rightarrow> bool" where
  "listed_still c us v = (\<forall>u \<in> set us. dir_at v SCIMSubject (dr_accountId u) = Some u \<and> dr_connectionUid u = sc_uid c
     \<and> (\<forall>x. dir_at v SCIMGroup (dr_accountId u) = Some x \<longrightarrow> dr_connectionUid x \<noteq> sc_uid c))"

definition beyond :: "string set \<Rightarrow> 'w \<Rightarrow> 'w \<Rightarrow> bool" where
  "beyond names w v = (\<forall>m. m \<notin> names \<longrightarrow> dir_at v SCIMSubject m = dir_at w SCIMSubject m)"

lemma loop_runs:
  assumes "distinct (map dr_accountId us)" "dr_accountId ` set us \<subseteq> names" "old \<inter> dr_accountId ` set us = {}"
  shows "runs (\<lambda>v. listed_still c us v \<and> (\<forall>n \<in> old. settled c g ids v n) \<and> beyond names w v)
     (e_each us () (\<lambda>u _. set_member_step K c g ids u))
     (\<lambda>_ v. (\<forall>n \<in> old \<union> dr_accountId ` set us. settled c g ids v n) \<and> beyond names w v) (\<lambda>_. True)"
  using assms
proof (induction us arbitrary: old)
  case Nil
  then show ?case unfolding e_each.simps by (intro runs_return) simp
next
  case (Cons u us)
  let ?n = "dr_accountId u"
  have step: "runs (\<lambda>v. listed_still c (u # us) v \<and> (\<forall>n \<in> old. settled c g ids v n) \<and> beyond names w v)
      (set_member_step K c g ids u)
      (\<lambda>_ v. listed_still c us v \<and> (\<forall>n \<in> insert ?n old. settled c g ids v n) \<and> beyond names w v) (\<lambda>_. True)"
    unfolding runs_def
  proof (intro allI impI)
    fix v assume h: "listed_still c (u # us) v \<and> (\<forall>n \<in> old. settled c g ids v n) \<and> beyond names w v"
    obtain r v' where r: "set_member_step K c g ids u v = (r, v')" by (meson surj_pair)
    have l: "dir_at v SCIMSubject ?n = Some u" "dr_connectionUid u = sc_uid c"
        "\<forall>x. dir_at v SCIMGroup ?n = Some x \<longrightarrow> dr_connectionUid x \<noteq> sc_uid c"
      using h by (simp_all add: listed_still_def)
    have "listed_still c us v' \<and> (\<forall>n \<in> insert ?n old. settled c g ids v' n) \<and> beyond names w v'" if "r = Inr x" for x
    proof -
      have f: "\<forall>k m. (k, m) \<noteq> (SCIMSubject, ?n) \<longrightarrow> dir_at v' k m = dir_at v k m" and now: "settled c g ids v' ?n"
        using runs_result [OF step_runs [where d = "dir_at v", OF l] refl r] that by simp_all
      have same: "m \<noteq> ?n \<Longrightarrow> dir_at v' SCIMSubject m = dir_at v SCIMSubject m"
        and groups: "dir_at v' SCIMGroup m = dir_at v SCIMGroup m" for m
        using f by simp_all
      have "listed_still c us v'"
        unfolding listed_still_def
      proof (intro ballI)
        fix x assume x: "x \<in> set us"
        with Cons.prems(1) have "dr_accountId x \<noteq> ?n" by simp (metis image_eqI)
        with h x show "dir_at v' SCIMSubject (dr_accountId x) = Some x \<and> dr_connectionUid x = sc_uid c
            \<and> (\<forall>y. dir_at v' SCIMGroup (dr_accountId x) = Some y \<longrightarrow> dr_connectionUid y \<noteq> sc_uid c)"
          by (simp add: listed_still_def same groups)
      qed
      moreover have "settled c g ids v' n" if "n \<in> old" for n
      proof -
        have "n \<noteq> ?n" using that Cons.prems(3) by auto
        moreover have "settled c g ids v n" using that h by blast
        ultimately show ?thesis by (simp add: settled_def same)
      qed
      moreover have "beyond names w v'"
        unfolding beyond_def
      proof (intro allI impI)
        fix m assume m: "m \<notin> names"
        with Cons.prems(2) have "m \<noteq> ?n" by auto
        with m h show "dir_at v' SCIMSubject m = dir_at w SCIMSubject m" by (simp add: beyond_def same)
      qed
      ultimately show ?thesis using now by blast
    qed
    then show "case set_member_step K c g ids u v of
        (Inr x, v') \<Rightarrow> listed_still c us v' \<and> (\<forall>n \<in> insert ?n old. settled c g ids v' n) \<and> beyond names w v'
      | (Inl e, v') \<Rightarrow> True"
      by (simp add: r split: sum.split)
  qed
  have "runs (\<lambda>v. listed_still c us v \<and> (\<forall>n \<in> insert ?n old. settled c g ids v n) \<and> beyond names w v)
     (e_each us () (\<lambda>u _. set_member_step K c g ids u))
     (\<lambda>_ v. (\<forall>n \<in> insert ?n old \<union> dr_accountId ` set us. settled c g ids v n) \<and> beyond names w v) (\<lambda>_. True)"
    using Cons.prems by (intro Cons.IH) auto
  then have loop: "runs (\<lambda>v. listed_still c us v \<and> (\<forall>n \<in> insert ?n old. settled c g ids v n) \<and> beyond names w v)
     (e_each us () (\<lambda>u _. set_member_step K c g ids u))
     (\<lambda>_ v. (\<forall>n \<in> old \<union> dr_accountId ` set (u # us). settled c g ids v n) \<and> beyond names w v) (\<lambda>_. True)"
    by simp
  show ?case
    unfolding e_each.simps
    apply (rule runs_then [OF step])
    subgoal for x using loop by (cases x) (simp only:)
    done
qed

lemma list_users_runs:
  assumes "\<forall>kind w. fst (sd_list K kind w) \<noteq> None"
  shows "runs (\<lambda>v. dir_at v = d) (scim_listUsers K c) (\<lambda>us v. dir_at v = d \<and> distinct (map dr_accountId us)
     \<and> (\<forall>x. x \<in> set us \<longleftrightarrow> d SCIMSubject (dr_accountId x) = Some x \<and> dr_connectionUid x = sc_uid c)) (\<lambda>_. True)"
  unfolding runs_def
proof (intro allI impI)
  fix v assume d: "dir_at v = d"
  obtain l1 v1 where l1: "sd_list K SCIMSubject v = (Some l1, v1)" by (metis assms fst_conv not_None_eq surj_pair)
  obtain l2 v2 where l2: "sd_list K SCIMGroup v1 = (Some l2, v2)" by (metis assms fst_conv not_None_eq surj_pair)
  note p1 = list_call [OF l1] and p2 = list_call [OF l2]
  have us: "scim_listUsers K c v = (Inr (filter (\<lambda>r. \<not> dr_is_group r \<and> dr_connectionUid r = sc_uid c) (l1 @ l2)), v2)"
    by (simp add: scim_listUsers_def dir_listUsers_def dir_list_def e_then_def e_call_def e_return_def l1 l2 getIdentity_def)
      (rule arg_cong2 [where f = append]; rule filter_cong; auto)
  have k1: "\<not> dr_is_group r" if "r \<in> set l1" for r using that p1 named d by (metis dr_is_group_def scim_kind.distinct(1))
  have k2: "dr_is_group r" if "r \<in> set l2" for r using that p2 p1 named d by (metis dr_is_group_def)
  have fl: "filter (\<lambda>r. \<not> dr_is_group r \<and> dr_connectionUid r = sc_uid c) (l1 @ l2) = filter (\<lambda>r. dr_connectionUid r = sc_uid c) l1"
    using k1 k2 by (auto simp: filter_empty_conv intro: filter_cong)
  have "distinct (map dr_accountId l1)" using p1 by simp
  then have "distinct (map dr_accountId (filter (\<lambda>r. dr_connectionUid r = sc_uid c) l1))" by (rule distinct_map_filter)
  with p1 p2 d show "case scim_listUsers K c v of
      (Inr us, v') \<Rightarrow> dir_at v' = d \<and> distinct (map dr_accountId us)
        \<and> (\<forall>x. x \<in> set us \<longleftrightarrow> d SCIMSubject (dr_accountId x) = Some x \<and> dr_connectionUid x = sc_uid c)
    | (Inl e, v') \<Rightarrow> True"
    unfolding us fl by auto
qed

lemma replace_runs:
  assumes lists: "\<forall>kind w. fst (sd_list K kind w) \<noteq> None" and "kept c w"
  shows "runs (\<lambda>v. dir_at v = dir_at w) (replaceMembers K c g ms) (\<lambda>_ v. \<exists>ids. member_ids K (json_list_or_empty ms) = Some ids
     \<and> (\<forall>n x. dir_at v SCIMSubject n = Some x \<and> dr_connectionUid x = sc_uid c \<longrightarrow> member_of g (dr_identity x) = (n \<in> set ids)))
     (\<lambda>_. True)" (is "runs _ _ (\<lambda>_ v. \<exists>ids. _ \<and> ?Q ids v) _")
proof (cases "member_ids K (json_list_or_empty ms)")
  case None
  then show ?thesis by (simp add: replaceMembers_def e_get_def runs_throw)
next
  case (Some ids)
  have among: "runs (\<lambda>v. dir_at v = dir_at w \<and> distinct (map dr_accountId us)
      \<and> (\<forall>x. x \<in> set us \<longleftrightarrow> dir_at w SCIMSubject (dr_accountId x) = Some x \<and> dr_connectionUid x = sc_uid c))
      (replace_among K c g ids us) (\<lambda>_ v. ?Q ids v) (\<lambda>_. True)" for us
    unfolding runs_def
  proof (intro allI impI)
    fix v assume h: "dir_at v = dir_at w \<and> distinct (map dr_accountId us)
      \<and> (\<forall>x. x \<in> set us \<longleftrightarrow> dir_at w SCIMSubject (dr_accountId x) = Some x \<and> dr_connectionUid x = sc_uid c)"
    let ?names = "dr_accountId ` set us"
    have pre: "listed_still c us v \<and> (\<forall>n \<in> {}. settled c g ids v n) \<and> beyond ?names w v"
    proof -
      have "listed_still c us v"
        unfolding listed_still_def
      proof (intro ballI conjI allI impI)
        fix u assume u: "u \<in> set us"
        with h show "dir_at v SCIMSubject (dr_accountId u) = Some u" "dr_connectionUid u = sc_uid c" by auto
        fix x assume x: "dir_at v SCIMGroup (dr_accountId u) = Some x"
        have "starts_with ''scim-u-'' (dr_accountId u)"
          using \<open>kept c w\<close> u h unfolding kept_def by fastforce
        moreover have "starts_with ''scim-g-'' (dr_accountId u)" if "dr_connectionUid x = sc_uid c"
          using \<open>kept c w\<close> x h that unfolding kept_def by fastforce
        ultimately show "dr_connectionUid x \<noteq> sc_uid c" using starts_u_g by blast
      qed
      with h show ?thesis by (simp add: beyond_def)
    qed
    obtain r v' where r: "replace_among K c g ids us v = (r, v')" by (meson surj_pair)
    have "?Q ids v'" if "r = Inr x" for x
    proof -
      have "e_each us () (\<lambda>u _. set_member_step K c g ids u) v = (Inr x, v')"
        using r that by (simp add: replace_among_def e_require_def e_throw_def e_then_def e_return_def split: if_splits)
      with runs_result [OF loop_runs [where old = "{}" and names = ?names and us = us] pre] h
      have q: "(\<forall>n \<in> ?names. settled c g ids v' n) \<and> beyond ?names w v'" by fastforce
      show ?thesis
      proof (intro allI impI)
        fix n x assume x: "dir_at v' SCIMSubject n = Some x \<and> dr_connectionUid x = sc_uid c"
        have "n \<in> ?names"
        proof (rule ccontr)
          assume n: "n \<notin> ?names"
          with q x have "dir_at w SCIMSubject n = Some x" by (simp add: beyond_def)
          with named x h have "x \<in> set us" "dr_accountId x = n" by metis+
          with n show False by blast
        qed
        with q x show "member_of g (dr_identity x) = (n \<in> set ids)" by (auto simp: settled_def)
      qed
    qed
    then show "case replace_among K c g ids us v of (Inr x, v') \<Rightarrow> ?Q ids v' | (Inl e, v') \<Rightarrow> True"
      by (simp add: r split: sum.split)
  qed
  have "runs (\<lambda>v. dir_at v = dir_at w) (e_then (scim_listUsers K c) (replace_among K c g ids)) (\<lambda>_ v. ?Q ids v) (\<lambda>_. True)"
    by (rule runs_then [OF list_users_runs [OF lists] among])
  with Some show ?thesis by (simp add: replaceMembers_def e_get_def)
qed

lemma replaced_set:
  assumes "\<forall>kind w. fst (sd_list K kind w) \<noteq> None" "kept c w" "replaceMembers K c g ms w = (Inr u, w')"
    and "dir_at w' SCIMSubject n = Some x" "dr_connectionUid x = sc_uid c"
  shows "\<exists>ids. member_ids K (json_list_or_empty ms) = Some ids \<and> member_of g (dr_identity x) = (n \<in> set ids)"
  using runs_result [OF replace_runs [OF assms(1,2)] refl assms(3)] assms(4,5) by fastforce

end

subsection \<open>A directory held as a list\<close>

record mem_directory =
  md_rows :: "dir_resource list"
  md_clock :: nat

definition mem_dir_at :: "mem_directory \<Rightarrow> scim_kind \<Rightarrow> string \<Rightarrow> dir_resource option" where
  "mem_dir_at w kind n = find (\<lambda>r. dr_kind r = kind \<and> dr_accountId r = n) (md_rows w)"

text \<open>\<open>up\<close> says which kinds answer a list.\<close>

definition mem_scim :: "(scim_kind \<Rightarrow> bool) \<Rightarrow> mem_directory scim_calls" where
  "mem_scim up = \<lparr>
     sd_list = (\<lambda>kind w. (if up kind then Some (filter (\<lambda>r. mem_dir_at w kind (dr_accountId r) = Some r) (remdups (md_rows w)))
                          else None, w)),
     sd_get = (\<lambda>kind n w. (mem_dir_at w kind n, w)),
     sd_create = (\<lambda>kind n ref uid s w. (if mem_dir_at w kind n = None then
        let r = \<lparr>dr_accountId = n, dr_resourceVersion = 1, dr_kind = kind, dr_identity = s, dr_connectionUid = uid,
                 dr_linkedAccountId = None\<rparr> in (Some r, w\<lparr>md_rows := md_rows w @ [r]\<rparr>)
        else (None, w))),
     sd_patch = (\<lambda>kind n new old w. (case mem_dir_at w kind n of
        None \<Rightarrow> (None, w)
      | Some x \<Rightarrow> if dr_identity x = old then
          let y = x\<lparr>dr_resourceVersion := dr_resourceVersion x + 1, dr_identity := new\<rparr> in
          (Some y, w\<lparr>md_rows := map (\<lambda>r. if dr_kind r = kind \<and> dr_accountId r = n then y else r) (md_rows w)\<rparr>)
        else (None, w))),
     sd_link = (\<lambda>n v a w. (None, w)),
     sd_onChange = (\<lambda>r w. (Inr (), w)),
     sd_now = (\<lambda>w. (replicate (md_clock w) (CHR ''t''), w\<lparr>md_clock := md_clock w + 1\<rparr>)),
     sd_digest = (\<lambda>s. s),
     sd_string = (\<lambda>j. case j of JStr s \<Rightarrow> s | JBool b \<Rightarrow> (if b then ''true'' else ''false'') | _ \<Rightarrow> ''?'')\<rparr>"

lemma find_snoc: "find P (xs @ [x]) = (case find P xs of Some y \<Rightarrow> Some y | None \<Rightarrow> if P x then Some x else None)"
  by (induction xs) auto

lemma find_map_here: "P y \<Longrightarrow> find P xs \<noteq> None \<Longrightarrow> find P (map (\<lambda>r. if P r then y else r) xs) = Some y"
  by (induction xs) auto

lemma find_map_there: "(\<And>r. Q r \<Longrightarrow> \<not> P r) \<Longrightarrow> \<not> Q y \<Longrightarrow> find Q (map (\<lambda>r. if P r then y else r) xs) = find Q xs"
  by (induction xs) auto

lemma mem_named: "mem_dir_at w kind n = Some x \<Longrightarrow> dr_accountId x = n \<and> dr_kind x = kind \<and> x \<in> set (md_rows w)"
  by (auto simp: mem_dir_at_def find_Some_iff)

lemma mem_patched:
  assumes "mem_dir_at w kind n = Some x" "dr_kind y = kind" "dr_accountId y = n"
  shows "mem_dir_at (w\<lparr>md_rows := map (\<lambda>r. if dr_kind r = kind \<and> dr_accountId r = n then y else r) (md_rows w)\<rparr>) k m
    = (if (k, m) = (kind, n) then Some y else mem_dir_at w k m)"
proof (cases "(k, m) = (kind, n)")
  case True
  with assms show ?thesis
    using find_map_here [where P = "\<lambda>r. dr_kind r = kind \<and> dr_accountId r = n" and y = y and xs = "md_rows w"]
    by (simp add: mem_dir_at_def)
next
  case False
  with assms show ?thesis
    by (auto simp: mem_dir_at_def intro!: find_map_there)
qed

lemma mem_list:
  assumes "sd_list (mem_scim up) kind w = (rl, w')"
  shows "mem_dir_at w' = mem_dir_at w \<and> (\<forall>rs. rl = Some rs \<longrightarrow> distinct (map dr_accountId rs)
     \<and> (\<forall>x. x \<in> set rs \<longleftrightarrow> mem_dir_at w kind (dr_accountId x) = Some x))"
proof -
  have "distinct (map dr_accountId (filter (\<lambda>r. mem_dir_at w kind (dr_accountId r) = Some r) (remdups (md_rows w))))"
    by (simp add: distinct_map inj_on_def) (metis option.inject)
  moreover have "x \<in> set (filter (\<lambda>r. mem_dir_at w kind (dr_accountId r) = Some r) (remdups (md_rows w)))
      \<longleftrightarrow> mem_dir_at w kind (dr_accountId x) = Some x" for x
    using mem_named [of w kind "dr_accountId x" x] by auto
  moreover have "w' = w" "rl = (if up kind then Some (filter (\<lambda>r. mem_dir_at w kind (dr_accountId r) = Some r) (remdups (md_rows w)))
      else None)"
    using assms by (simp_all add: mem_scim_def)
  ultimately show ?thesis by (simp split: if_split del: set_filter)
qed

lemma mem_create:
  assumes "sd_create (mem_scim up) kind n ref uid s w = (rc, w')"
  shows "(\<forall>k m. (k, m) \<noteq> (kind, n) \<longrightarrow> mem_dir_at w' k m = mem_dir_at w k m)
      \<and> (mem_dir_at w' kind n = mem_dir_at w kind n \<and> rc = None
         \<or> mem_dir_at w kind n = None \<and> (\<exists>x. mem_dir_at w' kind n = Some x \<and> dr_identity x = s \<and> dr_connectionUid x = uid \<and> rc \<in> {None, Some x}))"
proof (cases "mem_dir_at w kind n")
  case None
  with assms show ?thesis by (auto simp: mem_scim_def Let_def mem_dir_at_def find_snoc split: option.split)
next
  case (Some x)
  with assms show ?thesis by (simp add: mem_scim_def)
qed

lemma mem_patch:
  assumes "sd_patch (mem_scim up) kind n new old w = (rp, w')"
  shows "(\<forall>k m. (k, m) \<noteq> (kind, n) \<longrightarrow> mem_dir_at w' k m = mem_dir_at w k m)
      \<and> (mem_dir_at w' kind n = mem_dir_at w kind n \<and> rp = None
         \<or> (\<exists>x y. mem_dir_at w kind n = Some x \<and> mem_dir_at w' kind n = Some y \<and> dr_connectionUid y = dr_connectionUid x
              \<and> dr_linkedAccountId y = dr_linkedAccountId x \<and> (dr_identity x = old \<longrightarrow> dr_identity y = new) \<and> rp \<in> {None, Some y}))"
proof (cases "mem_dir_at w kind n")
  case None
  with assms show ?thesis by (simp add: mem_scim_def)
next
  case (Some x)
  let ?y = "x\<lparr>dr_resourceVersion := dr_resourceVersion x + 1, dr_identity := new\<rparr>"
  have y: "dr_kind ?y = kind" "dr_accountId ?y = n" using mem_named [OF Some] by simp_all
  show ?thesis
  proof (cases "dr_identity x = old")
    case True
    with assms Some have r: "rp = Some ?y"
      "w' = w\<lparr>md_rows := map (\<lambda>r. if dr_kind r = kind \<and> dr_accountId r = n then ?y else r) (md_rows w)\<rparr>"
      by (auto simp: mem_scim_def Let_def)
    show ?thesis unfolding r mem_patched [OF Some y] using Some by simp
  next
    case False
    with assms Some show ?thesis by (simp add: mem_scim_def)
  qed
qed

interpretation mem_directory_server: directory_server "mem_scim up" mem_dir_at for up
proof (unfold_locales, goal_cases)
  case (1 w kind n x)
  then show ?case using mem_named by blast
next
  case (2 kind w rl w')
  then show ?case by (rule mem_list)
next
  case (3 kind n w rg w')
  then show ?case by (auto simp: mem_scim_def)
next
  case (4 kind n ref uid s w rc w')
  then show ?case by (rule mem_create)
next
  case (5 kind n new old w rp w')
  then show ?case by (rule mem_patch)
next
  case (6 x w ru w')
  then show ?case by (auto simp: mem_scim_def)
next
  case (7 w t w')
  then show ?case by (auto simp: mem_scim_def mem_dir_at_def fun_eq_iff)
qed

subsection \<open>Properties\<close>

fun scim_run :: "'w scim_calls \<Rightarrow> scim_connection \<Rightarrow> scim_request list \<Rightarrow> 'w \<Rightarrow> 'w" where
  "scim_run K c [] w = w"
| "scim_run K c (q # qs) w = scim_run K c qs (snd (scim_perform K c q w))"

lemma run_keeps:
  assumes laws: "directory_server K dir_at" and "directory_server.kept dir_at c w"
  shows "directory_server.kept dir_at c (scim_run K c qs w) \<and> directory_server.apart dir_at c w (scim_run K c qs w)"
  using assms(2)
proof (induction qs arbitrary: w)
  case Nil
  then show ?case by (simp add: directory_server.apart_def [OF laws])
next
  case (Cons q qs)
  from directory_server.request_keeps [OF laws Cons.prems, of q] Cons.IH
  show ?case by (simp add: directory_server.apart_def [OF laws])
qed

text \<open>A connection by groups, and what a directory serves of it.\<close>

definition demo_scim :: scim_connection where
  "demo_scim = \<lparr>sc_id = ''entra'', sc_uid = ''c1'', sc_resourceVersion = 1, sc_group = \<lparr>g_prefix = Some ''scim'', g_name = ''staff''\<rparr>,
     sc_grantMode = ''groups'', sc_tokenHashes = [], sc_disabled = False, sc_linking = None\<rparr>"

definition scim_user_id :: "string \<Rightarrow> string" where
  "scim_user_id n = resourceId (mem_scim (\<lambda>_. True)) ''u'' ''c1'' n"

definition scim_group_id :: "string \<Rightarrow> string" where
  "scim_group_id n = resourceId (mem_scim (\<lambda>_. True)) ''g'' ''c1'' n"

definition json_user :: "string \<Rightarrow> json option" where
  "json_user n = Some (JObj [(''userName'', JStr n)])"

definition json_members :: "string list \<Rightarrow> json" where
  "json_members ids = JArr (map (\<lambda>i. JObj [(''value'', JStr i)]) ids)"

definition json_group :: "string \<Rightarrow> string list \<Rightarrow> json option" where
  "json_group n ids = Some (JObj [(''displayName'', JStr n), (''members'', json_members ids)])"

definition json_patch :: "(string \<times> json) list list \<Rightarrow> json option" where
  "json_patch opers = Some (JArr (map JObj opers))"

definition empty_directory :: mem_directory where
  "empty_directory = \<lparr>md_rows = [], md_clock = 0\<rparr>"

text \<open>Two users and a group of both.\<close>

definition demo_directory :: mem_directory where
  "demo_directory = scim_run (mem_scim (\<lambda>_. True)) demo_scim
     [CreateUser (json_user ''ada''), CreateUser (json_user ''bob''),
      CreateGroup (json_group ''eng'' [scim_user_id ''ada'', scim_user_id ''bob''])] empty_directory"

definition served_groups :: "mem_directory \<Rightarrow> string \<Rightarrow> group list" where
  "served_groups w n = (case mem_dir_at w SCIMSubject (scim_user_id n) of
     Some x \<Rightarrow> list_or_empty (si_groups (dr_identity x)) | None \<Rightarrow> [])"

text \<open>
  C35: The service provider of one connection keeps to its own resources and leaves them
  consistent. Whatever requests a connection's client sends, in whatever order and however they
  end, from a directory where the connection's subjects and groups carry the service's names and
  every subject the groups that its state, its memberships and the grant mode call for: this is so
  afterwards, and every subject and group of another connection is as it was. For every directory
  that keeps the contract of the calls, lists and writes that fail included.
\<close>

theorem scim_requests_keep:
  assumes "directory_server K dir_at" "directory_server.kept dir_at c w"
  shows "directory_server.kept dir_at c (scim_run K c qs w) \<and> directory_server.apart dir_at c w (scim_run K c qs w)"
  using assms by (rule run_keeps)

lemma empty_kept: "directory_server.kept mem_dir_at c empty_directory"
  by (simp add: mem_directory_server.kept_def mem_dir_at_def empty_directory_def)

theorem scim_requests_keep_witness:
  "directory_server.kept mem_dir_at demo_scim demo_directory \<and> served_groups demo_directory ''ada'' = [sc_group demo_scim]"
proof
  show "directory_server.kept mem_dir_at demo_scim demo_directory"
    unfolding demo_directory_def using scim_requests_keep [OF mem_directory_server.directory_server_axioms empty_kept] by blast
  show "served_groups demo_directory ''ada'' = [sc_group demo_scim]" by code_simp
qed

lemma demo_kept: "directory_server.kept mem_dir_at demo_scim demo_directory"
  unfolding demo_directory_def using run_keeps [OF mem_directory_server.directory_server_axioms empty_kept] by blast


definition demo_regrouped :: mem_directory where
  "demo_regrouped = snd (replaceMembers (mem_scim (\<lambda>_. True)) demo_scim (scim_group_id ''eng'')
     (Some (json_members [scim_user_id ''bob''])) demo_directory)"


subsection \<open>Where the promises end\<close>

definition served_names :: "mem_directory \<Rightarrow> scim_kind \<Rightarrow> string option list" where
  "served_names w kind = map (\<lambda>r. if kind = SCIMGroup then si_displayName (dr_identity r) else si_userName (dr_identity r))
     (filter (\<lambda>r. dr_kind r = kind \<and> si_active (dr_identity r) \<noteq> Some False) (md_rows w))"

text \<open>Without a path, an operation \<open>add\<close> replaces: who is not named loses the membership and its group.\<close>

theorem pathless_add_drops_members:
  "fst (patchGroup (mem_scim (\<lambda>_. True)) demo_scim (scim_group_id ''eng'')
     (json_patch [[(''op'', JStr ''add''), (''value'', JObj [(''members'', json_members [scim_user_id ''bob''])])]]) demo_directory)
     \<noteq> Inl ServerError
   \<and> served_groups (snd (patchGroup (mem_scim (\<lambda>_. True)) demo_scim (scim_group_id ''eng'')
     (json_patch [[(''op'', JStr ''add''), (''value'', JObj [(''members'', json_members [scim_user_id ''bob''])])]]) demo_directory)) ''ada'' = []"
  by code_simp

text \<open>A list of subjects that fails counts as no subjects: the group is deleted and what it granted stays.\<close>

theorem unlisted_delete_keeps_grants:
  "fst (deleteGroup (mem_scim (\<lambda>k. k = SCIMGroup)) demo_scim (scim_group_id ''eng'') demo_directory) = Inr ()
   \<and> (let w = snd (deleteGroup (mem_scim (\<lambda>k. k = SCIMGroup)) demo_scim (scim_group_id ''eng'') demo_directory) in
      served_names w SCIMGroup = [] \<and> served_groups w ''ada'' = [sc_group demo_scim]
      \<and> fst (deleteGroup (mem_scim (\<lambda>_. True)) demo_scim (scim_group_id ''eng'') w) = Inl (ScimError 404 None))"
  by code_simp

text \<open>A new group takes over a live one, when the live one was created with the external id that the
  new one has and has been given another since.\<close>

theorem created_group_takes_over:
  "(let w = scim_run (mem_scim (\<lambda>_. True)) demo_scim [ReplaceGroup (scim_group_id ''eng'')
       (Some (JObj [(''displayName'', JStr ''ops''), (''externalId'', JStr ''x'')])),
       CreateGroup (json_group ''eng'' [])] demo_directory in
     served_names w SCIMGroup = [Some ''eng''])
   \<and> served_names (scim_run (mem_scim (\<lambda>_. True)) demo_scim [ReplaceGroup (scim_group_id ''eng'')
       (Some (JObj [(''displayName'', JStr ''ops''), (''externalId'', JStr ''x'')]))] demo_directory) SCIMGroup = [Some ''ops'']"
  by code_simp

text \<open>Only a creation checks that a name is free.\<close>

theorem replaced_user_shares_a_name:
  "served_names demo_directory SCIMSubject = [Some ''ada'', Some ''bob'']
   \<and> fst (createUser (mem_scim (\<lambda>_. True)) demo_scim (json_user ''bob'') demo_directory)
       = Inl (ScimError 409 (Some ''uniqueness''))
   \<and> served_names (snd (replaceUser (mem_scim (\<lambda>_. True)) demo_scim (scim_user_id ''ada'') (json_user ''bob'') demo_directory)) SCIMSubject
       = [Some ''bob'', Some ''bob'']"
  by code_simp

end
