(* ===== verification/ScimRoutes.thy ===== *)
theory ScimRoutes
  imports ScimContract Claims
begin

text \<open>
  The SCIM endpoints (\<^verbatim>\<open>src/routes/scimRoutes.js\<close>): bearer authentication, filters, pages, the
  handlers and the answers to errors. A request comes parsed, its query values as \<open>String\<close> gives
  them; the details of errors are left out. \<open>inherited\<close> is what a name means on every object, such
  as \<open>constructor\<close>, as a string.
\<close>

subsection \<open>Requests and answers\<close>

datatype scim_route =
    GetServiceProviderConfig | GetResourceTypes | GetSchemas
  | GetUsers | PostUsers | GetUser string | PutUser string | PatchUserR string | DeleteUserR string
  | GetGroups | PostGroups | GetGroup string | PutGroup string | PatchGroupR string | DeleteGroupR string

record scim_query =
  qr_filter :: "string option"
  qr_startIndex :: "string option"
  qr_count :: "string option"

text \<open>The body is \<open>Inl ()\<close> where it cannot be parsed.\<close>

record scim_http =
  hq_connection :: string
  hq_route :: scim_route
  hq_authorization :: string
  hq_body :: "unit + json option"
  hq_query :: scim_query

record 'a list_response =
  lr_totalResults :: int
  lr_startIndex :: int
  lr_itemsPerPage :: int
  lr_Resources :: "'a list"

datatype scim_body =
    ErrorBody nat "string option"
  | UserBody user_resource
  | GroupBody group_resource
  | UserList "user_resource list_response"
  | GroupList "group_resource list_response"
  | TypeList "string list_response"
  | SchemaList "string list_response"
  | ConfigBody string
  | NoBody

record scim_response =
  rs_status :: nat
  rs_body :: scim_body
  rs_headers :: "(string \<times> string) list"

definition bearerToken :: "string \<Rightarrow> string option" where
  "bearerToken authorization = (if starts_with ''Bearer '' authorization then Some (drop 7 authorization) else None)"

definition scimError :: "scim_failure \<Rightarrow> nat \<times> scim_body" where
  "scimError e = (case e of
     ScimError status ty \<Rightarrow> (status, ErrorBody status (if truthy ty then ty else None))
   | ServerError \<Rightarrow> (500, ErrorBody 500 None))"

subsection \<open>Filters\<close>

text \<open>\<open>split(/\s+and\s+/i)\<close>\<close>

function split_and :: "string \<Rightarrow> string \<Rightarrow> string list" where
  "split_and acc [] = [rev acc]"
| "split_and acc (ch # s) =
     (let t = dropWhile js_space s; u = drop 3 t in
      if js_space ch \<and> to_lower (take 3 t) = ''and'' \<and> u \<noteq> [] \<and> js_space (hd u)
      then rev acc # split_and [] (dropWhile js_space u)
      else split_and (ch # acc) s)"
  by pat_completeness auto

lemma length_after_and: "length (dropWhile P (drop 3 (dropWhile Q s))) < Suc (length s)"
  by (metis (no_types, lifting) diff_le_self le_imp_less_Suc length_drop length_dropWhile_le order_trans)

termination split_and
  by (relation "measure (length \<circ> snd)") (simp_all add: length_after_and)

record filter_clause =
  fc_attribute :: string
  fc_value :: string

definition word_or_dot :: "char \<Rightarrow> bool" where
  "word_or_dot ch = (ascii_alpha ch \<or> ascii_digit ch \<or> ch = CHR ''_'' \<or> ch = CHR ''.'')"

text \<open>\<open>/^([\w.]+)\s+eq\s+"([^"]*)"$/i\<close>\<close>

definition parse_clause :: "string \<Rightarrow> filter_clause option" where
  "parse_clause s =
     (let attribute = takeWhile word_or_dot s; t = dropWhile word_or_dot s; u = dropWhile js_space t;
          v = drop 2 u; x = dropWhile js_space v; y = drop 1 x in
      if attribute \<noteq> [] \<and> u \<noteq> t \<and> to_lower (take 2 u) = ''eq'' \<and> x \<noteq> v \<and> take 1 x = [CHR 0x22]
         \<and> y \<noteq> [] \<and> last y = CHR 0x22 \<and> CHR 0x22 \<notin> set (butlast y)
      then Some \<lparr>fc_attribute = attribute, fc_value = butlast y\<rparr> else None)"

fun parse_clauses :: "string list \<Rightarrow> scim_failure + filter_clause list" where
  "parse_clauses [] = Inr []"
| "parse_clauses (s # ss) = (case parse_clause s of
     None \<Rightarrow> Inl (ScimError 400 (Some ''invalidFilter''))
   | Some cl \<Rightarrow> (case parse_clauses ss of Inl e \<Rightarrow> Inl e | Inr cls \<Rightarrow> Inr (cl # cls)))"

definition parseFilter :: "string option \<Rightarrow> scim_failure + filter_clause list" where
  "parseFilter f = (if \<not> truthy f then Inr [] else parse_clauses (split_and [] (tmpl f)))"

definition filter_key :: "(string \<Rightarrow> string option) \<Rightarrow> string \<Rightarrow> string option" where
  "filter_key inherited attribute =
     (let lower = to_lower attribute in
      case map_of [(''username'', ''userName''), (''externalid'', ''externalId''), (''displayname'', ''displayName''),
        (''id'', ''id'')] lower of
        Some k \<Rightarrow> Some k
      | None \<Rightarrow> if inherited lower = None then Some attribute else None)"

definition matches :: "(string \<Rightarrow> string option) \<Rightarrow> (string \<Rightarrow> string option) \<Rightarrow> filter_clause list \<Rightarrow> bool" where
  "matches inherited member clauses = list_all (\<lambda>cl.
     (case filter_key inherited (fc_attribute cl) of
        None \<Rightarrow> []
      | Some k \<Rightarrow> (case member k of Some v \<Rightarrow> v | None \<Rightarrow> list_or_empty (inherited k))) = fc_value cl) clauses"

definition objects_text :: "nat \<Rightarrow> string" where
  "objects_text n = concat (map (\<lambda>k. if k = 0 then ''[object Object]'' else '',[object Object]'') [0..<n])"

text \<open>What reading a member and \<open>String\<close> give; \<open>None\<close> for one that is not there.\<close>

definition json_text :: "'w scim_calls \<Rightarrow> json option \<Rightarrow> string option" where
  "json_text K v = (if nullish v then None else Some (text_of K v))"

definition user_member :: "'w scim_calls \<Rightarrow> user_resource \<Rightarrow> string \<Rightarrow> string option" where
  "user_member K r k = (case map_of
     [(''schemas'', Some ''urn:ietf:params:scim:schemas:core:2.0:User''), (''id'', Some (ur_id r)),
      (''externalId'', json_text K (ur_externalId r)), (''userName'', ur_userName r), (''displayName'', ur_displayName r),
      (''active'', Some (if ur_active r then ''true'' else ''false'')), (''emails'', Some (objects_text (length (ur_emails r)))),
      (''meta'', Some (objects_text 1))] k of Some v \<Rightarrow> v | None \<Rightarrow> None)"

definition group_member :: "'w scim_calls \<Rightarrow> group_resource \<Rightarrow> string \<Rightarrow> string option" where
  "group_member K r k = (case map_of
     [(''schemas'', Some ''urn:ietf:params:scim:schemas:core:2.0:Group''), (''id'', Some (gr_id r)),
      (''externalId'', json_text K (gr_externalId r)), (''displayName'', gr_displayName r),
      (''members'', Some (objects_text (length (gr_members r)))), (''meta'', Some (objects_text 1))] k of
     Some v \<Rightarrow> v | None \<Rightarrow> None)"

subsection \<open>Pages\<close>

definition digit_value :: "char \<Rightarrow> int" where
  "digit_value ch = int (of_char ch) - 48"

text \<open>\<open>Number.parseInt(s, 10)\<close>; \<open>None\<close> is \<open>NaN\<close>.\<close>

definition parse_int10 :: "string \<Rightarrow> int option" where
  "parse_int10 s =
     (let t = dropWhile js_space s; sign = (if take 1 t = ''-'' then - 1 else 1);
          ds = takeWhile ascii_digit (if take 1 t \<in> {''-'', ''+''} then drop 1 t else t) in
      if ds = [] then None else Some (sign * foldl (\<lambda>n ch. n * 10 + digit_value ch) 0 ds))"

definition page :: "int \<Rightarrow> int \<Rightarrow> 'a list \<Rightarrow> 'a list_response" where
  "page startIndex n resources =
     \<lparr>lr_totalResults = int (length resources), lr_startIndex = startIndex,
      lr_itemsPerPage = min n (max 0 (int (length resources) - startIndex + 1)),
      lr_Resources = take (nat n) (drop (nat (startIndex - 1)) resources)\<rparr>"

definition clamped_page :: "int option \<Rightarrow> int option \<Rightarrow> 'a list \<Rightarrow> 'a list_response" where
  "clamped_page parsedStart parsedCount resources =
     (let startIndex = max 1 (case parsedStart of None \<Rightarrow> 1 | Some i \<Rightarrow> i);
          n = max 0 (min 100 (case parsedCount of None \<Rightarrow> 100 | Some i \<Rightarrow> i)) in
      page startIndex n resources)"

definition listResponse :: "'a list \<Rightarrow> scim_query \<Rightarrow> 'a list_response" where
  "listResponse resources query = clamped_page
     (parse_int10 (case qr_startIndex query of Some s \<Rightarrow> s | None \<Rightarrow> ''1''))
     (parse_int10 (case qr_count query of Some s \<Rightarrow> s | None \<Rightarrow> ''100'')) resources"

subsection \<open>The handlers\<close>

definition patch_schema :: string where
  "patch_schema = ''urn:ietf:params:scim:api:messages:2.0:PatchOp''"

definition has_substring :: "string \<Rightarrow> string \<Rightarrow> bool" where
  "has_substring p s = (\<exists>k \<in> set [0..<Suc (length s)]. take (length p) (drop k s) = p)"

text \<open>\<open>body?.schemas?.includes(PATCH_SCHEMA)\<close>; \<open>None\<close> where there is no \<open>includes\<close>.\<close>

definition includes_patch_schema :: "json option \<Rightarrow> bool option" where
  "includes_patch_schema body = (case field ''schemas'' body of
     None \<Rightarrow> Some False
   | Some JNull \<Rightarrow> Some False
   | Some (JArr xs) \<Rightarrow> Some (JStr patch_schema \<in> set xs)
   | Some (JStr s) \<Rightarrow> Some (has_substring patch_schema s)
   | _ \<Rightarrow> None)"

definition require_patch_schema :: "json option \<Rightarrow> ('w, unit) scim" where
  "require_patch_schema body = e_then (e_get ServerError (includes_patch_schema body)) (\<lambda>ok.
     e_require ok (ScimError 400 (Some ''invalidSyntax'')))"

definition answered :: "scim_body \<Rightarrow> (string \<times> string) list \<Rightarrow> scim_response" where
  "answered body headers = \<lparr>rs_status = 200, rs_body = body, rs_headers = headers\<rparr>"

definition answer_user :: "user_resource \<Rightarrow> scim_response" where
  "answer_user r = answered (UserBody r) [(''ETag'', me_version (ur_meta r))]"

definition answer_group_resource :: "group_resource \<Rightarrow> scim_response" where
  "answer_group_resource r = answered (GroupBody r) [(''ETag'', me_version (gr_meta r))]"

definition created :: "string \<Rightarrow> scim_response \<Rightarrow> scim_response" where
  "created location r = r\<lparr>rs_status := 201, rs_headers := (''Location'', location) # rs_headers r\<rparr>"

definition no_content :: scim_response where
  "no_content = \<lparr>rs_status = 204, rs_body = NoBody, rs_headers = []\<rparr>"

definition e_filter :: "string option \<Rightarrow> ('w, filter_clause list) scim" where
  "e_filter f = (case parseFilter f of Inl e \<Rightarrow> e_throw e | Inr cls \<Rightarrow> e_return cls)"

definition serve_get :: "'w scim_calls \<Rightarrow> (string \<Rightarrow> string option) \<Rightarrow> scim_connection \<Rightarrow> scim_route \<Rightarrow> scim_query \<Rightarrow> ('w, scim_response) scim" where
  "serve_get K inherited c route q = (case route of
     GetServiceProviderConfig \<Rightarrow> e_return (answered (ConfigBody (''/scim/v2/'' @ sc_id c @ ''/ServiceProviderConfig'')) [])
   | GetResourceTypes \<Rightarrow> e_return (answered (TypeList (listResponse [''User'', ''Group''] q)) [])
   | GetSchemas \<Rightarrow> e_return (answered (SchemaList (listResponse [''User'', ''Group''] q)) [])
   | GetUsers \<Rightarrow> e_then (e_filter (qr_filter q)) (\<lambda>cls.
       e_then (scim_listUsers K c) (\<lambda>us.
       e_return (answered (UserList (listResponse
         (filter (\<lambda>r. matches inherited (user_member K r) cls) (map (userResource K c) us)) q)) [])))
   | GetUser i \<Rightarrow> e_then (scim_findUser K c i) (\<lambda>r. e_return (answer_user (userResource K c r)))
   | GetGroups \<Rightarrow> e_then (e_filter (qr_filter q)) (\<lambda>cls.
       e_then (scim_listGroups K c) (\<lambda>gs.
       e_then (scim_listUsers K c) (\<lambda>us.
       e_return (answered (GroupList (listResponse
         (filter (\<lambda>r. matches inherited (group_member K r) cls) (map (\<lambda>g. groupResource K c g us) gs)) q)) []))))
   | GetGroup i \<Rightarrow> e_then (scim_findGroup K c i) (\<lambda>r. e_then (scim_listUsers K c) (\<lambda>us.
       e_return (answer_group_resource (groupResource K c r us))))
   | _ \<Rightarrow> e_throw (ScimError 404 None))"

definition serve_change :: "'w scim_calls \<Rightarrow> scim_connection \<Rightarrow> scim_route \<Rightarrow> json option \<Rightarrow> ('w, scim_response) scim" where
  "serve_change K c route body = (case route of
     PostUsers \<Rightarrow> e_then (createUser K c body) (\<lambda>r. e_return (created (me_location (ur_meta r)) (answer_user r)))
   | PutUser i \<Rightarrow> e_then (replaceUser K c i body) (\<lambda>r. e_return (answer_user r))
   | PatchUserR i \<Rightarrow> e_then (require_patch_schema body) (\<lambda>_.
       e_then (patchUser K c i (field ''Operations'' body)) (\<lambda>r. e_return (answer_user r)))
   | DeleteUserR i \<Rightarrow> e_then (deactivateUser K c i) (\<lambda>_. e_return no_content)
   | PostGroups \<Rightarrow> e_then (createGroup K c body) (\<lambda>r. e_return (created (me_location (gr_meta r)) (answer_group_resource r)))
   | PutGroup i \<Rightarrow> e_then (replaceGroup K c i body) (\<lambda>r. e_return (answer_group_resource r))
   | PatchGroupR i \<Rightarrow> e_then (require_patch_schema body) (\<lambda>_.
       e_then (patchGroup K c i (field ''Operations'' body)) (\<lambda>r. e_return (answer_group_resource r)))
   | DeleteGroupR i \<Rightarrow> e_then (deleteGroup K c i) (\<lambda>_. e_return no_content)
   | _ \<Rightarrow> e_throw (ScimError 404 None))"

definition is_read :: "scim_route \<Rightarrow> bool" where
  "is_read route = (case route of
     GetServiceProviderConfig \<Rightarrow> True | GetResourceTypes \<Rightarrow> True | GetSchemas \<Rightarrow> True
   | GetUsers \<Rightarrow> True | GetUser _ \<Rightarrow> True | GetGroups \<Rightarrow> True | GetGroup _ \<Rightarrow> True | _ \<Rightarrow> False)"

definition serve :: "'w scim_calls \<Rightarrow> (string \<Rightarrow> string option) \<Rightarrow> scim_connection \<Rightarrow> scim_http \<Rightarrow> ('w, scim_response) scim" where
  "serve K inherited c h = (case hq_body h of
     Inl _ \<Rightarrow> e_throw ServerError
   | Inr body \<Rightarrow> if is_read (hq_route h) then serve_get K inherited c (hq_route h) (hq_query h)
                 else serve_change K c (hq_route h) body)"

definition unauthorized :: scim_response where
  "unauthorized = \<lparr>rs_status = 401, rs_body = ErrorBody 401 None, rs_headers = [(''WWW-Authenticate'', ''Bearer'')]\<rparr>"

text \<open>\<open>find\<close>: a disabled connection is none. The lookup is \<open>None\<close> where there is nothing to read.\<close>

definition find_connection :: "(string \<Rightarrow> 'w \<Rightarrow> scim_connection option \<times> 'w) \<Rightarrow> string \<Rightarrow> 'w \<Rightarrow> scim_connection option \<times> 'w" where
  "find_connection look i w = (let (found, w') = look i w in
     (case found of Some c \<Rightarrow> if sc_disabled c then None else Some c | None \<Rightarrow> None, w'))"

definition scim_handle ::
  "(string \<Rightarrow> nat list) \<Rightarrow> (string \<Rightarrow> nat list) \<Rightarrow> (string \<Rightarrow> 'w \<Rightarrow> scim_connection option \<times> 'w) \<Rightarrow>
   (scim_connection \<Rightarrow> 'w scim_calls) \<Rightarrow> (string \<Rightarrow> string option) \<Rightarrow> scim_http \<Rightarrow> 'w \<Rightarrow> scim_response \<times> 'w" where
  "scim_handle sha of_hex look calls inherited h w =
     (let (found, w1) = find_connection look (hq_connection h) w in
      case found of
        None \<Rightarrow> (unauthorized, w1)
      | Some c \<Rightarrow>
          if \<not> scim_authenticate sha of_hex c (bearerToken (hq_authorization h)) then (unauthorized, w1)
          else (case serve (calls c) inherited c h w1 of
              (Inr r, w2) \<Rightarrow> (r, w2)
            | (Inl e, w2) \<Rightarrow> (\<lparr>rs_status = fst (scimError e), rs_body = snd (scimError e), rs_headers = []\<rparr>, w2)))"

subsection \<open>What a request may change\<close>

context directory_server
begin

lemma stays_unchanged: "stays P (e_return x)" "stays P (e_throw e)" "stays P (e_get e v)" "stays P (e_require b e)"
  by (simp_all add: effect_rules)

lemma stays_filter: "stays P (e_filter f)"
  unfolding e_filter_def by (intro effect_rules)

lemma stays_serve_get: "stays (safe c w0) (serve_get K inherited c route q)"
  unfolding serve_get_def
  by (cases route) (auto intro!: effect_rules stays_filter stays_directory stays_scim_findGroup)

lemma stays_serve_change: "stays (safe c w0) (serve_change K c route body)"
  unfolding serve_change_def require_patch_schema_def deactivateUser_def
  by (cases route) (auto intro!: effect_rules stays_createUser stays_replaceUser stays_patchUser
      stays_createGroup stays_replaceGroup stays_patchGroup stays_deleteGroup)

lemma serve_keeps:
  assumes "kept c w" "serve K inherited c h w = (r, w')"
  shows "kept c w' \<and> apart c w w'"
proof -
  have "stays (safe c w) (serve K inherited c h)"
    unfolding serve_def
    by (cases "hq_body h") (simp_all add: effect_rules stays_serve_get stays_serve_change)
  from stays_end [OF this, of w] assms show ?thesis by (simp add: safe_def apart_def)
qed

end

subsection \<open>Properties\<close>


lemma list_pages_walk: "concat (map (\<lambda>k. take n (drop (k * n) xs)) [0..<m]) = take (m * n) xs"
  by (induction m) (simp_all add: take_add [symmetric] add.commute)

lemma page_of:
  assumes "1 \<le> i" "0 \<le> c" "c \<le> 100"
  shows "length (lr_Resources (page i c rs)) \<le> 100"
    "lr_itemsPerPage (page i c rs) = int (length (lr_Resources (page i c rs)))"
    "lr_Resources (page i c rs) = take (length (lr_Resources (page i c rs))) (drop (nat (lr_startIndex (page i c rs) - 1)) rs)"
proof -
  have cut: "take n xs = take (min (length xs) n) xs" for n and xs :: "'a list"
    by (simp add: min_def)
  then show "lr_Resources (page i c rs) = take (length (lr_Resources (page i c rs))) (drop (nat (lr_startIndex (page i c rs) - 1)) rs)"
    using cut [of "nat c" "drop (nat (i - 1)) rs"] by (simp add: page_def min.commute)
qed (use assms in \<open>simp_all add: page_def, linarith?\<close>)

text \<open>
  C38: A list response is a page of what was found. The total is the number of results, the page
  starts at 1 or later, holds at most 100 results, counts them right, and is the stretch from the
  start index; a client that walks in steps of the page size reads every result once, in order.
\<close>

theorem list_pages:
  "lr_totalResults (clamped_page i c rs) = int (length rs) \<and> 1 \<le> lr_startIndex (clamped_page i c rs)
   \<and> length (lr_Resources (clamped_page i c rs)) \<le> 100
   \<and> lr_itemsPerPage (clamped_page i c rs) = int (length (lr_Resources (clamped_page i c rs)))
   \<and> lr_Resources (clamped_page i c rs) = take (length (lr_Resources (clamped_page i c rs)))
       (drop (nat (lr_startIndex (clamped_page i c rs) - 1)) rs)
   \<and> concat (map (\<lambda>k. lr_Resources (clamped_page (Some (1 + int k * int (min 100 (Suc n)))) (Some (int (Suc n))) rs))
       [0..<length rs]) = rs"
proof -
  let ?n = "min 100 (Suc n)"
  have "lr_Resources (clamped_page (Some (1 + int k * int ?n)) (Some (int (Suc n))) rs) = take ?n (drop (k * ?n) rs)" for k
  proof -
    have "nat (max 1 (1 + int k * int m) - 1) = k * m" for m by (simp add: max_def flip: of_nat_mult)
    moreover have "nat (max 0 (min 100 (int (Suc n)))) = ?n" by simp
    ultimately show ?thesis by (simp only: clamped_page_def page_def Let_def option.case list_response.simps)
  qed
  then have walk: "concat (map (\<lambda>k. lr_Resources (clamped_page (Some (1 + int k * int ?n)) (Some (int (Suc n))) rs))
       [0..<length rs]) = rs"
    using list_pages_walk [of ?n rs "length rs"] by simp
  show ?thesis
    unfolding clamped_page_def Let_def
    by (intro conjI walk [unfolded clamped_page_def Let_def] page_of) (simp_all add: page_def)
qed

definition filter_text :: "filter_clause \<Rightarrow> string" where
  "filter_text cl = fc_attribute cl @ '' eq '' @ [CHR 0x22] @ fc_value cl @ [CHR 0x22]"

lemma takeWhile_word: "list_all P a \<Longrightarrow> \<not> P x \<Longrightarrow> takeWhile P (a @ x # t) = a \<and> dropWhile P (a @ x # t) = x # t"
  by (induction a) auto

lemma word_and_space: "\<not> word_or_dot (CHR '' '')" "js_space (CHR '' '')" "\<not> js_space (CHR ''e'')" "\<not> js_space (CHR 0x22)"
  by code_simp+

lemma parse_clause_text:
  assumes "fc_attribute cl \<noteq> []" "list_all word_or_dot (fc_attribute cl)" "CHR 0x22 \<notin> set (fc_value cl)"
  shows "parse_clause (filter_text cl) = Some cl"
proof -
  let ?v = "CHR 0x22 # fc_value cl @ [CHR 0x22]"
  have w: "takeWhile word_or_dot (filter_text cl) = fc_attribute cl"
    "dropWhile word_or_dot (filter_text cl) = CHR '' '' # CHR ''e'' # CHR ''q'' # CHR '' '' # ?v"
    using takeWhile_word [OF assms(2) word_and_space(1)] by (simp_all add: filter_text_def)
  have "to_lower ''eq'' = ''eq''" by code_simp
  then show ?thesis
    unfolding parse_clause_def w Let_def using assms(1,3) by (simp add: word_and_space)
qed



text \<open>A value with the word \<^verbatim>\<open>and\<close> between spaces is taken for two comparisons, and refused.\<close>

theorem filter_splits_values:
  "parseFilter (Some (''displayName eq '' @ [CHR 0x22] @ ''Research and Development'' @ [CHR 0x22]))
     = Inl (ScimError 400 (Some ''invalidFilter''))"
  by code_simp

subsection \<open>Examples\<close>

definition demo_secret_connection :: scim_connection where
  "demo_secret_connection = demo_scim\<lparr>sc_tokenHashes := [replicate 32 (CHR ''k'')]\<rparr>"

definition demo_handle :: "scim_http \<Rightarrow> mem_directory \<Rightarrow> scim_response \<times> mem_directory" where
  "demo_handle = scim_handle (\<lambda>s. map of_char (take 32 (s @ replicate 32 (CHR ''k'')))) (map of_char)
     (\<lambda>i w. (if i = ''entra'' then Some demo_secret_connection else None, w)) (\<lambda>_. mem_scim (\<lambda>_. True)) (\<lambda>_. None)"

definition demo_post :: "string \<Rightarrow> string \<Rightarrow> scim_http" where
  "demo_post authorization name = \<lparr>hq_connection = ''entra'', hq_route = PostUsers, hq_authorization = authorization,
     hq_body = Inr (json_user name), hq_query = \<lparr>qr_filter = None, qr_startIndex = None, qr_count = None\<rparr>\<rparr>"


end
