(* ===== verification/ScimLinking.thy ===== *)
theory ScimLinking
  imports ScimContract
begin

text \<open>
  SCIM subjects and login accounts (\<^verbatim>\<open>src/services/scim-link-service.js\<close>): linking at sign-in, the
  projection of a subject onto its account and its revocation, and the operator that revokes and
  counts (\<^verbatim>\<open>src/operators/kube-scim-connection-operator.js\<close>). The calls on accounts are a
  parameter beside those on the directory.
\<close>

subsection \<open>The linker\<close>

text \<open>The part of an account's spec that a connection owns.\<close>

record linked_identity =
  lk_sub :: "json option"
  lk_active :: bool
  lk_groups :: "group list"

text \<open>\<open>la_connections\<close> lists the connections, \<open>la_findUser\<close> says whether the account is there, and
  \<open>la_updateUser\<close> merges an identity under a source key into its spec.\<close>

record 'w link_calls =
  la_connections :: "'w \<Rightarrow> scim_connection list option \<times> 'w"
  la_findUser :: "string \<Rightarrow> 'w \<Rightarrow> bool \<times> 'w"
  la_updateUser :: "string \<Rightarrow> string \<Rightarrow> linked_identity \<Rightarrow> 'w \<Rightarrow> (unit + unit) \<times> 'w"

definition connection_list :: "'w link_calls \<Rightarrow> ('w, scim_connection list) scim" where
  "connection_list A = e_then (e_call (la_connections A)) (\<lambda>cs. e_return (filter (\<lambda>c. \<not> sc_disabled c) (list_or_empty cs)))"

definition projection :: "scim_identity \<Rightarrow> linked_identity" where
  "projection s = \<lparr>lk_sub = si_externalId s, lk_active = (si_active s \<noteq> Some False), lk_groups = list_or_empty (si_groups s)\<rparr>"

definition revoked :: "scim_identity \<Rightarrow> linked_identity" where
  "revoked s = \<lparr>lk_sub = si_externalId s, lk_active = False, lk_groups = []\<rparr>"

definition link_project :: "'w link_calls \<Rightarrow> scim_connection \<Rightarrow> dir_resource \<Rightarrow> ('w, unit) scim" where
  "link_project A c subject = (if \<not> truthy (dr_linkedAccountId subject) then e_return ()
     else e_then (e_call (la_findUser A (tmpl (dr_linkedAccountId subject)))) (\<lambda>there.
       e_then (e_require there ServerError) (\<lambda>_.
       e_try ServerError (la_updateUser A (tmpl (dr_linkedAccountId subject)) (sc_sourceKey c) (projection (dr_identity subject))))))"

text \<open>\<open>String(claims[name] ?? '')\<close>\<close>

definition claim_text :: "'w scim_calls \<Rightarrow> (string \<times> json) list \<Rightarrow> string \<Rightarrow> string" where
  "claim_text K claims name = (let v = map_of claims name in if nullish v then [] else text_of K v)"

definition find_subject :: "string \<Rightarrow> dir_resource list \<Rightarrow> dir_resource option" where
  "find_subject externalId subjects = find (\<lambda>r. si_externalId (dr_identity r) = Some (JStr externalId)) subjects"

definition link_one ::
  "'w scim_calls \<Rightarrow> 'w link_calls \<Rightarrow> string \<Rightarrow> string \<Rightarrow> (string \<times> json) list \<Rightarrow> scim_connection \<Rightarrow> string list \<Rightarrow> ('w, string list) scim" where
  "link_one K A providerKey account claims c linked = (case sc_linking c of
     None \<Rightarrow> e_return linked
   | Some rule \<Rightarrow>
       let externalId = claim_text K claims (ln_subjectClaim rule) in
       if ln_provider rule \<noteq> providerKey \<or> claim_text K claims (ln_tenantClaim rule) \<noteq> ln_tenantValue rule \<or> externalId = []
       then e_return linked
       else e_then (dir_list K c SCIMSubject) (\<lambda>subjects. case find_subject externalId subjects of
         None \<Rightarrow> e_return linked
       | Some subject \<Rightarrow>
           e_then (e_require (\<not> truthy (dr_linkedAccountId subject) \<or> dr_linkedAccountId subject = Some account) ServerError) (\<lambda>_.
           e_then (if truthy (dr_linkedAccountId subject) then e_return subject else linkSubject K subject account) (\<lambda>updated.
           e_then (link_project A c updated) (\<lambda>_. e_return (linked @ [dr_accountId updated]))))))"

definition linkAccount ::
  "'w scim_calls \<Rightarrow> 'w link_calls \<Rightarrow> string \<Rightarrow> string \<Rightarrow> (string \<times> json) list option \<Rightarrow> ('w, string list) scim" where
  "linkAccount K A providerKey account linkClaims =
     (let claims = list_or_empty linkClaims in
      if claims = [] then e_return []
      else e_then (connection_list A) (\<lambda>cs. e_each cs [] (link_one K A providerKey account claims)))"

definition revoke_one :: "'w link_calls \<Rightarrow> scim_connection \<Rightarrow> dir_resource \<Rightarrow> ('w, unit) scim" where
  "revoke_one A c subject = (if \<not> truthy (dr_linkedAccountId subject) then e_return ()
     else e_then (e_call (la_findUser A (tmpl (dr_linkedAccountId subject)))) (\<lambda>there.
       if \<not> there then e_return ()
       else e_try ServerError (la_updateUser A (tmpl (dr_linkedAccountId subject)) (sc_sourceKey c) (revoked (dr_identity subject)))))"

definition revokeConnection :: "'w scim_calls \<Rightarrow> 'w link_calls \<Rightarrow> scim_connection \<Rightarrow> ('w, unit) scim" where
  "revokeConnection K A c = e_then (dir_list K c SCIMSubject) (\<lambda>subjects. e_each subjects () (\<lambda>s _. revoke_one A c s))"

subsection \<open>The operator\<close>

record scim_status =
  ss_userCount :: "nat option"
  ss_groupCount :: "nat option"
  ss_conditions :: "(string \<times> string \<times> string) list option"

text \<open>The status a connection has and the call that replaces it.\<close>

record 'w scim_status_calls =
  st_status :: "scim_connection \<Rightarrow> scim_status"
  st_replace :: "string \<Rightarrow> nat \<Rightarrow> scim_status \<Rightarrow> 'w \<Rightarrow> unit \<times> 'w"

definition ready_condition :: "scim_connection \<Rightarrow> string \<times> string \<times> string" where
  "ready_condition c = (''Ready'', if sc_disabled c then ''False'' else ''True'', if sc_disabled c then ''Disabled'' else ''Available'')"

definition owned_count :: "scim_connection \<Rightarrow> dir_resource list option \<Rightarrow> nat" where
  "owned_count c rs = length (filter (\<lambda>r. dr_connectionUid r = sc_uid c) (list_or_empty rs))"

definition scim_reconcile ::
  "'w scim_calls \<Rightarrow> 'w link_calls \<Rightarrow> 'w scim_status_calls \<Rightarrow> scim_connection \<Rightarrow> ('w, unit) scim" where
  "scim_reconcile K A S c =
     e_then (if sc_disabled c then revokeConnection K A c else e_return ()) (\<lambda>_.
     e_then (e_call (sd_list K SCIMSubject)) (\<lambda>subjects.
     e_then (e_call (sd_list K SCIMGroup)) (\<lambda>groups.
       let status = \<lparr>ss_userCount = Some (owned_count c subjects), ss_groupCount = Some (owned_count c groups),
                     ss_conditions = Some [ready_condition c]\<rparr> in
       if st_status S c = status then e_return ()
       else e_call (st_replace S (sc_id c) (sc_resourceVersion c) status))))"

text \<open>The three callbacks of the watch: added and modified reconcile, deleted revokes.\<close>

datatype scim_event = ScimAdded | ScimModified | ScimDeleted

definition scim_watch ::
  "'w scim_calls \<Rightarrow> 'w link_calls \<Rightarrow> 'w scim_status_calls \<Rightarrow> scim_event \<Rightarrow> scim_connection \<Rightarrow> ('w, unit) scim" where
  "scim_watch K A S e c = (case e of ScimDeleted \<Rightarrow> revokeConnection K A c | _ \<Rightarrow> scim_reconcile K A S c)"

subsection \<open>The contract\<close>

text \<open>\<open>account_at\<close> is what each source key holds on an account, \<open>None\<close> where there is no account. An
  update that throws may have been made or not.\<close>

locale linked_directory = directory_server K dir_at
  for K :: "'w scim_calls" and dir_at :: "'w \<Rightarrow> scim_kind \<Rightarrow> string \<Rightarrow> dir_resource option" +
  fixes A :: "'w link_calls"
    and account_at :: "'w \<Rightarrow> string \<Rightarrow> (string \<Rightarrow> linked_identity option) option"
  assumes list_accounts: "sd_list K kind w = (rl, w') \<Longrightarrow> account_at w' = account_at w"
    and find_account: "la_findUser A n w = (there, w') \<Longrightarrow> dir_at w' = dir_at w \<and> account_at w' = account_at w
      \<and> (there \<longrightarrow> account_at w n \<noteq> None)"
    and update_account: "la_updateUser A n key s w = (ru, w') \<Longrightarrow> dir_at w' = dir_at w
      \<and> (account_at w' = account_at w \<and> ru \<noteq> Inr ()
         \<or> (\<exists>ids. account_at w n = Some ids \<and> account_at w' = (account_at w)(n \<mapsto> ids(key \<mapsto> s))))"
begin

text \<open>Only the entries of one source key change.\<close>

definition other_sources :: "string \<Rightarrow> 'w \<Rightarrow> 'w \<Rightarrow> bool" where
  "other_sources key w v = (\<forall>n. (account_at v n = None) = (account_at w n = None)
     \<and> (\<forall>k. k \<noteq> key \<longrightarrow> Option.bind (account_at v n) (\<lambda>ids. ids k) = Option.bind (account_at w n) (\<lambda>ids. ids k)))"

definition is_revoked :: "string \<Rightarrow> 'w \<Rightarrow> string \<Rightarrow> bool" where
  "is_revoked key v n = (\<forall>ids. account_at v n = Some ids \<longrightarrow>
     (\<exists>i. ids key = Some i \<and> \<not> lk_active i \<and> lk_groups i = []))"

lemma same_accounts: "account_at v' = account_at v \<Longrightarrow> other_sources key w v' = other_sources key w v \<and> is_revoked key v' n = is_revoked key v n"
  by (simp add: other_sources_def is_revoked_def)

lemma updated_sources: "other_sources key w v \<Longrightarrow> account_at v n = Some ids \<Longrightarrow>
    account_at v' = (account_at v)(n \<mapsto> ids(key \<mapsto> s)) \<Longrightarrow> other_sources key w v'"
  unfolding other_sources_def
proof
  fix m assume h: "\<forall>n. (account_at v n = None) = (account_at w n = None)
      \<and> (\<forall>k. k \<noteq> key \<longrightarrow> Option.bind (account_at v n) (\<lambda>ids. ids k) = Option.bind (account_at w n) (\<lambda>ids. ids k))"
    and n: "account_at v n = Some ids" "account_at v' = (account_at v)(n \<mapsto> ids(key \<mapsto> s))"
  show "(account_at v' m = None) = (account_at w m = None)
      \<and> (\<forall>k. k \<noteq> key \<longrightarrow> Option.bind (account_at v' m) (\<lambda>ids. ids k) = Option.bind (account_at w m) (\<lambda>ids. ids k))"
  proof (cases "m = n")
    case True
    have "account_at w n \<noteq> None" using h n(1) by (metis option.distinct(1))
    moreover have "\<forall>k. k \<noteq> key \<longrightarrow> ids k = Option.bind (account_at w n) (\<lambda>ids. ids k)"
      using spec [OF h, of n] n(1) by simp
    ultimately show ?thesis using True n by simp
  next
    case False
    with spec [OF h, of m] n(2) show ?thesis by simp
  qed
qed

lemma updated_revoked: "account_at v' = (account_at v)(n \<mapsto> ids(key \<mapsto> revoked s)) \<Longrightarrow>
    is_revoked key v' n \<and> (is_revoked key v m \<longrightarrow> is_revoked key v' m)"
  by (simp add: is_revoked_def revoked_def)

lemma revoke_one_runs:
  assumes reads: "\<And>n w. account_at w n \<noteq> None \<Longrightarrow> fst (la_findUser A n w)"
  shows "runs (\<lambda>v. other_sources (sc_sourceKey c) w v \<and> (\<forall>n \<in> old. is_revoked (sc_sourceKey c) v n))
     (revoke_one A c x)
     (\<lambda>_ v. other_sources (sc_sourceKey c) w v
        \<and> (\<forall>n \<in> old \<union> (if truthy (dr_linkedAccountId x) then {tmpl (dr_linkedAccountId x)} else {}). is_revoked (sc_sourceKey c) v n))
     (\<lambda>v. other_sources (sc_sourceKey c) w v)"
proof (cases "truthy (dr_linkedAccountId x)")
  case False
  then show ?thesis by (simp add: revoke_one_def runs_return)
next
  case True
  let ?key = "sc_sourceKey c" and ?n = "tmpl (dr_linkedAccountId x)"
  let ?P = "\<lambda>v. other_sources ?key w v \<and> (\<forall>n \<in> old. is_revoked ?key v n)"
  let ?Q = "\<lambda>v. other_sources ?key w v \<and> (\<forall>n \<in> old \<union> {?n}. is_revoked ?key v n)"
  have found: "runs ?P (e_call (la_findUser A ?n)) (\<lambda>there v. ?P v \<and> (\<not> there \<longrightarrow> is_revoked ?key v ?n)) (\<lambda>v. other_sources ?key w v)"
  proof (rule runs_call)
    fix v there v' assume h: "?P v" and p: "la_findUser A ?n v = (there, v')"
    note l = find_account [OF p]
    have "is_revoked ?key v ?n" if "\<not> there"
      using reads [of v ?n] p that by (cases "account_at v ?n") (simp_all add: is_revoked_def)
    with h same_accounts [OF conjunct1 [OF conjunct2 [OF l]]]
    show "?P v' \<and> (\<not> there \<longrightarrow> is_revoked ?key v' ?n)" by blast
  qed
  have updated: "runs ?P (e_try ServerError (la_updateUser A ?n ?key (revoked (dr_identity x)))) (\<lambda>_. ?Q) (\<lambda>v. other_sources ?key w v)"
  proof (rule runs_try)
    fix v u v' assume h: "?P v" and p: "la_updateUser A ?n ?key (revoked (dr_identity x)) v = (Inr u, v')"
    from update_account [OF p] obtain ids where ids: "account_at v ?n = Some ids"
      "account_at v' = (account_at v)(?n \<mapsto> ids(?key \<mapsto> revoked (dr_identity x)))" by auto
    with h updated_sources [OF _ ids] updated_revoked [OF ids(2)] show "?Q v'" by blast
  next
    fix v u v' assume h: "?P v" and p: "la_updateUser A ?n ?key (revoked (dr_identity x)) v = (Inl u, v')"
    from update_account [OF p] h same_accounts updated_sources show "other_sources ?key w v'" by metis
  qed
  have "runs ?P (revoke_one A c x) (\<lambda>_. ?Q) (\<lambda>v. other_sources ?key w v)"
    unfolding revoke_one_def if_not_P [OF notnotD, of "truthy (dr_linkedAccountId x)"]
  proof (simp only: True not_True_eq_False if_False, rule runs_then [OF found])
    fix there
    show "runs (\<lambda>v. ?P v \<and> (\<not> there \<longrightarrow> is_revoked ?key v ?n))
       (if \<not> there then e_return () else e_try ServerError (la_updateUser A ?n ?key (revoked (dr_identity x))))
       (\<lambda>_. ?Q) (\<lambda>v. other_sources ?key w v)"
      by (cases there) (auto intro: runs_return runs_conseq [OF updated])
  qed
  with True show ?thesis by simp
qed

lemma revoke_each_runs:
  assumes reads: "\<And>n w. account_at w n \<noteq> None \<Longrightarrow> fst (la_findUser A n w)"
  shows "runs (\<lambda>v. other_sources (sc_sourceKey c) w v \<and> (\<forall>n \<in> old. is_revoked (sc_sourceKey c) v n))
     (e_each xs (u :: unit) (\<lambda>x _. revoke_one A c x))
     (\<lambda>_ v. other_sources (sc_sourceKey c) w v \<and> (\<forall>n \<in> old. is_revoked (sc_sourceKey c) v n)
        \<and> (\<forall>x \<in> set xs. truthy (dr_linkedAccountId x) \<longrightarrow> is_revoked (sc_sourceKey c) v (tmpl (dr_linkedAccountId x))))
     (\<lambda>v. other_sources (sc_sourceKey c) w v)"
proof (induction xs arbitrary: old u)
  case Nil
  then show ?case unfolding e_each.simps by (intro runs_return) simp
next
  case (Cons x xs)
  show ?case
    unfolding e_each.simps
    apply (rule runs_then [OF revoke_one_runs [OF reads]], assumption)
    subgoal for u
      by (rule runs_conseq [OF Cons.IH [of "old \<union> (if truthy (dr_linkedAccountId x) then {tmpl (dr_linkedAccountId x)} else {})"]];
        auto split: if_splits)
    done
qed

lemma revoke_runs:
  assumes reads: "\<And>n w. account_at w n \<noteq> None \<Longrightarrow> fst (la_findUser A n w)"
    and lists: "\<And>kind w. fst (sd_list K kind w) \<noteq> None"
  shows "runs (\<lambda>v. v = w) (revokeConnection K A c)
     (\<lambda>_ v. other_sources (sc_sourceKey c) w v \<and> (\<forall>n x a. dir_at w SCIMSubject n = Some x \<and> dr_connectionUid x = sc_uid c
        \<and> dr_linkedAccountId x = Some a \<and> a \<noteq> [] \<longrightarrow> is_revoked (sc_sourceKey c) v a))
     (\<lambda>v. other_sources (sc_sourceKey c) w v)"
  unfolding revokeConnection_def
proof (rule runs_then [where R = "\<lambda>xs v. account_at v = account_at w
      \<and> (\<forall>n x. dir_at w SCIMSubject n = Some x \<and> dr_connectionUid x = sc_uid c \<longrightarrow> x \<in> set xs)"])
  show "runs (\<lambda>v. v = w) (dir_list K c SCIMSubject) (\<lambda>xs v. account_at v = account_at w
      \<and> (\<forall>n x. dir_at w SCIMSubject n = Some x \<and> dr_connectionUid x = sc_uid c \<longrightarrow> x \<in> set xs))
      (\<lambda>v. other_sources (sc_sourceKey c) w v)"
    unfolding dir_list_def
  proof (rule runs_then [where R = "\<lambda>rl v. account_at v = account_at w \<and> (\<exists>rs. rl = Some rs
      \<and> (\<forall>n x. dir_at w SCIMSubject n = Some x \<longrightarrow> x \<in> set rs))"])
    show "runs (\<lambda>v. v = w) (e_call (sd_list K SCIMSubject)) (\<lambda>rl v. account_at v = account_at w \<and> (\<exists>rs. rl = Some rs
      \<and> (\<forall>n x. dir_at w SCIMSubject n = Some x \<longrightarrow> x \<in> set rs))) (\<lambda>v. other_sources (sc_sourceKey c) w v)"
    proof (rule runs_call)
      fix v rl v' assume v: "v = w" and p: "sd_list K SCIMSubject v = (rl, v')"
      from lists [of SCIMSubject v] p obtain rs where rs: "rl = Some rs" by auto
      have "x \<in> set rs" if "dir_at w SCIMSubject n = Some x" for n x
        using that list_call [OF p] rs v named by metis
      with rs list_accounts [OF p] v show "account_at v' = account_at w \<and> (\<exists>rs. rl = Some rs
          \<and> (\<forall>n x. dir_at w SCIMSubject n = Some x \<longrightarrow> x \<in> set rs))" by blast
    qed
  qed (rule runs_return, auto)
  fix xs
  have "runs (\<lambda>v. account_at v = account_at w) (e_each xs () (\<lambda>x _. revoke_one A c x))
     (\<lambda>_ v. other_sources (sc_sourceKey c) w v
        \<and> (\<forall>x \<in> set xs. truthy (dr_linkedAccountId x) \<longrightarrow> is_revoked (sc_sourceKey c) v (tmpl (dr_linkedAccountId x))))
     (\<lambda>v. other_sources (sc_sourceKey c) w v)"
    by (rule runs_conseq [OF revoke_each_runs [OF reads, where old = "{}" and w = w and c = c]])
      (auto simp: other_sources_def)
  then have "runs (\<lambda>v. account_at v = account_at w \<and> (\<forall>n x. dir_at w SCIMSubject n = Some x \<and> dr_connectionUid x = sc_uid c \<longrightarrow> x \<in> set xs))
     (e_each xs () (\<lambda>x _. revoke_one A c x))
     (\<lambda>_ v. (other_sources (sc_sourceKey c) w v
        \<and> (\<forall>x \<in> set xs. truthy (dr_linkedAccountId x) \<longrightarrow> is_revoked (sc_sourceKey c) v (tmpl (dr_linkedAccountId x))))
        \<and> (\<forall>n x. dir_at w SCIMSubject n = Some x \<and> dr_connectionUid x = sc_uid c \<longrightarrow> x \<in> set xs))
     (\<lambda>v. other_sources (sc_sourceKey c) w v)"
    unfolding runs_def by (auto split: sum.splits prod.splits)
  then show "runs (\<lambda>v. account_at v = account_at w \<and> (\<forall>n x. dir_at w SCIMSubject n = Some x \<and> dr_connectionUid x = sc_uid c \<longrightarrow> x \<in> set xs))
     (e_each xs () (\<lambda>x _. revoke_one A c x))
     (\<lambda>_ v. other_sources (sc_sourceKey c) w v \<and> (\<forall>n x a. dir_at w SCIMSubject n = Some x \<and> dr_connectionUid x = sc_uid c
        \<and> dr_linkedAccountId x = Some a \<and> a \<noteq> [] \<longrightarrow> is_revoked (sc_sourceKey c) v a))
     (\<lambda>v. other_sources (sc_sourceKey c) w v)"
    by (rule runs_conseq) (auto, fastforce)
qed

end

subsection \<open>Directory and accounts in memory\<close>

type_synonym linked_world = "mem_directory \<times> (string \<times> (string \<times> linked_identity) list) list"

definition linked_dir_at :: "linked_world \<Rightarrow> scim_kind \<Rightarrow> string \<Rightarrow> dir_resource option" where
  "linked_dir_at w = mem_dir_at (fst w)"

definition linked_account_at :: "linked_world \<Rightarrow> string \<Rightarrow> (string \<Rightarrow> linked_identity option) option" where
  "linked_account_at w n = map_option map_of (map_of (snd w) n)"

definition on_directory :: "(mem_directory \<Rightarrow> 'r \<times> mem_directory) \<Rightarrow> linked_world \<Rightarrow> 'r \<times> linked_world" where
  "on_directory f w = (let (r, d) = f (fst w) in (r, (d, snd w)))"

definition mem_link :: "linked_world link_calls" where
  "mem_link = \<lparr>la_connections = (\<lambda>w. (Some [demo_scim], w)),
     la_findUser = (\<lambda>n w. (map_of (snd w) n \<noteq> None, w)),
     la_updateUser = (\<lambda>n key s w. (case map_of (snd w) n of
        None \<Rightarrow> (Inl (), w)
      | Some ids \<Rightarrow> (Inr (), (fst w, AList.update n (AList.update key s ids) (snd w)))))\<rparr>"

text \<open>The calls of a connection's directory, whose changes are projected.\<close>

definition linked_scim :: "scim_connection \<Rightarrow> linked_world scim_calls" where
  "linked_scim c = (let K = mem_scim (\<lambda>_. True) in \<lparr>
     sd_list = (\<lambda>kind. on_directory (sd_list K kind)),
     sd_get = (\<lambda>kind n. on_directory (sd_get K kind n)),
     sd_create = (\<lambda>kind n ref uid s. on_directory (sd_create K kind n ref uid s)),
     sd_patch = (\<lambda>kind n new old. on_directory (sd_patch K kind n new old)),
     sd_link = (\<lambda>n v a. on_directory (sd_link K n v a)),
     sd_onChange = (\<lambda>r w. let (x, w') = link_project mem_link c r w in (map_sum (\<lambda>_. ()) id x, w')),
     sd_now = on_directory (sd_now K), sd_digest = sd_digest K, sd_string = sd_string K\<rparr>)"

lemma on_directory_result: "on_directory f w = (r, w') \<Longrightarrow> f (fst w) = (r, fst w') \<and> snd w' = snd w"
  by (auto simp: on_directory_def split: prod.splits)

lemma linked_parts: "sd_list (linked_scim c) kind w = on_directory (sd_list (mem_scim (\<lambda>_. True)) kind) w"
  "sd_get (linked_scim c) kind n w = on_directory (sd_get (mem_scim (\<lambda>_. True)) kind n) w"
  "sd_create (linked_scim c) kind n ref uid s w = on_directory (sd_create (mem_scim (\<lambda>_. True)) kind n ref uid s) w"
  "sd_patch (linked_scim c) kind n new old w = on_directory (sd_patch (mem_scim (\<lambda>_. True)) kind n new old) w"
  "sd_now (linked_scim c) w = on_directory (sd_now (mem_scim (\<lambda>_. True))) w"
  by (simp_all add: linked_scim_def Let_def)

lemma link_project_directory: "link_project mem_link c r w = (x, w') \<Longrightarrow> fst w' = fst w"
  by (auto simp: link_project_def mem_link_def e_then_def e_call_def e_return_def e_require_def e_throw_def e_try_def
      split: if_splits option.splits)

interpretation linked_directory_server: directory_server "linked_scim c" linked_dir_at for c
proof (unfold_locales, goal_cases)
  case (1 w kind n x)
  then show ?case using mem_directory_server.named unfolding linked_dir_at_def by blast
next
  case (2 kind w rl w')
  from mem_directory_server.list_call [OF conjunct1 [OF on_directory_result [OF 2 [unfolded linked_parts]]]]
  show ?case unfolding linked_dir_at_def .
next
  case (3 kind n w rg w')
  from mem_directory_server.get_call [OF conjunct1 [OF on_directory_result [OF 3 [unfolded linked_parts]]]]
  show ?case unfolding linked_dir_at_def .
next
  case (4 kind n ref uid s w rc w')
  from mem_directory_server.create_call [OF conjunct1 [OF on_directory_result [OF 4 [unfolded linked_parts]]]]
  show ?case unfolding linked_dir_at_def .
next
  case (5 kind n new old w rp w')
  from mem_directory_server.patch_call [OF conjunct1 [OF on_directory_result [OF 5 [unfolded linked_parts]]]]
  show ?case unfolding linked_dir_at_def .
next
  case (6 x w ru w')
  then show ?case by (auto simp: linked_scim_def Let_def linked_dir_at_def dest: link_project_directory split: prod.splits)
next
  case (7 w t w')
  from mem_directory_server.now_call [OF conjunct1 [OF on_directory_result [OF 7 [unfolded linked_parts]]]]
  show ?case unfolding linked_dir_at_def .
qed

interpretation linked_world: linked_directory "linked_scim c" linked_dir_at mem_link linked_account_at for c
proof (unfold_locales, goal_cases)
  case (1 kind w rl w')
  from on_directory_result [OF 1 [unfolded linked_parts]] show ?case by (simp add: linked_account_at_def fun_eq_iff)
next
  case (2 n w there w')
  then show ?case by (auto simp: mem_link_def linked_account_at_def)
next
  case (3 n key s w ru w')
  then show ?case
    by (auto simp: mem_link_def linked_dir_at_def linked_account_at_def fun_eq_iff update_conv' map_of_eq_None_iff
        split: option.splits)
qed

subsection \<open>Properties\<close>


definition linked_subject :: dir_resource where
  "linked_subject = \<lparr>dr_accountId = ''scim-u-1'', dr_resourceVersion = 1, dr_kind = SCIMSubject,
     dr_identity = projectGroups demo_scim \<lparr>si_resourceType = ''User'', si_externalId = Some (JStr ''oid''), si_userName = Some ''ada'',
       si_displayName = None, si_active = Some True, si_emails = Some [], si_sourceGroups = Some [''scim-g-1''], si_groups = None,
       si_createdAt = None, si_lastModified = None\<rparr>,
     dr_connectionUid = ''c1'', dr_linkedAccountId = Some ''ada''\<rparr>"

definition demo_linked_world :: linked_world where
  "demo_linked_world = (\<lparr>md_rows = [linked_subject], md_clock = 0\<rparr>,
     [(''ada'', [(sc_sourceKey demo_scim, projection (dr_identity linked_subject)), (''other'', projection (dr_identity linked_subject))])])"


text \<open>A subject whose account was deleted: the change is written and the request ends in an internal error.\<close>

theorem failed_projection_keeps_write:
  "(let (r, w') = scim_perform (linked_scim demo_scim) demo_scim (DeactivateUser ''scim-u-1'') (fst demo_linked_world, []) in
     r = Inl ServerError \<and> map_option (\<lambda>x. si_active (dr_identity x)) (linked_dir_at w' SCIMSubject ''scim-u-1'') = Some (Some False))"
  by code_simp

end
