(* ===== verification/Login.thy ===== *)
theory Login
  imports Effects Users
begin

text \<open>
  Signing in: what an interaction with the provider records (\<open>submission\<close>), the login result
  (\<^verbatim>\<open>src/utils/user/get-login-result.js\<close>, \<^verbatim>\<open>src/utils/session/access-denied.js\<close>), and the three
  methods that resolve to an account: magic links (\<^verbatim>\<open>src/services/login/email-login.js\<close>), OpenID
  Connect upstreams (\<^verbatim>\<open>src/services/login/oidc-login.js\<close>) and GitHub
  (\<^verbatim>\<open>src/services/login/github-login.js\<close>). The OpenID provider, the upstreams and the mail are
  parameters; the audit log is left out.
\<close>

subsection \<open>Interactions\<close>

record oidc_flow =
  fl_provider :: string
  fl_state :: string
  fl_codeVerifier :: string
  fl_nonce :: string

text \<open>What \<open>extractIdentity\<close> keeps of an upstream profile.\<close>

record upstream_identity =
  up_sub :: "string option"
  up_name :: "string option"
  up_primaryEmail :: "string option"
  up_emails :: "email_item list"
  up_groups :: "group list"
  up_preferredUsername :: "string option"
  up_linkClaims :: "(string \<times> string) list"

text \<open>The result of an interaction, and the last submission; \<open>su_error\<close> is the description of
  \<open>access_denied\<close>.\<close>

record submission =
  su_error :: "string option"
  su_login :: "string option"
  su_email :: "string option"
  su_token :: "string option"
  su_emailVerified :: bool
  su_emailVerifiedAt :: "string option"
  su_requireCustomUsername :: bool
  su_githubEmails :: "email_item list option"
  su_preferredUsername :: "string option"
  su_stableIdentity :: "login_identity option"
  su_state :: "string option"
  su_oauth :: "(string \<times> string) option"
  su_oidcFlow :: "oidc_flow option"
  su_oidc :: "(string \<times> upstream_identity) option"
  su_tosTextChecksum :: "string option"
  su_consent :: "string option"
  su_siteSession :: "json option"

definition empty_submission :: submission where
  "empty_submission = \<lparr>su_error = None, su_login = None, su_email = None, su_token = None, su_emailVerified = False,
     su_emailVerifiedAt = None, su_requireCustomUsername = False, su_githubEmails = None, su_preferredUsername = None,
     su_stableIdentity = None, su_state = None, su_oauth = None, su_oidcFlow = None, su_oidc = None,
     su_tosTextChecksum = None, su_consent = None, su_siteSession = None\<rparr>"

definition over :: "'a option \<Rightarrow> 'a option \<Rightarrow> 'a option" where
  "over a b = (case b of None \<Rightarrow> a | Some _ \<Rightarrow> b)"

text \<open>\<open>{...a, ...b}\<close>\<close>

definition overlay :: "submission \<Rightarrow> submission \<Rightarrow> submission" where
  "overlay a b = \<lparr>su_error = over (su_error a) (su_error b), su_login = over (su_login a) (su_login b),
     su_email = over (su_email a) (su_email b), su_token = over (su_token a) (su_token b),
     su_emailVerified = (su_emailVerified a \<or> su_emailVerified b),
     su_emailVerifiedAt = over (su_emailVerifiedAt a) (su_emailVerifiedAt b),
     su_requireCustomUsername = (su_requireCustomUsername a \<or> su_requireCustomUsername b),
     su_githubEmails = over (su_githubEmails a) (su_githubEmails b),
     su_preferredUsername = over (su_preferredUsername a) (su_preferredUsername b),
     su_stableIdentity = over (su_stableIdentity a) (su_stableIdentity b), su_state = over (su_state a) (su_state b),
     su_oauth = over (su_oauth a) (su_oauth b), su_oidcFlow = over (su_oidcFlow a) (su_oidcFlow b),
     su_oidc = over (su_oidc a) (su_oidc b), su_tosTextChecksum = over (su_tosTextChecksum a) (su_tosTextChecksum b),
     su_consent = over (su_consent a) (su_consent b), su_siteSession = over (su_siteSession a) (su_siteSession b)\<rparr>"

record interaction =
  in_uid :: string
  in_prompt :: string
  in_client_id :: string
  in_session :: "string option"
  in_grantId :: "string option"
  in_result :: "submission option"
  in_lastSubmission :: "submission option"
  in_exp :: "int option"

text \<open>A status that a handler throws, and any other exception.\<close>

datatype http_failure = HttpError nat | Thrown

datatype login_answer =
    Rendered string
  | MessagePage string
  | Redirected string
  | Finished

subsection \<open>The calls\<close>

text \<open>\<open>pv_details\<close> is the interaction of the request's cookie. \<open>pv_result\<close> and \<open>pv_finished\<close> take
  whether to merge with the last submission. \<open>pv_random\<close> gives random text, \<open>pv_iso\<close> and
  \<open>pv_seconds\<close> the time. \<open>pv_sendMail\<close> and \<open>pv_sendSlack\<close> say whether the link was sent.\<close>

record 'w provider_calls =
  pv_details :: "'w \<Rightarrow> (unit + interaction) \<times> 'w"
  pv_result :: "submission \<Rightarrow> bool \<Rightarrow> 'w \<Rightarrow> (unit + string) \<times> 'w"
  pv_finished :: "submission \<Rightarrow> bool \<Rightarrow> 'w \<Rightarrow> (unit + unit) \<times> 'w"
  pv_interaction :: "string \<Rightarrow> 'w \<Rightarrow> interaction option \<times> 'w"
  pv_save :: "interaction \<Rightarrow> int \<Rightarrow> 'w \<Rightarrow> unit \<times> 'w"
  pv_random :: "'w \<Rightarrow> string \<times> 'w"
  pv_iso :: "'w \<Rightarrow> string \<times> 'w"
  pv_seconds :: "'w \<Rightarrow> int \<times> 'w"
  pv_sendMail :: "string \<Rightarrow> string \<Rightarrow> 'w \<Rightarrow> bool \<times> 'w"
  pv_sendSlack :: "string \<Rightarrow> string \<Rightarrow> 'w \<Rightarrow> bool \<times> 'w"
  pv_takeSelectAccount :: "'w \<Rightarrow> bool \<times> 'w"

text \<open>What does not change while requests are served. The memo of the username source is passed as it is.\<close>

record 'w login_env =
  le_deployment :: deployment
  le_document :: "tos_document option"
  le_checks :: string_checks
  le_managed :: labels
  le_instance :: string
  le_slack :: "account \<Rightarrow> string option"
  le_memo :: "username_source option"
  le_users :: "'w user_calls"
  le_provider :: "'w provider_calls"

type_synonym ('w, 'a) login = "('w, http_failure, 'a) effect"

definition interactionDetails :: "'w login_env \<Rightarrow> ('w, interaction) login" where
  "interactionDetails E = e_try Thrown (pv_details (le_provider E))"

definition interactionResult :: "'w login_env \<Rightarrow> submission \<Rightarrow> bool \<Rightarrow> ('w, string) login" where
  "interactionResult E s merge = e_try Thrown (pv_result (le_provider E) s merge)"

definition interactionFinished :: "'w login_env \<Rightarrow> submission \<Rightarrow> bool \<Rightarrow> ('w, login_answer) login" where
  "interactionFinished E s merge = e_then (e_try Thrown (pv_finished (le_provider E) s merge)) (\<lambda>_. e_return Finished)"

definition denied :: "string \<Rightarrow> submission" where
  "denied description = empty_submission\<lparr>su_error := Some description\<rparr>"

definition accessDenied :: "'w login_env \<Rightarrow> string \<Rightarrow> ('w, login_answer) login" where
  "accessDenied E description = interactionFinished E (denied description) False"

subsection \<open>The login result\<close>

definition login_of :: "string \<Rightarrow> submission" where
  "login_of account = empty_submission\<lparr>su_login := Some account\<rparr>"

definition getLoginResult :: "'w login_env \<Rightarrow> account option \<Rightarrow> bool \<Rightarrow> ('w, submission) login" where
  "getLoginResult E acc impersonation = e_then (interactionDetails E) (\<lambda>details.
     let result = in_result details in
     case acc of
       None \<Rightarrow> e_return (
         if Option.bind result su_error \<noteq> None then denied (tmpl (Option.bind result su_error))
         else if map_option su_requireCustomUsername result = Some True then the result
         else denied ''Account doesn't exist'')
     | Some a \<Rightarrow> e_return (
         if getAccountTypeAccessFailure impersonation (Some a) \<noteq> None then denied ''This account cannot sign in''
         else login_of (accountId a)))"

subsection \<open>Resolving an account\<close>

definition requireCustomUsername ::
  "'w login_env \<Rightarrow> string option \<Rightarrow> email_item list option \<Rightarrow> string option \<Rightarrow> login_identity \<Rightarrow> ('w, unit) login" where
  "requireCustomUsername E email githubEmails preferred i = e_then (interactionDetails E) (\<lambda>details.
     e_then (interactionResult E (overlay
       (empty_submission\<lparr>su_requireCustomUsername := True, su_email := email, su_githubEmails := githubEmails,
          su_preferredUsername := preferred, su_stableIdentity := Some i\<rparr>)
       (case in_result details of Some r \<Rightarrow> r | None \<Rightarrow> empty_submission)) True) (\<lambda>_. e_return ()))"

text \<open>\<open>createOrUpdateByEmails\<close> with what it writes to the interaction; \<open>None\<close> is \<open>undefined\<close>.\<close>

definition resolveAccount ::
  "'w login_env \<Rightarrow> string option \<Rightarrow> email_item list option \<Rightarrow> string option \<Rightarrow> string option \<Rightarrow> login_identity
     \<Rightarrow> ('w, account option) login" where
  "resolveAccount E email githubEmails username preferred i =
     e_then (e_call (pv_random (le_provider E))) (\<lambda>uid.
     e_then (e_call (\<lambda>w. let (r, _, w') = createOrUpdateByEmails (le_deployment E) (le_document E) (le_checks E) (le_users E)
       (le_managed E) (le_instance E) (le_slack E) (le_memo E) uid email (list_or_empty githubEmails) username preferred i w in (r, w')))
     (\<lambda>outcome. case outcome of
       LoggedIn a \<Rightarrow> e_return (Some a)
     | LinkRefused _ \<Rightarrow> e_then (interactionResult E (denied ''This email belongs to an existing account'') True) (\<lambda>_. e_return None)
     | UsernameRequired suggestion \<Rightarrow> e_then (requireCustomUsername E email
         (map_option (normalize_evidence (le_deployment E)) githubEmails) suggestion i) (\<lambda>_. e_return None)
     | LoginThrew \<Rightarrow> e_throw Thrown
     | _ \<Rightarrow> e_return None))"

subsection \<open>Magic links\<close>

definition recordMagicLinkVerification :: "'w login_env \<Rightarrow> account \<Rightarrow> string option \<Rightarrow> string \<Rightarrow> ('w, account) login" where
  "recordMagicLinkVerification E a email verifiedAt =
     e_then (e_call (recordEmailVerification (le_deployment E) (le_document E) (le_users E) (accountId a) email verifiedAt))
       (\<lambda>r. e_return (case found r of Some b \<Rightarrow> b | None \<Rightarrow> a))"

definition recordSubmittedMagicLinkVerification :: "'w login_env \<Rightarrow> account \<Rightarrow> submission option \<Rightarrow> ('w, account) login" where
  "recordSubmittedMagicLinkVerification E a s = (case s of
     None \<Rightarrow> e_return a
   | Some s \<Rightarrow> if \<not> su_emailVerified s \<or> \<not> truthy (su_email s) then e_return a
               else recordMagicLinkVerification E a (su_email s) (tmpl (su_emailVerifiedAt s)))"

definition link_url :: "'w login_env \<Rightarrow> string \<Rightarrow> string" where
  "link_url E uid = tmpl (penv (le_deployment E) ''ISSUER_URL'') @ ''interaction/'' @ uid"

definition sent_query :: "bool \<Rightarrow> bool \<Rightarrow> string" where
  "sent_query mail slack = ''/link-sent?email='' @ (if mail then ''true'' else ''false'')
     @ ''&slack='' @ (if slack then ''true'' else ''false'')"

definition sendLink :: "'w login_env \<Rightarrow> bool \<Rightarrow> string \<Rightarrow> ('w, login_answer) login" where
  "sendLink E slackConfigured address =
     (let D = le_deployment E; P = le_provider E; email = to_lower address in
      e_then (interactionDetails E) (\<lambda>details.
      e_then (e_call (listUsers D (le_users E))) (\<lambda>users.
      e_then (e_get Thrown (found users)) (\<lambda>users.
      case findUserByEmails D [canonicalizeEmail D (Some email)] users of
        Inl _ \<Rightarrow> accessDenied E ''This email is attached to a conflicted account. Contact an administrator.''
      | Inr account \<Rightarrow>
          if env_is D ''ENROLL_USERS'' ''false'' \<and> account = None then accessDenied E ''Account doesn't exist''
          else e_then (e_call (pv_random P)) (\<lambda>token.
            let url = link_url E (in_uid details) @ ''/verify-email/'' @ token in
            e_then (interactionResult E (empty_submission\<lparr>su_email := Some email, su_token := Some token\<rparr>) True) (\<lambda>_.
            e_then (e_call (pv_sendMail P email url)) (\<lambda>mail.
            e_then (case Option.bind account slackId of
                Some sid \<Rightarrow> if slackConfigured \<and> sid \<noteq> [] then e_call (pv_sendSlack P sid url) else e_return False
              | None \<Rightarrow> e_return False) (\<lambda>slack.
            if mail \<or> slack then e_return (Redirected (link_url E (in_uid details) @ sent_query mail slack))
            else e_throw (HttpError 400)))))))))"

definition completeLogin :: "'w login_env \<Rightarrow> string option \<Rightarrow> string \<Rightarrow> ('w, login_answer) login" where
  "completeLogin E email verifiedAt =
     e_then (resolveAccount E email None None None \<lparr>li_providerKey = None, li_subject = None, li_githubId = None\<rparr>) (\<lambda>acc.
     e_then (case acc of None \<Rightarrow> e_return None
       | Some a \<Rightarrow> e_then (recordMagicLinkVerification E a email verifiedAt) (\<lambda>a. e_return (Some a))) (\<lambda>acc.
     e_then (getLoginResult E acc False) (\<lambda>s. interactionFinished E s True)))"

text \<open>\<open>Math.max(1, Math.floor(exp - now))\<close> seconds, an hour where the interaction has no expiry.\<close>

definition link_ttl :: "interaction \<Rightarrow> int \<Rightarrow> int" where
  "link_ttl it now = (case in_exp it of Some e \<Rightarrow> if e \<noteq> 0 then max 1 (e - now) else 3600 | None \<Rightarrow> 3600)"

definition verifyLink :: "'w login_env \<Rightarrow> string \<Rightarrow> string \<Rightarrow> ('w, login_answer) login" where
  "verifyLink E uid token =
     (let P = le_provider E in
      e_then (e_call (pv_interaction P uid)) (\<lambda>it.
      case Option.bind it (\<lambda>it. map_option (\<lambda>r. (it, r)) (in_result it)) of
        None \<Rightarrow> e_return (MessagePage ''Invalid login link'')
      | Some (it, r) \<Rightarrow>
          if su_token r \<noteq> Some token then e_return (MessagePage ''Invalid login link'')
          else
            e_then (e_call (pv_seconds P)) (\<lambda>now.
            e_then (e_call (pv_iso P)) (\<lambda>verifiedAt.
            let r' = r\<lparr>su_emailVerified := True, su_emailVerifiedAt := Some verifiedAt\<rparr> in
            e_then (e_call (pv_save P (it\<lparr>in_result := Some r'\<rparr>) (link_ttl it now))) (\<lambda>_.
            e_then (e_call (pv_details P)) (\<lambda>details.
            if (case details of Inr d \<Rightarrow> in_uid d = uid | Inl _ \<Rightarrow> False)
            then completeLogin E (su_email r') verifiedAt
            else e_return (MessagePage ''Email verified'')))))))"

definition isVerified :: "'w login_env \<Rightarrow> string \<Rightarrow> ('w, bool) login" where
  "isVerified E uid = e_then (e_call (pv_interaction (le_provider E) uid)) (\<lambda>it.
     e_return (case Option.bind it in_result of Some r \<Rightarrow> su_emailVerified r | None \<Rightarrow> False))"

text \<open>The route \<^verbatim>\<open>/email-complete\<close>.\<close>

definition emailComplete :: "'w login_env \<Rightarrow> ('w, login_answer) login" where
  "emailComplete E = e_then (interactionDetails E) (\<lambda>details.
     case in_result details of
       Some r \<Rightarrow> if su_emailVerified r
         then (case su_emailVerifiedAt r of
             Some t \<Rightarrow> completeLogin E (su_email r) t
           | None \<Rightarrow> e_then (e_call (pv_iso (le_provider E))) (completeLogin E (su_email r)))
         else e_return (Rendered ''message'')
     | None \<Rightarrow> e_return (Rendered ''message''))"

end
