(* ===== verification/UpstreamLogin.thy ===== *)
theory UpstreamLogin
  imports Login
begin

text \<open>
  Signing in through an OpenID Connect upstream (\<^verbatim>\<open>src/services/login/oidc-login.js\<close>) and through
  GitHub (\<^verbatim>\<open>src/services/login/github-login.js\<close>): the authorization redirect, the callback with its
  state, what of the profile is believed, and the account it is written to. The protocol library and
  the HTTP calls are parameters. Claims are strings where the standard says so.
\<close>

subsection \<open>What a profile says of its address\<close>

type_synonym profile_claims = "(string \<times> json) list"

definition claim :: "string \<Rightarrow> profile_claims \<Rightarrow> json option" where
  "claim k p = map_of p k"

definition claim_string :: "string \<Rightarrow> profile_claims \<Rightarrow> string option" where
  "claim_string k p = str_field k (JObj p)"

datatype email_error = EmailMissing | EmailUnverified

definition getOidcEmailError :: "deployment \<Rightarrow> profile_claims \<Rightarrow> email_error option" where
  "getOidcEmailError D p =
     (if \<not> js_truthy (claim ''email'' p) \<and> isOutboundEmailEnabled D then Some EmailMissing
      else if js_truthy (claim ''email'' p) \<and> claim ''email_verified'' p = Some (JBool False) then Some EmailUnverified
      else None)"

text \<open>\<open>emailVerified\<close>, the word of the upstream under its capability.\<close>

definition upstream_verified :: "string \<Rightarrow> json option \<Rightarrow> bool option" where
  "upstream_verified capability v =
     (if v = Some (JBool False) then (if capability = ''none'' then None else Some False)
      else if capability = ''trusted'' then Some True
      else if capability = ''oidc-claim'' \<and> v = Some (JBool True) then Some True else None)"

definition profile_groups :: "(json \<Rightarrow> string) \<Rightarrow> oidc_provider \<Rightarrow> profile_claims \<Rightarrow> group list" where
  "profile_groups text cfg p =
     (if \<not> truthy (op_groupsClaim cfg) then [] else case claim (tmpl (op_groupsClaim cfg)) p of
        Some (JArr xs) \<Rightarrow> map (\<lambda>x. \<lparr>g_prefix = Some (op_groupPrefix cfg), g_name = text x\<rparr>) xs
      | _ \<Rightarrow> [])"

definition link_claims :: "(json \<Rightarrow> string) \<Rightarrow> oidc_provider \<Rightarrow> profile_claims \<Rightarrow> (string \<times> string) list" where
  "link_claims text cfg p = somes (map (\<lambda>k. case claim k p of
     Some (JStr s) \<Rightarrow> Some (k, s) | Some (JNum n) \<Rightarrow> Some (k, text (JNum n)) | _ \<Rightarrow> None) (op_linkingClaims cfg))"

definition profile_emails :: "oidc_provider \<Rightarrow> profile_claims \<Rightarrow> string \<Rightarrow> email_item list" where
  "profile_emails cfg p observedAt = (if truthy (claim_string ''email'' p)
     then [\<lparr>em_email = claim_string ''email'' p, em_primary = True,
            em_verified = upstream_verified (op_emailVerification cfg) (claim ''email_verified'' p),
            em_trusted = (op_emailVerification cfg = ''trusted''), em_observedAt = Some observedAt\<rparr>]
     else [])"

definition extractIdentity :: "(json \<Rightarrow> string) \<Rightarrow> oidc_provider \<Rightarrow> profile_claims \<Rightarrow> string \<Rightarrow> upstream_identity" where
  "extractIdentity text cfg p observedAt =
     \<lparr>up_sub = claim_string ''sub'' p, up_name = claim_string ''name'' p, up_primaryEmail = claim_string ''email'' p,
      up_emails = profile_emails cfg p observedAt, up_groups = profile_groups text cfg p,
      up_preferredUsername = coalesce (claim_string ''preferred_username'' p) (claim_string ''nickname'' p),
      up_linkClaims = link_claims text cfg p\<rparr>"

definition source_email :: "deployment \<Rightarrow> profile_claims \<Rightarrow> string option" where
  "source_email D p = canonicalizeEmail D (claim_string ''email'' p)"

definition matching_signals :: "deployment \<Rightarrow> profile_claims \<Rightarrow> profile_claims list \<Rightarrow> bool list" where
  "matching_signals D p sources = somes (map (\<lambda>s. case claim ''email_verified'' s of Some (JBool b) \<Rightarrow> Some b | _ \<Rightarrow> None)
     (filter (\<lambda>s. source_email D s = source_email D p) sources))"

definition mergeOidcProfile :: "deployment \<Rightarrow> profile_claims \<Rightarrow> profile_claims \<Rightarrow> profile_claims" where
  "mergeOidcProfile D claims userinfo =
     (let p = js_assign claims userinfo; signals = matching_signals D p [claims, userinfo] in
      if False \<in> set signals then AList.update ''email_verified'' (JBool False) p
      else if True \<in> set signals then AList.update ''email_verified'' (JBool True) p
      else AList.delete ''email_verified'' p)"

definition has_magic_link :: "deployment \<Rightarrow> string \<Rightarrow> account \<Rightarrow> bool" where
  "has_magic_link D address a = (\<exists>item \<in> set (getEmailVerifications D a).
     v_email item = Some address \<and> v_method item = ''magic-link'' \<and> v_status item = ''verified'')"

definition shouldOverrideUnverifiedEmail :: "'w login_env \<Rightarrow> string \<Rightarrow> string option \<Rightarrow> string option \<Rightarrow> ('w, bool) login" where
  "shouldOverrideUnverifiedEmail E key sub email =
     (let D = le_deployment E; address = canonicalizeEmail D email in
      if \<not> env_is D ''PASSMOWER_VERIFIED_EMAIL_OVERRIDE'' ''true'' then e_return False
      else if address = None \<or> \<not> truthy sub then e_return False
      else e_then (e_call (listUsers D (le_users E))) (\<lambda>users. e_return (case found users of
        None \<Rightarrow> False
      | Some users \<Rightarrow> (case findUserByIdentity D key (tmpl sub) users of
            Inr (Some a) \<Rightarrow> has_magic_link D (tmpl address) a
          | _ \<Rightarrow> False))))"

subsection \<open>The OpenID Connect flow\<close>

text \<open>\<open>oc_client\<close> discovers the upstream, \<open>oc_url\<close> is the authorization address of a flow, \<open>oc_grant\<close>
  exchanges the callback and validates the id token, \<open>oc_link\<close> is the SCIM linking.\<close>

record 'w upstream_calls =
  oc_client :: "oidc_provider \<Rightarrow> 'w \<Rightarrow> (unit + unit) \<times> 'w"
  oc_url :: "oidc_provider \<Rightarrow> oidc_flow \<Rightarrow> bool \<Rightarrow> string"
  oc_grant :: "oidc_provider \<Rightarrow> (string \<times> string) list \<Rightarrow> oidc_flow \<Rightarrow> 'w \<Rightarrow> (unit + profile_claims) \<times> 'w"
  oc_userinfo :: "oidc_provider \<Rightarrow> string option \<Rightarrow> 'w \<Rightarrow> (unit + profile_claims) \<times> 'w"
  oc_link :: "string \<Rightarrow> string \<Rightarrow> (string \<times> string) list \<Rightarrow> 'w \<Rightarrow> (unit + unit) \<times> 'w"
  oc_string :: "json \<Rightarrow> string"

definition oidc_start :: "'w login_env \<Rightarrow> 'w upstream_calls \<Rightarrow> oidc_provider \<Rightarrow> string \<Rightarrow> ('w, login_answer) login" where
  "oidc_start E C cfg uid =
     (let P = le_provider E in
      e_then (e_try Thrown (oc_client C cfg)) (\<lambda>_.
      e_then (e_call (pv_random P)) (\<lambda>codeVerifier.
      e_then (e_call (pv_random P)) (\<lambda>nonce.
      e_then (e_call (pv_random P)) (\<lambda>r.
      let flow = \<lparr>fl_provider = op_key cfg, fl_state = uid @ ''|'' @ r, fl_codeVerifier = codeVerifier, fl_nonce = nonce\<rparr> in
      e_then (interactionResult E (empty_submission\<lparr>su_oidcFlow := Some flow\<rparr>) True) (\<lambda>_.
      e_then (e_call (pv_takeSelectAccount P)) (\<lambda>pick.
      e_return (Redirected (oc_url C cfg flow pick)))))))))"

definition callback_params :: "(json \<Rightarrow> string) \<Rightarrow> profile_claims \<Rightarrow> (string \<times> string) list" where
  "callback_params text body = somes (map (\<lambda>(k, v). if v = JNull then None else Some (k, text v)) body)"

text \<open>The callback up to the identity, which the interaction keeps; \<open>None\<close> when the sign-in was refused.\<close>

definition refuse :: "'w login_env \<Rightarrow> string \<Rightarrow> ('w, upstream_identity option) login" where
  "refuse E description = e_then (accessDenied E description) (\<lambda>_. e_return None)"

definition oidc_accept :: "'w login_env \<Rightarrow> 'w upstream_calls \<Rightarrow> oidc_provider \<Rightarrow> profile_claims \<Rightarrow> ('w, upstream_identity option) login" where
  "oidc_accept E C cfg p = e_then (e_call (pv_iso (le_provider E))) (\<lambda>observedAt.
     let i = extractIdentity (oc_string C) cfg p observedAt in
     e_then (interactionResult E (empty_submission\<lparr>su_oidc := Some (op_key cfg, i)\<rparr>) True) (\<lambda>_. e_return (Some i)))"

definition oidc_callback ::
  "'w login_env \<Rightarrow> 'w upstream_calls \<Rightarrow> oidc_provider \<Rightarrow> profile_claims \<Rightarrow> interaction \<Rightarrow> ('w, upstream_identity option) login" where
  "oidc_callback E C cfg body details =
     (let D = le_deployment E; flow = coalesce (Option.bind (in_result details) su_oidcFlow) (Option.bind (in_lastSubmission details) su_oidcFlow) in
      case flow of
        None \<Rightarrow> refuse E ''State does not match''
      | Some fl \<Rightarrow>
          if fl_provider fl \<noteq> op_key cfg \<or> claim ''state'' body \<noteq> Some (JStr (fl_state fl)) then refuse E ''State does not match''
          else
            e_then (e_try Thrown (oc_client C cfg)) (\<lambda>_.
            e_then (e_call (oc_grant C cfg (callback_params (oc_string C) body) fl)) (\<lambda>tokens.
            case tokens of
              Inl _ \<Rightarrow> refuse E ''User aborted login''
            | Inr claims \<Rightarrow>
                e_then (e_call (oc_userinfo C cfg (claim_string ''sub'' claims))) (\<lambda>info.
                let p = mergeOidcProfile D claims (case info of Inr u \<Rightarrow> u | Inl _ \<Rightarrow> []) in
                case getOidcEmailError D p of
                  Some EmailMissing \<Rightarrow> refuse E ''No email returned''
                | Some EmailUnverified \<Rightarrow>
                    e_then (shouldOverrideUnverifiedEmail E (op_key cfg) (claim_string ''sub'' p) (claim_string ''email'' p)) (\<lambda>ok.
                      if ok then oidc_accept E C cfg p else refuse E ''Email not verified'')
                | None \<Rightarrow> oidc_accept E C cfg p))))"

text \<open>The merge of an identity into the account's: lists replace, link claims are merged.\<close>

definition identity_update :: "upstream_identity \<Rightarrow> identity option \<Rightarrow> identity" where
  "identity_update i existing = \<lparr>id_sub = (case up_sub i of Some s \<Rightarrow> Some s | None \<Rightarrow> Option.bind existing id_sub),
     id_active = Option.bind existing id_active, id_name = up_name i, id_company = None, id_emails = up_emails i,
     id_groups = up_groups i, id_linkClaims = js_assign (case existing of Some x \<Rightarrow> id_linkClaims x | None \<Rightarrow> []) (up_linkClaims i)\<rparr>"

definition merge_identity :: "string \<Rightarrow> upstream_identity \<Rightarrow> user_specs \<Rightarrow> user_specs" where
  "merge_identity key i s = s\<lparr>sp_identities := Some (AList.update key
     (identity_update i (map_of (list_or_empty (sp_identities s)) key)) (list_or_empty (sp_identities s)))\<rparr>"

definition update_specs :: "'w login_env \<Rightarrow> string \<Rightarrow> (user_specs \<Rightarrow> user_specs) \<Rightarrow> ('w, unit) login" where
  "update_specs E account f = e_then (e_call (updateUserSpecs (le_deployment E) (le_document E) (le_users E) account f))
     (\<lambda>r. case r of Inl _ \<Rightarrow> e_throw Thrown | Inr _ \<Rightarrow> e_return ())"

definition oidc_finish ::
  "'w login_env \<Rightarrow> 'w upstream_calls \<Rightarrow> oidc_provider \<Rightarrow> upstream_identity \<Rightarrow> ('w, login_answer) login" where
  "oidc_finish E C cfg i =
     e_then (resolveAccount E (up_primaryEmail i) (Some (up_emails i)) None (up_preferredUsername i)
       \<lparr>li_providerKey = Some (op_key cfg), li_subject = up_sub i, li_githubId = None\<rparr>) (\<lambda>acc.
     e_then (case acc of None \<Rightarrow> e_return ()
       | Some a \<Rightarrow> e_then (update_specs E (accountId a) (merge_identity (op_key cfg) i)) (\<lambda>_.
           e_then (e_call (oc_link C (op_key cfg) (accountId a) (up_linkClaims i))) (\<lambda>_. e_return ()))) (\<lambda>_.
     e_then (getLoginResult E acc False) (\<lambda>s. interactionFinished E s False)))"

definition OidcLogin ::
  "'w login_env \<Rightarrow> 'w upstream_calls \<Rightarrow> oidc_provider \<Rightarrow> string \<Rightarrow> profile_claims \<Rightarrow> ('w, login_answer) login" where
  "OidcLogin E C cfg uid requestBody =
     (let body = AList.delete ''upstream'' requestBody in
      e_then (interactionDetails E) (\<lambda>details.
      case map_option snd (Option.bind (in_lastSubmission details) su_oidc) of
        Some i \<Rightarrow> oidc_finish E C cfg i
      | None \<Rightarrow>
          if body = [] then oidc_start E C cfg uid
          else e_then (oidc_callback E C cfg body details) (\<lambda>i. case i of
            None \<Rightarrow> e_return Finished
          | Some i \<Rightarrow> oidc_finish E C cfg i)))"

subsection \<open>The GitHub flow\<close>

text \<open>\<open>gc_exchange\<close> is \<open>None\<close> where no answer came and \<open>Some None\<close> where it has no token. The
  list of addresses is \<open>None\<close> where it failed; a user is the JSON that came.\<close>

record 'w github_calls =
  gc_url :: "string \<Rightarrow> string list \<Rightarrow> bool \<Rightarrow> string"
  gc_exchange :: "json option \<Rightarrow> 'w \<Rightarrow> string option option \<times> 'w"
  gc_emails :: "string \<Rightarrow> 'w \<Rightarrow> email_item list option \<times> 'w"
  gc_user :: "string \<Rightarrow> 'w \<Rightarrow> (unit + profile_claims) \<times> 'w"
  gc_string :: "json \<Rightarrow> string"
  gc_teams :: "string \<Rightarrow> string \<Rightarrow> 'w \<Rightarrow> (unit + string list) \<times> 'w"
  gc_member :: "string \<Rightarrow> string \<Rightarrow> string \<Rightarrow> string option \<Rightarrow> 'w \<Rightarrow> (unit + bool) \<times> 'w"

definition getGitHubScopes :: "deployment \<Rightarrow> string list" where
  "getGitHubScopes D = ''user:email'' # (if truthy (penv D ''GITHUB_ORGANIZATION'') then [''read:org''] else [])"

definition getGitHubEmails :: "'w github_calls \<Rightarrow> string \<Rightarrow> string \<Rightarrow> ('w, email_item list option) login" where
  "getGitHubEmails G token observedAt = e_then (e_call (gc_emails G token)) (\<lambda>es. e_return
     (map_option (\<lambda>es. map (\<lambda>e. e\<lparr>em_observedAt := Some observedAt\<rparr>) (filter (\<lambda>e. em_verified e = Some True) es)) es))"

text \<open>The teams of the organisation that the user is in; any failure makes it none.\<close>

fun memberships :: "'w github_calls \<Rightarrow> string \<Rightarrow> string \<Rightarrow> string option \<Rightarrow> string list \<Rightarrow> ('w, group list) login" where
  "memberships G token org login [] = e_return []"
| "memberships G token org login (team # teams) =
     e_then (e_try Thrown (gc_member G token org team login)) (\<lambda>inside.
     e_then (memberships G token org login teams) (\<lambda>gs.
     e_return (if inside then \<lparr>g_prefix = Some ''github.com'', g_name = org @ '':'' @ team\<rparr> # gs else gs)))"

definition github_groups :: "'w login_env \<Rightarrow> 'w github_calls \<Rightarrow> string \<Rightarrow> string option \<Rightarrow> ('w, group list) login" where
  "github_groups E G token login = (let org = penv (le_deployment E) ''GITHUB_ORGANIZATION'' in
     if \<not> truthy org then e_return []
     else (\<lambda>w. case e_then (e_try Thrown (gc_teams G token (tmpl org))) (memberships G token (tmpl org) login) w of
        (Inl _, w') \<Rightarrow> (Inr [], w') | (Inr gs, w') \<Rightarrow> (Inr gs, w')))"

text \<open>A member that is not there leaves what it meets, \<open>null\<close> clears it.\<close>

definition merge_member :: "(json \<Rightarrow> string) \<Rightarrow> string \<Rightarrow> profile_claims \<Rightarrow> string option \<Rightarrow> string option" where
  "merge_member text k u old = (case claim k u of None \<Rightarrow> old | Some JNull \<Rightarrow> None | Some v \<Rightarrow> Some (text v))"

definition merge_github :: "(json \<Rightarrow> string) \<Rightarrow> profile_claims \<Rightarrow> group list \<Rightarrow> email_item list \<Rightarrow> user_specs \<Rightarrow> user_specs" where
  "merge_github text u gs es s = s\<lparr>sp_github := Some (let x = sp_github s in
     \<lparr>gh_id = merge_member text ''id'' u (Option.bind x gh_id), gh_login = merge_member text ''login'' u (Option.bind x gh_login),
      gh_name = merge_member text ''name'' u (Option.bind x gh_name),
      gh_company = merge_member text ''company'' u (Option.bind x gh_company), gh_emails = es, gh_groups = gs\<rparr>)\<rparr>"

definition github_start :: "'w login_env \<Rightarrow> 'w github_calls \<Rightarrow> string \<Rightarrow> ('w, login_answer) login" where
  "github_start E G uid =
     e_then (e_call (pv_random (le_provider E))) (\<lambda>r.
     let state = uid @ ''|'' @ r in
     e_then (interactionResult E (empty_submission\<lparr>su_state := Some state\<rparr>) True) (\<lambda>_.
     e_then (e_call (pv_takeSelectAccount (le_provider E))) (\<lambda>pick.
     e_return (Redirected (gc_url G state (getGitHubScopes (le_deployment E)) pick)))))"

text \<open>The callback up to the token; \<open>Inl\<close> answers the request.\<close>

definition github_callback ::
  "'w login_env \<Rightarrow> 'w github_calls \<Rightarrow> profile_claims \<Rightarrow> interaction \<Rightarrow> ('w, login_answer + string) login" where
  "github_callback E G body details =
     (let deny = (\<lambda>t. e_then (accessDenied E t) (\<lambda>a. e_return (Inl a))) in
      if (case in_result details of None \<Rightarrow> True | Some r \<Rightarrow> map_option JStr (su_state r) \<noteq> claim ''state'' body)
      then deny ''State does not match''
      else
        e_then (e_call (gc_exchange G (claim ''code'' body))) (\<lambda>answer.
        e_then (e_get Thrown answer) (\<lambda>t. case t of
          None \<Rightarrow> deny ''User aborted login''
        | Some token \<Rightarrow> e_then (interactionResult E (empty_submission\<lparr>su_oauth := Some (''GitHub'', token)\<rparr>) True)
            (\<lambda>_. e_return (Inr token)))))"

definition github_finish :: "'w login_env \<Rightarrow> 'w github_calls \<Rightarrow> string \<Rightarrow> ('w, login_answer) login" where
  "github_finish E G token =
     e_then (e_call (pv_iso (le_provider E))) (\<lambda>observedAt.
     e_then (getGitHubEmails G token observedAt) (\<lambda>emails. case emails of
       None \<Rightarrow> accessDenied E ''Error getting emails from GitHub''
     | Some es \<Rightarrow>
         e_then (e_try Thrown (gc_user G token)) (\<lambda>user.
         if js_truthy (claim ''error'' user) then accessDenied E ''Error getting profile from GitHub''
         else
             e_then (resolveAccount E None (Some es) None (claim_string ''login'' user)
               \<lparr>li_providerKey = None, li_subject = None, li_githubId = merge_member (gc_string G) ''id'' user None\<rparr>) (\<lambda>acc.
             e_then (case acc of None \<Rightarrow> e_return ()
               | Some a \<Rightarrow> e_then (github_groups E G token (claim_string ''login'' user)) (\<lambda>gs.
                   update_specs E (accountId a) (merge_github (gc_string G) user gs es))) (\<lambda>_.
             e_then (getLoginResult E acc False) (\<lambda>s. interactionFinished E s False))))))"

definition GithubLogin ::
  "'w login_env \<Rightarrow> 'w github_calls \<Rightarrow> string \<Rightarrow> profile_claims \<Rightarrow> ('w, login_answer) login" where
  "GithubLogin E G uid requestBody =
     (let body = AList.delete ''upstream'' requestBody in
      e_then (interactionDetails E) (\<lambda>details.
      let stashed = map_option snd (Option.bind (in_lastSubmission details) su_oauth) in
      if truthy stashed then github_finish E G (tmpl stashed)
      else if body = [] then github_start E G uid
      else e_then (github_callback E G body details) (\<lambda>r. case r of
        Inl a \<Rightarrow> e_return a | Inr token \<Rightarrow> github_finish E G token)))"

end
