(* ===== verification/Interactions.thy ===== *)
theory Interactions
  imports UpstreamLogin Sessions
begin

text \<open>
  The pages and posts of a sign-in (\<^verbatim>\<open>src/routes/oidcRoutes.js\<close>), one function per route, with the
  grant of a consent (\<^verbatim>\<open>src/utils/session/add-grants.js\<close>), the Terms of Service confirmation
  (\<^verbatim>\<open>src/utils/user/confirm-tos.js\<close>) and passkeys (\<^verbatim>\<open>src/services/webauthn/webauthn-service.js\<close>).
  A page is the name of its template.
\<close>

subsection \<open>Passkeys\<close>

text \<open>The challenge store and the verification of the library: \<open>wa_verify\<close> and \<open>wa_register\<close> may throw;
  they answer whether the response is verified, with the new counter or the new credential.\<close>

record 'w passkey_calls =
  wa_challenge :: "'w \<Rightarrow> string \<times> 'w"
  wa_store :: "string \<Rightarrow> string \<Rightarrow> 'w \<Rightarrow> unit \<times> 'w"
  wa_get :: "string \<Rightarrow> 'w \<Rightarrow> string option \<times> 'w"
  wa_remove :: "string \<Rightarrow> 'w \<Rightarrow> unit \<times> 'w"
  wa_verify :: "json \<Rightarrow> string \<Rightarrow> credential \<Rightarrow> 'w \<Rightarrow> (unit + int option) \<times> 'w"
  wa_register :: "json \<Rightarrow> string \<Rightarrow> 'w \<Rightarrow> (unit + credential option) \<times> 'w"

definition registration_key :: "account \<Rightarrow> string" where
  "registration_key a = ''reg:'' @ accountId a"

definition startRegistration :: "'w passkey_calls \<Rightarrow> account \<Rightarrow> ('w, string) login" where
  "startRegistration W a = e_then (e_call (wa_challenge W)) (\<lambda>c.
     e_then (e_call (wa_store W (registration_key a) c)) (\<lambda>_. e_return c))"

definition stored_passkeys :: "(passkey_error + (update_error + account outcome)) option \<Rightarrow> bool" where
  "stored_passkeys r = (case r of Some (Inr (Inr _)) \<Rightarrow> True | _ \<Rightarrow> False)"

text \<open>A change of the stored passkeys that throws where it fails.\<close>

definition change_passkeys :: "'w login_env \<Rightarrow> (credential list \<Rightarrow> passkey_error + credential list) \<Rightarrow> string \<Rightarrow> ('w, unit) login" where
  "change_passkeys E f i = e_then (e_call (passkey_update (le_deployment E) (le_document E) (le_users E) f i))
     (\<lambda>r. e_require (stored_passkeys r) Thrown)"

definition finishRegistration ::
  "'w login_env \<Rightarrow> 'w passkey_calls \<Rightarrow> account \<Rightarrow> json \<Rightarrow> string \<Rightarrow> ('w, credential option) login" where
  "finishRegistration E W a response name = e_then (e_call (wa_get W (registration_key a))) (\<lambda>expected.
     e_then (e_require (truthy expected) Thrown) (\<lambda>_.
     e_then (e_try Thrown (wa_register W response (tmpl expected))) (\<lambda>new. case new of
       None \<Rightarrow> e_return None
     | Some c \<Rightarrow> let c' = c\<lparr>cr_name := name\<rparr> in
         e_then (change_passkeys E (addPasskey c') (accountId a)) (\<lambda>_.
         e_then (e_call (wa_remove W (registration_key a))) (\<lambda>_. e_return (Some c'))))))"

definition startAuthentication :: "'w passkey_calls \<Rightarrow> string \<Rightarrow> ('w, string) login" where
  "startAuthentication W uid = e_then (e_call (wa_challenge W)) (\<lambda>c.
     e_then (e_call (wa_store W (''auth:'' @ uid) c)) (\<lambda>_. e_return c))"

definition finishAuthentication ::
  "'w login_env \<Rightarrow> 'w passkey_calls \<Rightarrow> string \<Rightarrow> json \<Rightarrow> ('w, account option) login" where
  "finishAuthentication E W uid response = e_then (e_call (wa_get W (''auth:'' @ uid))) (\<lambda>expected.
     e_then (e_require (truthy expected) Thrown) (\<lambda>_.
     e_then (e_call (listUsers (le_deployment E) (le_users E))) (\<lambda>users.
     e_then (e_get Thrown (found users)) (\<lambda>users.
     let cid = (case field ''id'' (Some response) of Some (JStr s) \<Rightarrow> Some s | _ \<Rightarrow> None) in
     e_then (e_get Thrown (Option.bind cid (\<lambda>cid. findUserByPasskeyId cid users))) (\<lambda>a.
     e_then (e_get Thrown (find (\<lambda>c. Some (cr_id c) = cid) (credentials_of a))) (\<lambda>c.
     e_then (e_try Thrown (wa_verify W response (tmpl expected) c)) (\<lambda>counter. case counter of
       None \<Rightarrow> e_return None
     | Some n \<Rightarrow>
         e_then (change_passkeys E (updatePasskeyCounter (cr_id c) n) (accountId a)) (\<lambda>_.
         e_then (e_call (wa_remove W (''auth:'' @ uid))) (\<lambda>_. e_return (Some a))))))))))"

subsection \<open>Grants\<close>

record grant =
  gt_id :: string
  gt_account :: string
  gt_client :: string
  gt_scopes :: "string list"
  gt_claims :: "string list"
  gt_resources :: "(string \<times> string list) list"

record prompt_details =
  pd_missingScope :: "string list option"
  pd_missingClaims :: "string list option"
  pd_missingResources :: "(string \<times> string list) list option"

definition grant_missing :: "oidc_metadata \<Rightarrow> prompt_details \<Rightarrow> grant \<Rightarrow> grant" where
  "grant_missing client p g =
     (let offline = (if pd_missingScope p \<noteq> None \<and> ''offline_access'' \<in> set (list_or_empty (cl_availableScopes client))
                     then [''offline_access''] else []) in
      g\<lparr>gt_scopes := gt_scopes g @ offline @ list_or_empty (pd_missingScope p),
        gt_claims := gt_claims g @ list_or_empty (pd_missingClaims p),
        gt_resources := gt_resources g @ list_or_empty (pd_missingResources p)\<rparr>)"

text \<open>\<open>rt_grant\<close> finds a grant, \<open>rt_newGrant\<close> gives the id of a new one.\<close>

record 'w route_calls =
  rt_client :: "string \<Rightarrow> 'w \<Rightarrow> oidc_metadata option \<times> 'w"
  rt_grant :: "string \<Rightarrow> 'w \<Rightarrow> grant option \<times> 'w"
  rt_newGrant :: "'w \<Rightarrow> string \<times> 'w"
  rt_saveGrant :: "grant \<Rightarrow> 'w \<Rightarrow> unit \<times> 'w"
  rt_siteSession :: "string \<Rightarrow> oidc_metadata \<Rightarrow> 'w \<Rightarrow> json \<times> 'w"
  rt_impersonation :: "'w \<Rightarrow> string option \<times> 'w"
  rt_endImpersonation :: "'w \<Rightarrow> unit \<times> 'w"
  rt_activate :: "string \<Rightarrow> 'w \<Rightarrow> bool \<times> 'w"
  rt_incident :: "string option \<Rightarrow> string \<Rightarrow> 'w \<Rightarrow> unit \<times> 'w"
  rt_request :: "string \<Rightarrow> string \<Rightarrow> string list option \<Rightarrow> 'w \<Rightarrow> unit \<times> 'w"
  rt_receipt :: "string \<Rightarrow> 'w \<Rightarrow> unit \<times> 'w"
  rt_rememberLogout :: "'w \<Rightarrow> unit \<times> 'w"

definition addGrant ::
  "'w route_calls \<Rightarrow> prompt_details \<Rightarrow> string option \<Rightarrow> string \<Rightarrow> oidc_metadata \<Rightarrow> ('w, grant) login" where
  "addGrant R p grantId account client =
     e_then (if truthy grantId
       then e_then (e_call (rt_grant R (tmpl grantId))) (e_get Thrown)
       else e_then (e_call (rt_newGrant R)) (\<lambda>i. e_return \<lparr>gt_id = i, gt_account = account, gt_client = cl_clientId client,
              gt_scopes = [], gt_claims = [], gt_resources = []\<rparr>)) (\<lambda>g.
     let g' = grant_missing client p g in
     e_then (e_call (rt_saveGrant R g')) (\<lambda>_. e_return g'))"

subsection \<open>Terms of Service\<close>

definition confirmTos :: "'w login_env \<Rightarrow> 'w route_calls \<Rightarrow> string \<Rightarrow> string option \<Rightarrow> ('w, unit) login" where
  "confirmTos E R account contentHash = (case le_document E of
     None \<Rightarrow> e_return ()
   | Some doc \<Rightarrow>
       if Some (d_contentHash doc) \<noteq> contentHash then e_throw (HttpError 409)
       else
         e_then (e_call (findUser (le_deployment E) (le_users E) account)) (\<lambda>acc.
         e_then (e_call (pv_iso (le_provider E))) (\<lambda>now.
         e_then (e_call (mutateUserStatus (le_deployment E) (le_document E) (le_users E) account
           (acceptTermsOfService (tmpl contentHash) now))) (\<lambda>_.
         if \<not> isOutboundEmailEnabled (le_deployment E) then e_return ()
         else e_then (e_get Thrown (found acc)) (\<lambda>a.
           if \<not> truthy (primaryEmail a) then e_return ()
           else e_call (rt_receipt R (tmpl (primaryEmail a))))))))"

subsection \<open>The interaction page\<close>

text \<open>Without an account, reading its groups throws.\<close>

definition groups_satisfied :: "oidc_metadata option \<Rightarrow> account option \<Rightarrow> bool option" where
  "groups_satisfied client cur = (case cur of
     Some a \<Rightarrow> Some (checkAccountGroups client a)
   | None \<Rightarrow> if list_or_empty (Option.bind client cl_allowedUsers) = [] \<and> list_or_empty (Option.bind client cl_allowedGroups) = []
             then Some True else None)"

text \<open>\<open>next()\<close> ends in 404.\<close>

definition interaction_page ::
  "'w login_env \<Rightarrow> 'w route_calls \<Rightarrow> prompt_details \<Rightarrow> account option \<Rightarrow> ('w, login_answer) login" where
  "interaction_page E R p cur =
     (let D = le_deployment E; proceed = interactionFinished E empty_submission True in
      e_then (interactionDetails E) (\<lambda>d.
      if in_prompt d = ''login'' then
        (if map_option su_requireCustomUsername (in_lastSubmission d) = Some True then e_return (Rendered ''enter-username'')
         else e_then (e_call (rt_impersonation R)) (\<lambda>_. e_return (Rendered ''login'')))
      else if in_prompt d = ''consent'' then
        e_then (e_call (rt_client R (in_client_id d))) (\<lambda>c. e_then (e_get Thrown c) (\<lambda>client.
        e_then (e_get Thrown (in_session d)) (\<lambda>account.
        e_then (addGrant R p (in_grantId d) account client) (\<lambda>g.
        e_then (if truthy (cl_kind client) then e_then (e_call (rt_siteSession R account client)) (\<lambda>s. e_return (Some s))
                else e_return None) (\<lambda>site.
        interactionFinished E (empty_submission\<lparr>su_consent := Some (gt_id g), su_siteSession := site\<rparr>) True)))))
      else if in_prompt d = ''tos'' then
        (case le_document E of
           None \<Rightarrow> proceed
         | Some doc \<Rightarrow> e_then (interactionResult E (empty_submission\<lparr>su_tosTextChecksum := Some (d_contentHash doc)\<rparr>) True)
             (\<lambda>_. e_return (Rendered ''tos'')))
      else if in_prompt d = ''approval_required'' then
        (if approved_check D cur then proceed else e_return (Rendered ''approval_required''))
      else if in_prompt d = ''groups_required'' then
        e_then (e_call (rt_client R (in_client_id d))) (\<lambda>client.
        e_then (e_get Thrown (groups_satisfied client cur)) (\<lambda>ok. if ok then proceed
        else e_then (e_call (rt_incident R (map_option accountId cur) (in_client_id d))) (\<lambda>_.
          e_return (Rendered (if canRequestAccess D cur client then ''request-access'' else ''message'')))))
      else if in_prompt d = ''name'' then e_return (Rendered ''enter-name'')
      else e_throw (HttpError 404)))"

subsection \<open>Starting and ending a sign-in\<close>

definition githubEnabled :: "deployment \<Rightarrow> bool" where
  "githubEnabled D = (\<not> env_is D ''GITHUB_ENABLED'' ''false'')"

definition webauthnEnabled :: "deployment \<Rightarrow> bool" where
  "webauthnEnabled D = (\<not> env_is D ''WEBAUTHN_ENABLED'' ''false'')"

definition enabledAuthMethodCount :: "deployment \<Rightarrow> nat" where
  "enabledAuthMethodCount D = length (filter (\<lambda>b. b) [webauthnEnabled D, githubEnabled D, isOutboundEmailEnabled D])
     + length (getOidcProviders D)"

definition require_prompt :: "'w login_env \<Rightarrow> string \<Rightarrow> ('w, interaction) login" where
  "require_prompt E name = e_then (interactionDetails E) (\<lambda>d.
     e_then (e_require (in_prompt d = name) Thrown) (\<lambda>_. e_return d))"

definition federated ::
  "'w login_env \<Rightarrow> 'w upstream_calls \<Rightarrow> 'w github_calls \<Rightarrow> string \<Rightarrow> profile_claims \<Rightarrow> ('w, login_answer) login" where
  "federated E C G uid body = e_then (require_prompt E ''login'') (\<lambda>_.
     if claim ''upstream'' body = Some (JStr ''gh'')
     then (if \<not> githubEnabled (le_deployment E) then e_throw (HttpError 404) else GithubLogin E G uid body)
     else (case Option.bind (claim_string ''upstream'' body) (getOidcProvider (le_deployment E)) of
         None \<Rightarrow> e_throw (HttpError 404)
       | Some cfg \<Rightarrow> OidcLogin E C cfg uid body))"

definition request_access :: "'w login_env \<Rightarrow> 'w route_calls \<Rightarrow> account option \<Rightarrow> ('w, login_answer) login" where
  "request_access E R cur = e_then (interactionDetails E) (\<lambda>d.
     e_then (e_require (in_prompt d = ''groups_required'') (HttpError 404)) (\<lambda>_.
     e_then (e_call (rt_client R (in_client_id d))) (\<lambda>client.
     e_then (e_require (cur \<noteq> None \<and> canRequestAccess (le_deployment E) cur client) (HttpError 403)) (\<lambda>_.
     e_then (e_call (rt_request R (accountId (the cur)) (in_client_id d) (Option.bind client cl_allowedGroups))) (\<lambda>_.
     e_return (Rendered ''request-access''))))))"

definition email_login :: "'w login_env \<Rightarrow> bool \<Rightarrow> form_env \<Rightarrow> form_body \<Rightarrow> ('w, login_answer) login" where
  "email_login E slackConfigured F body =
     e_then (e_require (isOutboundEmailEnabled (le_deployment E)) (HttpError 404)) (\<lambda>_.
     if validationErrors F (checkEmail body) \<noteq> None then e_return (Rendered ''login'')
     else sendLink E slackConfigured (tmpl (body ''email'')))"

text \<open>Without an impersonation, reading its account throws.\<close>

definition impersonate :: "'w login_env \<Rightarrow> 'w route_calls \<Rightarrow> ('w, login_answer) login" where
  "impersonate E R = e_then (e_call (rt_impersonation R)) (\<lambda>i. e_then (e_get Thrown i) (\<lambda>i.
     e_then (e_call (findUser (le_deployment E) (le_users E) i)) (\<lambda>a.
     e_then (getLoginResult E (found a) True) (\<lambda>s. interactionFinished E s True))))"

text \<open>The result given is the options that were meant for the call, and so no result at all.\<close>

definition impersonate_end :: "'w login_env \<Rightarrow> 'w route_calls \<Rightarrow> ('w, login_answer) login" where
  "impersonate_end E R = e_then (e_call (rt_endImpersonation R)) (\<lambda>_. interactionFinished E empty_submission True)"

definition open_impersonation :: "'w login_env \<Rightarrow> 'w route_calls \<Rightarrow> bool \<Rightarrow> string \<Rightarrow> ('w, login_answer) login" where
  "open_impersonation E R cookies jti =
     (if cookies then e_return (MessagePage ''Open in a private window'')
      else e_then (e_call (rt_activate R jti)) (\<lambda>ok.
        if \<not> ok then e_return (MessagePage ''Impersonation link invalid'')
        else e_return (Redirected (tmpl (penv (le_deployment E) ''ISSUER_URL'')))))"

datatype passkey_answer = PasskeyOptions string | PasskeyDone string | PasskeyError nat

definition passkey_start :: "'w login_env \<Rightarrow> 'w passkey_calls \<Rightarrow> string \<Rightarrow> ('w, passkey_answer) login" where
  "passkey_start E W uid = e_then (e_require (webauthnEnabled (le_deployment E)) (HttpError 404)) (\<lambda>_.
     e_then (require_prompt E ''login'') (\<lambda>_ w. case startAuthentication W uid w of
       (Inr c, w') \<Rightarrow> (Inr (PasskeyOptions c), w') | (Inl _, w') \<Rightarrow> (Inr (PasskeyError 500), w')))"

definition passkey_login :: "'w login_env \<Rightarrow> 'w passkey_calls \<Rightarrow> string \<Rightarrow> json \<Rightarrow> ('w, passkey_answer) login" where
  "passkey_login E W uid response = e_then (finishAuthentication E W uid response) (\<lambda>acc. case acc of
     None \<Rightarrow> e_return (PasskeyError 401)
   | Some a \<Rightarrow> e_then (getLoginResult E (Some a) False) (\<lambda>s.
       e_then (interactionResult E s True) (\<lambda>url. e_return (PasskeyDone url))))"

definition passkey_finish :: "'w login_env \<Rightarrow> 'w passkey_calls \<Rightarrow> string \<Rightarrow> json option \<Rightarrow> ('w, passkey_answer) login" where
  "passkey_finish E W uid response = e_then (require_prompt E ''login'') (\<lambda>_.
     if \<not> js_truthy response then e_return (PasskeyError 400)
     else (\<lambda>w. case passkey_login E W uid (the response) w of
       (Inr a, w') \<Rightarrow> (Inr a, w') | (Inl _, w') \<Rightarrow> (Inr (PasskeyError 400), w')))"

definition confirm_tos :: "'w login_env \<Rightarrow> 'w route_calls \<Rightarrow> ('w, login_answer) login" where
  "confirm_tos E R = e_then (require_prompt E ''tos'') (\<lambda>d.
     e_then (e_get Thrown (in_session d)) (\<lambda>account.
     e_then (e_get Thrown (in_result d)) (\<lambda>result w.
       case confirmTos E R account (su_tosTextChecksum result) w of
         (Inr _, w') \<Rightarrow> interactionFinished E empty_submission True w'
       | (Inl e, w') \<Rightarrow>
           if e \<noteq> HttpError 409 then (Inl e, w')
           else (case le_document E of
               None \<Rightarrow> interactionFinished E empty_submission True w'
             | Some doc \<Rightarrow> e_then (interactionResult E (empty_submission\<lparr>su_tosTextChecksum := Some (d_contentHash doc)\<rparr>) True)
                 (\<lambda>_. e_return (Rendered ''tos'')) w'))))"

definition set_name :: "string option \<Rightarrow> user_specs \<Rightarrow> user_specs" where
  "set_name n s = s\<lparr>sp_passmower := Some ((case sp_passmower s of Some p \<Rightarrow> p | None \<Rightarrow> empty_passmower)\<lparr>pm_name := n\<rparr>)\<rparr>"

definition update_name :: "'w login_env \<Rightarrow> form_env \<Rightarrow> form_body \<Rightarrow> ('w, login_answer) login" where
  "update_name E F body = e_then (require_prompt E ''name'') (\<lambda>d.
     e_then (e_get Thrown (in_session d)) (\<lambda>account.
     if validationErrors F (checkRealName body) \<noteq> None then e_return (Rendered ''enter-name'')
     else e_then (update_specs E account (set_name (body ''name''))) (\<lambda>_.
       interactionFinished E empty_submission True)))"

definition no_identity :: login_identity where
  "no_identity = \<lparr>li_providerKey = None, li_subject = None, li_githubId = None\<rparr>"

definition commit_username :: "string \<Rightarrow> account \<Rightarrow> account" where
  "commit_username now a = a\<lparr>a_conditions := condition_add ''UsernameCommitted'' True now (a_conditions a)\<rparr>"

definition enter_username ::
  "'w login_env \<Rightarrow> 'w upstream_calls \<Rightarrow> 'w github_calls \<Rightarrow> form_env \<Rightarrow> string \<Rightarrow> profile_claims \<Rightarrow> form_body \<Rightarrow> ('w, login_answer) login" where
  "enter_username E C G F uid requestBody body = e_then (require_prompt E ''login'') (\<lambda>d.
     if validationErrors F (checkUsername (le_checks E) body) \<noteq> None then e_return (Rendered ''enter-username'')
     else
       let s = in_lastSubmission d in
       e_then (e_call (createUser (le_deployment E) (le_document E) (le_users E) (le_managed E) (le_instance E)
         (tmpl (body ''username'')) (Option.bind s su_email) (list_or_empty (Option.bind s su_githubEmails))
         (case Option.bind s su_stableIdentity of Some i \<Rightarrow> i | None \<Rightarrow> no_identity))) (\<lambda>created. case created of
         None \<Rightarrow> e_return (Rendered ''enter-username'')
       | Some a \<Rightarrow>
           e_then (e_call (pv_iso (le_provider E))) (\<lambda>now.
           e_then (e_call (mutateUserStatus (le_deployment E) (le_document E) (le_users E) (accountId a) (commit_username now))) (\<lambda>_.
           e_then (recordSubmittedMagicLinkVerification E a s) (\<lambda>a'.
           case Option.bind s su_oauth of
             Some (p, _) \<Rightarrow> if p = ''GitHub'' then GithubLogin E G uid requestBody else e_throw Thrown
           | None \<Rightarrow> (case Option.bind s su_oidc of
               Some (key, _) \<Rightarrow> (case getOidcProvider (le_deployment E) key of
                   None \<Rightarrow> e_throw Thrown
                 | Some cfg \<Rightarrow> OidcLogin E C cfg uid requestBody)
             | None \<Rightarrow> interactionFinished E (login_of (accountId a')) True))))))"

definition abort_interaction :: "'w login_env \<Rightarrow> 'w route_calls \<Rightarrow> ('w, login_answer) login" where
  "abort_interaction E R = e_then (e_call (rt_rememberLogout R)) (\<lambda>_. accessDenied E ''End-User aborted interaction'')"

subsection \<open>Pages outside an interaction\<close>

text \<open>\<open>signedIn\<close> is \<open>signedInToSelf\<close> and \<open>url\<close> the authorization request of the dashboard.\<close>

definition home_page ::
  "'w login_env \<Rightarrow> ('w \<Rightarrow> bool \<times> 'w) \<Rightarrow> ('w \<Rightarrow> string \<times> 'w) \<Rightarrow> string \<Rightarrow> ('w, login_answer) login" where
  "home_page E signedIn url path = e_then (e_call signedIn) (\<lambda>inside.
     if inside then
       (if path = ''/terms-of-service''
        then (if le_document E = None then e_throw (HttpError 404) else e_return (Rendered ''tos''))
        else e_return (Rendered ''frontend''))
     else e_then (e_call url) (\<lambda>u.
       if enabledAuthMethodCount (le_deployment E) = 1 then e_return (Redirected u) else e_return (Rendered ''hi'')))"

definition callback_page :: "'w login_env \<Rightarrow> string \<Rightarrow> ('w, login_answer) login" where
  "callback_page E upstream =
     (if upstream \<noteq> ''gh'' \<and> getOidcProvider (le_deployment E) upstream = None then e_throw (HttpError 404)
      else e_return (Rendered ''repost''))"

definition link_sent_text :: "(string \<times> string) list \<Rightarrow> string" where
  "link_sent_text query = ''Login link sent to '' @ join_with '' and ''
     (map (\<lambda>(q, _). if q = ''email'' then ''e-mail'' else ''Slack'') (filter (\<lambda>(_, v). v = ''true'') query))"

definition passkey_available :: "deployment \<Rightarrow> bool \<times> string option" where
  "passkey_available D = (webauthnEnabled D, map_option u_hostname (parse_url D (tmpl (penv D ''ISSUER_URL''))))"

end
