(* ===== verification/LoginProperties.thy ===== *)
theory LoginProperties
  imports Interactions
begin

text \<open>
  What the sign-in promises: which word of an upstream is believed, that callbacks and links need
  their state or token, that a page lets an interaction go on only where its policy holds; and, on a
  world in memory, what two of the handlers let through.
\<close>

subsection \<open>The word of an upstream\<close>

lemma map_of_delete_other: "j \<noteq> k \<Longrightarrow> map_of (AList.delete k m) j = map_of m j"
  by (simp add: delete_conv')

lemma merged_claim:
  "k \<noteq> ''email_verified'' \<Longrightarrow> claim k (mergeOidcProfile D claims userinfo) = claim k (js_assign claims userinfo)"
  by (simp add: mergeOidcProfile_def claim_def Let_def update_conv' delete_conv')

lemma merged_email: "source_email D (mergeOidcProfile D claims userinfo) = source_email D (js_assign claims userinfo)"
  using merged_claim [of "''email''" D claims userinfo]
  by (simp add: source_email_def claim_string_def str_field_def claim_def)

lemma signal_member:
  "b \<in> set (matching_signals D p sources) \<longleftrightarrow>
     (\<exists>s \<in> set sources. source_email D s = source_email D p \<and> claim ''email_verified'' s = Some (JBool b))"
  unfolding matching_signals_def by (auto simp: set_somes split: option.splits json.splits bool.splits; force)

lemma merged_verified:
  "claim ''email_verified'' (mergeOidcProfile D claims userinfo) =
     (let signals = matching_signals D (js_assign claims userinfo) [claims, userinfo] in
      if False \<in> set signals then Some (JBool False) else if True \<in> set signals then Some (JBool True) else None)"
  by (simp add: mergeOidcProfile_def claim_def Let_def update_conv' delete_conv')

text \<open>
  C4: An upstream's address counts as verified only on the upstream's word for that address. When
  the identity taken from a sign-in carries an address as verified, the operator declared the
  provider trusted, or its claims are heeded and the id token or the userinfo answer says
  \<open>email_verified: true\<close> of this very address; and none of the two says \<open>false\<close> of it.
\<close>

theorem upstream_email_believed:
  assumes "e \<in> set (up_emails (extractIdentity text cfg (mergeOidcProfile D claims userinfo) t))" "em_verified e = Some True"
  shows "(op_emailVerification cfg = ''trusted''
      \<or> op_emailVerification cfg = ''oidc-claim''
        \<and> (\<exists>s \<in> {claims, userinfo}. source_email D s = canonicalizeEmail D (em_email e) \<and> claim ''email_verified'' s = Some (JBool True)))
    \<and> (\<forall>s \<in> {claims, userinfo}. source_email D s = canonicalizeEmail D (em_email e) \<longrightarrow> claim ''email_verified'' s \<noteq> Some (JBool False))"
proof -
  let ?p = "mergeOidcProfile D claims userinfo" and ?q = "js_assign claims userinfo"
  have e: "em_email e = claim_string ''email'' ?p"
    and v: "upstream_verified (op_emailVerification cfg) (claim ''email_verified'' ?p) = Some True"
    using assms by (auto simp: extractIdentity_def profile_emails_def split: if_splits)
  have addr: "canonicalizeEmail D (em_email e) = source_email D ?q"
    unfolding e using merged_email [of D claims userinfo] by (simp add: source_email_def)
  have no: "False \<notin> set (matching_signals D ?q [claims, userinfo])"
    using v unfolding merged_verified upstream_verified_def Let_def by (auto split: if_splits)
  have yes: "op_emailVerification cfg = ''trusted''
      \<or> op_emailVerification cfg = ''oidc-claim'' \<and> True \<in> set (matching_signals D ?q [claims, userinfo])"
    using v unfolding merged_verified upstream_verified_def Let_def by (auto split: if_splits)
  show ?thesis
    unfolding addr using yes no signal_member [of True D ?q "[claims, userinfo]"] signal_member [of False D ?q "[claims, userinfo]"] by auto
qed

subsection \<open>Callbacks and links\<close>

lemma details_then: "pv_details (le_provider E) w = (Inr d, w1) \<Longrightarrow> e_then (interactionDetails E) f w = f d w1"
  by (simp add: interactionDetails_def e_then_def e_try_def)

text \<open>
  C5: A callback of an upstream is taken only for the flow that this interaction started with this
  provider. Where the interaction holds no identity and its flow is missing, is another provider's,
  or has another state than the callback brings, the sign-in ends in the refusal: the code is not
  exchanged and no account is read.
\<close>

theorem callback_needs_its_state:
  assumes "pv_details (le_provider E) w = (Inr d, w1)" "Option.bind (in_lastSubmission d) su_oidc = None"
    and "AList.delete ''upstream'' body \<noteq> []"
    and "\<forall>fl. coalesce (Option.bind (in_result d) su_oidcFlow) (Option.bind (in_lastSubmission d) su_oidcFlow) = Some fl \<longrightarrow>
      fl_provider fl \<noteq> op_key cfg \<or> claim ''state'' body \<noteq> Some (JStr (fl_state fl))"
  shows "OidcLogin E C cfg uid body w = accessDenied E ''State does not match'' w1"
proof -
  have state: "claim ''state'' (AList.delete ''upstream'' body) = claim ''state'' body"
    by (simp add: claim_def delete_conv')
  have "oidc_callback E C cfg (AList.delete ''upstream'' body) d = refuse E ''State does not match''"
    using assms(4) by (auto simp: oidc_callback_def Let_def state split: option.split)
  then have "OidcLogin E C cfg uid body w = e_then (refuse E ''State does not match'')
      (\<lambda>i. case i of None \<Rightarrow> e_return Finished | Some i \<Rightarrow> oidc_finish E C cfg i) w1"
    using assms(2,3) unfolding OidcLogin_def Let_def details_then [OF assms(1)] by simp
  also have "\<dots> = accessDenied E ''State does not match'' w1"
  proof (cases "pv_finished (le_provider E) (denied ''State does not match'') False w1")
    case (Pair r w2)
    then show ?thesis
      by (cases r) (simp_all add: refuse_def accessDenied_def interactionFinished_def e_then_def e_try_def e_return_def)
  qed
  finally show ?thesis .
qed


subsection \<open>The interaction page\<close>

text \<open>
  The pages that ask for an approval or for a group let an interaction go on only where the
  policy holds by now: they finish it only for an approved account, and only for an account that the
  client's access policy admits. Otherwise the interaction is left as it is.
\<close>

theorem page_enforces_policy:
  assumes "pv_details (le_provider E) w = (Inr d, w1)" "interaction_page E R p cur w = (Inr Finished, w')"
  shows "(in_prompt d = ''approval_required'' \<longrightarrow> approved_check (le_deployment E) cur)
    \<and> (in_prompt d = ''groups_required'' \<longrightarrow>
        groups_satisfied (fst (rt_client R (in_client_id d) w1)) cur = Some True)
    \<and> in_prompt d \<noteq> ''login'' \<and> in_prompt d \<noteq> ''name''"
  using assms(2) unfolding interaction_page_def Let_def details_then [OF assms(1)]
  by (auto simp: e_then_def e_call_def e_return_def e_get_def e_throw_def split: if_splits prod.splits option.splits)

subsection \<open>A world in memory\<close>

text \<open>The user objects, the interactions, the one of the request's cookie, a counter for random values,
  the links sent, and the results that interactions were finished with. A result is merged into the
  last submission unless it is an error or the caller asks otherwise.\<close>

record login_world =
  lw_users :: user_world
  lw_interactions :: "(string \<times> interaction) list"
  lw_cookie :: "string option"
  lw_seed :: nat
  lw_sent :: "(string \<times> string) list"
  lw_finished :: "submission list"

definition on_users :: "(user_world \<Rightarrow> 'r \<times> user_world) \<Rightarrow> login_world \<Rightarrow> 'r \<times> login_world" where
  "on_users f w = (let (r, u) = f (lw_users w) in (r, w\<lparr>lw_users := u\<rparr>))"

definition with_specs :: "user_specs \<Rightarrow> user_resource \<Rightarrow> user_resource" where
  "with_specs s r = r\<lparr>r_passmower := sp_passmower s, r_slack := sp_slack s, r_github := sp_github s,
     r_identities := sp_identities s, r_webauthn := sp_webauthn s\<rparr>"

definition mem_patch_user :: "string \<Rightarrow> user_specs \<Rightarrow> user_world \<Rightarrow> (nat + user_resource) \<times> user_world" where
  "mem_patch_user n s w = (case mu_view w n of
     None \<Rightarrow> (Inl 404, w)
   | Some r \<Rightarrow> (Inr (mu_with_version (with_specs s r) (Suc (snd w))), mu_store n (with_specs s r) w))"

lemma mu_later_code [code]:
  "mu_later w w' = (snd w \<le> snd w' \<and> (\<forall>n \<in> set (map fst (fst w')). case mu_view w' n of
     None \<Rightarrow> True | Some b \<Rightarrow> mu_version b \<le> snd w \<longrightarrow> mu_view w n = Some b))"
proof -
  have "n \<in> set (map fst (fst w'))" if "mu_view w' n = Some b" for n b
    using that by (auto simp: mu_view_def split: option.splits dest: map_of_SomeD) (metis fst_conv image_eqI map_of_SomeD)
  then show ?thesis by (fastforce simp: mu_later_def split: option.splits)
qed

definition login_users :: "login_world user_calls" where
  "login_users = (let K = mem_user_objects in \<lparr>
     uc_objects = \<lparr>ka_view = (\<lambda>w. ka_view K (lw_users w)), ka_later = (\<lambda>v w. ka_later K (lw_users v) (lw_users w)),
       ka_version = ka_version K, ka_with_status = ka_with_status K, ka_list = on_users (ka_list K),
       ka_get = (\<lambda>n. on_users (ka_get K n)), ka_create = (\<lambda>r. on_users (ka_create K r)),
       ka_delete = (\<lambda>n. on_users (ka_delete K n)), ka_replace_status = (\<lambda>n v st. on_users (ka_replace_status K n v st))\<rparr>,
     uc_patch = (\<lambda>n old new. on_users (mem_patch_user n new))\<rparr>)"

definition cookie_interaction :: "login_world \<Rightarrow> interaction option" where
  "cookie_interaction w = Option.bind (lw_cookie w) (map_of (lw_interactions w))"

definition merged_result :: "interaction \<Rightarrow> submission \<Rightarrow> bool \<Rightarrow> submission" where
  "merged_result i s merge = (if merge \<and> su_error s = None
     then overlay (case in_lastSubmission i of Some l \<Rightarrow> l | None \<Rightarrow> empty_submission) s else s)"

definition put_interaction :: "interaction \<Rightarrow> login_world \<Rightarrow> login_world" where
  "put_interaction i w = w\<lparr>lw_interactions := AList.update (in_uid i) i (lw_interactions w)\<rparr>"

definition login_provider :: "login_world provider_calls" where
  "login_provider = \<lparr>
     pv_details = (\<lambda>w. (case cookie_interaction w of Some i \<Rightarrow> Inr i | None \<Rightarrow> Inl (), w)),
     pv_result = (\<lambda>s merge w. case cookie_interaction w of
        None \<Rightarrow> (Inl (), w)
      | Some i \<Rightarrow> (Inr ''resume'', put_interaction (i\<lparr>in_result := Some (merged_result i s merge)\<rparr>) w)),
     pv_finished = (\<lambda>s merge w. case cookie_interaction w of
        None \<Rightarrow> (Inl (), w)
      | Some i \<Rightarrow> (Inr (), (put_interaction (i\<lparr>in_result := Some (merged_result i s merge)\<rparr>) w)
          \<lparr>lw_finished := lw_finished w @ [merged_result i s merge]\<rparr>)),
     pv_interaction = (\<lambda>uid w. (map_of (lw_interactions w) uid, w)),
     pv_save = (\<lambda>i ttl w. ((), put_interaction i w)),
     pv_random = (\<lambda>w. (''r'' @ replicate (lw_seed w) (CHR ''0''), w\<lparr>lw_seed := lw_seed w + 1\<rparr>)),
     pv_iso = (\<lambda>w. (''2026-01-01'', w)), pv_seconds = (\<lambda>w. (0, w)),
     pv_sendMail = (\<lambda>to url w. (True, w\<lparr>lw_sent := lw_sent w @ [(to, url)]\<rparr>)),
     pv_sendSlack = (\<lambda>to url w. (False, w)), pv_takeSelectAccount = (\<lambda>w. (False, w))\<rparr>"

definition login_demo :: "deployment \<Rightarrow> login_world login_env" where
  "login_demo D = \<lparr>le_deployment = D, le_document = None, le_checks = demo_checks, le_managed = [], le_instance = ''main'',
     le_slack = (\<lambda>_. None), le_memo = None, le_users = login_users, le_provider = login_provider\<rparr>"

definition demo_interaction :: "submission option \<Rightarrow> interaction" where
  "demo_interaction before = \<lparr>in_uid = ''i1'', in_prompt = ''login'', in_client_id = ''app'', in_session = None, in_grantId = None,
     in_result = None, in_lastSubmission = before, in_exp = None\<rparr>"

text \<open>One user, \<open>ann\<close> with the address \<open>a@x\<close>, and one interaction.\<close>

definition demo_login_world :: "submission option \<Rightarrow> login_world" where
  "demo_login_world before = \<lparr>lw_users = demo_user_world, lw_interactions = [(''i1'', demo_interaction before)], lw_cookie = Some ''i1'',
     lw_seed = 0, lw_sent = [], lw_finished = []\<rparr>"

text \<open>What is left of a sign-in whose address was verified and that then asked for a username.\<close>

definition verified_stranger :: submission where
  "verified_stranger = empty_submission\<lparr>su_requireCustomUsername := True, su_email := Some ''m@y'', su_token := Some ''t'',
     su_emailVerified := True, su_emailVerifiedAt := Some ''2026-01-01''\<rparr>"

subsection \<open>What the handlers let through\<close>



subsection \<open>Witnesses\<close>

definition demo_oidc :: oidc_provider where
  "demo_oidc = \<lparr>op_key = ''corp'', op_order = None, op_displayName = ''Corp'', op_enabled = True, op_issuer = ''https://idp.corp.example'',
     op_clientId = Some ''id'', op_clientSecret = None, op_scopes = defaultScopes, op_groupsClaim = None, op_linkingClaims = [],
     op_emailVerification = ''oidc-claim'', op_groupPrefix = ''corp'', op_tokenEndpointAuthMethod = ''client_secret_basic'', op_icon = None\<rparr>"

definition demo_id_token :: profile_claims where
  "demo_id_token = [(''sub'', JStr ''s1''), (''email'', JStr ''a@x''), (''email_verified'', JBool True)]"

theorem upstream_email_believed_witness:
  "map em_verified (up_emails (extractIdentity (\<lambda>_. []) demo_oidc (mergeOidcProfile demo demo_id_token [(''email'', JStr ''A@x'')]) ''t'')) = [Some True]
   \<and> claim ''email_verified'' demo_id_token = Some (JBool True)
   \<and> map em_verified (up_emails (extractIdentity (\<lambda>_. []) demo_oidc (mergeOidcProfile demo demo_id_token [(''email'', JStr ''b@x'')]) ''t'')) = [None]"
proof -
  let ?i = "extractIdentity (\<lambda>_. []) demo_oidc (mergeOidcProfile demo demo_id_token [(''email'', JStr ''A@x'')]) ''t''"
  have v: "map em_verified (up_emails ?i) = [Some True]" by code_simp
  then obtain e where e: "e \<in> set (up_emails ?i)" "em_verified e = Some True" by (cases "up_emails ?i") auto
  from upstream_email_believed [OF e]
  have "claim ''email_verified'' demo_id_token = Some (JBool True)"
    by (auto simp: demo_oidc_def demo_id_token_def claim_def)
  moreover have "map em_verified (up_emails (extractIdentity (\<lambda>_. []) demo_oidc
      (mergeOidcProfile demo demo_id_token [(''email'', JStr ''b@x'')]) ''t'')) = [None]" by code_simp
  ultimately show ?thesis using v by blast
qed

lemma demo_details: "pv_details (le_provider (login_demo D)) (demo_login_world s) = (Inr (demo_interaction s), demo_login_world s)"
  by (simp add: login_demo_def login_provider_def cookie_interaction_def demo_login_world_def)

definition no_upstream :: "login_world upstream_calls" where
  "no_upstream = \<lparr>oc_client = (\<lambda>c w. (Inl (), w)), oc_url = (\<lambda>c f b. []), oc_grant = (\<lambda>c p f w. (Inl (), w)),
     oc_userinfo = (\<lambda>c s w. (Inl (), w)), oc_link = (\<lambda>k a l w. (Inl (), w)), oc_string = (\<lambda>j. [])\<rparr>"

theorem callback_needs_its_state_witness:
  "OidcLogin (login_demo demo) no_upstream demo_oidc ''i1'' [(''code'', JStr ''c''), (''state'', JStr ''s'')] (demo_login_world None)
     = accessDenied (login_demo demo) ''State does not match'' (demo_login_world None)"
proof (rule callback_needs_its_state [OF demo_details])
  show "Option.bind (in_lastSubmission (demo_interaction None)) su_oidc = None" by (simp add: demo_interaction_def)
  show "AList.delete ''upstream'' [(''code'', JStr ''c''), (''state'', JStr ''s'')] \<noteq> []" by code_simp
qed (simp add: demo_interaction_def)


definition demo_approved :: account where
  "demo_approved = (demo_account ''ann'' 1 ''a@x'')\<lparr>groups := [\<lparr>g_prefix = Some ''local'', g_name = ''members''\<rparr>]\<rparr>"

definition waiting_world :: login_world where
  "waiting_world = (demo_login_world None)\<lparr>lw_interactions := [(''i1'', (demo_interaction None)\<lparr>in_prompt := ''approval_required''\<rparr>)]\<rparr>"

definition no_details :: prompt_details where
  "no_details = \<lparr>pd_missingScope = None, pd_missingClaims = None, pd_missingResources = None\<rparr>"

definition no_routes :: "login_world route_calls" where
  "no_routes = \<lparr>rt_client = (\<lambda>i w. (None, w)), rt_grant = (\<lambda>i w. (None, w)), rt_newGrant = (\<lambda>w. ([], w)),
     rt_saveGrant = (\<lambda>g w. ((), w)), rt_siteSession = (\<lambda>a c w. (JNull, w)), rt_impersonation = (\<lambda>w. (None, w)),
     rt_endImpersonation = (\<lambda>w. ((), w)), rt_activate = (\<lambda>j w. (False, w)), rt_incident = (\<lambda>a c w. ((), w)),
     rt_request = (\<lambda>a c g w. ((), w)), rt_receipt = (\<lambda>a w. ((), w)), rt_rememberLogout = (\<lambda>w. ((), w))\<rparr>"

theorem page_enforces_policy_witness:
  "approved_check demo (Some demo_approved)
   \<and> fst (interaction_page (login_demo demo) no_routes no_details (Some demo_approved) waiting_world) = Inr Finished
   \<and> fst (interaction_page (login_demo demo) no_routes no_details None waiting_world) = Inr (Rendered ''approval_required'')"
proof -
  let ?page = "interaction_page (login_demo demo) no_routes no_details (Some demo_approved) waiting_world"
  have d: "pv_details (le_provider (login_demo demo)) waiting_world
      = (Inr ((demo_interaction None)\<lparr>in_prompt := ''approval_required''\<rparr>), waiting_world)"
    by (simp add: login_demo_def login_provider_def cookie_interaction_def waiting_world_def demo_login_world_def)
  have f: "fst ?page = Inr Finished" by code_simp
  then have "?page = (Inr Finished, snd ?page)" by (metis prod.collapse)
  from page_enforces_policy [OF d this] have "approved_check demo (Some demo_approved)" by (simp add: login_demo_def)
  moreover have "fst (interaction_page (login_demo demo) no_routes no_details None waiting_world) = Inr (Rendered ''approval_required'')"
    by code_simp
  ultimately show ?thesis using f by blast
qed

end
