(* ===== verification/ActivityTracker.thy ===== *)
theory ActivityTracker
  imports ForwardAuth Users Clients
begin

text \<open>
  The activity projection (\<^verbatim>\<open>src/services/activity-tracker.js\<close>): every sign-in a pod serves is
  remembered in two maps and, at an interval, written to the status of the OIDCUser (its recent
  applications) and of the client (when it was last used). Times are instants. The API of a
  namespace is a record of calls as in \<^verbatim>\<open>Kubernetes\<close>. The code keeps running while a write is
  awaited: what reaches the tracker in that time is a list of operations per write.
\<close>

subsection \<open>What is remembered\<close>

text \<open>\<open>intEnv\<close>; \<open>parse_int\<close> is \<open>Number.parseInt\<close>, \<open>None\<close> for NaN.\<close>

definition intEnv :: "deployment \<Rightarrow> (string \<Rightarrow> int option) \<Rightarrow> string \<Rightarrow> int \<Rightarrow> int" where
  "intEnv D parse_int name fallback =
     (case parse_int (null_or (penv D name) []) of
        Some v \<Rightarrow> if v > 0 then v else fallback
      | None \<Rightarrow> fallback)"

fun newer :: "instant option \<Rightarrow> instant option \<Rightarrow> instant option" where
  "newer None b = b"
| "newer (Some a) None = Some a"
| "newer (Some a) (Some b) = (if a \<ge> b then Some a else Some b)"

text \<open>Of two activities the one with the newer time, the first where they are equal.\<close>

fun newestActivity :: "application option \<Rightarrow> application \<Rightarrow> application" where
  "newestActivity None b = b"
| "newestActivity (Some a) b =
     (if newer (Some (ap_lastAuthenticatedAt a)) (Some (ap_lastAuthenticatedAt b)) = Some (ap_lastAuthenticatedAt a)
      then a else b)"

text \<open>A client as the tracker knows it: a remembered activity without its time.\<close>

record known_client =
  kc_clientId :: string
  kc_clientNamespace :: string
  kc_clientName :: string
  kc_clientKind :: string

definition client_of :: "application \<Rightarrow> known_client" where
  "client_of a = \<lparr>kc_clientId = ap_clientId a, kc_clientNamespace = ap_clientNamespace a,
     kc_clientName = ap_clientName a, kc_clientKind = ap_clientKind a\<rparr>"

definition at_time :: "known_client \<Rightarrow> instant \<Rightarrow> application" where
  "at_time c t = \<lparr>ap_clientId = kc_clientId c, ap_clientNamespace = kc_clientNamespace c,
     ap_clientName = kc_clientName c, ap_clientKind = kc_clientKind c, ap_lastAuthenticatedAt = t\<rparr>"

text \<open>The gauge \<open>oidcClientLastUsed\<close>: per kind, namespace and client the last use in milliseconds,
  0 for a client never used (the gauge itself shows seconds).\<close>

type_synonym gauge = "((string \<times> string \<times> string) \<times> int) list"

record tracker =
  tr_users :: "(string \<times> (string \<times> application) list) list"
  tr_clients :: "(string \<times> application) list"
  tr_known :: "(string \<times> known_client) list"
  tr_gauge :: gauge
  tr_timer :: bool

text \<open>The argument of \<open>record\<close>; \<open>None\<close> is a property left out or undefined.\<close>

record activity_event =
  ev_accountId :: "string option"
  ev_clientId :: "string option"
  ev_clientNamespace :: "string option"
  ev_clientName :: "string option"
  ev_clientKind :: "string option"
  ev_userAuthenticated :: "bool option"

definition remember :: "known_client \<Rightarrow> instant \<Rightarrow> (string \<times> application) list \<Rightarrow> (string \<times> application) list" where
  "remember c t m = AList.update (kc_clientId c)
     (at_time c (null_or (newer (map_option ap_lastAuthenticatedAt (map_of m (kc_clientId c))) (Some t)) t)) m"

definition record_activity :: "activity_event \<Rightarrow> instant \<Rightarrow> tracker \<Rightarrow> tracker" where
  "record_activity e t T =
     (if \<not> truthy (ev_clientId e) \<or> \<not> truthy (ev_clientNamespace e) \<or> \<not> truthy (ev_clientName e) then T
      else (let c = \<lparr>kc_clientId = tmpl (ev_clientId e), kc_clientNamespace = tmpl (ev_clientNamespace e),
                     kc_clientName = tmpl (ev_clientName e), kc_clientKind = null_or (ev_clientKind e) OIDCClientCrd\<rparr>;
                T1 = T\<lparr>tr_clients := remember c t (tr_clients T)\<rparr> in
        if truthy (ev_accountId e) \<and> null_or (ev_userAuthenticated e) True
        then T1\<lparr>tr_users := AList.update (tmpl (ev_accountId e))
               (remember c t (null_or (map_of (tr_users T) (tmpl (ev_accountId e))) [])) (tr_users T)\<rparr>
        else T1))"

definition tracker_registerClient :: "known_client \<Rightarrow> tracker \<Rightarrow> tracker" where
  "tracker_registerClient c T = T\<lparr>tr_known := AList.update (kc_clientId c) c (tr_known T)\<rparr>"

definition gauge_key :: "known_client \<Rightarrow> string \<times> string \<times> string" where
  "gauge_key c = (kc_clientKind c, kc_clientNamespace c, kc_clientName c)"

definition tracker_unregisterClient :: "string \<Rightarrow> tracker \<Rightarrow> tracker" where
  "tracker_unregisterClient cid T =
     (let T1 = (case map_of (tr_known T) cid of
                  Some c \<Rightarrow> T\<lparr>tr_gauge := AList.delete (gauge_key c) (tr_gauge T)\<rparr>
                | None \<Rightarrow> T) in
      T1\<lparr>tr_known := AList.delete cid (tr_known T1)\<rparr>)"

text \<open>\<open>start\<close> answers the interval in milliseconds it arms, if it does.\<close>

definition tracking_enabled :: "deployment \<Rightarrow> bool" where
  "tracking_enabled D = (\<not> env_is D ''ACTIVITY_TRACKING_ENABLED'' ''false'')"

definition tracker_start :: "deployment \<Rightarrow> (string \<Rightarrow> int option) \<Rightarrow> tracker \<Rightarrow> int option \<times> tracker" where
  "tracker_start D parse_int T =
     (if \<not> tracking_enabled D \<or> tr_timer T then (None, T)
      else (Some (intEnv D parse_int ''ACTIVITY_FLUSH_INTERVAL_SECONDS'' 900 * 1000), T\<lparr>tr_timer := True\<rparr>))"

definition tracker_stop :: "tracker \<Rightarrow> tracker" where
  "tracker_stop T = T\<lparr>tr_timer := False\<rparr>"

subsection \<open>What the requests of the pod do meanwhile\<close>

datatype tracker_op =
    Recorded activity_event instant
  | Registered known_client
  | Unregistered string

fun run_op :: "tracker_op \<Rightarrow> tracker \<Rightarrow> tracker" where
  "run_op (Recorded e t) T = record_activity e t T"
| "run_op (Registered c) T = tracker_registerClient c T"
| "run_op (Unregistered cid) T = tracker_unregisterClient cid T"

definition run_ops :: "tracker_op list \<Rightarrow> tracker \<Rightarrow> tracker" where
  "run_ops ops T = foldl (\<lambda>T p. run_op p T) T ops"

subsection \<open>The flush\<close>

text \<open>\<open>#flushUser\<close>: the account's applications and the pending ones merged by client, the
  newest first, at most as many as configured.\<close>

definition merge_application ::
  "(string \<times> application) list \<Rightarrow> string \<times> application \<Rightarrow> (string \<times> application) list" where
  "merge_application merged ca = (case ca of (cid, app) \<Rightarrow>
     AList.update cid
       (app\<lparr>ap_lastAuthenticatedAt := null_or (newer (map_option ap_lastAuthenticatedAt (map_of merged cid))
          (Some (ap_lastAuthenticatedAt app))) (ap_lastAuthenticatedAt app)\<rparr>) merged)"

definition merged_applications :: "(string \<times> application) list \<Rightarrow> application list \<Rightarrow> (string \<times> application) list" where
  "merged_applications pending stored = foldl merge_application (map_by ap_clientId stored) pending"

definition by_last_use :: "application \<Rightarrow> application \<Rightarrow> int" where
  "by_last_use a b = ap_lastAuthenticatedAt b - ap_lastAuthenticatedAt a"

definition recent_applications :: "nat \<Rightarrow> (string \<times> application) list \<Rightarrow> application list \<Rightarrow> application list" where
  "recent_applications limit pending stored =
     take limit (js_sort by_last_use (map snd (merged_applications pending stored)))"

definition recent_limit :: "deployment \<Rightarrow> (string \<Rightarrow> int option) \<Rightarrow> nat" where
  "recent_limit D parse_int = nat (intEnv D parse_int ''ACTIVITY_RECENT_APPLICATION_LIMIT'' 20)"

text \<open>The projections answer what the mutation does: a resource that is gone is no error.\<close>

definition flushUser ::
  "deployment \<Rightarrow> (string \<Rightarrow> int option) \<Rightarrow> tos_document option \<Rightarrow> 'w user_calls \<Rightarrow> string
     \<Rightarrow> (string \<times> application) list \<Rightarrow> 'w \<Rightarrow> account outcome \<times> 'w" where
  "flushUser D parse_int doc U aid applications w =
     mutateNamespacedCustomObjectStatus (uc_objects U) (fromKubernetes D) r_status
       (\<lambda>a. getIntendedStatus D doc
              (setRecentApplications (recent_applications (recent_limit D parse_int) applications (a_recentApplications a)) a))
       aid w"

definition set_last_used :: "application option \<Rightarrow> activity_state \<Rightarrow> activity_state" where
  "set_last_used activity s = (case activity of
     Some a \<Rightarrow> s\<lparr>ac_lastUsedAt := newer (ac_lastUsedAt s) (Some (ap_lastAuthenticatedAt a))\<rparr>
   | None \<Rightarrow> s)"

text \<open>\<open>#flushClient\<close>. \<open>px_clients\<close> and \<open>px_middleware\<close> are the calls on the clients of a namespace,
  \<open>flush_time\<close> the time of the write as an instant and as text.\<close>

record 'w projection_calls =
  px_clients :: "string \<Rightarrow> (client_resource, client_status, 'w) object_calls"
  px_middleware :: "string \<Rightarrow> (mw_resource, client_status, 'w) object_calls"

record flush_time =
  ft_now :: instant
  ft_stamp :: string
  ft_decimal :: "int \<Rightarrow> string"

definition used_state ::
  "deployment \<Rightarrow> (string \<Rightarrow> int option) \<Rightarrow> flush_time \<Rightarrow> application option \<Rightarrow> activity_state \<Rightarrow> activity_state" where
  "used_state D parse_int k activity s =
     updateActivityCondition (ft_decimal k) (ft_now k) (ft_stamp k)
       (intEnv D parse_int ''CLIENT_INACTIVE_AFTER_DAYS'' 90) (set_last_used activity s)"

definition project_client ::
  "deployment \<Rightarrow> (string \<Rightarrow> int option) \<Rightarrow> flush_time \<Rightarrow> 'w projection_calls \<Rightarrow> known_client \<Rightarrow> application option
     \<Rightarrow> 'w \<Rightarrow> instant option outcome \<times> 'w" where
  "project_client D parse_int k C known activity w =
     (if kc_clientKind known = OIDCMiddlewareClientCrd
      then (let (r, w1) = mutateNamespacedCustomObjectStatus (px_middleware C (kc_clientNamespace known))
                  mw_fromIncomingClient mr_status
                  (\<lambda>c. activity_intended_status (used_state D parse_int k activity (mw_activityState c)))
                  (kc_clientName known) w in
            (map_outcome (\<lambda>c. ac_lastUsedAt (mw_activityState c)) r, w1))
      else (let (r, w1) = mutateNamespacedCustomObjectStatus (px_clients C (kc_clientNamespace known))
                  (fromIncomingClient D) kr_status
                  (\<lambda>c. client_intended_status
                         (c\<lparr>oc_activityState := used_state D parse_int k activity (oc_activityState c)\<rparr>))
                  (kc_clientName known) w in
            (map_outcome (\<lambda>c. ac_lastUsedAt (oc_activityState c)) r, w1)))"

definition gauge_kind :: "known_client \<Rightarrow> string" where
  "gauge_kind c = (if kc_clientKind c = OIDCMiddlewareClientCrd then OIDCMiddlewareClientCrd else OIDCClientCrd)"

definition flushClient ::
  "deployment \<Rightarrow> (string \<Rightarrow> int option) \<Rightarrow> flush_time \<Rightarrow> 'w projection_calls \<Rightarrow> tracker_op list \<Rightarrow> string
     \<Rightarrow> application option \<Rightarrow> tracker \<times> 'w \<Rightarrow> bool \<times> tracker \<times> 'w" where
  "flushClient D parse_int k C ops cid activity Tw = (case Tw of (T, w) \<Rightarrow>
     (case coalesce (map_option client_of activity) (map_of (tr_known T) cid) of
        None \<Rightarrow> (True, run_ops ops T, w)
      | Some known \<Rightarrow>
          (let (r, w1) = project_client D parse_int k C known activity w; T1 = run_ops ops T in
           case r of
             Absent \<Rightarrow> (True, T1, w1)
           | Failed \<Rightarrow> (False, T1, w1)
           | Found lastUsedAt \<Rightarrow>
               (True, T1\<lparr>tr_gauge := AList.update (gauge_kind known, kc_clientNamespace known, kc_clientName known)
                  (null_or lastUsedAt 0) (tr_gauge T1)\<rparr>, w1))))"

text \<open>A projection that failed puts its activity back, behind whatever was recorded since.\<close>

definition requeue_one :: "(string \<times> application) list \<Rightarrow> string \<times> application \<Rightarrow> (string \<times> application) list" where
  "requeue_one pending ca = (case ca of (cid, app) \<Rightarrow> AList.update cid (newestActivity (map_of pending cid) app) pending)"

definition requeue_user :: "string \<Rightarrow> (string \<times> application) list \<Rightarrow> tracker \<Rightarrow> tracker" where
  "requeue_user aid applications T = T\<lparr>tr_users := AList.update aid
     (foldl requeue_one (null_or (map_of (tr_users T) aid) []) applications) (tr_users T)\<rparr>"

definition requeue_client :: "string \<Rightarrow> application option \<Rightarrow> tracker \<Rightarrow> tracker" where
  "requeue_client cid activity T = (case activity of
     Some a \<Rightarrow> T\<lparr>tr_clients := AList.update cid (newestActivity (map_of (tr_clients T) cid) a) (tr_clients T)\<rparr>
   | None \<Rightarrow> T)"

text \<open>The loops carry the number of errors, the tracker and the world. \<open>du\<close> and \<open>dc\<close> are the
  operations that reach the tracker while the projection of a user or client is awaited.\<close>

type_synonym 'w flush_state = "nat \<times> tracker \<times> 'w"

definition flush_user_step ::
  "deployment \<Rightarrow> (string \<Rightarrow> int option) \<Rightarrow> tos_document option \<Rightarrow> 'w user_calls \<Rightarrow> (string \<Rightarrow> tracker_op list)
     \<Rightarrow> 'w flush_state \<Rightarrow> string \<times> (string \<times> application) list \<Rightarrow> 'w flush_state" where
  "flush_user_step D parse_int doc U du S entry = (case (S, entry) of ((n, T, w), (aid, applications)) \<Rightarrow>
     (let (r, w1) = flushUser D parse_int doc U aid applications w; T1 = run_ops (du aid) T in
      if r = Failed then (Suc n, requeue_user aid applications T1, w1) else (n, T1, w1)))"

definition flush_client_step ::
  "deployment \<Rightarrow> (string \<Rightarrow> int option) \<Rightarrow> flush_time \<Rightarrow> 'w projection_calls \<Rightarrow> (string \<Rightarrow> tracker_op list)
     \<Rightarrow> (string \<times> application) list \<Rightarrow> 'w flush_state \<Rightarrow> string \<Rightarrow> 'w flush_state" where
  "flush_client_step D parse_int k C dc clients S cid = (case S of (n, T, w) \<Rightarrow>
     (case flushClient D parse_int k C (dc cid) cid (map_of clients cid) (T, w) of
        (True, T1, w1) \<Rightarrow> (n, T1, w1)
      | (False, T1, w1) \<Rightarrow> (Suc n, requeue_client cid (map_of clients cid) T1, w1)))"

text \<open>\<open>flush\<close> throws when it counts an error; the count is its answer.\<close>

definition flush ::
  "deployment \<Rightarrow> (string \<Rightarrow> int option) \<Rightarrow> tos_document option \<Rightarrow> 'w user_calls \<Rightarrow> flush_time \<Rightarrow> 'w projection_calls
     \<Rightarrow> (string \<Rightarrow> tracker_op list) \<Rightarrow> (string \<Rightarrow> tracker_op list) \<Rightarrow> tracker \<Rightarrow> 'w \<Rightarrow> 'w flush_state" where
  "flush D parse_int doc U k C du dc T w =
     (if \<not> tracking_enabled D then (0, T, w)
      else (let users = tr_users T; clients = tr_clients T;
                S = foldl (flush_user_step D parse_int doc U du) (0, T\<lparr>tr_users := [], tr_clients := []\<rparr>, w) users;
                clientIds = uniq (map fst (tr_known (fst (snd S))) @ map fst clients) in
            foldl (flush_client_step D parse_int k C dc clients) S clientIds))"

subsection \<open>Nothing remembered is forgotten\<close>

definition kept_in :: "instant \<Rightarrow> string \<Rightarrow> (string \<times> application) list \<Rightarrow> bool" where
  "kept_in t cid m = (\<exists>a. map_of m cid = Some a \<and> t \<le> ap_lastAuthenticatedAt a)"

definition kept_user :: "instant \<Rightarrow> string \<Rightarrow> string \<Rightarrow> tracker \<Rightarrow> bool" where
  "kept_user t aid cid T = (\<exists>m. map_of (tr_users T) aid = Some m \<and> kept_in t cid m)"

definition kept_client :: "instant \<Rightarrow> string \<Rightarrow> tracker \<Rightarrow> bool" where
  "kept_client t cid T = kept_in t cid (tr_clients T)"

lemma newer_least: "\<exists>y. newer v (Some t) = Some y \<and> t \<le> y \<and> (\<forall>x. v = Some x \<longrightarrow> x \<le> y)"
  by (cases v) auto

lemma newer_le:
  "t \<le> null_or (newer v (Some t)) d" "v = Some x \<Longrightarrow> x \<le> null_or (newer v (Some t)) d"
  using newer_least [of v t] by (auto simp: null_or_def)

lemma newest_time:
  "ap_lastAuthenticatedAt b \<le> ap_lastAuthenticatedAt (newestActivity v b)"
  "v = Some a \<Longrightarrow> ap_lastAuthenticatedAt a \<le> ap_lastAuthenticatedAt (newestActivity v b)"
  by (cases v; simp split: if_splits)+

lemma last_at_time [simp]: "ap_lastAuthenticatedAt (at_time c t) = t" "ap_clientId (at_time c t) = kc_clientId c"
  by (simp_all add: at_time_def)

lemma kept_update:
  assumes "kept_in t cid m" and "\<And>a. map_of m k = Some a \<Longrightarrow> ap_lastAuthenticatedAt a \<le> ap_lastAuthenticatedAt b"
  shows "kept_in t cid (AList.update k b m)"
proof (cases "cid = k")
  case True
  with assms show ?thesis unfolding kept_in_def by (auto simp: update_conv' intro: order_trans)
next
  case False
  with assms(1) show ?thesis unfolding kept_in_def by (simp add: update_conv')
qed

lemma kept_updated: "t \<le> ap_lastAuthenticatedAt b \<Longrightarrow> kept_in t k (AList.update k b m)"
  by (simp add: kept_in_def update_conv')

lemma kept_remember: "kept_in t cid m \<Longrightarrow> kept_in t cid (remember c t' m)"
  unfolding remember_def by (erule kept_update) (simp add: null_or_def)

lemma kept_record:
  "kept_user t aid cid T \<Longrightarrow> kept_user t aid cid (record_activity e t' T)"
  "kept_client t cid T \<Longrightarrow> kept_client t cid (record_activity e t' T)"
  by (auto simp: kept_user_def kept_client_def record_activity_def Let_def update_conv' null_or_def
      intro: kept_remember)

lemma register_pending [simp]:
  "tr_users (tracker_registerClient c T) = tr_users T" "tr_clients (tracker_registerClient c T) = tr_clients T"
  "tr_users (tracker_unregisterClient i T) = tr_users T" "tr_clients (tracker_unregisterClient i T) = tr_clients T"
  by (simp_all add: tracker_registerClient_def tracker_unregisterClient_def Let_def split: option.split)

lemma kept_op:
  "kept_user t aid cid T \<Longrightarrow> kept_user t aid cid (run_op p T)"
  "kept_client t cid T \<Longrightarrow> kept_client t cid (run_op p T)"
  by (cases p; simp add: kept_record; simp add: kept_user_def kept_client_def)+

lemma kept_ops:
  "kept_user t aid cid T \<Longrightarrow> kept_user t aid cid (run_ops ops T)"
  "kept_client t cid T \<Longrightarrow> kept_client t cid (run_ops ops T)"
  unfolding run_ops_def by (induction ops arbitrary: T) (simp_all add: kept_op)

lemma kept_requeue_one: "kept_in t cid m \<Longrightarrow> kept_in t cid (requeue_one m ca)"
  unfolding requeue_one_def by (cases ca) (auto intro!: kept_update simp: newest_time)

lemma kept_requeue_all: "kept_in t cid m \<Longrightarrow> kept_in t cid (foldl requeue_one m apps)"
  by (induction apps arbitrary: m) (simp_all add: kept_requeue_one)

lemma requeued_all: "(cid, a) \<in> set apps \<Longrightarrow> kept_in (ap_lastAuthenticatedAt a) cid (foldl requeue_one m apps)"
proof (induction apps arbitrary: m)
  case (Cons x apps)
  show ?case
  proof (cases "x = (cid, a)")
    case True
    have "kept_in (ap_lastAuthenticatedAt a) cid (requeue_one m x)"
      unfolding True requeue_one_def by (simp add: kept_updated newest_time)
    then show ?thesis by (simp add: kept_requeue_all)
  next
    case False
    with Cons show ?thesis by simp
  qed
qed simp

lemma kept_requeue_user: "kept_user t aid cid T \<Longrightarrow> kept_user t aid cid (requeue_user aid' apps T)"
  by (auto simp: kept_user_def requeue_user_def update_conv' null_or_def intro: kept_requeue_all)

lemma requeued_user:
  "(cid, a) \<in> set apps \<Longrightarrow> kept_user (ap_lastAuthenticatedAt a) aid cid (requeue_user aid apps T)"
  by (simp add: kept_user_def requeue_user_def update_conv' requeued_all)

lemma kept_requeue_client:
  "kept_user t aid cid T \<Longrightarrow> kept_user t aid cid (requeue_client cid' activity T)"
  "kept_client t cid T \<Longrightarrow> kept_client t cid (requeue_client cid' activity T)"
  by (auto simp: kept_user_def kept_client_def requeue_client_def newest_time intro!: kept_update split: option.split)

lemma requeued_client: "kept_client (ap_lastAuthenticatedAt a) cid (requeue_client cid (Some a) T)"
  by (simp add: kept_client_def requeue_client_def kept_updated newest_time)

lemma kept_gauge:
  "kept_user t aid cid (T\<lparr>tr_gauge := g\<rparr>) = kept_user t aid cid T"
  "kept_client t cid (T\<lparr>tr_gauge := g\<rparr>) = kept_client t cid T"
  by (simp_all add: kept_user_def kept_client_def)

lemma kept_flush_user_step:
  "kept_user t aid cid T \<Longrightarrow> flush_user_step D parse_int doc U du (n, T, w) e = (n', T', w') \<Longrightarrow>
     kept_user t aid cid T' \<and> n \<le> n'"
  by (cases e) (auto simp: flush_user_step_def Let_def kept_ops kept_requeue_user split: prod.splits if_splits)

lemma kept_client_flush_user_step:
  "kept_client t cid T \<Longrightarrow> flush_user_step D parse_int doc U du (n, T, w) e = (n', T', w') \<Longrightarrow>
     kept_client t cid T' \<and> n \<le> n'"
proof -
  have r: "kept_client t cid (requeue_user aid apps T) = kept_client t cid T" for aid apps T
    by (simp add: kept_client_def requeue_user_def)
  show "kept_client t cid T \<Longrightarrow> flush_user_step D parse_int doc U du (n, T, w) e = (n', T', w') \<Longrightarrow>
     kept_client t cid T' \<and> n \<le> n'"
    by (cases e) (auto simp: flush_user_step_def Let_def kept_ops r split: prod.splits if_splits)
qed

lemma flushClient_tracker:
  "flushClient D parse_int k C ops cid activity (T, w) = (ok, T', w') \<Longrightarrow>
     \<exists>g. T' = (run_ops ops T)\<lparr>tr_gauge := g\<rparr>"
proof -
  have same: "\<exists>g. X = X\<lparr>tr_gauge := g\<rparr>" for X :: tracker by (rule exI [of _ "tr_gauge X"]) simp
  show "flushClient D parse_int k C ops cid activity (T, w) = (ok, T', w') \<Longrightarrow>
     \<exists>g. T' = (run_ops ops T)\<lparr>tr_gauge := g\<rparr>"
    by (auto simp: flushClient_def Let_def intro: same split: option.splits prod.splits outcome.splits)
qed

lemma kept_flush_client_step:
  assumes "flush_client_step D parse_int k C dc clients (n, T, w) e = (n', T', w')"
  shows "(kept_user t aid cid T \<longrightarrow> kept_user t aid cid T') \<and> (kept_client t cid T \<longrightarrow> kept_client t cid T') \<and> n \<le> n'"
proof -
  obtain ok T1 w1 where f: "flushClient D parse_int k C (dc e) e (map_of clients e) (T, w) = (ok, T1, w1)"
    by (metis prod_cases3)
  from flushClient_tracker [OF f] obtain g where "T1 = (run_ops (dc e) T)\<lparr>tr_gauge := g\<rparr>" by blast
  then have "(kept_user t aid cid T \<longrightarrow> kept_user t aid cid T1) \<and> (kept_client t cid T \<longrightarrow> kept_client t cid T1)"
    by (simp add: kept_gauge kept_ops)
  with assms f show ?thesis
    by (cases ok) (auto simp: flush_client_step_def kept_requeue_client)
qed

lemma kept_flush_users:
  "foldl (flush_user_step D parse_int doc U du) (n, T, w) es = (n', T', w') \<Longrightarrow>
     (kept_user t aid cid T \<longrightarrow> kept_user t aid cid T') \<and> (kept_client t cid T \<longrightarrow> kept_client t cid T') \<and> n \<le> n'"
proof (induction es arbitrary: n T w)
  case (Cons e es)
  obtain n1 T1 w1 where s: "flush_user_step D parse_int doc U du (n, T, w) e = (n1, T1, w1)" by (metis prod_cases3)
  from s Cons.prems have "foldl (flush_user_step D parse_int doc U du) (n1, T1, w1) es = (n', T', w')" by simp
  note i = Cons.IH [OF this]
  have "n \<le> n1" using s by (cases e) (auto simp: flush_user_step_def Let_def split: prod.splits if_splits)
  with i kept_flush_user_step [OF _ s] kept_client_flush_user_step [OF _ s] show ?case by auto
qed simp

lemma kept_flush_clients:
  "foldl (flush_client_step D parse_int k C dc clients) (n, T, w) es = (n', T', w') \<Longrightarrow>
     (kept_user t aid cid T \<longrightarrow> kept_user t aid cid T') \<and> (kept_client t cid T \<longrightarrow> kept_client t cid T') \<and> n \<le> n'"
proof (induction es arbitrary: n T w)
  case (Cons e es)
  obtain n1 T1 w1 where s: "flush_client_step D parse_int k C dc clients (n, T, w) e = (n1, T1, w1)" by (metis prod_cases3)
  from s Cons.prems have "foldl (flush_client_step D parse_int k C dc clients) (n1, T1, w1) es = (n', T', w')" by simp
  from Cons.IH [OF this] kept_flush_client_step [OF s, of t aid cid] show ?case by auto
qed simp

text \<open>The entry of one user: the projection made for it, and what a failure leaves.\<close>

lemma flush_users_entry:
  assumes "foldl (flush_user_step D parse_int doc U du) (n, T, w) (xs @ (aid, apps) # ys) = (n', T', w')"
    and "(cid, a) \<in> set apps"
  shows "\<exists>n1 T1 w1 r w2. foldl (flush_user_step D parse_int doc U du) (n, T, w) xs = (n1, T1, w1)
    \<and> flushUser D parse_int doc U aid apps w1 = (r, w2)
    \<and> (r = Failed \<longrightarrow> n' > 0 \<and> kept_user (ap_lastAuthenticatedAt a) aid cid T')"
proof -
  obtain n1 T1 w1 where x: "foldl (flush_user_step D parse_int doc U du) (n, T, w) xs = (n1, T1, w1)"
    by (metis prod_cases3)
  obtain r w2 where f: "flushUser D parse_int doc U aid apps w1 = (r, w2)" by force
  have "n' > 0 \<and> kept_user (ap_lastAuthenticatedAt a) aid cid T'" if r: "r = Failed"
  proof -
    let ?T = "requeue_user aid apps (run_ops (du aid) T1)"
    have "flush_user_step D parse_int doc U du (n1, T1, w1) (aid, apps) = (Suc n1, ?T, w2)"
      using f r by (simp add: flush_user_step_def Let_def)
    with assms(1) x have "foldl (flush_user_step D parse_int doc U du) (Suc n1, ?T, w2) ys = (n', T', w')" by simp
    from kept_flush_users [OF this] requeued_user [OF assms(2)] show ?thesis by (metis Suc_le_eq bot_nat_0.not_eq_extremum not_less0)
  qed
  with x f show ?thesis by blast
qed

lemma flush_clients_entry:
  assumes "foldl (flush_client_step D parse_int k C dc clients) (n, T, w) (xs @ cid # ys) = (n', T', w')"
    and "map_of clients cid = Some a"
  shows "\<exists>T1 w1 r w2. project_client D parse_int k C (client_of a) (Some a) w1 = (r, w2)
    \<and> (r = Failed \<longrightarrow> n' > 0 \<and> kept_client (ap_lastAuthenticatedAt a) cid T')"
proof -
  obtain n1 T1 w1 where x: "foldl (flush_client_step D parse_int k C dc clients) (n, T, w) xs = (n1, T1, w1)"
    by (metis prod_cases3)
  obtain r w2 where f: "project_client D parse_int k C (client_of a) (Some a) w1 = (r, w2)" by force
  have "n' > 0 \<and> kept_client (ap_lastAuthenticatedAt a) cid T'" if r: "r = Failed"
  proof -
    let ?T = "requeue_client cid (Some a) (run_ops (dc cid) T1)"
    have "flush_client_step D parse_int k C dc clients (n1, T1, w1) cid = (Suc n1, ?T, w2)"
      using f r assms(2) by (simp add: flush_client_step_def flushClient_def Let_def)
    with assms(1) x have "foldl (flush_client_step D parse_int k C dc clients) (Suc n1, ?T, w2) ys = (n', T', w')" by simp
    from kept_flush_clients [OF this] requeued_client [of a cid] show ?thesis
      by (metis Suc_le_eq bot_nat_0.not_eq_extremum not_less0)
  qed
  with f show ?thesis by blast
qed

subsection \<open>The recent applications of an account\<close>

text \<open>Every entry of the two maps is stored under the client it is of.\<close>

definition tracker_wf :: "tracker \<Rightarrow> bool" where
  "tracker_wf T = (keyed ap_clientId (tr_clients T) \<and> (\<forall>e \<in> set (tr_users T). keyed ap_clientId (snd e)))"

lemma keyed_put: "keyed key m \<Longrightarrow> key x = i \<Longrightarrow> keyed key (AList.update i x m)"
  using keyed_update [of key m x] by simp

lemma keyed_lookup: "keyed key m \<Longrightarrow> map_of m i = Some x \<Longrightarrow> key x = i"
  by (auto simp: keyed_def dest!: map_of_SomeD)

lemma keyed_remember: "keyed ap_clientId m \<Longrightarrow> keyed ap_clientId (remember c t m)"
  unfolding remember_def by (rule keyed_put) simp_all

lemma users_update:
  "\<forall>e \<in> set us. keyed key (snd e) \<Longrightarrow> keyed key x \<Longrightarrow> \<forall>e \<in> set (AList.update i x us). keyed key (snd e)"
  using set_update_subset [of i x us] by auto

lemma wf_lookup: "\<forall>e \<in> set us. keyed key (snd e) \<Longrightarrow> keyed key (null_or (map_of us i) [])"
  by (cases "map_of us i") (force simp: null_or_def dest: map_of_SomeD)+

lemma wf_put_user:
  "tracker_wf T \<Longrightarrow> keyed ap_clientId m \<Longrightarrow> tracker_wf (T\<lparr>tr_users := AList.update i m (tr_users T)\<rparr>)"
  using users_update [of "tr_users T" ap_clientId m i] by (simp add: tracker_wf_def)

lemma wf_record: "tracker_wf T \<Longrightarrow> tracker_wf (record_activity e t T)"
proof -
  assume T: "tracker_wf T"
  let ?p = "\<lambda>c. T\<lparr>tr_clients := remember c t (tr_clients T)\<rparr>"
  have p: "tracker_wf (?p c)" for c using T by (simp add: tracker_wf_def keyed_remember)
  from p wf_put_user [OF p] T show ?thesis
    by (simp add: record_activity_def Let_def wf_lookup keyed_remember tracker_wf_def [of T])
qed

lemma wf_ops: "tracker_wf T \<Longrightarrow> tracker_wf (run_ops ops T)"
proof (induction ops arbitrary: T)
  case (Cons p ops)
  have "tracker_wf (run_op p T)"
    by (cases p) (use Cons.prems in \<open>simp_all add: wf_record, simp_all add: tracker_wf_def\<close>)
  with Cons show ?case by (simp add: run_ops_def)
qed (simp add: run_ops_def)

lemma kept_merge: "kept_in t cid m \<Longrightarrow> kept_in t cid (merge_application m ca)"
  unfolding merge_application_def by (cases ca) (auto intro!: kept_update simp: null_or_def)

lemma kept_merge_all: "kept_in t cid m \<Longrightarrow> kept_in t cid (foldl merge_application m apps)"
  by (induction apps arbitrary: m) (simp_all add: kept_merge)

lemma merged_kept: "(cid, a) \<in> set apps \<Longrightarrow> kept_in (ap_lastAuthenticatedAt a) cid (foldl merge_application m apps)"
proof (induction apps arbitrary: m)
  case (Cons x apps)
  show ?case
  proof (cases "x = (cid, a)")
    case True
    have "kept_in (ap_lastAuthenticatedAt a) cid (merge_application m x)"
      unfolding True merge_application_def by (simp add: kept_updated newer_le)
    then show ?thesis by (simp add: kept_merge_all)
  next
    case False
    with Cons show ?thesis by simp
  qed
qed simp

lemma keyed_merge_all:
  "keyed ap_clientId m \<Longrightarrow> \<forall>(k, x) \<in> set apps. ap_clientId x = k \<Longrightarrow> keyed ap_clientId (foldl merge_application m apps)"
proof (induction apps arbitrary: m)
  case (Cons ca apps)
  have "keyed ap_clientId (merge_application m ca)"
    using Cons.prems unfolding merge_application_def by (cases ca) (auto intro!: keyed_put)
  with Cons show ?case by simp
qed simp

lemma keyed_merged: "keyed ap_clientId pending \<Longrightarrow> keyed ap_clientId (merged_applications pending stored)"
  unfolding merged_applications_def by (rule keyed_merge_all) (simp, auto simp: keyed_def)

lemma by_last_use_total: "total_comparator by_last_use"
  by (auto simp: total_comparator_def by_last_use_def)

definition newest_first :: "application list \<Rightarrow> bool" where
  "newest_first apps = sorted_wrt (\<lambda>a b. ap_lastAuthenticatedAt b \<le> ap_lastAuthenticatedAt a) apps"

lemma sorted_applications: "newest_first (js_sort by_last_use apps)"
  using sorted_js_sort [OF by_last_use_total, of apps] by (simp add: newest_first_def by_last_use_def)

text \<open>What the list shows of a use: the client with that or a later time, or else nothing but
  uses at least as recent, as many as are kept.\<close>

definition shows_use :: "nat \<Rightarrow> string \<Rightarrow> instant \<Rightarrow> application list \<Rightarrow> bool" where
  "shows_use limit cid t apps = (length apps \<le> limit \<and> newest_first apps \<and> distinct (map ap_clientId apps)
     \<and> ((\<exists>b \<in> set apps. ap_clientId b = cid \<and> t \<le> ap_lastAuthenticatedAt b)
        \<or> (length apps = limit \<and> (\<forall>b \<in> set apps. t \<le> ap_lastAuthenticatedAt b))))"

lemma taken_or_older:
  assumes "newest_first xs" "b \<in> set xs" "b \<notin> set (take n xs)"
  shows "length (take n xs) = n \<and> (\<forall>c \<in> set (take n xs). ap_lastAuthenticatedAt b \<le> ap_lastAuthenticatedAt c)"
proof -
  have d: "b \<in> set (drop n xs)" using assms(2,3) by (metis Un_iff append_take_drop_id set_append)
  then have "n \<le> length xs" by (cases "n \<le> length xs") auto
  moreover have "newest_first (take n xs @ drop n xs)" using assms(1) by simp
  then have "\<forall>c \<in> set (take n xs). \<forall>b \<in> set (drop n xs). ap_lastAuthenticatedAt b \<le> ap_lastAuthenticatedAt c"
    unfolding newest_first_def sorted_wrt_append by blast
  ultimately show ?thesis using d by simp
qed

lemma recent_shows_use:
  assumes "keyed ap_clientId pending" "map_of pending cid = Some a"
  shows "shows_use limit cid (ap_lastAuthenticatedAt a) (recent_applications limit pending stored)"
proof -
  define M where "M = merged_applications pending stored"
  define S where "S = js_sort by_last_use (map snd M)"
  have k: "keyed ap_clientId M" unfolding M_def by (rule keyed_merged [OF assms(1)])
  have "kept_in (ap_lastAuthenticatedAt a) cid M"
    unfolding M_def merged_applications_def by (rule merged_kept) (rule map_of_SomeD [OF assms(2)])
  then obtain b where b: "map_of M cid = Some b" "ap_lastAuthenticatedAt a \<le> ap_lastAuthenticatedAt b"
    by (auto simp: kept_in_def)
  have m: "b \<in> set S" using map_of_SomeD [OF b(1)] by (force simp: S_def)
  have id: "ap_clientId b = cid" by (rule keyed_lookup [OF k b(1)])
  have s: "newest_first S" unfolding S_def by (rule sorted_applications)
  have "map ap_clientId (map snd M) = map fst M" using k by (auto simp: keyed_def)
  moreover have "distinct (map fst M)" using k by (simp add: keyed_def)
  ultimately have "distinct (map ap_clientId (map snd M))" by (simp only:)
  moreover have "mset (map ap_clientId S) = mset (map ap_clientId (map snd M))" by (simp add: S_def multiset.map_comp)
  ultimately have "distinct (map ap_clientId S)" using mset_eq_imp_distinct_iff by blast
  then have d: "distinct (map ap_clientId (take limit S))" by (simp add: take_map [symmetric])
  have t: "newest_first (take limit S)" using s unfolding newest_first_def by (rule sorted_wrt_take)
  have "(\<exists>c \<in> set (take limit S). ap_clientId c = cid \<and> ap_lastAuthenticatedAt a \<le> ap_lastAuthenticatedAt c)
      \<or> (length (take limit S) = limit \<and> (\<forall>c \<in> set (take limit S). ap_lastAuthenticatedAt a \<le> ap_lastAuthenticatedAt c))"
    using taken_or_older [OF s m, of limit] id b(2) order_trans [OF b(2)] by blast
  with d t show ?thesis by (simp add: shows_use_def recent_applications_def S_def M_def)
qed

subsection \<open>What the server then shows\<close>

text \<open>A server on which a written object carries the status written: the mutation that reports
  success leaves the intended status of some state of the object visible.\<close>

locale object_status = object_api K for K :: "('o, 'st, 'w) object_calls" +
  fixes status_of :: "'o \<Rightarrow> 'st option"
  assumes status_written: "status_of (ka_with_status K a st v) = Some st"
begin

lemma mutation_shown:
  assumes "mutateNamespacedCustomObjectStatus K mapper status_of f n w = (r, w')"
  shows "ka_later K w w' \<and> (\<forall>x. r = Found x \<longrightarrow>
    (\<exists>v a b. ka_later K w v \<and> ka_view K v n = Some b \<and> status_of b = Some (f (mapper a))))"
proof -
  from attempts_current [of 2 mapper status_of f n w r w'] assms
  have a: "ka_later K w w'" "\<forall>x. r = Found x \<longrightarrow> current_based mapper status_of f n w x w'"
    by (simp_all add: mutateNamespacedCustomObjectStatus_def)
  from a(2) have "\<exists>v a b. ka_later K w v \<and> ka_view K v n = Some b \<and> status_of b = Some (f (mapper a))"
    if "r = Found x" for x
    using that a(1) status_written unfolding current_based_def by metis
  with a(1) show ?thesis by blast
qed

end

interpretation user_status: object_status mem_user_objects r_status
  by unfold_locales (simp add: mem_user_objects_def mu_with_status_def mu_with_version_def)

lemma flushUser_shown:
  assumes "object_status (uc_objects U) r_status" "flushUser D parse_int doc U aid apps w = (r, w')"
  shows "ka_later (uc_objects U) w w' \<and> (\<forall>x. r = Found x \<longrightarrow>
    (\<exists>v stored b st. ka_later (uc_objects U) w v \<and> ka_view (uc_objects U) v aid = Some b \<and> r_status b = Some st
       \<and> st_recentApplications st = recent_applications (recent_limit D parse_int) apps stored))"
proof -
  have g: "st_recentApplications (getIntendedStatus D doc (setRecentApplications xs a)) = xs" for xs a
    by (simp add: getIntendedStatus_def setRecentApplications_def Let_def)
  from object_status.mutation_shown [OF assms(1)] assms(2) g show ?thesis
    unfolding flushUser_def by blast
qed

lemma flush_users_later:
  assumes "object_status (uc_objects U) r_status"
  shows "foldl (flush_user_step D parse_int doc U du) (n, T, w) es = (n', T', w') \<Longrightarrow> ka_later (uc_objects U) w w'"
proof (induction es arbitrary: n T w)
  case Nil
  then show ?case using object_api.later_refl [OF object_status.axioms(1) [OF assms]] by simp
next
  case (Cons e es)
  obtain n1 T1 w1 where s: "flush_user_step D parse_int doc U du (n, T, w) e = (n1, T1, w1)" by (metis prod_cases3)
  from s have "ka_later (uc_objects U) w w1"
    by (cases e) (auto simp: flush_user_step_def Let_def split: prod.splits if_splits dest!: flushUser_shown [OF assms])
  moreover from s Cons have "ka_later (uc_objects U) w1 w'" by simp
  ultimately show ?case using object_api.later_trans [OF object_status.axioms(1) [OF assms]] by blast
qed

subsection \<open>Properties\<close>

text \<open>
  C13: No sign-in a pod served is lost to a flush. Whatever is recorded while the writes are
  awaited and whichever of them fail, a flush of a user's pending application leaves it in one of
  three states: the write failed, and the application is still pending at a time at least as
  late; the user is gone; or a later state of the cluster shows the use in the user's recent
  applications, which are at most as many as configured, the newest first and one per client:
  either that client with that or a later time, or nothing older.
\<close>

theorem flush_loses_no_sign_in:
  assumes api: "object_status (uc_objects U) r_status" and on: "tracking_enabled D" and wf: "tracker_wf T"
    and user: "map_of (tr_users T) aid = Some apps" and app: "map_of apps cid = Some a"
    and run: "flush D parse_int doc U k C du dc T w = (n, T', w')"
  shows "(n > 0 \<and> (\<exists>m b. map_of (tr_users T') aid = Some m \<and> map_of m cid = Some b
             \<and> ap_lastAuthenticatedAt a \<le> ap_lastAuthenticatedAt b))
    \<or> (\<exists>w1 w2. ka_later (uc_objects U) w w1 \<and> flushUser D parse_int doc U aid apps w1 = (Absent, w2))
    \<or> (\<exists>v b st. ka_later (uc_objects U) w v \<and> ka_view (uc_objects U) v aid = Some b \<and> r_status b = Some st
         \<and> shows_use (recent_limit D parse_int) cid (ap_lastAuthenticatedAt a) (st_recentApplications st))"
proof -
  let ?T = "T\<lparr>tr_users := [], tr_clients := []\<rparr>"
  obtain n1 T1 w1 where u: "foldl (flush_user_step D parse_int doc U du) (0, ?T, w) (tr_users T) = (n1, T1, w1)"
    by (metis prod_cases3)
  from run on u have c: "foldl (flush_client_step D parse_int k C dc (tr_clients T)) (n1, T1, w1)
      (uniq (map fst (tr_known T1) @ map fst (tr_clients T))) = (n, T', w')"
    by (simp add: flush_def Let_def)
  from split_list [OF map_of_SomeD [OF user]] obtain xs ys where s: "tr_users T = xs @ (aid, apps) # ys" by blast
  from flush_users_entry [OF u [unfolded s] map_of_SomeD [OF app]] obtain n2 T2 w2 r w3 where
    x: "foldl (flush_user_step D parse_int doc U du) (0, ?T, w) xs = (n2, T2, w2)"
    and f: "flushUser D parse_int doc U aid apps w2 = (r, w3)"
    and k: "r = Failed \<Longrightarrow> n1 > 0 \<and> kept_user (ap_lastAuthenticatedAt a) aid cid T1" by blast
  have l: "ka_later (uc_objects U) w w2" by (rule flush_users_later [OF api x])
  have key: "keyed ap_clientId apps" using wf map_of_SomeD [OF user] by (force simp: tracker_wf_def)
  show ?thesis
  proof (cases r)
    case Failed
    with k kept_flush_clients [OF c, of "ap_lastAuthenticatedAt a" aid cid] show ?thesis
      by (auto simp: kept_user_def kept_in_def)
  next
    case Absent
    with f l show ?thesis by blast
  next
    case (Found acc)
    with flushUser_shown [OF api f] obtain v stored b st where
      v: "ka_later (uc_objects U) w2 v" "ka_view (uc_objects U) v aid = Some b" "r_status b = Some st"
         "st_recentApplications st = recent_applications (recent_limit D parse_int) apps stored" by blast
    have "ka_later (uc_objects U) w v"
      by (rule object_api.later_trans [OF object_status.axioms(1) [OF api] l v(1)])
    with v recent_shows_use [OF key app] show ?thesis by metis
  qed
qed

definition demo_tracker :: tracker where
  "demo_tracker = record_activity
     \<lparr>ev_accountId = Some ''ann'', ev_clientId = Some ''apps.wiki'', ev_clientNamespace = Some ''apps'',
      ev_clientName = Some ''wiki'', ev_clientKind = None, ev_userAuthenticated = None\<rparr> 1000
     \<lparr>tr_users = [], tr_clients = [], tr_known = [], tr_gauge = [], tr_timer = False\<rparr>"

text \<open>A cluster without clients, and users that cannot be patched: neither is used here.\<close>

definition no_objects :: "('o, 'st, 'w) object_calls" where
  "no_objects = \<lparr>ka_view = (\<lambda>_ _. None), ka_later = (\<lambda>_ _. True), ka_version = (\<lambda>_. 0),
     ka_with_status = (\<lambda>x _ _. x), ka_list = (\<lambda>w. (Inr [], w)), ka_get = (\<lambda>_ w. (Inl 404, w)),
     ka_create = (\<lambda>_ w. (Inl 403, w)), ka_delete = (\<lambda>_ w. (Inl 404, w)),
     ka_replace_status = (\<lambda>_ _ _ w. (Inl 404, w))\<rparr>"

definition demo_flush :: "user_world flush_state" where
  "demo_flush = flush demo (\<lambda>_. None) None
     \<lparr>uc_objects = mem_user_objects, uc_patch = (\<lambda>_ _ _ w. (Inl 403, w))\<rparr>
     \<lparr>ft_now = 2000, ft_stamp = ''now'', ft_decimal = (\<lambda>_. ''90'')\<rparr>
     \<lparr>px_clients = (\<lambda>_. no_objects), px_middleware = (\<lambda>_. no_objects)\<rparr> (\<lambda>_. []) (\<lambda>_. []) demo_tracker demo_user_world"

theorem flush_loses_no_sign_in_witness:
  "(fst demo_flush > 0 \<and> (\<exists>m b. map_of (tr_users (fst (snd demo_flush))) ''ann'' = Some m
        \<and> map_of m ''apps.wiki'' = Some b \<and> 1000 \<le> ap_lastAuthenticatedAt b))
   \<or> (\<exists>w1 w2. mu_later demo_user_world w1 \<and> flushUser demo (\<lambda>_. None) None
          \<lparr>uc_objects = mem_user_objects, uc_patch = (\<lambda>_ _ _ w. (Inl 403, w))\<rparr> ''ann''
          (the (map_of (tr_users demo_tracker) ''ann'')) w1 = (Absent, w2))
   \<or> (\<exists>v b st. mu_later demo_user_world v \<and> mu_view v ''ann'' = Some b \<and> r_status b = Some st
        \<and> shows_use 20 ''apps.wiki'' 1000 (st_recentApplications st))"
proof -
  let ?c = "\<lparr>kc_clientId = ''apps.wiki'', kc_clientNamespace = ''apps'', kc_clientName = ''wiki'',
              kc_clientKind = OIDCClientCrd\<rparr>"
  have T: "tr_users demo_tracker = [(''ann'', [(''apps.wiki'', at_time ?c 1000)])]"
    by (simp add: demo_tracker_def record_activity_def Let_def truthy_def tmpl_def null_or_def remember_def)
  have wf: "tracker_wf demo_tracker"
    unfolding demo_tracker_def by (rule wf_record) (simp add: tracker_wf_def)
  have e: "tracking_enabled demo" "recent_limit demo (\<lambda>_. None) = 20"
    by (simp_all add: tracking_enabled_def env_is_def demo_def demo_env_def recent_limit_def intEnv_def)
  obtain n T' w' where r: "demo_flush = (n, T', w')" by (metis prod_cases3)
  have m: "map_of (tr_users demo_tracker) ''ann'' = Some [(''apps.wiki'', at_time ?c 1000)]" by (simp add: T)
  note p = flush_loses_no_sign_in [where cid = "''apps.wiki''" and a = "at_time ?c 1000", OF _ e(1) wf m _ r [unfolded demo_flush_def]]
  show ?thesis unfolding r using p user_status.object_status_axioms e(2) by (simp add: mem_user_objects_def m)
qed

end
