(* ===== verification/AdminRoutes.thy ===== *)
theory AdminRoutes
  imports LoginProperties Clients
begin

text \<open>
  The admin routes (\<^verbatim>\<open>src/routes/adminRoutes.js\<close>): the gate every one of them stands behind, and one
  function per route. A request runs over the session store and the cluster, the two halves of its
  world; the admin session is a record of the store, the accounts are objects of the cluster.
\<close>

subsection \<open>The two halves of the world\<close>

type_synonym ('s, 'w, 'a) admin = "('s \<times> 'w, http_failure, 'a) effect"

definition in_cluster :: "('w, http_failure, 'a) effect \<Rightarrow> ('s, 'w, 'a) admin" where
  "in_cluster m = (\<lambda>(s, w). case m w of (r, w') \<Rightarrow> (r, (s, w')))"

definition in_store :: "('s \<Rightarrow> 'a \<times> 's) \<Rightarrow> ('s, 'w, 'a) admin" where
  "in_store k = (\<lambda>(s, w). case k s of (x, s') \<Rightarrow> (Inr x, (s', w)))"

text \<open>\<open>am_now\<close> is the time in milliseconds and \<open>am_iso\<close> the same as text; \<open>am_nanoid\<close> a fresh
  identifier; \<open>am_text\<close> the configured notice that editing is switched off.\<close>

record ('s, 'w) admin_env =
  am_login :: "'w login_env"
  am_redis :: "'s redis"
  am_now :: int
  am_iso :: string
  am_nanoid :: string
  am_text :: string

abbreviation am_deployment :: "('s, 'w) admin_env \<Rightarrow> deployment" where
  "am_deployment E \<equiv> le_deployment (am_login E)"

abbreviation am_users :: "('s, 'w) admin_env \<Rightarrow> 'w user_calls" where
  "am_users E \<equiv> le_users (am_login E)"

definition find_account :: "('s, 'w) admin_env \<Rightarrow> string \<Rightarrow> ('s, 'w, account option) admin" where
  "find_account E i = in_cluster (e_then (e_call (findUser (am_deployment E) (am_users E) i)) (\<lambda>r. e_return (found r)))"

definition update_account :: "('s, 'w) admin_env \<Rightarrow> string \<Rightarrow> (user_specs \<Rightarrow> user_specs) \<Rightarrow> ('s, 'w, unit) admin" where
  "update_account E i f = in_cluster (update_specs (am_login E) i f)"

subsection \<open>The gate\<close>

text \<open>An admin session found under the cookie is checked for the type of its account; without one,
  \<open>self\<close>, the session \<open>signedInToSelf\<close> answers, opens one for an administrator. \<open>cur\<close> is the
  current account of the request.\<close>

definition admin_gate ::
  "('s, 'w) admin_env \<Rightarrow> string option \<Rightarrow> json option \<Rightarrow> account option \<Rightarrow> ('s, 'w, json option \<times> cookie_set list) admin" where
  "admin_gate E cookie self cur =
     e_then (in_store (\<lambda>s. (getAdminSession (am_redis E) cookie s, s))) (\<lambda>adm. case adm of
       Some session \<Rightarrow>
         e_then (find_account E (tmpl (str_field ''accountId'' session))) (\<lambda>a.
         case getAccountTypeAccessFailure False a of
           Some _ \<Rightarrow> e_then (in_store (endAdminSession (am_redis E) (Some session))) (\<lambda>ck. e_return (None, [ck]))
         | None \<Rightarrow> e_return (Some session, []))
     | None \<Rightarrow> (case self of
           None \<Rightarrow> e_return (None, [])
         | Some session \<Rightarrow> e_then (e_get Thrown cur) (\<lambda>a.
             if isAdmin a
             then e_then (in_store (setAdminSession (am_redis E) (am_now E) session)) (\<lambda>ck. e_return (Some session, [ck]))
             else e_return (None, []))))"

subsection \<open>Answers and validation\<close>

record admin_metadata =
  md_groupPrefix :: "string option"
  md_requireUsername :: bool
  md_emailEnabled :: bool
  md_disableEditing :: bool
  md_disableEditingText :: string

datatype admin_answer =
    FrontendPage
  | MetadataBody admin_metadata
  | AccountsBody "profile_response list"
  | IncidentsBody "json list"
  | RequestsBody "json list"
  | ImpersonationBody "json option"
  | ImpersonationLink string
  | ImpersonationRefused nat
  | EmptyBody
  | StatusBody nat
  | Invalid "validation_error list"

text \<open>The accounts as the checks of a form look them up.\<close>

definition form_at :: "('s, 'w) admin_env \<Rightarrow> 'w \<Rightarrow> form_env" where
  "form_at E w = \<lparr>fe_deployment = am_deployment E, fe_checks = le_checks (am_login E),
     fe_findAccount = (\<lambda>n. found (fst (findUser (am_deployment E) (am_users E) n w))),
     fe_findByEmail = (\<lambda>e. case findUserByEmails (am_deployment E) [canonicalizeEmail (am_deployment E) (Some e)]
          (list_or_empty (found (fst (listUsers (am_deployment E) (am_users E) w)))) of
        Inl _ \<Rightarrow> Inl () | Inr a \<Rightarrow> Inr a)\<rparr>"

text \<open>\<open>restValidationErrors\<close>: a handler goes on only where no check failed. The mutating handlers
  answer with the accounts as they are afterwards.\<close>

definition validated ::
  "('s, 'w) admin_env \<Rightarrow> validation_chain list \<Rightarrow> ('s, 'w, admin_answer) admin \<Rightarrow> ('s, 'w, admin_answer) admin" where
  "validated E chain_list m = (\<lambda>(s, w). case validationErrors (form_at E w) chain_list of
     Some errors \<Rightarrow> (Inr (Invalid errors), (s, w))
   | None \<Rightarrow> m (s, w))"

definition list_accounts :: "('s, 'w) admin_env \<Rightarrow> string option \<Rightarrow> ('s, 'w, admin_answer) admin" where
  "list_accounts E requester =
     e_then (in_cluster (e_call (listUsers (am_deployment E) (am_users E)))) (\<lambda>r.
     e_then (e_get Thrown (found r)) (\<lambda>accounts.
     e_return (AccountsBody (map (getProfileResponse (am_deployment E) True requester (le_document (am_login E))) accounts))))"

subsection \<open>Reading\<close>

definition admin_metadata_route :: "('s, 'w) admin_env \<Rightarrow> ('s, 'w, admin_answer) admin" where
  "admin_metadata_route E = (let D = am_deployment E in
     case fst (getUsernameSource D (le_memo (am_login E))) of
       Inl _ \<Rightarrow> e_throw Thrown
     | Inr source \<Rightarrow> e_return (MetadataBody \<lparr>md_groupPrefix = penv D ''GROUP_PREFIX'',
         md_requireUsername = (source \<noteq> Generated), md_emailEnabled = isOutboundEmailEnabled D,
         md_disableEditing = env_is D ''DISABLE_FRONTEND_EDIT'' ''true'', md_disableEditingText = am_text E\<rparr>))"

definition admin_incidents :: "('s, 'w) admin_env \<Rightarrow> ('s, 'w, admin_answer) admin" where
  "admin_incidents E = e_then (in_store (listIncidents (am_redis E))) (\<lambda>xs. e_return (IncidentsBody xs))"

definition admin_requests :: "('s, 'w) admin_env \<Rightarrow> ('s, 'w, admin_answer) admin" where
  "admin_requests E = e_then (in_store (listAccessRequests (am_redis E))) (\<lambda>xs. e_return (RequestsBody xs))"

definition admin_dismiss :: "('s, 'w) admin_env \<Rightarrow> json option \<Rightarrow> ('s, 'w, admin_answer) admin" where
  "admin_dismiss E i = (case i of
     Some (JStr x) \<Rightarrow>
       if x = [] then e_return (StatusBody 400)
       else e_then (in_store (\<lambda>s. ((), dismissAccessRequest (am_redis E) x s))) (\<lambda>_. e_return EmptyBody)
   | _ \<Rightarrow> e_return (StatusBody 400))"

subsection \<open>Editing an account\<close>

text \<open>The posted profile. A company left out is \<open>None\<close>, a null one \<open>Some None\<close>; of a posted group
  the name, empty where it has none, and the prefix are read.\<close>

record account_form =
  af_accountId :: "string option"
  af_name :: "string option"
  af_company :: "string option option"
  af_groups :: "group list option"

definition form_field :: "account_form \<Rightarrow> form_body" where
  "form_field f k = (if k = ''accountId'' then af_accountId f else if k = ''name'' then af_name f
     else if k = ''company'' then Option.bind (af_company f) (\<lambda>c. c) else None)"

definition GitHubGroupPrefix :: string where
  "GitHubGroupPrefix = ''github.com''"

text \<open>The groups that are stored: the first of each name and prefix, none of GitHub's.\<close>

definition posted_groups :: "group list \<Rightarrow> group list" where
  "posted_groups gs = uniq (filter (\<lambda>g. g_prefix g \<noteq> Some GitHubGroupPrefix) (filter (\<lambda>g. g_name g \<noteq> []) gs))"

definition set_profile :: "string option \<Rightarrow> string option option \<Rightarrow> group list \<Rightarrow> user_specs \<Rightarrow> user_specs" where
  "set_profile name company gs sp =
     (let p = null_or (sp_passmower sp) empty_passmower in
      sp\<lparr>sp_passmower := Some (p\<lparr>pm_name := over (pm_name p) name, pm_company := null_or company (pm_company p),
           pm_groups := gs\<rparr>)\<rparr>)"

definition admin_update :: "('s, 'w) admin_env \<Rightarrow> account_form \<Rightarrow> ('s, 'w, admin_answer) admin" where
  "admin_update E f = (let b = form_field f in
     validated E (checkAccountId b @ checkRealName b @ checkCompanyName b @ checkDisableFrontendEdit (am_text E))
       (e_then (e_get Thrown (af_groups f)) (\<lambda>gs.
        e_then (update_account E (tmpl (af_accountId f)) (set_profile (af_name f) (af_company f) (posted_groups gs))) (\<lambda>_.
        list_accounts E None))))"

subsection \<open>Approval\<close>

text \<open>The deep merge of a whole account's specs into the stored ones, in which a value left out, or
  an empty list, leaves what is there.\<close>

definition over_list :: "'a list \<Rightarrow> 'a list \<Rightarrow> 'a list" where
  "over_list xs ys = (if ys = [] then xs else ys)"

definition merge_passmower :: "passmower_section \<Rightarrow> passmower_section \<Rightarrow> passmower_section" where
  "merge_passmower p q = \<lparr>pm_email = over (pm_email p) (pm_email q), pm_name = over (pm_name p) (pm_name q),
     pm_company = over (pm_company p) (pm_company q), pm_groups = over_list (pm_groups p) (pm_groups q),
     pm_approved = over (pm_approved p) (pm_approved q), pm_onboardedBy = over (pm_onboardedBy p) (pm_onboardedBy q)\<rparr>"

definition merge_github :: "github_section \<Rightarrow> github_section \<Rightarrow> github_section" where
  "merge_github p q = \<lparr>gh_id = over (gh_id p) (gh_id q), gh_login = over (gh_login p) (gh_login q),
     gh_name = over (gh_name p) (gh_name q), gh_company = over (gh_company p) (gh_company q),
     gh_emails = over_list (gh_emails p) (gh_emails q), gh_groups = over_list (gh_groups p) (gh_groups q)\<rparr>"

definition merge_identity :: "identity \<Rightarrow> identity \<Rightarrow> identity" where
  "merge_identity p q = \<lparr>id_sub = over (id_sub p) (id_sub q), id_active = over (id_active p) (id_active q),
     id_name = over (id_name p) (id_name q), id_company = over (id_company p) (id_company q),
     id_emails = over_list (id_emails p) (id_emails q), id_groups = over_list (id_groups p) (id_groups q),
     id_linkClaims = js_assign (id_linkClaims p) (id_linkClaims q)\<rparr>"

definition merge_identities :: "(string \<times> identity) list \<Rightarrow> (string \<times> identity) list \<Rightarrow> (string \<times> identity) list" where
  "merge_identities ps qs = foldl (\<lambda>m (k, q). AList.update k
     (case map_of m k of Some p \<Rightarrow> merge_identity p q | None \<Rightarrow> q) m) ps qs"

definition merge_with :: "('a \<Rightarrow> 'a \<Rightarrow> 'a) \<Rightarrow> 'a option \<Rightarrow> 'a option \<Rightarrow> 'a option" where
  "merge_with f p q = (case q of None \<Rightarrow> p | Some y \<Rightarrow> (case p of None \<Rightarrow> Some y | Some x \<Rightarrow> Some (f x y)))"

definition merge_specs :: "user_specs \<Rightarrow> user_specs \<Rightarrow> user_specs" where
  "merge_specs new old = \<lparr>
     sp_passmower = merge_with merge_passmower (sp_passmower old) (sp_passmower new),
     sp_slack = merge_with over (sp_slack old) (sp_slack new),
     sp_github = merge_with merge_github (sp_github old) (sp_github new),
     sp_identities = merge_with merge_identities (sp_identities old) (sp_identities new),
     sp_webauthn = over (sp_webauthn old) (sp_webauthn new)\<rparr>"

definition account_approve :: "('s, 'w) admin_env \<Rightarrow> string \<Rightarrow> ('s, 'w, unit) admin" where
  "account_approve E i =
     e_then (find_account E i) (\<lambda>a. e_then (e_get Thrown a) (\<lambda>a.
     update_account E (accountId a) (merge_specs (getSpecs (approved_add (am_deployment E) a)))))"

definition admin_approve :: "('s, 'w) admin_env \<Rightarrow> string option \<Rightarrow> ('s, 'w, admin_answer) admin" where
  "admin_approve E i = validated E (checkAccountId (\<lambda>k. if k = ''accountId'' then i else None))
     (e_then (account_approve E (tmpl i)) (\<lambda>_. list_accounts E None))"

subsection \<open>Impersonation\<close>

definition admin_getImpersonation :: "('s, 'w) admin_env \<Rightarrow> string option \<Rightarrow> ('s, 'w, admin_answer) admin" where
  "admin_getImpersonation E cookie = e_then (in_store (\<lambda>s. (getImpersonation (am_redis E) cookie s, s)))
     (\<lambda>i. e_return (ImpersonationBody i))"

definition admin_impersonate :: "('s, 'w) admin_env \<Rightarrow> json \<Rightarrow> string option \<Rightarrow> ('s, 'w, admin_answer) admin" where
  "admin_impersonate E session i = validated E (checkAccountId (\<lambda>k. if k = ''accountId'' then i else None))
     (e_then (find_account E (tmpl i)) (\<lambda>a.
      e_then (in_store (createImpersonation (am_redis E) (am_now E) (am_deployment E) (am_nanoid E)
        (tmpl (str_field ''accountId'' session)) (tmpl i) a)) (\<lambda>r. case r of
          Inl UnknownAccount \<Rightarrow> e_return (ImpersonationRefused 404)
        | Inl NotImpersonable \<Rightarrow> e_return (ImpersonationRefused 403)
        | Inr link \<Rightarrow> e_return (ImpersonationLink link))))"

definition admin_endImpersonation ::
  "('s, 'w) admin_env \<Rightarrow> string option \<Rightarrow> string option \<Rightarrow> ('s, 'w, admin_answer \<times> cookie_set list) admin" where
  "admin_endImpersonation E impersonation_cookie admin_cookie =
     e_then (in_store (endImpersonation (am_redis E) impersonation_cookie admin_cookie))
       (\<lambda>cks. e_return (ImpersonationBody None, cks))"

subsection \<open>Invitations\<close>

definition set_onboardedBy :: "string option \<Rightarrow> user_specs \<Rightarrow> user_specs" where
  "set_onboardedBy by sp =
     (let p = null_or (sp_passmower sp) empty_passmower in
      sp\<lparr>sp_passmower := Some (p\<lparr>pm_onboardedBy := over (pm_onboardedBy p) by\<rparr>)\<rparr>)"

text \<open>What follows the checks. A sign-in outcome without an account answers 409; one that would
  touch an interaction throws, as the request has none.\<close>

definition invite_account :: "('s, 'w) admin_env \<Rightarrow> json \<Rightarrow> string option \<Rightarrow> string option \<Rightarrow> ('s, 'w, admin_answer) admin" where
  "invite_account E session email username = (let L = am_login E in
     e_then (in_cluster (e_call (\<lambda>w. let (r, _, w') = createOrUpdateByEmails (le_deployment L) (le_document L) (le_checks L) (le_users L)
         (le_managed L) (le_instance L) (le_slack L) (le_memo L) (am_nanoid E) email [] username None no_identity w in (r, w')))) (\<lambda>outcome.
     case outcome of
       LoggedIn a \<Rightarrow>
         e_then (update_account E (accountId a) (set_onboardedBy (str_field ''accountId'' session))) (\<lambda>_.
         e_then (in_cluster (e_call (mutateUserStatus (le_deployment L) (le_document L) (le_users L) (accountId a)
           (commit_username (am_iso E))))) (\<lambda>_.
         e_then (account_approve E (accountId a)) (\<lambda>_.
         list_accounts E None)))
     | LinkRefused _ \<Rightarrow> e_throw Thrown
     | UsernameRequired _ \<Rightarrow> e_throw Thrown
     | LoginThrew \<Rightarrow> e_throw Thrown
     | _ \<Rightarrow> e_return (StatusBody 409)))"

text \<open>\<open>uid\<close> is the generated name. The address is looked up where one is given, which throws when
  the accounts cannot be listed.\<close>

definition admin_invite ::
  "('s, 'w) admin_env \<Rightarrow> json \<Rightarrow> string \<Rightarrow> string option \<Rightarrow> string option \<Rightarrow> ('s, 'w, admin_answer) admin" where
  "admin_invite E session uid email username = (let D = am_deployment E in
     if \<not> isOutboundEmailEnabled D then e_throw (HttpError 404)
     else (case fst (getUsernameSource D (le_memo (am_login E))) of
         Inl _ \<Rightarrow> e_throw Thrown
       | Inr source \<Rightarrow>
           (let b = (\<lambda>k. if k = ''email'' then email else if k = ''username'' then username else None);
                name = (if source \<noteq> Generated then username else Some uid);
                chain_list = (if source \<noteq> Generated then checkUsername (le_checks (am_login E)) b else [])
                  @ checkEmail b @ checkIfEmailIsTaken b @ checkDisableFrontendEdit (am_text E) in
            e_then (if truthy email then e_then (in_cluster (e_call (listUsers D (am_users E))))
                      (\<lambda>r. e_require (found r \<noteq> None) Thrown) else e_return ()) (\<lambda>_.
            validated E chain_list (invite_account E session email name)))))"

subsection \<open>A request\<close>

datatype admin_request =
    GetPage | GetMetadata | GetAccounts | GetIncidents | GetRequests
  | PostDismiss "json option"
  | PostAccount account_form
  | GetImpersonation "string option"
  | PostImpersonation "string option"
  | PostImpersonationEnd "string option" "string option"
  | PostApprove "string option"
  | PostInvite string "string option" "string option"

fun admin_route :: "('s, 'w) admin_env \<Rightarrow> json \<Rightarrow> admin_request \<Rightarrow> ('s, 'w, admin_answer \<times> cookie_set list) admin" where
  "admin_route E session (PostImpersonationEnd imp adm) = admin_endImpersonation E imp adm"
| "admin_route E session q = e_then (case q of
     GetPage \<Rightarrow> e_return FrontendPage
   | GetMetadata \<Rightarrow> admin_metadata_route E
   | GetAccounts \<Rightarrow> list_accounts E (str_field ''accountId'' session)
   | GetIncidents \<Rightarrow> admin_incidents E
   | GetRequests \<Rightarrow> admin_requests E
   | PostDismiss i \<Rightarrow> admin_dismiss E i
   | PostAccount f \<Rightarrow> admin_update E f
   | GetImpersonation c \<Rightarrow> admin_getImpersonation E c
   | PostImpersonation i \<Rightarrow> admin_impersonate E session i
   | PostApprove i \<Rightarrow> admin_approve E i
   | PostInvite uid email username \<Rightarrow> admin_invite E session uid email username
   | PostImpersonationEnd _ _ \<Rightarrow> e_return EmptyBody) (\<lambda>a. e_return (a, []))"

text \<open>A closed gate ends the request there, so that no body is set.\<close>

definition admin_request ::
  "('s, 'w) admin_env \<Rightarrow> string option \<Rightarrow> json option \<Rightarrow> account option \<Rightarrow> admin_request
     \<Rightarrow> ('s, 'w, (admin_answer \<times> cookie_set list) option) admin" where
  "admin_request E cookie self cur q = e_then (admin_gate E cookie self cur) (\<lambda>(adm, cks). case adm of
     None \<Rightarrow> e_return None
   | Some session \<Rightarrow> e_then (admin_route E session q) (\<lambda>(a, cks'). e_return (Some (a, cks @ cks'))))"

subsection \<open>Properties\<close>

lemma findUser_found: "found (fst (findUser D U i w)) = (case ka_get (uc_objects U) i w of
    (Inr r, w') \<Rightarrow> Some (fromKubernetes D r) | (Inl _, w') \<Rightarrow> None)"
  by (auto simp: findUser_def getNamespacedCustomObject_def answer_def found_def Let_def
      split: prod.split sum.split)

lemma run_find_account:
  "find_account E i (s, w) = (Inr (found (fst (findUser (am_deployment E) (am_users E) i w))),
     (s, snd (findUser (am_deployment E) (am_users E) i w)))"
  by (simp add: find_account_def in_cluster_def e_then_def e_call_def e_return_def Let_def split: prod.split)

text \<open>
  C32: Who passes the gate. An admin session of the store passes whoever presents its cookie as long as
  its account exists and is of a type that may sign in; whether the account is still an administrator,
  and whether anyone is signed in, is not asked again. Without one, exactly a signed-in
  administrator passes, whose session is then kept as the admin session. The gate changes no account.
\<close>

theorem admin_gate_passes_exactly:
  "(\<exists>cks x. admin_gate E cookie self cur (s, w) = (Inr (Some session, cks), x)) \<longleftrightarrow>
     (case getAdminSession (am_redis E) cookie s of
        Some t \<Rightarrow> t = session \<and> getAccountTypeAccessFailure False
          (found (fst (findUser (am_deployment E) (am_users E) (tmpl (str_field ''accountId'' t)) w))) = None
      | None \<Rightarrow> self = Some session \<and> (\<exists>a. cur = Some a \<and> isAdmin a))"
proof (cases "getAdminSession (am_redis E) cookie s")
  case None
  then show ?thesis
    by (cases self; cases cur)
      (auto simp: admin_gate_def in_store_def e_then_def e_return_def e_get_def e_throw_def split: prod.split)
next
  case (Some t)
  then show ?thesis
    by (auto simp: admin_gate_def in_store_def e_then_def e_return_def run_find_account
        split: prod.split option.split)
qed

text \<open>
  The admin page turns upstream groups into local ones. The page shows every group of an account
  and posts them back with the rest of the profile; of the groups that came from an upstream it keeps
  only GitHub's out. Any other upstream group so becomes one of the account's own, and the
  account keeps it whatever the upstream, or a revoked SCIM connection, later says.
\<close>

definition shown_groups :: "deployment \<Rightarrow> string option \<Rightarrow> tos_document option \<Rightarrow> account \<Rightarrow> group list" where
  "shown_groups D requester doc a = map (\<lambda>m. \<lparr>g_prefix = mg_prefix m, g_name = mg_name m\<rparr>)
     (pp_groups (getProfileResponse D True requester doc a))"

lemma set_shown_groups: "sort_permutes D \<Longrightarrow> set (shown_groups D requester doc a) = set (groups a)"
proof -
  assume "sort_permutes D"
  from mset_mapGroups [OF this] have "set (mapGroups D (groups a)) = map_group D ` set (groups a)"
    by (metis set_map set_mset_mset)
  moreover have "(\<lparr>g_prefix = mg_prefix (map_group D x), g_name = mg_name (map_group D x)\<rparr> :: group) = x" for x
    by (simp add: map_group_def)
  ultimately show ?thesis by (simp add: shown_groups_def getProfileResponse_def image_image)
qed

theorem saved_groups_outlive_upstream:
  assumes "sort_permutes D" and "g \<in> set (groups a)" and "g_name g \<noteq> []" and "g_prefix g \<noteq> Some GitHubGroupPrefix"
    and "a_passmower b = sp_passmower (set_profile name company (posted_groups (shown_groups D requester doc a)) specs)"
  shows "display_name g \<in> display_name ` set (st_groups (getIntendedStatus D doc b))"
proof -
  have "g \<in> set (posted_groups (shown_groups D requester doc a))"
    using assms(2-4) by (simp add: posted_groups_def set_shown_groups [OF assms(1)])
  with assms(5) have "g \<in> set (group_sources b)" by (simp add: group_sources_def set_profile_def Let_def)
  then show ?thesis by (simp add: getIntendedStatus_def Let_def keys_last_by)
qed

subsection \<open>Witnesses\<close>

definition admin_demo :: "(mem, login_world) admin_env" where
  "admin_demo = \<lparr>am_login = login_demo demo, am_redis = mem_redis, am_now = 0, am_iso = ''2026-01-01'', am_nanoid = ''n1'',
     am_text = ''off''\<rparr>"

text \<open>\<open>ann\<close> with a group of the upstream \<open>corp\<close>, and the same once the upstream has taken it away.\<close>

definition corp_identity :: "group list \<Rightarrow> identity" where
  "corp_identity gs = \<lparr>id_sub = Some ''s1'', id_active = None, id_name = None, id_company = None, id_emails = [],
     id_groups = gs, id_linkClaims = []\<rparr>"

definition corp_admins :: group where
  "corp_admins = \<lparr>g_prefix = Some ''corp'', g_name = ''admins''\<rparr>"

definition put_identities :: "group list \<Rightarrow> user_specs \<Rightarrow> user_specs" where
  "put_identities gs sp = sp\<lparr>sp_identities := Some [(''corp'', corp_identity gs)]\<rparr>"

definition corp_world :: "mem \<times> login_world" where
  "corp_world = snd (update_account admin_demo ''ann'' (put_identities [corp_admins]) (mem_empty, demo_login_world None))"

definition groups_in :: "mem \<times> login_world \<Rightarrow> group list" where
  "groups_in x = (case found (fst (findUser demo (am_users admin_demo) ''ann'' (snd x))) of Some a \<Rightarrow> groups a | None \<Rightarrow> [])"

definition saved_form :: "(mem \<times> login_world) \<Rightarrow> account_form" where
  "saved_form x = \<lparr>af_accountId = Some ''ann'', af_name = Some ''Ann'', af_company = None,
     af_groups = map_option (shown_groups demo None None) (found (fst (findUser demo (am_users admin_demo) ''ann'' (snd x))))\<rparr>"

definition taken_away :: "mem \<times> login_world \<Rightarrow> mem \<times> login_world" where
  "taken_away x = snd (update_account admin_demo ''ann'' (put_identities []) x)"

theorem saved_groups_outlive_upstream_witness:
  "groups_in corp_world = [corp_admins] \<and> groups_in (taken_away corp_world) = []
   \<and> groups_in (taken_away (snd (admin_update admin_demo (saved_form corp_world) corp_world))) = [corp_admins]
   \<and> display_name corp_admins \<in> display_name ` set (st_groups (getIntendedStatus demo None
        ((demo_account ''ann'' 1 ''a@x'')\<lparr>a_passmower :=
          sp_passmower (set_profile None None (posted_groups (shown_groups demo None None
            ((demo_account ''ann'' 1 ''a@x'')\<lparr>groups := [corp_admins]\<rparr>))) (getSpecs (demo_account ''ann'' 1 ''a@x'')))\<rparr>)))"
proof (intro conjI)
  show "groups_in corp_world = [corp_admins]" by code_simp
  show "groups_in (taken_away corp_world) = []" by code_simp
  show "groups_in (taken_away (snd (admin_update admin_demo (saved_form corp_world) corp_world))) = [corp_admins]" by code_simp
qed (rule saved_groups_outlive_upstream [OF sort_permutes_demo];
     simp add: corp_admins_def GitHubGroupPrefix_def)

end
