(* ===== verification/ApiRoutes.thy ===== *)
theory ApiRoutes
  imports AdminRoutes
begin

text \<open>
  The routes of the dashboard (\<^verbatim>\<open>src/routes/apiRoutes.js\<close>) with \<^verbatim>\<open>signed-in.js\<close>: the launcher lists,
  the own profile, sessions and passkeys, and the privilege directory. They run over the same two
  halves of the world as the admin routes. Rendering Markdown, the provider's session lookup and
  its end-session action, and the lookups of a bearer token are parameters.
\<close>

subsection \<open>Requests\<close>

text \<open>\<open>ax_clients\<close> are the records behind the set of clients; \<open>ax_groups\<close> is the parsed value of
  \<open>PRIVILEGE_DIRECTORY_GROUPS\<close>.\<close>

record ('s, 'w) api_env =
  ax_admin :: "('s, 'w) admin_env"
  ax_domain :: provider_domain
  ax_clients :: "'s \<Rightarrow> oidc_metadata option list"
  ax_render :: "string option \<Rightarrow> string option"
  ax_opaque :: "string \<Rightarrow> bearer_token option"
  ax_jwt :: "string \<Rightarrow> bearer_token option"
  ax_passkeys :: "'w passkey_calls"
  ax_groups :: "string list option"
  ax_end_session :: "string \<Rightarrow> 's \<Rightarrow> 's"

text \<open>What a request carries: the cookie of the dashboard's site session, its address, the
  provider's session and the current account, and the authorization header.\<close>

record api_request =
  rq_siteCookie :: "string option"
  rq_ip :: "string option"
  rq_session :: "json option"
  rq_account :: "account option"
  rq_bearer :: "string option"

datatype api_answer =
    AppsBody "(app \<times> (string \<times> json) option) list"
  | AllAppsBody "app list"
  | MeBody profile_response bool bool
  | ProfileBody profile_response
  | PrivilegesBody "(string \<times> directory_member list) list"
  | TextBody string
  | SessionsBody "(string \<times> json) list"
  | SessionsRedirect "(string \<times> json) list"
  | PasskeysBody "credential list"
  | OptionsBody string
  | RegisteredBody credential
  | SuccessBody
  | ApiStatus nat
  | ApiInvalid "validation_error list"

abbreviation ax_redis :: "('s, 'w) api_env \<Rightarrow> 's redis" where
  "ax_redis X \<equiv> am_redis (ax_admin X)"

abbreviation ax_deployment :: "('s, 'w) api_env \<Rightarrow> deployment" where
  "ax_deployment X \<equiv> am_deployment (ax_admin X)"

definition session_account :: "json \<Rightarrow> string" where
  "session_account session = tmpl (str_field ''accountId'' session)"

text \<open>A valid site session of the dashboard, and then the provider's session if it has an account.\<close>

definition signedInToSelf :: "('s, 'w) api_env \<Rightarrow> api_request \<Rightarrow> 's \<Rightarrow> json option \<times> 's" where
  "signedInToSelf X q s =
     (case validateSiteSession (ax_redis X) (ax_deployment X) (ax_domain X) selfClientId (rq_siteCookie q) (rq_ip q) s of
        (None, s') \<Rightarrow> (None, s')
      | (Some _, s') \<Rightarrow> (case rq_session q of
            Some session \<Rightarrow> (if js_truthy (field ''accountId'' (Some session)) then Some session else None)
          | None \<Rightarrow> None, s'))"

subsection \<open>Applications\<close>

text \<open>\<open>getLastSessionInfoPerClient\<close>: the newest metadata record of one of the account's sessions that
  is of the client, with the session it names.\<close>

definition newest_record :: "json list \<Rightarrow> json option" where
  "newest_record ms = (case js_sort (\<lambda>a b. num_or_zero (int_field ''ts'' b) - num_or_zero (int_field ''ts'' a)) ms of
     [] \<Rightarrow> None | m # _ \<Rightarrow> Some m)"

definition session_info_of :: "'s redis \<Rightarrow> string \<Rightarrow> 's \<Rightarrow> string \<Rightarrow> json option" where
  "session_info_of R clientId s i = (case record_of R ''Session'' i s of
     None \<Rightarrow> None
   | Some session \<Rightarrow> newest_record (filter (\<lambda>m. field ''clientId'' (field ''client'' (Some m)) = Some (JStr clientId))
       (somes (map (\<lambda>j. record_of R ''SessionMetadata'' j s)
         (adapter_getSetMembers R ''UidSessions'' (tmpl (str_field ''uid'' session)) s)))))"

definition getLastSessionInfoPerClient :: "'s redis \<Rightarrow> string \<Rightarrow> string \<Rightarrow> 's \<Rightarrow> (string \<times> json) option" where
  "getLastSessionInfoPerClient R owner clientId s =
     map_option (\<lambda>m. (tmpl (str_field ''sessionId'' m), m))
       (newest_record (somes (map (session_info_of R clientId s) (adapter_getSetMembers R ''AccountSession'' owner s))))"

definition bearer_account ::
  "('s, 'w) api_env \<Rightarrow> api_request \<Rightarrow> string \<Rightarrow> ('s, 'w, nat + account \<times> string list) admin" where
  "bearer_account X q scope = (\<lambda>(s, w). (Inr (accountFromBearer (ax_opaque X) (ax_jwt X)
     (\<lambda>i. found (fst (findUser (ax_deployment X) (am_users (ax_admin X)) i w))) (rq_bearer q) (Some scope)), (s, w)))"

definition launcher_entry :: "('s, 'w) api_env \<Rightarrow> json option \<Rightarrow> 's \<Rightarrow> oidc_metadata \<Rightarrow> app \<times> (string \<times> json) option" where
  "launcher_entry X session s c = (toApp (ax_render X) c,
     Option.bind session (\<lambda>session. getLastSessionInfoPerClient (ax_redis X) (session_account session) (cl_clientId c) s))"

definition launcher :: "('s, 'w) api_env \<Rightarrow> json option \<Rightarrow> account \<Rightarrow> ('s, 'w, api_answer) admin" where
  "launcher X session a = (\<lambda>(s, w). (Inr (AppsBody
     (js_sort (\<lambda>x y. byDisplayOrderThenName (ax_deployment X) (fst x) (fst y))
       (map (launcher_entry X session s)
         (filter (\<lambda>c. checkAccountGroups (Some c) a) (getEnrolledApps (ax_clients X s)))))), (s, w)))"

definition api_apps :: "('s, 'w) api_env \<Rightarrow> api_request \<Rightarrow> ('s, 'w, api_answer) admin" where
  "api_apps X q = e_then (in_store (signedInToSelf X q)) (\<lambda>session.
     case (if session \<noteq> None then rq_account q else None) of
       Some a \<Rightarrow> launcher X session a
     | None \<Rightarrow> e_then (bearer_account X q ''applications'') (\<lambda>r. case r of
           Inl st \<Rightarrow> e_return (ApiStatus st)
         | Inr (a, _) \<Rightarrow> launcher X session a))"

definition api_all_apps :: "('s, 'w) api_env \<Rightarrow> api_request \<Rightarrow> ('s, 'w, api_answer) admin" where
  "api_all_apps X q = e_then (bearer_account X q ''all_applications'') (\<lambda>r. case r of
       Inl st \<Rightarrow> e_return (ApiStatus st)
     | Inr (a, _) \<Rightarrow>
         if \<not> isAdmin a then e_return (ApiStatus 403)
         else (\<lambda>(s, w). (Inr (AllAppsBody (listAllApps (ax_deployment X) (ax_render X) (ax_clients X s) a)), (s, w))))"

subsection \<open>The own account\<close>

definition privilege_groups :: "('s, 'w) api_env \<Rightarrow> string list" where
  "privilege_groups X = getListedPrivilegeGroups (ax_groups X)"

definition api_me :: "('s, 'w) api_env \<Rightarrow> api_request \<Rightarrow> ('s, 'w, api_answer) admin" where
  "api_me X q = e_then (e_get Thrown (rq_account q)) (\<lambda>a.
     e_return (MeBody (getProfileResponse (ax_deployment X) False None (le_document (am_login (ax_admin X))) a)
       (env_is (ax_deployment X) ''DISABLE_FRONTEND_EDIT'' ''true'') (privilege_groups X \<noteq> [])))"

definition api_privileges :: "('s, 'w) api_env \<Rightarrow> string option \<Rightarrow> ('s, 'w, api_answer) admin" where
  "api_privileges X requested =
     (if truthy requested \<and> tmpl requested \<notin> set (privilege_groups X) then e_return (ApiStatus 404)
      else (let gs = (if truthy requested then [tmpl requested] else privilege_groups X) in
        e_then (in_cluster (e_call (listUsers (ax_deployment X) (am_users (ax_admin X))))) (\<lambda>r.
        e_then (e_get Thrown (found r)) (\<lambda>accounts.
        e_return (PrivilegesBody (buildPrivilegeDirectory (ax_deployment X) accounts gs))))))"

text \<open>A company left out keeps the stored one.\<close>

definition set_own_profile :: "string option \<Rightarrow> string option option \<Rightarrow> user_specs \<Rightarrow> user_specs" where
  "set_own_profile name company sp =
     (let p = null_or (sp_passmower sp) empty_passmower in
      sp\<lparr>sp_passmower := Some (p\<lparr>pm_name := over (pm_name p) name, pm_company := null_or company (pm_company p)\<rparr>)\<rparr>)"

definition api_update_me ::
  "('s, 'w) api_env \<Rightarrow> json \<Rightarrow> string option \<Rightarrow> string option option \<Rightarrow> ('s, 'w, api_answer) admin" where
  "api_update_me X session name company = (let A = ax_admin X; L = am_login A;
       b = (\<lambda>k. if k = ''name'' then name else if k = ''company'' then Option.bind company (\<lambda>c. c) else None) in
     (\<lambda>(s, w). case validationErrors (form_at A w)
          (checkRealName b @ checkCompanyName b @ checkDisableFrontendEdit (am_text A)) of
       Some errors \<Rightarrow> (Inr (ApiInvalid errors), (s, w))
     | None \<Rightarrow>
         (e_then (in_cluster (e_call (updateUserSpecs (le_deployment L) (le_document L) (le_users L)
            (session_account session) (set_own_profile name company)))) (\<lambda>r. case r of
            Inr (Found a) \<Rightarrow> e_return (ProfileBody (getProfileResponse (le_deployment L) False None (le_document L) a))
          | _ \<Rightarrow> e_throw Thrown)) (s, w)))"

subsection \<open>Sessions\<close>

definition api_sessions :: "('s, 'w) api_env \<Rightarrow> json \<Rightarrow> ('s, 'w, api_answer) admin" where
  "api_sessions X session = (\<lambda>(s, w). (Inr (SessionsBody (getSessions (ax_redis X) (session_account session) s)), (s, w)))"

definition api_end_session :: "('s, 'w) api_env \<Rightarrow> json \<Rightarrow> string \<Rightarrow> ('s, 'w, api_answer) admin" where
  "api_end_session X session i =
     e_then (in_store (\<lambda>s. ((), endSession (ax_redis X) (ax_end_session X) (session_account session) i s))) (\<lambda>_ (s, w).
     let sessions = getSessions (ax_redis X) (session_account session) s in
     (Inr (if str_field ''jti'' session = Some i then SessionsRedirect sessions else SessionsBody sessions), (s, w)))"

subsection \<open>Passkeys\<close>

definition api_passkeys :: "api_request \<Rightarrow> ('s, 'w, api_answer) admin" where
  "api_passkeys q = e_then (e_get Thrown (rq_account q)) (\<lambda>a. e_return (PasskeysBody (credentials_of a)))"

text \<open>\<open>try ... catch\<close>: what fails answers a status.\<close>

definition or_status :: "nat \<Rightarrow> ('w, http_failure, 'a) effect \<Rightarrow> ('a \<Rightarrow> api_answer) \<Rightarrow> ('s, 'w, api_answer) admin" where
  "or_status st m f = (\<lambda>(s, w). case m w of
     (Inr x, w') \<Rightarrow> (Inr (f x), (s, w')) | (Inl _, w') \<Rightarrow> (Inr (ApiStatus st), (s, w')))"

definition api_register_start :: "('s, 'w) api_env \<Rightarrow> api_request \<Rightarrow> ('s, 'w, api_answer) admin" where
  "api_register_start X q = or_status 500 (e_then (e_get Thrown (rq_account q)) (startRegistration (ax_passkeys X))) OptionsBody"

definition api_register_finish ::
  "('s, 'w) api_env \<Rightarrow> api_request \<Rightarrow> json option \<Rightarrow> string option \<Rightarrow> ('s, 'w, api_answer) admin" where
  "api_register_finish X q response name =
     (if \<not> js_truthy response then e_return (ApiStatus 400)
      else or_status 400 (e_then (e_get Thrown (rq_account q)) (\<lambda>a.
          finishRegistration (am_login (ax_admin X)) (ax_passkeys X) a (the response)
            (if truthy name then tmpl name else ''Passkey'')))
        (\<lambda>r. case r of Some c \<Rightarrow> RegisteredBody c | None \<Rightarrow> ApiStatus 400))"

definition api_rename_passkey ::
  "('s, 'w) api_env \<Rightarrow> api_request \<Rightarrow> string \<Rightarrow> json option \<Rightarrow> ('s, 'w, api_answer) admin" where
  "api_rename_passkey X q cid name = (case name of
     Some (JStr n) \<Rightarrow>
       if length n < 1 \<or> length n > 50 then e_return (ApiStatus 400)
       else or_status 404 (e_then (e_get Thrown (rq_account q)) (\<lambda>a.
         change_passkeys (am_login (ax_admin X)) (renamePasskey cid n) (accountId a))) (\<lambda>_. SuccessBody)
   | _ \<Rightarrow> e_return (ApiStatus 400))"

definition api_delete_passkey :: "('s, 'w) api_env \<Rightarrow> api_request \<Rightarrow> string \<Rightarrow> ('s, 'w, api_answer) admin" where
  "api_delete_passkey X q cid = or_status 404 (e_then (e_get Thrown (rq_account q)) (\<lambda>a.
     change_passkeys (am_login (ax_admin X)) (removePasskey cid) (accountId a))) (\<lambda>_. SuccessBody)"

subsection \<open>The router\<close>

datatype api_route =
    GetApps | GetAllApps | GetMe | GetPrivileges "string option" | GetDisabledText
  | PostMe "string option" "string option option"
  | GetSessions | PostSessionEnd string
  | GetPasskeys | PostRegisterStart | PostRegisterFinish "json option" "string option"
  | PatchPasskey string "json option" | DeletePasskey string

text \<open>The two lists of applications are served before the gate; the rest only to who is signed in,
  with the session of the request.\<close>

definition api_signed_in :: "('s, 'w) api_env \<Rightarrow> api_request \<Rightarrow> json \<Rightarrow> api_route \<Rightarrow> ('s, 'w, api_answer) admin" where
  "api_signed_in X q session r = (case r of
     GetApps \<Rightarrow> api_apps X q
   | GetAllApps \<Rightarrow> api_all_apps X q
   | GetMe \<Rightarrow> api_me X q
   | GetPrivileges g \<Rightarrow> api_privileges X g
   | GetDisabledText \<Rightarrow> e_return (TextBody (am_text (ax_admin X)))
   | PostMe name company \<Rightarrow> api_update_me X session name company
   | GetSessions \<Rightarrow> api_sessions X session
   | PostSessionEnd i \<Rightarrow> api_end_session X session i
   | GetPasskeys \<Rightarrow> api_passkeys q
   | PostRegisterStart \<Rightarrow> api_register_start X q
   | PostRegisterFinish response name \<Rightarrow> api_register_finish X q response name
   | PatchPasskey cid name \<Rightarrow> api_rename_passkey X q cid name
   | DeletePasskey cid \<Rightarrow> api_delete_passkey X q cid)"

definition api_handle :: "('s, 'w) api_env \<Rightarrow> api_request \<Rightarrow> api_route \<Rightarrow> ('s, 'w, api_answer option) admin" where
  "api_handle X q r =
     (if r = GetApps then e_then (api_apps X q) (\<lambda>a. e_return (Some a))
      else if r = GetAllApps then e_then (api_all_apps X q) (\<lambda>a. e_return (Some a))
      else e_then (in_store (signedInToSelf X q)) (\<lambda>session. case session of
          None \<Rightarrow> e_return None
        | Some session \<Rightarrow> e_then (api_signed_in X q session r) (\<lambda>a. e_return (Some a))))"

subsection \<open>What a request of the dashboard can change\<close>

text \<open>What a patch of the specs leaves alone: everything but the names, the passkeys and the Slack id.\<close>

definition keeps_rights :: "user_specs \<Rightarrow> user_specs \<Rightarrow> bool" where
  "keeps_rights old new = (sp_github new = sp_github old \<and> sp_identities new = sp_identities old
     \<and> (let p = null_or (sp_passmower old) empty_passmower; p' = null_or (sp_passmower new) empty_passmower in
        pm_groups p' = pm_groups p \<and> pm_approved p' = pm_approved p \<and> pm_email p' = pm_email p
        \<and> pm_onboardedBy p' = pm_onboardedBy p))"

text \<open>A property of the cluster that reading keeps, and that the status of the one account \<open>i\<close> and the
  patches of its specs that keep its rights do not touch either. A patch answers with the object patched.\<close>

definition own_account_only :: "'w user_calls \<Rightarrow> 'w passkey_calls \<Rightarrow> string \<Rightarrow> ('w \<Rightarrow> bool) \<Rightarrow> bool" where
  "own_account_only U W i P =
     ((\<forall>w. P w \<longrightarrow> P (snd (ka_list (uc_objects U) w)))
    \<and> (\<forall>n w. P w \<longrightarrow> P (snd (ka_get (uc_objects U) n w)))
    \<and> (\<forall>v st w. P w \<longrightarrow> P (snd (ka_replace_status (uc_objects U) i v st w)))
    \<and> (\<forall>old new w. P w \<longrightarrow> keeps_rights old new \<longrightarrow> P (snd (uc_patch U i old new w))
         \<and> (\<forall>r. fst (uc_patch U i old new w) = Inr r \<longrightarrow> m_name (r_metadata r) = i))
    \<and> (\<forall>w. P w \<longrightarrow> P (snd (wa_challenge W w)))
    \<and> (\<forall>k c w. P w \<longrightarrow> P (snd (wa_store W k c w)))
    \<and> (\<forall>k w. P w \<longrightarrow> P (snd (wa_get W k w)))
    \<and> (\<forall>k w. P w \<longrightarrow> P (snd (wa_remove W k w)))
    \<and> (\<forall>r k w. P w \<longrightarrow> P (snd (wa_register W r k w))))"

lemma stays_in_cluster: "stays P m \<Longrightarrow> stays (\<lambda>x. P (snd x)) (in_cluster m)"
  unfolding stays_def runs_def in_cluster_def by (fastforce split: prod.splits sum.splits)

lemma stays_in_store: "stays (\<lambda>x. P (snd x)) (in_store k)"
  unfolding stays_def runs_def in_store_def by (auto split: prod.splits)

lemma stays_read: "(\<And>s w. \<exists>y. f (s, w) = (Inr y, (s, w))) \<Longrightarrow> stays P f"
  unfolding stays_def runs_def by (metis (no_types, lifting) case_prod_conv old.sum.simps(6) surj_pair)

lemma stays_with: "(\<And>x. v = Some x \<Longrightarrow> stays P (f x)) \<Longrightarrow> stays P (e_then (e_get e v) f)"
  by (cases v) (simp_all add: e_get_def stays_throw)

lemma stays_checked: "stays P m \<Longrightarrow>
   stays P (\<lambda>(s, w). case v s w of Some e \<Rightarrow> (Inr (f e), (s, w)) | None \<Rightarrow> m (s, w))"
  unfolding stays_def runs_def by (auto split: option.split)

lemma stays_or_status: "stays P m \<Longrightarrow> stays (\<lambda>x. P (snd x)) (or_status st m f)"
  unfolding stays_def runs_def or_status_def by (fastforce split: prod.splits sum.splits)

lemma stays_called: "(\<And>w. P w \<Longrightarrow> P (snd (k w))) \<Longrightarrow> stays P (e_call k)"
  by (rule stays_call) (metis snd_conv)

lemma stays_tried: "(\<And>w. P w \<Longrightarrow> P (snd (k w))) \<Longrightarrow> stays P (e_try e k)"
  by (rule stays_try) (metis snd_conv)

lemma status_attempt_keeps:
  assumes "\<And>w. P w \<Longrightarrow> P (snd (ka_get K n w))" and "\<And>v st w. P w \<Longrightarrow> P (snd (ka_replace_status K n v st w))"
    and "mutation_attempt K mapper status_of f n w = (q, w1)" "P w"
  shows "P w1"
proof -
  obtain g w2 where g: "ka_get K n w = (g, w2)" by force
  from assms(1) [OF assms(4)] g have p: "P w2" by simp
  show ?thesis
  proof (cases g)
    case (Inl c)
    with assms(3) g p show ?thesis by (simp add: mutation_attempt_def)
  next
    case (Inr a)
    obtain b w3 where b: "ka_replace_status K n (ka_version K a) (f (mapper a)) w2 = (b, w3)" by force
    from assms(2) [OF p, of "ka_version K a" "f (mapper a)"] b have "P w3" by simp
    with assms(3) g b p Inr show ?thesis
      by (auto simp: mutation_attempt_def Let_def split: if_splits sum.splits)
  qed
qed

lemma status_attempts_keep:
  assumes "\<And>w. P w \<Longrightarrow> P (snd (ka_get K n w))" and "\<And>v st w. P w \<Longrightarrow> P (snd (ka_replace_status K n v st w))"
  shows "P w \<Longrightarrow> P (snd (mutation_attempts k K mapper status_of f n w))"
proof (induction k arbitrary: w)
  case 0
  obtain q w1 where q: "mutation_attempt K mapper status_of f n w = (q, w1)" by force
  with status_attempt_keeps [OF assms q 0] show ?case by (subst mutation_attempts.simps) (auto split: sum.split)
next
  case (Suc k)
  obtain q w1 where q: "mutation_attempt K mapper status_of f n w = (q, w1)" by force
  with status_attempt_keeps [OF assms q Suc.prems] Suc.IH show ?case
    by (subst mutation_attempts.simps) (auto split: sum.split)
qed

lemma list_keeps: "own_account_only U W i P \<Longrightarrow> P w \<Longrightarrow> P (snd (listUsers D U w))"
  by (auto simp: own_account_only_def listUsers_def listNamespacedCustomObject_def Let_def split: prod.split)

lemma find_keeps: "own_account_only U W i P \<Longrightarrow> P w \<Longrightarrow> P (snd (findUser D U n w))"
  by (auto simp: own_account_only_def findUser_def getNamespacedCustomObject_def Let_def split: prod.split) (metis snd_conv)

lemma reconcile_keeps: "own_account_only U W i P \<Longrightarrow> P w \<Longrightarrow> P (snd (reconcileUserStatus D doc U i w))"
  unfolding reconcileUserStatus_def mutateUserStatus_def mutateNamespacedCustomObjectStatus_def
  by (rule status_attempts_keep) (auto simp: own_account_only_def)

lemma update_keeps:
  assumes own: "own_account_only U W i P" and f: "\<And>sp. keeps_rights sp (f sp)" and w: "P w"
  shows "P (snd (updateUserSpecs D doc U i f w))"
proof -
  obtain o1 w1 where f1: "findUser D U i w = (o1, w1)" by force
  with find_keeps [OF own w] have p: "P w1" by (metis snd_conv)
  show ?thesis
  proof (cases o1)
    case (Found a)
    obtain q w2 where q: "uc_patch U i (getSpecs a) (f (getSpecs a)) w1 = (q, w2)" by force
    from own p f [of "getSpecs a"] q have "P w2 \<and> (\<forall>r. q = Inr r \<longrightarrow> m_name (r_metadata r) = i)"
      unfolding own_account_only_def by (metis fst_conv snd_conv)
    then have n: "q = Inr r \<Longrightarrow> accountId (fromKubernetes D r) = i" and p2: "P w2" for r
      by (simp_all add: fromKubernetes_def Let_def)
    show ?thesis
    proof (cases q)
      case (Inl c)
      with f1 Found q p2 show ?thesis by (simp add: updateUserSpecs_def Let_def)
    next
      case (Inr r)
      have "P (snd (reconcileUserStatus D doc U (accountId (fromKubernetes D r)) w2))"
        unfolding n [OF Inr] by (rule reconcile_keeps [OF own p2])
      with f1 Found q Inr show ?thesis by (simp add: updateUserSpecs_def Let_def split: prod.split) (metis snd_conv)
    qed
  qed (use f1 p in \<open>simp_all add: updateUserSpecs_def\<close>)
qed

lemma passkeys_keep:
  assumes own: "own_account_only U W i P" and w: "P w"
  shows "P (snd (passkey_update D doc U f i w))"
proof -
  obtain o1 w1 where f1: "findUser D U i w = (o1, w1)" by force
  with find_keeps [OF own w] have p: "P w1" by (metis snd_conv)
  have "P (snd (updateUserSpecs D doc U i (\<lambda>sp. sp\<lparr>sp_webauthn := Some cs\<rparr>) w1))" for cs
    by (rule update_keeps [OF own _ p]) (simp add: keeps_rights_def)
  with f1 p show ?thesis
    by (auto simp: passkey_update_def Let_def split: outcome.split sum.split prod.split) (metis snd_conv)
qed

text \<open>The routes, one by one.\<close>

lemma launcher_stays: "stays Q (launcher X session a)" "stays Q (bearer_account X q scope)"
  unfolding launcher_def bearer_account_def by (rule stays_read, simp)+

lemma apps_stay: "stays (\<lambda>x. P (snd x)) (api_apps X q)" "stays (\<lambda>x. P (snd x)) (api_all_apps X q)"
proof -
  show "stays (\<lambda>x. P (snd x)) (api_apps X q)"
    unfolding api_apps_def
    by (intro effect_rules stays_in_store launcher_stays) (auto split: prod.split intro: effect_rules launcher_stays)
  show "stays (\<lambda>x. P (snd x)) (api_all_apps X q)"
    unfolding api_all_apps_def
    by (intro effect_rules launcher_stays) (auto split: prod.split intro!: effect_rules stays_read)
qed

lemma sessions_stay:
  "stays (\<lambda>x. P (snd x)) (api_sessions X session)" "stays (\<lambda>x. P (snd x)) (api_end_session X session j)"
  by (simp add: api_sessions_def stays_read)
    (unfold api_end_session_def Let_def, intro effect_rules stays_in_store stays_read, simp)

lemma reading_stays:
  assumes "own_account_only (am_users (ax_admin X)) W i P"
  shows "stays (\<lambda>x. P (snd x)) (api_me X q)" "stays (\<lambda>x. P (snd x)) (api_passkeys q)"
    "stays (\<lambda>x. P (snd x)) (api_privileges X g)"
proof -
  show "stays (\<lambda>x. P (snd x)) (api_me X q)" unfolding api_me_def by (intro effect_rules)
  show "stays (\<lambda>x. P (snd x)) (api_passkeys q)" unfolding api_passkeys_def by (intro effect_rules)
  show "stays (\<lambda>x. P (snd x)) (api_privileges X g)"
    unfolding api_privileges_def Let_def
    by (intro effect_rules stays_in_cluster stays_called) (rule list_keeps [OF assms])
qed

lemma update_me_stays:
  fixes X :: "('s, 'w) api_env"
  defines "L \<equiv> am_login (ax_admin X)"
  assumes own: "own_account_only (le_users L) W i P" and mine: "session_account session = i"
  shows "stays (\<lambda>x. P (snd x)) (api_update_me X session name company)"
proof -
  have k: "keeps_rights sp (set_own_profile name company sp)" for sp
    by (cases "sp_passmower sp") (simp_all add: keeps_rights_def set_own_profile_def Let_def null_or_def)
  let ?m = "e_then (in_cluster (e_call (updateUserSpecs (le_deployment L) (le_document L) (le_users L)
          (session_account session) (set_own_profile name company)))) (\<lambda>r. case r of
          Inr (Found a) \<Rightarrow> e_return (ProfileBody (getProfileResponse (le_deployment L) False None (le_document L) a))
        | _ \<Rightarrow> e_throw Thrown) :: ('s, 'w, api_answer) admin"
  have "stays P (e_call (updateUserSpecs (le_deployment L) (le_document L) (le_users L)
          (session_account session) (set_own_profile name company)))"
    unfolding mine by (rule stays_called) (rule update_keeps [OF own k])
  then have m: "stays (\<lambda>x. P (snd x)) ?m"
    by (intro effect_rules stays_in_cluster) (auto split: outcome.split intro: effect_rules)
  show ?thesis
    unfolding api_update_me_def Let_def L_def [symmetric] by (rule stays_checked [OF m])
qed

lemma passkey_routes_stay:
  fixes X :: "('s, 'w) api_env"
  defines "L \<equiv> am_login (ax_admin X)"
  assumes own: "own_account_only (le_users L) (ax_passkeys X) i P"
    and me: "\<And>a. rq_account q = Some a \<Longrightarrow> accountId a = i"
  shows "stays (\<lambda>x. P (snd x)) (api_register_start X q)" (is ?start)
    and "stays (\<lambda>x. P (snd x)) (api_register_finish X q x n)" (is ?finish)
    and "stays (\<lambda>x. P (snd x)) (api_rename_passkey X q c m)" (is ?rename)
    and "stays (\<lambda>x. P (snd x)) (api_delete_passkey X q c)" (is ?delete)
proof -
  have change: "stays P (change_passkeys L f i)" for f
    unfolding change_passkeys_def
    by (intro effect_rules stays_called) (rule passkeys_keep [OF own])
  have start: "stays P (startRegistration (ax_passkeys X) a)" for a
    unfolding startRegistration_def
    by (intro effect_rules stays_called) (use own in \<open>auto simp: own_account_only_def\<close>)
  have finish: "accountId a = i \<Longrightarrow> stays P (finishRegistration L (ax_passkeys X) a x n)" for a x n
    unfolding finishRegistration_def Let_def
    by (intro effect_rules stays_called stays_tried)
      (use own change in \<open>auto simp: own_account_only_def\<close>)
  show ?start
    unfolding api_register_start_def by (intro stays_or_status effect_rules start)
  show ?finish
    unfolding api_register_finish_def L_def [symmetric]
    by (intro stays_if stays_return stays_or_status stays_with) (erule finish [OF me])
  have "stays (\<lambda>x. P (snd x)) (or_status 404 (e_then (e_get Thrown (rq_account q)) (\<lambda>a.
       change_passkeys L (renamePasskey c m) (accountId a))) (\<lambda>_. SuccessBody))" for m
    by (intro stays_or_status stays_with) (simp add: me change)
  then show ?rename
    unfolding api_rename_passkey_def L_def [symmetric]
    by (auto split: option.split json.split intro: effect_rules)
  show ?delete
    unfolding api_delete_passkey_def L_def [symmetric]
    by (intro stays_or_status stays_with) (simp add: me change)
qed

lemma api_signed_in_stays:
  assumes own: "own_account_only (am_users (ax_admin X)) (ax_passkeys X) i P"
    and me: "\<And>a. rq_account q = Some a \<Longrightarrow> accountId a = i" and mine: "session_account session = i"
  shows "stays (\<lambda>x. P (snd x)) (api_signed_in X q session r)"
  using passkey_routes_stay [OF own me] update_me_stays [OF own mine] reading_stays [OF own]
  unfolding api_signed_in_def
  by (cases r) (simp_all add: apps_stay sessions_stay effect_rules)

lemma signed_in_session: "signedInToSelf X q s = (Some session, s') \<Longrightarrow> rq_session q = Some session"
  by (auto simp: signedInToSelf_def split: prod.splits option.splits if_splits)

subsection \<open>Properties\<close>

text \<open>
  C22: A request of the dashboard changes no other account, and nobody's rights. Whatever route is
  asked and however it ends, what holds of the cluster still holds, if only writes to the status
  of the session's own account, or patches of its specs that keep its groups, approval, addresses
  and upstream identities, could break it.
\<close>

theorem dashboard_changes_own_account_only:
  assumes own: "own_account_only (am_users (ax_admin X)) (ax_passkeys X) i P"
    and me: "\<And>a. rq_account q = Some a \<Longrightarrow> accountId a = i"
    and mine: "\<And>session. rq_session q = Some session \<Longrightarrow> session_account session = i"
    and w: "P w" and run: "api_handle X q r (s, w) = (res, (s', w'))"
  shows "P w'"
proof -
  let ?Q = "\<lambda>x. P (snd x)"
  have "?Q (snd (api_handle X q r (s, w)))"
  proof (cases "r = GetApps \<or> r = GetAllApps")
    case True
    have "stays ?Q (e_then (api_apps X q) (\<lambda>a. e_return (Some a)))" "stays ?Q (e_then (api_all_apps X q) (\<lambda>a. e_return (Some a)))"
      by (intro effect_rules apps_stay)+
    with True have "stays ?Q (api_handle X q r)" unfolding api_handle_def by presburger
    with w show ?thesis using stays_end [of ?Q "api_handle X q r" "(s, w)"] by simp
  next
    case False
    obtain ses s1 where f: "signedInToSelf X q s = (ses, s1)" by force
    show ?thesis
    proof (cases ses)
      case None
      with f False w show ?thesis by (simp add: api_handle_def e_then_def in_store_def e_return_def)
    next
      case (Some session)
      have i: "session_account session = i" by (rule mine) (rule signed_in_session [OF f [unfolded Some]])
      have "stays ?Q (e_then (api_signed_in X q session r) (\<lambda>a. e_return (Some a)))"
        by (intro effect_rules api_signed_in_stays [OF own me i])
      from stays_end [OF this, of "(s1, w)"] w f Some False show ?thesis
        by (simp add: api_handle_def e_then_def in_store_def)
    qed
  qed
  with run show ?thesis by simp
qed

subsection \<open>Witness\<close>

text \<open>\<open>ann\<close> and \<open>bob\<close>; \<open>ann\<close> is signed in to the dashboard.\<close>

definition bob_resource :: user_resource where
  "bob_resource = \<lparr>r_metadata = demo_meta ''bob'' 1, r_spec = None,
     r_passmower = Some (empty_passmower\<lparr>pm_email := Some ''b@x''\<rparr>), r_slack = None, r_github = None,
     r_identities = None, r_webauthn = None, r_status = None\<rparr>"

definition two_users :: login_world where
  "two_users = (demo_login_world None)\<lparr>lw_users := (fst demo_user_world @ [(''bob'', bob_resource)], 1)\<rparr>"

definition demo_passkeys :: "login_world passkey_calls" where
  "demo_passkeys = \<lparr>wa_challenge = (\<lambda>w. (''c'', w)), wa_store = (\<lambda>k c w. ((), w)), wa_get = (\<lambda>k w. (None, w)),
     wa_remove = (\<lambda>k w. ((), w)), wa_verify = (\<lambda>r c cr w. (Inl (), w)), wa_register = (\<lambda>r c w. (Inl (), w))\<rparr>"

definition api_demo :: "(mem, login_world) api_env" where
  "api_demo = \<lparr>ax_admin = admin_demo, ax_domain = demo_domain, ax_clients = (\<lambda>s. []), ax_render = (\<lambda>d. d),
     ax_opaque = (\<lambda>t. None), ax_jwt = (\<lambda>t. None), ax_passkeys = demo_passkeys, ax_groups = None, ax_end_session = (\<lambda>i s. s)\<rparr>"

definition dashboard_store :: mem where
  "dashboard_store = snd (snd (addSiteSession mem_redis 0 demo_domain ''c1'' (Some ''s1'') ''ann'' selfClientId None
     (adapter_upsert mem_redis 0 ''Session'' ''s1'' (JObj [(''jti'', JStr ''s1''), (''accountId'', JStr ''ann'')]) (Some 3600) mem_empty)))"

definition ann_request :: api_request where
  "ann_request = \<lparr>rq_siteCookie = Some ''c1'', rq_ip = None,
     rq_session = Some (JObj [(''jti'', JStr ''s1''), (''accountId'', JStr ''ann'')]),
     rq_account = Some (demo_account ''ann'' 1 ''a@x''), rq_bearer = None\<rparr>"

definition bob_untouched :: "login_world \<Rightarrow> bool" where
  "bob_untouched w = ((\<forall>(k, r) \<in> set (fst (lw_users w)). m_name (r_metadata r) = k)
     \<and> map_of (fst (lw_users w)) ''bob'' = Some bob_resource)"

lemma named_store:
  "\<forall>(k, r) \<in> set rs. m_name (r_metadata r) = k \<Longrightarrow> m_name (r_metadata x) = n \<Longrightarrow>
     \<forall>(k, r) \<in> set (AList.update n x rs). m_name (r_metadata r) = k"
  using set_update_subset [of n x rs] by fastforce

lemma bob_store:
  assumes "bob_untouched w" "mu_view (lw_users w) ''ann'' = Some r" "m_name (r_metadata x) = m_name (r_metadata r)"
  shows "bob_untouched (w\<lparr>lw_users := mu_store ''ann'' x (lw_users w)\<rparr>) \<and> m_name (r_metadata r) = ''ann''"
proof -
  from assms(2) have "(''ann'', r) \<in> set (fst (lw_users w))"
    by (auto simp: mu_view_def split: option.splits if_splits dest: map_of_SomeD)
  with assms(1) have n: "m_name (r_metadata r) = ''ann''" by (auto simp: bob_untouched_def)
  with assms(1,3) named_store [of "fst (lw_users w)" "mu_with_version x (Suc (snd (lw_users w)))" "''ann''"] show ?thesis
    by (simp add: bob_untouched_def mu_store_def mu_with_version_def update_conv')
qed

lemma bob_own: "own_account_only (am_users admin_demo) demo_passkeys ''ann'' bob_untouched"
proof -
  have s: "(a::login_world)\<lparr>lw_users := lw_users a\<rparr> = a" for a by simp
  note U = admin_demo_def login_demo_def login_users_def Let_def on_users_def mem_user_objects_def
  have get: "bob_untouched w \<longrightarrow> bob_untouched (snd (ka_get (uc_objects (am_users admin_demo)) n w))"
    and list: "bob_untouched w \<longrightarrow> bob_untouched (snd (ka_list (uc_objects (am_users admin_demo)) w))" for n w
    by (simp_all add: U s)
  have status: "bob_untouched w \<longrightarrow> bob_untouched (snd (ka_replace_status (uc_objects (am_users admin_demo)) ''ann'' v st w))" for v st w
  proof (cases "mu_view (lw_users w) ''ann''")
    case None
    then show ?thesis by (simp add: U s)
  next
    case (Some r)
    have "bob_untouched w \<Longrightarrow> bob_untouched (w\<lparr>lw_users := mu_store ''ann'' (r\<lparr>r_status := Some st\<rparr>) (lw_users w)\<rparr>)"
      by (rule conjunct1 [OF bob_store [OF _ Some]]) simp_all
    with Some show ?thesis by (simp add: U s)
  qed
  have patch: "bob_untouched w \<longrightarrow> keeps_rights old new \<longrightarrow>
       bob_untouched (snd (uc_patch (am_users admin_demo) ''ann'' old new w))
       \<and> (\<forall>r. fst (uc_patch (am_users admin_demo) ''ann'' old new w) = Inr r \<longrightarrow> m_name (r_metadata r) = ''ann'')" for old new w
  proof (cases "mu_view (lw_users w) ''ann''")
    case None
    then show ?thesis by (simp add: U s mem_patch_user_def)
  next
    case (Some r)
    have "bob_untouched w \<Longrightarrow> bob_untouched (w\<lparr>lw_users := mu_store ''ann'' (with_specs new r) (lw_users w)\<rparr>) \<and> m_name (r_metadata r) = ''ann''"
      by (rule bob_store [OF _ Some]) (simp_all add: with_specs_def)
    with Some show ?thesis by (simp add: U mem_patch_user_def mu_with_version_def with_specs_def)
  qed
  show ?thesis
    unfolding own_account_only_def by (simp add: get list status patch) (simp add: demo_passkeys_def)
qed

theorem dashboard_changes_own_account_only_witness:
  "(let w' = snd (snd (api_handle api_demo ann_request (PostMe (Some ''Ann B'') None) (dashboard_store, two_users))) in
     map_of (fst (lw_users w')) ''bob'' = Some bob_resource
     \<and> map_option (\<lambda>r. map_option pm_name (r_passmower r)) (map_of (fst (lw_users w')) ''ann'') = Some (Some (Some ''Ann B'')))"
proof -
  obtain res s' w' where r: "api_handle api_demo ann_request (PostMe (Some ''Ann B'') None) (dashboard_store, two_users) = (res, (s', w'))"
    by (metis prod_cases3)
  have "bob_untouched w'"
    by (rule dashboard_changes_own_account_only [OF _ _ _ _ r])
      (simp_all add: api_demo_def bob_own ann_request_def demo_account_def session_account_def str_field_def,
       simp add: bob_untouched_def two_users_def demo_login_world_def demo_user_world_def demo_meta_def bob_resource_def)
  moreover have "map_option (\<lambda>r. map_option pm_name (r_passmower r)) (map_of (fst (lw_users (snd (snd
      (api_handle api_demo ann_request (PostMe (Some ''Ann B'') None) (dashboard_store, two_users)))))) ''ann'') = Some (Some (Some ''Ann B''))"
    by code_simp
  ultimately show ?thesis using r by (simp add: bob_untouched_def)
qed

end
