(* ===== verification/EventHooks.thy ===== *)
theory EventHooks
  imports AdminRoutes Redis
begin

text \<open>
  The lifecycle hooks of users (\<^verbatim>\<open>src/operators/kube-oidc-user-event-hook-operator.js\<close>,
  \<^verbatim>\<open>src/models/oidc-user-event-hook.js\<close>): watch events of OIDCUser resources become Jobs of the hooks
  that match. The generation each user was last dispatched at is a record of the store; the hooks,
  their Jobs and their status live in the cluster. The SHA-256 digest is a parameter.
\<close>

subsection \<open>Users and hooks\<close>

record hook_user =
  hu_uid :: string
  hu_name :: string
  hu_namespace :: string
  hu_generation :: "int option"
  hu_labels :: "(string \<times> string) list"

datatype event_type = Added | Modified | Deleted

definition event_name :: "event_type \<Rightarrow> string" where
  "event_name t = (case t of Added \<Rightarrow> ''Added'' | Modified \<Rightarrow> ''Modified'' | Deleted \<Rightarrow> ''Deleted'')"

record match_expression =
  mx_key :: string
  mx_operator :: string
  mx_values :: "string list"

record label_selector =
  ls_matchLabels :: "(string \<times> string) list"
  ls_matchExpressions :: "match_expression list"

text \<open>\<open>hk_uid\<close> is \<open>None\<close> for a hook without one. \<open>hk_conditions\<close> and \<open>hk_lastJob\<close> are its status.\<close>

record attempted_job =
  aj_name :: string
  aj_event :: event_type
  aj_userName :: string
  aj_userUID :: string
  aj_generation :: int
  aj_attemptedAt :: string

record hook_status =
  hs_lastAttemptedJob :: "attempted_job option"
  hs_conditions :: "condition list"

record event_hook =
  hk_name :: string
  hk_namespace :: string
  hk_uid :: "string option"
  hk_events :: "string list"
  hk_selector :: label_selector
  hk_jobSpec :: json
  hk_status :: hook_status

definition expression_holds :: "(string \<times> string) list \<Rightarrow> match_expression \<Rightarrow> bool" where
  "expression_holds labels x =
     (let present = (map_of labels (mx_key x) \<noteq> None);
          listed = (case map_of labels (mx_key x) of Some v \<Rightarrow> v \<in> set (mx_values x) | None \<Rightarrow> False) in
      if mx_operator x = ''In'' then present \<and> listed
      else if mx_operator x = ''NotIn'' then \<not> present \<or> \<not> listed
      else if mx_operator x = ''Exists'' then present
      else if mx_operator x = ''DoesNotExist'' then \<not> present
      else False)"

definition matchesSelector :: "(string \<times> string) list \<Rightarrow> label_selector \<Rightarrow> bool" where
  "matchesSelector labels s =
     (if \<exists>(k, v) \<in> set (ls_matchLabels s). map_of labels k \<noteq> Some v then False
      else list_all (expression_holds labels) (ls_matchExpressions s))"

definition hook_matches :: "event_type \<Rightarrow> hook_user \<Rightarrow> event_hook \<Rightarrow> bool" where
  "hook_matches t u h = (event_name t \<in> set (hk_events h) \<and> matchesSelector (hu_labels u) (hk_selector h))"

subsection \<open>The Job of an event\<close>

definition generation_of :: "hook_user \<Rightarrow> int" where
  "generation_of u = null_or (hu_generation u) 1"

text \<open>\<open>hp_digest\<close> is the first twelve digits of the SHA-256 digest, \<open>hp_decimal\<close> prints a number.\<close>

record hook_printing =
  hp_digest :: "string \<Rightarrow> string"
  hp_decimal :: "int \<Rightarrow> string"

definition injected_environment :: "hook_printing \<Rightarrow> event_type \<Rightarrow> hook_user \<Rightarrow> (string \<times> string) list" where
  "injected_environment H t u = [
     (''PASSMOWER_EVENT_TYPE'', event_name t),
     (''PASSMOWER_RESOURCE_KIND'', ''OIDCUser''),
     (''PASSMOWER_RESOURCE_NAMESPACE'', hu_namespace u),
     (''PASSMOWER_RESOURCE_NAME'', hu_name u),
     (''PASSMOWER_RESOURCE_UID'', hu_uid u),
     (''PASSMOWER_RESOURCE_GENERATION'', hp_decimal H (generation_of u))]"

definition array_items :: "json option \<Rightarrow> json list" where
  "array_items v = (case v of Some (JArr xs) \<Rightarrow> xs | _ \<Rightarrow> [])"

definition inject_container :: "(string \<times> string) list \<Rightarrow> json \<Rightarrow> json" where
  "inject_container env c = set_member ''env'' (JArr (
     filter (\<lambda>item. field ''name'' (Some item) \<notin> (\<lambda>(n, _). Some (JStr n)) ` set env) (array_items (field ''env'' (Some c)))
     @ map (\<lambda>(n, v). JObj [(''name'', JStr n), (''value'', JStr v)]) env)) (Some c)"

definition inject_member :: "string \<Rightarrow> (string \<times> string) list \<Rightarrow> json \<Rightarrow> json" where
  "inject_member k env podSpec = (case field k (Some podSpec) of
     Some (JArr cs) \<Rightarrow> set_member k (JArr (map (inject_container env) cs)) (Some podSpec)
   | _ \<Rightarrow> podSpec)"

definition default_member :: "string \<Rightarrow> json \<Rightarrow> json option \<Rightarrow> json" where
  "default_member k d obj =
     (if nullish (field k obj) then set_member k d obj else null_or obj (JObj []))"

definition hook_job_spec :: "(string \<times> string) list \<Rightarrow> json \<Rightarrow> json" where
  "hook_job_spec env spec =
     (let spec1 = default_member ''template'' (JObj []) (Some spec);
          template = default_member ''spec'' (JObj []) (field ''template'' (Some spec1));
          podSpec = default_member ''restartPolicy'' (JStr ''OnFailure'') (field ''spec'' (Some template));
          podSpec1 = inject_member ''containers'' env (inject_member ''initContainers'' env podSpec);
          spec2 = default_member ''ttlSecondsAfterFinished'' (JNum 3600) (Some spec1) in
      set_member ''template'' (set_member ''spec'' podSpec1 (Some template)) (Some spec2))"

definition labelValue :: "hook_printing \<Rightarrow> string \<Rightarrow> string" where
  "labelValue H text = (if length text \<le> 63 then text else take 50 text @ ''-'' @ hp_digest H text)"

definition label_char :: "char \<Rightarrow> char" where
  "label_char c = (let n = of_char c :: nat in
     if (97 \<le> n \<and> n \<le> 122) \<or> (48 \<le> n \<and> n \<le> 57) \<or> c = CHR ''-'' then c else CHR ''-'')"

definition strip_dashes :: "string \<Rightarrow> string" where
  "strip_dashes s = rev (dropWhile (\<lambda>c. c = CHR ''-'') (rev (dropWhile (\<lambda>c. c = CHR ''-'') s)))"

definition job_prefix :: "string \<Rightarrow> string" where
  "job_prefix name = take 35 (strip_dashes (map label_char (to_lower name)))"

definition job_identity :: "hook_printing \<Rightarrow> event_type \<Rightarrow> hook_user \<Rightarrow> event_hook \<Rightarrow> string" where
  "job_identity H t u h = join_with [char_of (0 :: nat)]
     [null_or (hk_uid h) (hk_name h), hu_uid u, hp_decimal H (generation_of u), event_name t]"

definition job_name :: "hook_printing \<Rightarrow> event_type \<Rightarrow> hook_user \<Rightarrow> event_hook \<Rightarrow> string" where
  "job_name H t u h = job_prefix (hk_name h) @ ''-'' @ to_lower (event_name t) @ ''-'' @ hp_digest H (job_identity H t u h)"

definition getJob :: "hook_printing \<Rightarrow> event_type \<Rightarrow> hook_user \<Rightarrow> event_hook \<Rightarrow> job_manifest" where
  "getJob H t u h = \<lparr>jm_name = job_name H t u h,
     jm_labels = Some [(''app.kubernetes.io/managed-by'', ''passmower''),
       (''app.kubernetes.io/component'', ''oidc-user-event-hook''),
       (''codemowers.cloud/oidc-user-event-hook'', labelValue H (hk_name h)),
       (''codemowers.cloud/event'', to_lower (event_name t)),
       (''codemowers.cloud/oidc-user'', labelValue H (hu_name u))],
     jm_template_labels = None, jm_spec = hook_job_spec (injected_environment H t u) (hk_jobSpec h)\<rparr>"

subsection \<open>The status of a hook\<close>

definition withAttempt :: "event_type \<Rightarrow> hook_user \<Rightarrow> string \<Rightarrow> bool \<Rightarrow> string \<Rightarrow> string \<Rightarrow> string \<Rightarrow> hook_status \<Rightarrow> hook_status" where
  "withAttempt t u jobName ready reason message now st =
     (let previous = find_condition ''Ready'' (hs_conditions st);
          status = (if ready then ''True'' else ''False'') in
      \<lparr>hs_lastAttemptedJob = Some \<lparr>aj_name = jobName, aj_event = t, aj_userName = hu_name u, aj_userUID = hu_uid u,
         aj_generation = generation_of u, aj_attemptedAt = now\<rparr>,
       hs_conditions = put_condition \<lparr>c_type = ''Ready'', c_status = status, c_reason = Some reason, c_message = Some message,
         c_lastTransitionTime = (case previous of
            Some p \<Rightarrow> if c_status p = status then c_lastTransitionTime p else Some now
          | None \<Rightarrow> Some now)\<rparr> (hs_conditions st)\<rparr>)"

subsection \<open>The operator\<close>

text \<open>\<open>ek_mutate\<close> is the status mutation of a hook, \<open>ek_event\<close> a warning event on it.\<close>

record 'w hook_calls =
  ek_users :: "'w \<Rightarrow> hook_user list outcome \<times> 'w"
  ek_list :: "string \<Rightarrow> 'w \<Rightarrow> event_hook list outcome \<times> 'w"
  ek_createJob :: "string \<Rightarrow> job_manifest \<Rightarrow> 'w \<Rightarrow> create_job_result \<times> 'w"
  ek_mutate :: "string \<Rightarrow> string \<Rightarrow> (hook_status \<Rightarrow> hook_status) \<Rightarrow> 'w \<Rightarrow> unit \<times> 'w"
  ek_event :: "string \<Rightarrow> string \<Rightarrow> string \<Rightarrow> string \<Rightarrow> 'w \<Rightarrow> unit \<times> 'w"
  ek_now :: "'w \<Rightarrow> string \<times> 'w"

definition runHook :: "hook_printing \<Rightarrow> 'w hook_calls \<Rightarrow> event_type \<Rightarrow> hook_user \<Rightarrow> event_hook \<Rightarrow> ('w, 'e, unit) effect" where
  "runHook H K t u h = (let job = getJob H t u h in
     e_then (e_call (ek_createJob K (hk_namespace h) job)) (\<lambda>result.
     let ready = (result \<noteq> JobFailed);
         reason = (case result of JobExists \<Rightarrow> ''JobAlreadyExists'' | JobCreated \<Rightarrow> ''JobCreated'' | JobFailed \<Rightarrow> ''JobCreationFailed'');
         message = (if ready then event_name t @ '' hook Job '' @ jm_name job @ '' ''
                      @ (if result = JobExists then ''already exists'' else ''was created'')
                    else ''Failed to create '' @ event_name t @ '' hook Job '' @ jm_name job) in
     e_then (e_call (ek_now K)) (\<lambda>now.
     e_then (e_call (ek_mutate K (hk_namespace h) (hk_name h) (withAttempt t u (jm_name job) ready reason message now))) (\<lambda>_.
     if ready then e_return () else e_call (ek_event K (hk_namespace h) (hk_name h) reason message)))))"

definition dispatch :: "hook_printing \<Rightarrow> 'w hook_calls \<Rightarrow> event_type \<Rightarrow> hook_user \<Rightarrow> ('w, 'e, unit) effect" where
  "dispatch H K t u = e_then (e_call (ek_list K (hu_namespace u))) (\<lambda>hooks.
     e_each (filter (hook_matches t u) (list_or_empty (found hooks))) () (\<lambda>h _. runHook H K t u h))"

text \<open>What the store remembers of a user; \<open>ms\<close> is the time of the write.\<close>

definition hook_model :: string where
  "hook_model = ''OIDCUserEventHookState''"

definition lastGeneration :: "'s redis \<Rightarrow> string \<Rightarrow> 's \<Rightarrow> int option" where
  "lastGeneration R uid s = Option.bind (record_of R hook_model uid s) (int_field ''generation'')"

definition remember_generation :: "'s redis \<Rightarrow> int \<Rightarrow> string \<Rightarrow> int \<Rightarrow> 's \<Rightarrow> 's" where
  "remember_generation R ms uid g s = adapter_upsert R ms hook_model uid (JObj [(''generation'', JNum g)]) None s"

text \<open>\<open>#added\<close>, \<open>#modified\<close> and \<open>#deleted\<close> first update the store and say what is to be dispatched.\<close>

definition on_added :: "'s redis \<Rightarrow> int \<Rightarrow> hook_user \<Rightarrow> 's \<Rightarrow> event_type option \<times> 's" where
  "on_added R ms u s = (let g = generation_of u; previous = lastGeneration R (hu_uid u) s in
     if previous = Some g then (None, s)
     else (Some (if previous = None then Added else Modified), remember_generation R ms (hu_uid u) g s))"

definition on_modified :: "'s redis \<Rightarrow> int \<Rightarrow> hook_user \<Rightarrow> 's \<Rightarrow> event_type option \<times> 's" where
  "on_modified R ms u s = (let g = generation_of u in
     if lastGeneration R (hu_uid u) s = Some g then (None, s)
     else (Some Modified, remember_generation R ms (hu_uid u) g s))"

definition on_deleted :: "'s redis \<Rightarrow> hook_user \<Rightarrow> 's \<Rightarrow> event_type option \<times> 's" where
  "on_deleted R u s = (Some Deleted, record_destroy R hook_model (hu_uid u) s)"

datatype watch_event = SawAdded hook_user | SawModified hook_user | SawDeleted hook_user

fun event_user :: "watch_event \<Rightarrow> hook_user" where
  "event_user (SawAdded u) = u" | "event_user (SawModified u) = u" | "event_user (SawDeleted u) = u"

fun decide :: "'s redis \<Rightarrow> int \<Rightarrow> watch_event \<Rightarrow> 's \<Rightarrow> event_type option \<times> 's" where
  "decide R ms (SawAdded u) s = on_added R ms u s"
| "decide R ms (SawModified u) s = on_modified R ms u s"
| "decide R ms (SawDeleted u) s = on_deleted R u s"

definition hook_event :: "'s redis \<Rightarrow> int \<Rightarrow> hook_printing \<Rightarrow> 'w hook_calls \<Rightarrow> watch_event \<Rightarrow> ('s, 'w, unit) admin" where
  "hook_event R ms H K e = e_then (in_store (decide R ms e)) (\<lambda>t. case t of
     None \<Rightarrow> e_return () | Some t \<Rightarrow> in_cluster (dispatch H K t (event_user e)))"

definition initializedKey :: string where
  "initializedKey = ''__initialized__''"

definition seedOnFirstRun :: "'s redis \<Rightarrow> int \<Rightarrow> string \<Rightarrow> 'w hook_calls \<Rightarrow> ('s, 'w, unit) admin" where
  "seedOnFirstRun R ms stamp K = e_then (in_store (\<lambda>s. (record_of R hook_model initializedKey s, s))) (\<lambda>r.
     if r \<noteq> None then e_return ()
     else e_then (in_cluster (e_call (ek_users K))) (\<lambda>users. case users of
         Found us \<Rightarrow> in_store (\<lambda>s. ((), adapter_upsert R ms hook_model initializedKey (JObj [(''initializedAt'', JStr stamp)]) None
             (foldl (\<lambda>s u. remember_generation R ms (hu_uid u) (generation_of u) s) s us)))
       | _ \<Rightarrow> e_return ()))"

subsection \<open>Names that fit\<close>

lemma length_strip: "length (strip_dashes s) \<le> length s"
  using length_dropWhile_le [of _ "rev (dropWhile (\<lambda>c. c = CHR ''-'') s)"] length_dropWhile_le [of _ s]
  by (simp add: strip_dashes_def) (metis (no_types, lifting) length_rev order_trans)

text \<open>With a digest of twelve characters, Job names and label values stay within 63.\<close>

lemma job_name_fits:
  assumes "\<And>t. length (hp_digest H t) = 12"
  shows "length (job_name H t u h) \<le> 63" and "length (labelValue H x) \<le> 63"
  by (cases t; simp add: job_name_def job_prefix_def assms event_name_def to_lower_def)
    (simp add: labelValue_def assms)

subsection \<open>Spec edges\<close>

text \<open>What a run of watch events has dispatched.\<close>

fun decisions :: "'s redis \<Rightarrow> int \<Rightarrow> watch_event list \<Rightarrow> 's \<Rightarrow> (event_type \<times> hook_user) list \<times> 's" where
  "decisions R ms [] s = ([], s)"
| "decisions R ms (e # es) s = (case decide R ms e s of (t, s1) \<Rightarrow> (case decisions R ms es s1 of (ds, s2) \<Rightarrow>
     ((case t of None \<Rightarrow> ds | Some t \<Rightarrow> (t, event_user e) # ds), s2)))"

fun is_deletion :: "string \<Rightarrow> watch_event \<Rightarrow> bool" where
  "is_deletion uid (SawDeleted u) = (hu_uid u = uid)"
| "is_deletion uid _ = False"

definition generations :: "string \<Rightarrow> hook_user list \<Rightarrow> int list" where
  "generations uid us = map generation_of (filter (\<lambda>u. hu_uid u = uid) us)"

text \<open>A generation list with repetitions in a row taken out, after the one remembered.\<close>

definition spec_edges :: "int option \<Rightarrow> int list \<Rightarrow> int list" where
  "spec_edges previous gs = (case previous of None \<Rightarrow> remdups_adj gs | Some g \<Rightarrow> tl (remdups_adj (g # gs)))"

lemma spec_edges_same: "spec_edges (Some g) (g # gs) = spec_edges (Some g) gs"
  by (simp add: spec_edges_def)

lemma spec_edges_new: "previous \<noteq> Some g \<Longrightarrow> spec_edges previous (g # gs) = g # spec_edges (Some g) gs"
  by (cases previous) (simp_all add: spec_edges_def)

context redis_server
begin

lemma plain_hook_model: "plain_name hook_model"
  by (simp add: hook_model_def plain_name_def colon_free_def consumable_def set_names_def)

lemma last_remember:
  "lastGeneration R uid (remember_generation R ms uid' g s) = (if uid = uid' then Some g else lastGeneration R uid s)"
  by (simp add: lastGeneration_def remember_generation_def records.look_put [OF plain_hook_model plain_hook_model]
      int_field_def)

lemma last_destroy: "uid \<noteq> uid' \<Longrightarrow> lastGeneration R uid (record_destroy R hook_model uid' s) = lastGeneration R uid s"
  by (simp add: lastGeneration_def records.look_drop [OF plain_hook_model plain_hook_model])

lemma decide_last:
  assumes "\<not> is_deletion uid e" and "decide R ms e s = (t, s')"
  shows "if hu_uid (event_user e) = uid
    then lastGeneration R uid s' = Some (generation_of (event_user e))
      \<and> (t = None \<longleftrightarrow> lastGeneration R uid s = Some (generation_of (event_user e)))
    else lastGeneration R uid s' = lastGeneration R uid s"
  using assms by (cases e) (auto simp: on_added_def on_modified_def on_deleted_def Let_def last_remember last_destroy split: if_splits)

lemma decisions_are_edges:
  "\<forall>e \<in> set es. \<not> is_deletion uid e \<Longrightarrow>
     generations uid (map snd (fst (decisions R ms es s))) =
       spec_edges (lastGeneration R uid s) (generations uid (map event_user es))"
proof (induction es arbitrary: s)
  case Nil
  then show ?case by (simp add: generations_def spec_edges_def split: option.split)
next
  case (Cons e es)
  obtain t s1 where d: "decide R ms e s = (t, s1)" by force
  obtain ds s2 where ds: "decisions R ms es s1 = (ds, s2)" by force
  from Cons ds have ih: "generations uid (map snd ds) =
      spec_edges (lastGeneration R uid s1) (generations uid (map event_user es))" by (metis fst_conv list.set_intros(2))
  from decide_last [OF _ d] Cons.prems have l: "if hu_uid (event_user e) = uid
    then lastGeneration R uid s1 = Some (generation_of (event_user e))
      \<and> (t = None \<longleftrightarrow> lastGeneration R uid s = Some (generation_of (event_user e)))
    else lastGeneration R uid s1 = lastGeneration R uid s" by simp
  show ?case
  proof (cases "hu_uid (event_user e) = uid")
    case True
    with l ih d ds show ?thesis
      by (cases t) (simp_all add: generations_def spec_edges_same spec_edges_new)
  next
    case False
    with l ih d ds show ?thesis by (cases t) (simp_all add: generations_def)
  qed
qed

end

subsection \<open>Properties\<close>

text \<open>
  C14: Hooks fire on the edges of a user's spec, and on nothing else. Over any watch events, whatever
  reconnects, restarts or hand-overs replay in between, what is dispatched for a user that is not
  deleted is its sequence of generations without repetitions, starting after the one
  remembered in the store: no replay fires again, and no new generation is passed over.
\<close>

theorem hooks_fire_on_spec_edges:
  assumes "redis_server R" and "\<forall>e \<in> set es. \<not> is_deletion uid e"
  shows "generations uid (map snd (fst (decisions R ms es s))) =
    (case lastGeneration R uid s of
       None \<Rightarrow> remdups_adj (generations uid (map event_user es))
     | Some g \<Rightarrow> tl (remdups_adj (g # generations uid (map event_user es))))"
  using redis_server.decisions_are_edges [OF assms] by (simp add: spec_edges_def)

text \<open>
  C23: What fails to be dispatched is not tried again. The generation is remembered before the hooks
  are listed and their Jobs created: whatever these calls answered, the same generation seen again, by
  this process or another one, dispatches nothing. So a list or a Job that failed loses the event, and
  delivery is at most once.
\<close>

theorem failed_hooks_are_not_retried:
  assumes "redis_server R" and "e = SawAdded u \<or> e = SawModified u" and "e' = SawAdded u \<or> e' = SawModified u"
    and "hook_event R ms H K e (s, w) = (r, (s', w'))"
  shows "hook_event R ms' H' K' e' (s', w'') = (Inr (), (s', w''))"
proof -
  obtain t s1 where d: "decide R ms e s = (t, s1)" by force
  have "s' = s1"
    using assms(4) d by (auto simp: hook_event_def e_then_def in_store_def in_cluster_def e_return_def
        split: option.splits prod.splits)
  moreover from assms(2) have e: "event_user e = u" "\<not> is_deletion (hu_uid u) e" by auto
  ultimately have "lastGeneration R (hu_uid u) s' = Some (generation_of u)"
    using redis_server.decide_last [OF assms(1) e(2) d] by simp
  then have "decide R ms' e' s' = (None, s')"
    using assms(3) by (auto simp: on_added_def on_modified_def Let_def)
  then show ?thesis by (simp add: hook_event_def e_then_def in_store_def e_return_def)
qed

subsection \<open>Witnesses\<close>

definition hook_demo_user :: "int \<Rightarrow> hook_user" where
  "hook_demo_user g = \<lparr>hu_uid = ''u1'', hu_name = ''ann'', hu_namespace = ''auth'', hu_generation = Some g, hu_labels = []\<rparr>"

text \<open>A cluster, a count of Jobs, in which no Job can be created.\<close>

definition demo_hook :: event_hook where
  "demo_hook = \<lparr>hk_name = ''sync'', hk_namespace = ''auth'', hk_uid = Some ''h1'', hk_events = [''Added'', ''Modified''],
     hk_selector = \<lparr>ls_matchLabels = [], ls_matchExpressions = []\<rparr>, hk_jobSpec = JObj [],
     hk_status = \<lparr>hs_lastAttemptedJob = None, hs_conditions = []\<rparr>\<rparr>"

definition failing_hooks :: "nat hook_calls" where
  "failing_hooks = \<lparr>ek_users = (\<lambda>w. (Found [], w)), ek_list = (\<lambda>n w. (Found [demo_hook], w)),
     ek_createJob = (\<lambda>n j w. (JobFailed, Suc w)), ek_mutate = (\<lambda>n h f w. ((), w)), ek_event = (\<lambda>n h r m w. ((), w)),
     ek_now = (\<lambda>w. (''now'', w))\<rparr>"

definition demo_printing :: hook_printing where
  "demo_printing = \<lparr>hp_digest = (\<lambda>t. ''0123456789ab''), hp_decimal = (\<lambda>n. ''1'')\<rparr>"

theorem hooks_fire_on_spec_edges_witness:
  "generations ''u1'' (map snd (fst (decisions mem_redis 0
     (map (\<lambda>g. SawAdded (hook_demo_user g)) [1, 1, 2, 2, 3]) mem_empty))) = [1, 2, 3]"
proof -
  let ?es = "map (\<lambda>g. SawAdded (hook_demo_user g)) [1, 1, 2, 2, 3]"
  have "lastGeneration mem_redis ''u1'' mem_empty = None" by code_simp
  then show ?thesis
    using hooks_fire_on_spec_edges [OF mem_server.redis_server_axioms, of ?es "''u1''" 0 mem_empty]
    by (simp add: generations_def hook_demo_user_def generation_of_def null_or_def)
qed

theorem failed_hooks_are_not_retried_witness:
  "(let (s1, w1) = snd (hook_event mem_redis 0 demo_printing failing_hooks (SawAdded (hook_demo_user 1)) (mem_empty, 0)) in
     w1 = 1 \<and> hook_event mem_redis 0 demo_printing failing_hooks (SawAdded (hook_demo_user 1)) (s1, w1) = (Inr (), (s1, w1)))"
proof -
  obtain r s1 w1 where r: "hook_event mem_redis 0 demo_printing failing_hooks (SawAdded (hook_demo_user 1)) (mem_empty, 0) = (r, (s1, w1))"
    by (metis prod_cases3)
  have "snd (snd (hook_event mem_redis 0 demo_printing failing_hooks (SawAdded (hook_demo_user 1)) (mem_empty, 0))) = 1" by code_simp
  with r have "w1 = 1" by simp
  with r failed_hooks_are_not_retried [OF mem_server.redis_server_axioms disjI1 [OF refl] disjI1 [OF refl] r] show ?thesis by simp
qed

end
