(* ===== verification/UserOperator.thy ===== *)
theory UserOperator
  imports Users Clients
begin

text \<open>
  The operator of OIDCUser resources, \<^verbatim>\<open>src/operators/kube-oidc-user-operator.js\<close>, with
  \<open>replaceUserLabels\<close> of \<^verbatim>\<open>src/services/kube-oidc-user-service.js\<close> and the calls of
  \<^verbatim>\<open>src/adapters/kubernetes.js\<close> that only the operators use: the JSON patch, events, and the
  dispatch of what a watch reports. Requests for the reconcile of addresses coalesce; the model
  follows the promise and the pending flag through its life, event by event.
\<close>

subsection \<open>Calls of the adapter\<close>

text \<open>A patch is the difference of the existing and the new value, sent to the server;
  \<open>delta\<close> is the library's difference, \<open>send\<close> the call.\<close>

definition patchNamespacedCustomObject ::
  "('v \<Rightarrow> 'v \<Rightarrow> 'p list) \<Rightarrow> (string \<Rightarrow> 'p list \<Rightarrow> 'w \<Rightarrow> (nat + 'o) \<times> 'w) \<Rightarrow> ('o \<Rightarrow> 'a) \<Rightarrow> string \<Rightarrow> 'v \<Rightarrow> 'v \<Rightarrow> 'w
     \<Rightarrow> 'a outcome \<times> 'w" where
  "patchNamespacedCustomObject delta send mapper i v existing w =
     (let (r, w') = send i (delta existing v) w in (answer mapper r, w'))"

record owner_metadata =
  om_kind :: string
  om_name :: string
  om_uid :: string
  om_apiVersion :: string

definition KubeOwnerMetadata :: "string \<Rightarrow> string \<Rightarrow> string \<Rightarrow> string \<Rightarrow> string \<Rightarrow> owner_metadata" where
  "KubeOwnerMetadata kind name uid apiGroup apiGroupVersion =
     \<lparr>om_kind = kind, om_name = name, om_uid = uid, om_apiVersion = apiGroup @ ''/'' @ apiGroupVersion\<rparr>"

record cluster_event =
  ce_generateName :: string
  ce_namespace :: string
  ce_object :: owner_metadata
  ce_reason :: string
  ce_message :: string
  ce_type :: string
  ce_component :: string
  ce_firstTimestamp :: string
  ce_lastTimestamp :: string
  ce_count :: nat

definition event_body :: "string \<Rightarrow> string \<Rightarrow> string \<Rightarrow> owner_metadata \<Rightarrow> string \<Rightarrow> string \<Rightarrow> string \<Rightarrow> cluster_event" where
  "event_body inst now namespace obj reason message type =
     \<lparr>ce_generateName = om_name obj @ ''-'', ce_namespace = namespace, ce_object = obj, ce_reason = reason,
      ce_message = message, ce_type = type, ce_component = inst, ce_firstTimestamp = now, ce_lastTimestamp = now, ce_count = 1\<rparr>"

text \<open>What one report of a watch calls; a report of a failure throws (\<open>Inl\<close>), an object of a
  namespace that is not selected is passed over.\<close>

datatype callback = OnAdded | OnModified | OnDeleted

definition watch_reports ::
  "(string \<Rightarrow> string \<Rightarrow> bool) \<Rightarrow> namespace_filter \<Rightarrow> bool \<Rightarrow> string \<Rightarrow> string \<Rightarrow> unit + callback option" where
  "watch_reports glob f failed type namespace =
     (if failed then Inl ()
      else if \<not> namespace_selected glob f namespace then Inr None
      else if type = ''ADDED'' then Inr (Some OnAdded)
      else if type = ''MODIFIED'' then Inr (Some OnModified)
      else if type = ''DELETED'' then Inr (Some OnDeleted)
      else Inr None)"

definition watch_path :: "namespace_filter \<Rightarrow> string \<Rightarrow> string \<Rightarrow> string \<Rightarrow> string" where
  "watch_path f apiGroup apiGroupVersion kind =
     (if truthy (nf_namespace f)
      then ''/apis/'' @ apiGroup @ ''/'' @ apiGroupVersion @ ''/namespaces/'' @ tmpl (nf_namespace f)
      else ''/apis/'' @ apiGroup @ ''/'' @ apiGroupVersion) @ ''/'' @ kind"

subsection \<open>The queue of the reconcile of addresses\<close>

text \<open>The life of \<open>reconcileEmailPromise\<close>: there is none, its loop is in a reconcile, or the loop
  has ended and \<open>finally\<close> is still to run. \<open>eq_pending\<close> is the flag. The rest is history the
  code does not keep: how many reconciles started, the requests no reconcile has started for,
  each as the number of reconciles that had started when it came, and the requests with the
  reconcile that serves them.\<close>

datatype email_phase = Idle | Reconciling | Finishing

record email_queue =
  eq_phase :: email_phase
  eq_pending :: bool
  eq_runs :: nat
  eq_waiting :: "nat list"
  eq_served :: "(nat \<times> nat) list"

definition no_requests :: email_queue where
  "no_requests = \<lparr>eq_phase = Idle, eq_pending = False, eq_runs = 0, eq_waiting = [], eq_served = []\<rparr>"

text \<open>The loop starts a reconcile: the flag is cleared first.\<close>

definition start_reconcile :: "email_queue \<Rightarrow> email_queue" where
  "start_reconcile q = q\<lparr>eq_phase := Reconciling, eq_pending := False, eq_runs := Suc (eq_runs q),
     eq_served := eq_served q @ map (\<lambda>r. (r, Suc (eq_runs q))) (eq_waiting q), eq_waiting := []\<rparr>"

definition request_noted :: "email_queue \<Rightarrow> email_queue" where
  "request_noted q = q\<lparr>eq_waiting := eq_waiting q @ [eq_runs q]\<rparr>"

definition scheduleEmailReconcile :: "email_queue \<Rightarrow> email_queue" where
  "scheduleEmailReconcile q0 = (let q = request_noted q0 in
     if eq_phase q \<noteq> Idle then q\<lparr>eq_pending := True\<rparr> else start_reconcile q)"

text \<open>A reconcile ends, whether it threw or not.\<close>

definition reconcile_ends :: "email_queue \<Rightarrow> email_queue" where
  "reconcile_ends q = (if eq_pending q then start_reconcile q else q\<lparr>eq_phase := Finishing\<rparr>)"

definition loop_finally :: "email_queue \<Rightarrow> email_queue" where
  "loop_finally q = (let q' = q\<lparr>eq_phase := Idle\<rparr> in if eq_pending q' then start_reconcile q' else q')"

inductive email_step :: "email_queue \<Rightarrow> email_queue \<Rightarrow> bool" where
  requested: "email_step q (scheduleEmailReconcile q)"
| ended: "eq_phase q = Reconciling \<Longrightarrow> email_step q (reconcile_ends q)"
| finally_runs: "eq_phase q = Finishing \<Longrightarrow> email_step q (loop_finally q)"

inductive_cases email_stepE: "email_step q q'"

inductive email_reachable :: "email_queue \<Rightarrow> bool" where
  reach_start: "email_reachable no_requests"
| reach_step: "email_reachable q \<Longrightarrow> email_step q q' \<Longrightarrow> email_reachable q'"

text \<open>What happens when no further request comes.\<close>

definition work_left :: "email_queue \<Rightarrow> nat" where
  "work_left q = (case eq_phase q of
     Idle \<Rightarrow> 0 | Finishing \<Rightarrow> if eq_pending q then 3 else 1 | Reconciling \<Rightarrow> if eq_pending q then 3 else 2)"

function drain :: "email_queue \<Rightarrow> email_queue" where
  "drain q = (case eq_phase q of
     Idle \<Rightarrow> q | Reconciling \<Rightarrow> drain (reconcile_ends q) | Finishing \<Rightarrow> drain (loop_finally q))"
  by pat_completeness auto
termination
  by (relation "measure work_left")
    (auto simp: work_left_def reconcile_ends_def loop_finally_def start_reconcile_def)

declare drain.simps [simp del]

subsection \<open>The callbacks of the watch\<close>

record ('p, 'w) label_calls =
  lb_delta :: "labels \<Rightarrow> labels \<Rightarrow> 'p list"
  lb_send :: "string \<Rightarrow> 'p list \<Rightarrow> 'w \<Rightarrow> (nat + user_resource) \<times> 'w"

definition replaceUserLabels :: "deployment \<Rightarrow> ('p, 'w) label_calls \<Rightarrow> account \<Rightarrow> 'w \<Rightarrow> account outcome \<times> 'w" where
  "replaceUserLabels D L a w = patchNamespacedCustomObject (lb_delta L) (lb_send L) (fromKubernetes D)
     (accountId a) (a_labels a) (a_labels a) w"

definition claimOIDCUser ::
  "deployment \<Rightarrow> tos_document option \<Rightarrow> 'w user_calls \<Rightarrow> ('p, 'w) label_calls \<Rightarrow> string \<Rightarrow> account
     \<Rightarrow> email_queue \<times> 'w \<Rightarrow> email_queue \<times> 'w" where
  "claimOIDCUser D doc U L inst a = (\<lambda>(q, w).
     let a1 = setLabels (claimedBy_labels inst True) a;
         (r1, w1) = replaceUserLabels D L a1 w;
         (r2, w2) = reconcileUserStatus D doc U (accountId a1) w1 in
     (scheduleEmailReconcile q, w2))"

definition updateOIDCUser ::
  "deployment \<Rightarrow> tos_document option \<Rightarrow> 'w user_calls \<Rightarrow> string \<Rightarrow> account \<Rightarrow> email_queue \<times> 'w \<Rightarrow> email_queue \<times> 'w" where
  "updateOIDCUser D doc U inst a = (\<lambda>(q, w).
     if m_lastManager (a_metadata a) \<noteq> Some inst
     then (let (r, w1) = reconcileUserStatus D doc U (accountId a) w in (scheduleEmailReconcile q, w1))
     else (q, w))"

definition user_callback ::
  "deployment \<Rightarrow> tos_document option \<Rightarrow> 'w user_calls \<Rightarrow> ('p, 'w) label_calls \<Rightarrow> string \<Rightarrow> callback \<Rightarrow> user_resource
     \<Rightarrow> email_queue \<times> 'w \<Rightarrow> email_queue \<times> 'w" where
  "user_callback D doc U L inst c r = (case c of
     OnAdded \<Rightarrow> claimOIDCUser D doc U L inst (fromKubernetes D r)
   | OnModified \<Rightarrow> updateOIDCUser D doc U inst (fromKubernetes D r)
   | OnDeleted \<Rightarrow> (\<lambda>(q, w). (scheduleEmailReconcile q, w)))"

text \<open>The reconcile in flight runs over the cluster and then ends; its error is only logged.\<close>

definition run_reconcile ::
  "deployment \<Rightarrow> tos_document option \<Rightarrow> 'w user_calls \<Rightarrow> string \<Rightarrow> email_queue \<times> 'w \<Rightarrow> email_queue \<times> 'w" where
  "run_reconcile D doc U now = (\<lambda>(q, w). (reconcile_ends q, snd (reconcileEmailUniqueness D doc U now w)))"

subsection \<open>Invariant of the queue\<close>

definition queue_ok :: "email_queue \<Rightarrow> bool" where
  "queue_ok q \<longleftrightarrow> (eq_pending q \<longleftrightarrow> eq_waiting q \<noteq> []) \<and> (eq_phase q = Idle \<longrightarrow> \<not> eq_pending q)
     \<and> (\<forall>r \<in> set (eq_waiting q). r = eq_runs q) \<and> (\<forall>(r, k) \<in> set (eq_served q). k = Suc r \<and> k \<le> eq_runs q)"

named_theorems queue_ops "the steps of the queue, unfolded"

lemmas queue_defs [queue_ops] = scheduleEmailReconcile_def request_noted_def reconcile_ends_def loop_finally_def
  start_reconcile_def Let_def

lemma queue_ok_step: "email_step q q' \<Longrightarrow> queue_ok q \<Longrightarrow> queue_ok q'"
  by (erule email_stepE) (auto simp: queue_ok_def queue_ops)

lemma queue_ok_reachable: "email_reachable q \<Longrightarrow> queue_ok q"
  by (induction rule: email_reachable.induct)
    (simp add: queue_ok_def no_requests_def, blast intro: queue_ok_step)

definition requests_of :: "email_queue \<Rightarrow> nat" where
  "requests_of q = length (eq_waiting q) + length (eq_served q)"

lemma drain_settles:
  "queue_ok q \<Longrightarrow> eq_phase (drain q) = Idle \<and> queue_ok (drain q) \<and> requests_of (drain q) = requests_of q
     \<and> eq_runs (drain q) = eq_runs q + (if eq_pending q then 1 else 0)"
proof (induction q rule: drain.induct)
  case (1 q)
  show ?case
  proof (cases "eq_phase q")
    case Idle
    with 1(3) show ?thesis by (auto simp: drain.simps [of q] queue_ok_def)
  next
    case Reconciling
    have "queue_ok (reconcile_ends q)" using 1(3) queue_ok_step [OF email_step.ended [OF Reconciling]] by simp
    with 1(1) [OF Reconciling] Reconciling show ?thesis
      by (auto simp: drain.simps [of q] queue_ops requests_of_def)
  next
    case Finishing
    have "queue_ok (loop_finally q)" using 1(3) queue_ok_step [OF email_step.finally_runs [OF Finishing]] by simp
    with 1(2) [OF Finishing] Finishing show ?thesis
      by (auto simp: drain.simps [of q] queue_ops requests_of_def)
  qed
qed

subsection \<open>Properties\<close>

text \<open>
  C21: The reconcile of addresses settles. In every state that requests, ends of reconciles and
  \<open>finally\<close> can reach, once no further request comes the queue becomes idle, after the reconcile in
  flight and, only where requests came since it started, exactly one more; by then every request
  has been served by a reconcile that started after it, the very next one to start.
\<close>

theorem email_reconcile_settles:
  assumes "email_reachable q"
  shows "eq_phase (drain q) = Idle \<and> \<not> eq_pending (drain q)
      \<and> eq_runs (drain q) = eq_runs q + (if eq_pending q then 1 else 0)
      \<and> eq_waiting (drain q) = [] \<and> length (eq_served (drain q)) = requests_of q
      \<and> (\<forall>(r, k) \<in> set (eq_served (drain q)). k = Suc r \<and> k \<le> eq_runs (drain q))"
  using drain_settles [OF queue_ok_reachable [OF assms]] by (auto simp: queue_ok_def requests_of_def)

text \<open>The label of an account that Passmower did not create itself is never written: the existing
  and the new labels of the patch are the same. A library whose difference of equal values is
  empty, and a server that an empty patch leaves alone, are all this takes.\<close>

lemma claim_writes_no_label:
  assumes "\<And>l. lb_delta L l l = []" and "\<And>i w. snd (lb_send L i [] w) = w"
  shows "snd (replaceUserLabels D L a w) = w"
    and "claimOIDCUser D doc U L inst a (q, w) =
      (scheduleEmailReconcile q, snd (reconcileUserStatus D doc U (accountId a) w))"
proof -
  show 1: "snd (replaceUserLabels D L a w) = w" for a
    using assms by (simp add: replaceUserLabels_def patchNamespacedCustomObject_def case_prod_beta)
  show "claimOIDCUser D doc U L inst a (q, w) =
      (scheduleEmailReconcile q, snd (reconcileUserStatus D doc U (accountId a) w))"
    by (simp add: claimOIDCUser_def Let_def case_prod_beta 1 setLabels_def)
qed

subsection \<open>Witnesses\<close>

definition busy_queue :: email_queue where
  "busy_queue = scheduleEmailReconcile (scheduleEmailReconcile (reconcile_ends (scheduleEmailReconcile no_requests)))"

theorem email_reconcile_settles_witness:
  "eq_phase busy_queue = Finishing \<and> eq_pending busy_queue \<and> eq_runs (drain busy_queue) = 2
     \<and> eq_phase (drain busy_queue) = Idle"
proof -
  have "email_reachable (scheduleEmailReconcile no_requests)"
    by (rule reach_step [OF reach_start email_step.requested])
  moreover have "eq_phase (scheduleEmailReconcile no_requests) = Reconciling"
    by (simp add: queue_ops no_requests_def)
  ultimately have "email_reachable (reconcile_ends (scheduleEmailReconcile no_requests))"
    by (blast intro: reach_step email_step.ended)
  then have r: "email_reachable busy_queue"
    unfolding busy_queue_def by (blast intro: reach_step email_step.requested)
  have q: "eq_phase busy_queue = Finishing" "eq_pending busy_queue" "eq_runs busy_queue = 1"
    by (simp_all add: busy_queue_def queue_ops no_requests_def)
  with email_reconcile_settles [OF r] show ?thesis by simp
qed

end
