(* ===== verification/IngressDiscovery.thy ===== *)
theory IngressDiscovery
  imports UserOperator ClientOperator Effects
begin

text \<open>
  Enrolment of applications from Ingress annotations:
  \<^verbatim>\<open>src/operators/kube-ingress-discovery-operator.js\<close> and
  \<^verbatim>\<open>src/utils/kubernetes/ingress-oidc-client.js\<close>. An annotated Ingress gets an OIDCClient of its
  name. The spec of a client is kept as the JSON members the operator reads and writes, in order.
  The calls on the cluster are parameters, with what the API documents of them in \<open>client_store\<close>.
\<close>

subsection \<open>What the annotations describe\<close>

definition ANNOTATION_PREFIX :: string where
  "ANNOTATION_PREFIX = ''codemowers.io/oidc-''"

definition annotation :: "string \<Rightarrow> string" where
  "annotation suffix = ANNOTATION_PREFIX @ suffix"

definition DISCOVERED_BY_LABEL :: string where
  "DISCOVERED_BY_LABEL = ''codemowers.cloud/discovered-from''"

definition comma_list :: "string option \<Rightarrow> string list" where
  "comma_list v = filter (\<lambda>x. x \<noteq> []) (map trim (split_on CHR '','' (null_or v [])))"

definition listed :: "ingress \<Rightarrow> string \<Rightarrow> string list" where
  "listed g suffix = comma_list (map_of (ing_annotations g) (annotation suffix))"

definition requestsDiscovery :: "ingress \<Rightarrow> bool" where
  "requestsDiscovery g = list_ex (\<lambda>(k, _). starts_with ANNOTATION_PREFIX k) (ing_annotations g)"

definition discoveryProblems :: "ingress \<Rightarrow> ingress_problem list" where
  "discoveryProblems g = (let hosts = hostsOf g in
     (if hosts = [] then [NoHost] else if length hosts > 1 then [SeveralHosts hosts] else [])
     @ (if listed g ''redirect-path'' = [] then [NoRedirectPath] else []))"

definition strings :: "string list \<Rightarrow> json" where
  "strings xs = JArr (map JStr xs)"

definition listed_or :: "ingress \<Rightarrow> string \<Rightarrow> string \<Rightarrow> json" where
  "listed_or g suffix d = strings (if listed g suffix \<noteq> [] then listed g suffix else [d])"

text \<open>\<open>None\<close> where a redirect path is no URL and \<open>new URL\<close> throws.\<close>

definition oidcClientSpecFor :: "(string \<Rightarrow> string \<Rightarrow> string option) \<Rightarrow> ingress \<Rightarrow> (string \<times> json) list option" where
  "oidcClientSpecFor resolve_url g = (let host = tmpl (if hostsOf g = [] then None else Some (hd (hostsOf g))) in
     map_option (\<lambda>uris.
       [(''displayName'', JStr (null_or (map_of (ing_annotations g) (annotation ''display-name'')) (ing_name g))),
        (''uri'', JStr (''https://'' @ host @ ''/'')),
        (''redirectUris'', strings uris),
        (''grantTypes'', listed_or g ''grant-types'' ''authorization_code''),
        (''responseTypes'', listed_or g ''response-types'' ''code''),
        (''availableScopes'', listed_or g ''available-scopes'' ''openid'')]
       @ (if listed g ''allowed-groups'' \<noteq> [] then [(''allowedGroups'', strings (listed g ''allowed-groups''))] else [])
       @ (if listed g ''allowed-users'' \<noteq> [] then [(''allowedUsers'', strings (listed g ''allowed-users''))] else []))
     (resolve_paths resolve_url (''https://'' @ host) (listed g ''redirect-path'')))"

definition discovered_label :: "ingress \<Rightarrow> string" where
  "discovered_label g = ''Ingress.'' @ ing_name g"

definition discoveredClientLabels :: "ingress \<Rightarrow> labels" where
  "discoveredClientLabels g =
     [(''app.kubernetes.io/managed-by'', ''passmower''), (DISCOVERED_BY_LABEL, discovered_label g)]"

record found_client =
  fc_name :: string
  fc_labels :: labels
  fc_spec :: "(string \<times> json) list"

definition isDiscoveredFrom :: "found_client \<Rightarrow> ingress \<Rightarrow> bool" where
  "isDiscoveredFrom c g = (map_of (fc_labels c) DISCOVERED_BY_LABEL = Some (discovered_label g))"

subsection \<open>The operator\<close>

text \<open>What is reported on the Ingress.\<close>

datatype discovery_report =
    ClientRemoved | ClientConflict | CannotDerive "ingress_problem list"
  | CreateRefused | ClientCreated string | UpdateRefused | ClientUpdated string

fun report_reason :: "discovery_report \<Rightarrow> string" where
  "report_reason ClientRemoved = ''OIDCClientRemoved''"
| "report_reason ClientConflict = ''OIDCClientConflict''"
| "report_reason (ClientCreated _) = ''OIDCClientDiscovered''"
| "report_reason (ClientUpdated _) = ''OIDCClientDiscovered''"
| "report_reason _ = ''IngressDiscoveryFailed''"

fun report_type :: "discovery_report \<Rightarrow> string" where
  "report_type ClientRemoved = ''Normal''"
| "report_type (ClientCreated _) = ''Normal''"
| "report_type (ClientUpdated _) = ''Normal''"
| "report_type _ = ''Warning''"

fun problem_message :: "(nat \<Rightarrow> string) \<Rightarrow> ingress_problem \<Rightarrow> string" where
  "problem_message dec NoHost = ''no host in spec.rules to build a redirect URI from''"
| "problem_message dec (SeveralHosts hosts) = dec (length hosts) @ '' hosts in spec.rules; discovery supports one (''
     @ join_with '', '' hosts @ '')''"
| "problem_message dec NoRedirectPath = annotation ''redirect-path'' @ '' is required''"
| "problem_message dec NoSuchIngress = []"

fun report_message :: "(nat \<Rightarrow> string) \<Rightarrow> string \<Rightarrow> discovery_report \<Rightarrow> string" where
  "report_message dec n ClientRemoved = ''Removed generated OIDCClient '' @ n @ '': no codemowers.io/oidc-* annotations remain''"
| "report_message dec n ClientConflict = ''OIDCClient '' @ n
     @ '' already exists and was not discovered from this Ingress; not modifying it''"
| "report_message dec n (CannotDerive ps) = ''Cannot derive an OIDCClient: '' @ join_with ''; '' (map (problem_message dec) ps)"
| "report_message dec n CreateRefused = ''Failed to create OIDCClient '' @ n"
| "report_message dec n (ClientCreated uri) = ''Created OIDCClient '' @ n @ '' for '' @ uri"
| "report_message dec n UpdateRefused = ''Failed to update OIDCClient '' @ n"
| "report_message dec n (ClientUpdated uri) = ''Updated OIDCClient '' @ n @ '' for '' @ uri"

text \<open>\<open>dv_reconcile\<close> is the client operator, \<open>None\<close> where there is none; it may throw. The client of
  a create or a patch is only asked whether it is there.\<close>

record 'w discovery_calls =
  dv_get :: "string \<Rightarrow> string \<Rightarrow> 'w \<Rightarrow> found_client outcome \<times> 'w"
  dv_list :: "string \<Rightarrow> 'w \<Rightarrow> found_client list outcome \<times> 'w"
  dv_delete :: "string \<Rightarrow> string \<Rightarrow> 'w \<Rightarrow> bool \<times> 'w"
  dv_create :: "string \<Rightarrow> string \<Rightarrow> (string \<times> json) list \<Rightarrow> owner_metadata \<Rightarrow> labels \<Rightarrow> 'w \<Rightarrow> found_client outcome \<times> 'w"
  dv_patch :: "string \<Rightarrow> string \<Rightarrow> (string \<times> json) list \<Rightarrow> (string \<times> json) list \<Rightarrow> 'w \<Rightarrow> found_client outcome \<times> 'w"
  dv_event :: "string \<Rightarrow> owner_metadata \<Rightarrow> string \<Rightarrow> string \<Rightarrow> string \<Rightarrow> 'w \<Rightarrow> unit \<times> 'w"
  dv_reconcile :: "(string \<Rightarrow> string \<Rightarrow> 'w \<Rightarrow> (unit + bool) \<times> 'w) option"

record discovery_env =
  de_resolve :: "string \<Rightarrow> string \<Rightarrow> string option"
  de_decimal :: "nat \<Rightarrow> string"

definition ingress_owner :: "ingress \<Rightarrow> owner_metadata" where
  "ingress_owner g = KubeOwnerMetadata ''Ingress'' (ing_name g) (ing_uid g) ''networking.k8s.io'' ''v1''"

definition report :: "discovery_env \<Rightarrow> 'w discovery_calls \<Rightarrow> ingress \<Rightarrow> discovery_report \<Rightarrow> ('w, unit, unit) effect" where
  "report V K g r = e_call (dv_event K (ing_namespace g) (ingress_owner g) (report_reason r)
     (report_message (de_decimal V) (ing_name g) r) (report_type r))"

definition spec_uri :: "(string \<times> json) list \<Rightarrow> string" where
  "spec_uri spec = (case map_of spec ''uri'' of Some (JStr u) \<Rightarrow> u | _ \<Rightarrow> ''undefined'')"

definition createClient :: "discovery_env \<Rightarrow> 'w discovery_calls \<Rightarrow> ingress \<Rightarrow> (string \<times> json) list \<Rightarrow> ('w, unit, unit) effect" where
  "createClient V K g spec =
     e_then (e_call (dv_create K (ing_namespace g) (ing_name g) spec (ingress_owner g) (discoveredClientLabels g))) (\<lambda>r.
     if found r = None then report V K g CreateRefused else report V K g (ClientCreated (spec_uri spec)))"

definition patchClient ::
  "discovery_env \<Rightarrow> 'w discovery_calls \<Rightarrow> ingress \<Rightarrow> found_client \<Rightarrow> (string \<times> json) list \<Rightarrow> ('w, unit, unit) effect" where
  "patchClient V K g existing spec = (let desired = js_assign (fc_spec existing) spec in
     if desired = fc_spec existing then e_return ()
     else e_then (e_call (dv_patch K (ing_namespace g) (ing_name g) desired (fc_spec existing))) (\<lambda>r.
       if found r = None then report V K g UpdateRefused else report V K g (ClientUpdated (spec_uri spec))))"

text \<open>\<open>try \<dots> catch\<close>: the error is logged.\<close>

definition logged :: "('w, 'e, 'a) effect \<Rightarrow> ('w, 'e, unit) effect" where
  "logged m = (\<lambda>w. (Inr (), snd (m w)))"

definition references :: "ingress \<Rightarrow> found_client \<Rightarrow> bool" where
  "references g c = (case map_of (fc_spec c) ''ingressRef'' of
     Some r \<Rightarrow> field ''name'' (Some r) = Some (JStr (ing_name g)) | None \<Rightarrow> False)"

definition reconcileReferencingClients :: "'w discovery_calls \<Rightarrow> ingress \<Rightarrow> ('w, unit, unit) effect" where
  "reconcileReferencingClients K g = (case dv_reconcile K of
     None \<Rightarrow> e_return ()
   | Some op \<Rightarrow> logged (e_then (e_call (dv_list K (ing_namespace g))) (\<lambda>clients.
       e_each (filter (references g) (list_or_empty (found clients))) True
         (\<lambda>c _. e_try () (op (ing_namespace g) (fc_name c))))))"

text \<open>The two halves of the body: what to do with the client found, and finding it.\<close>

definition discover_with :: "discovery_env \<Rightarrow> 'w discovery_calls \<Rightarrow> ingress \<Rightarrow> found_client option \<Rightarrow> ('w, unit, unit) effect" where
  "discover_with V K g existing =
     (if \<not> requestsDiscovery g then
       (case existing of
          Some c \<Rightarrow> if isDiscoveredFrom c g
            then e_then (e_call (dv_delete K (ing_namespace g) (ing_name g))) (\<lambda>_. report V K g ClientRemoved)
            else e_return ()
        | None \<Rightarrow> e_return ())
     else if existing \<noteq> None \<and> \<not> isDiscoveredFrom (the existing) g then report V K g ClientConflict
     else if discoveryProblems g \<noteq> [] then report V K g (CannotDerive (discoveryProblems g))
     else e_then (e_get () (oidcClientSpecFor (de_resolve V) g)) (\<lambda>spec. case existing of
            Some c \<Rightarrow> patchClient V K g c spec
          | None \<Rightarrow> createClient V K g spec))"

definition discover_client :: "discovery_env \<Rightarrow> 'w discovery_calls \<Rightarrow> ingress \<Rightarrow> ('w, unit, unit) effect" where
  "discover_client V K g =
     e_then (e_call (dv_get K (ing_namespace g) (ing_name g))) (\<lambda>r. discover_with V K g (found r))"

definition reconcileIngress :: "discovery_env \<Rightarrow> 'w discovery_calls \<Rightarrow> ingress \<Rightarrow> ('w, unit, unit) effect" where
  "reconcileIngress V K g =
     (if ing_namespace g = [] \<or> ing_name g = [] then e_return ()
      else e_then (reconcileReferencingClients K g) (\<lambda>_. logged (discover_client V K g)))"

definition ingress_callback :: "discovery_env \<Rightarrow> 'w discovery_calls \<Rightarrow> callback \<Rightarrow> ingress \<Rightarrow> ('w, unit, unit) effect" where
  "ingress_callback V K c g = (case c of OnDeleted \<Rightarrow> e_return () | _ \<Rightarrow> reconcileIngress V K g)"

subsection \<open>Clients of the cluster\<close>

text \<open>What is documented of the calls, over the clients \<open>at\<close> a namespace and a name: a read changes
  nothing and answers with the stored client; a create never overwrites and stores the given spec
  and at least the given labels; a patch applies to a client with the existing spec; events change
  no client. The client operator writes no spec and no label (only status, Secret and store). No
  other writer comes between the calls of one reconcile.\<close>

locale client_store =
  fixes at :: "'w \<Rightarrow> string \<times> string \<Rightarrow> found_client option" and K :: "'w discovery_calls"
  assumes get_reads: "dv_get K ns n w = (r, w') \<Longrightarrow> at w' = at w \<and> (\<forall>c. r = Found c \<longrightarrow> at w (ns, n) = Some c)"
    and list_reads: "dv_list K ns w = (rs, w') \<Longrightarrow> at w' = at w"
    and deletes: "dv_delete K ns n w = (b, w') \<Longrightarrow> at w' = at w \<or> at w' = (at w)((ns, n) := None)"
    and creates: "dv_create K ns n spec own ls w = (r, w') \<Longrightarrow> at w' = at w \<or> (at w (ns, n) = None \<and>
      (\<exists>c. at w' = (at w)((ns, n) \<mapsto> c) \<and> fc_spec c = spec \<and> (\<forall>k v. map_of ls k = Some v \<longrightarrow> map_of (fc_labels c) k = Some v)))"
    and patches: "dv_patch K ns n desired existing w = (r, w') \<Longrightarrow> at w' = at w \<or>
      (\<exists>c. at w (ns, n) = Some c \<and> fc_spec c = existing \<and> at w' = (at w)((ns, n) \<mapsto> c\<lparr>fc_spec := desired\<rparr>))"
    and events: "dv_event K ns own reason message type w = (u, w') \<Longrightarrow> at w' = at w"
    and reconciles: "dv_reconcile K = Some op \<Longrightarrow> op ns n w = (e, w') \<Longrightarrow> at w' = at w"

text \<open>What one reconcile of an Ingress may make of the clients it found.\<close>

definition discovery_change ::
  "(string \<Rightarrow> string \<Rightarrow> string option) \<Rightarrow> ingress \<Rightarrow> found_client option \<Rightarrow> found_client option \<Rightarrow> bool" where
  "discovery_change resolve_url g before after \<longleftrightarrow> after = before
     \<or> (\<exists>c. before = Some c \<and> isDiscoveredFrom c g \<and> after = None \<and> \<not> requestsDiscovery g)
     \<or> (\<exists>c spec. after = Some c \<and> isDiscoveredFrom c g \<and> requestsDiscovery g \<and> discoveryProblems g = []
          \<and> oidcClientSpecFor resolve_url g = Some spec
          \<and> (case before of None \<Rightarrow> fc_spec c = spec
             | Some b \<Rightarrow> isDiscoveredFrom b g \<and> c = b\<lparr>fc_spec := js_assign (fc_spec b) spec\<rparr>))"

context client_store
begin

definition discovered :: "(string \<Rightarrow> string \<Rightarrow> string option) \<Rightarrow> ingress \<Rightarrow> (string \<times> string \<Rightarrow> found_client option) \<Rightarrow> 'w \<Rightarrow> bool" where
  "discovered U g before w \<longleftrightarrow> (let k = (ing_namespace g, ing_name g) in
     discovery_change U g (before k) (at w k) \<and> (\<forall>k'. k' \<noteq> k \<longrightarrow> at w k' = before k'))"

lemma discovered_cong: "at w' = at w \<Longrightarrow> discovered U g before w' = discovered U g before w"
  by (simp add: discovered_def)

lemma discovered_same: "at w = before \<Longrightarrow> discovered U g before w"
  by (simp add: discovered_def discovery_change_def)

lemma stays_report: "stays (discovered U g before) (report V K g r)"
  unfolding report_def by (rule stays_call) (use discovered_cong events in blast)

lemma stays_discovered:
  assumes "stays (discovered U g before) m"
  shows "runs (discovered U g before) m (\<lambda>_. discovered U g before) (discovered U g before)"
  using assms by (simp add: stays_def)

lemma label_kept:
  "\<forall>k v. map_of (discoveredClientLabels g) k = Some v \<longrightarrow> m k = Some v \<Longrightarrow> m DISCOVERED_BY_LABEL = Some (discovered_label g)"
  by (simp add: discoveredClientLabels_def DISCOVERED_BY_LABEL_def)

lemma create_discovers:
  assumes "requestsDiscovery g" "discoveryProblems g = []" "oidcClientSpecFor U g = Some spec"
  shows "runs (\<lambda>w. at w = before) (createClient V K g spec) (\<lambda>_. discovered U g before) (discovered U g before)"
  unfolding createClient_def
proof (rule runs_then)
  show "runs (\<lambda>w. at w = before) (e_call (dv_create K (ing_namespace g) (ing_name g) spec (ingress_owner g)
      (discoveredClientLabels g))) (\<lambda>_. discovered U g before) (discovered U g before)"
  proof (rule runs_call)
    fix w x w' assume "at w = before" and "dv_create K (ing_namespace g) (ing_name g) spec (ingress_owner g)
      (discoveredClientLabels g) w = (x, w')"
    from creates [OF this(2)] this(1) show "discovered U g before w'"
      using assms label_kept by (auto simp: discovered_same discovered_def discovery_change_def isDiscoveredFrom_def)
  qed
next
  fix r
  show "runs (discovered U g before) (if found r = None then report V K g CreateRefused
      else report V K g (ClientCreated (spec_uri spec))) (\<lambda>_. discovered U g before) (discovered U g before)"
    by (rule stays_discovered) (simp add: stays_report)
qed

lemma patch_discovers:
  assumes "before (ing_namespace g, ing_name g) = Some c" "isDiscoveredFrom c g"
    and "requestsDiscovery g" "discoveryProblems g = []" "oidcClientSpecFor U g = Some spec"
  shows "runs (\<lambda>w. at w = before) (patchClient V K g c spec) (\<lambda>_. discovered U g before) (discovered U g before)"
proof -
  have p: "runs (\<lambda>w. at w = before) (e_call (dv_patch K (ing_namespace g) (ing_name g) (js_assign (fc_spec c) spec) (fc_spec c)))
      (\<lambda>_. discovered U g before) (discovered U g before)"
  proof (rule runs_call)
    fix w x w' assume "at w = before" and "dv_patch K (ing_namespace g) (ing_name g) (js_assign (fc_spec c) spec) (fc_spec c) w = (x, w')"
    from patches [OF this(2)] this(1) show "discovered U g before w'"
      using assms by (auto simp: discovered_same discovered_def discovery_change_def isDiscoveredFrom_def)
  qed
  show ?thesis
    unfolding patchClient_def Let_def
    by (cases "js_assign (fc_spec c) spec = fc_spec c")
      (simp_all add: runs_return discovered_same runs_then [OF p stays_discovered] stays_report)
qed

lemma delete_discovers:
  assumes "before (ing_namespace g, ing_name g) = Some c" "isDiscoveredFrom c g" "\<not> requestsDiscovery g"
  shows "runs (\<lambda>w. at w = before) (e_then (e_call (dv_delete K (ing_namespace g) (ing_name g))) (\<lambda>_. report V K g ClientRemoved))
    (\<lambda>_. discovered U g before) (discovered U g before)"
proof (rule runs_then [OF runs_call stays_discovered])
  fix w x w' assume "at w = before" and "dv_delete K (ing_namespace g) (ing_name g) w = (x, w')"
  from deletes [OF this(2)] this(1) show "discovered U g before w'"
    using assms by (auto simp: discovered_same discovered_def discovery_change_def)
qed (rule stays_report)

lemma unchanged_report: "runs (\<lambda>w. at w = before) (report V K g r) (\<lambda>_. discovered U g before) (discovered U g before)"
  by (rule runs_conseq [OF stays_discovered [OF stays_report]]) (simp_all add: discovered_same)

lemma unchanged_return: "runs (\<lambda>w. at w = before) (e_return ()) (\<lambda>_. discovered U g before) (discovered U g before)"
  by (rule runs_return) (simp add: discovered_same)

lemma discover_with_discovers:
  assumes "\<And>c. existing = Some c \<Longrightarrow> before (ing_namespace g, ing_name g) = Some c"
  shows "runs (\<lambda>w. at w = before) (discover_with V K g existing) (\<lambda>_. discovered (de_resolve V) g before)
    (discovered (de_resolve V) g before)"
  using assms
  by (cases "oidcClientSpecFor (de_resolve V) g"; cases existing)
    (simp_all add: discover_with_def e_get_def unchanged_report unchanged_return delete_discovers create_discovers
      patch_discovers runs_throw discovered_same)

lemma discover_client_discovers:
  "runs (\<lambda>w. at w = before) (discover_client V K g) (\<lambda>_. discovered (de_resolve V) g before) (discovered (de_resolve V) g before)"
  unfolding discover_client_def
proof (rule runs_then)
  show "runs (\<lambda>w. at w = before) (e_call (dv_get K (ing_namespace g) (ing_name g)))
      (\<lambda>r w. at w = before \<and> (\<forall>c. found r = Some c \<longrightarrow> before (ing_namespace g, ing_name g) = Some c))
      (discovered (de_resolve V) g before)"
  proof (rule runs_call)
    fix w x w' assume "at w = before" "dv_get K (ing_namespace g) (ing_name g) w = (x, w')"
    with get_reads [OF this(2)] show "at w' = before \<and> (\<forall>c. found x = Some c \<longrightarrow> before (ing_namespace g, ing_name g) = Some c)"
      by (auto simp: found_def split: outcome.splits)
  qed
next
  fix r
  show "runs (\<lambda>w. at w = before \<and> (\<forall>c. found r = Some c \<longrightarrow> before (ing_namespace g, ing_name g) = Some c))
     (discover_with V K g (found r)) (\<lambda>_. discovered (de_resolve V) g before) (discovered (de_resolve V) g before)"
    by (rule runs_fact) (simp add: discover_with_discovers)
qed

lemma references_unchanged: "stays (\<lambda>w. at w = before) (reconcileReferencingClients K g)"
proof (cases "dv_reconcile K")
  case None
  then show ?thesis by (simp add: reconcileReferencingClients_def stays_return)
next
  case (Some op)
  have "stays (\<lambda>w. at w = before) (e_then (e_call (dv_list K (ing_namespace g))) (\<lambda>clients.
       e_each (filter (references g) (list_or_empty (found clients))) True
         (\<lambda>c _. e_try () (op (ing_namespace g) (fc_name c)))))"
    by (rule stays_then [OF stays_call stays_each [OF stays_try]])
      (use list_reads reconciles [OF Some] in \<open>metis+\<close>)
  from stays_end [OF this] Some show ?thesis
    by (simp add: reconcileReferencingClients_def logged_def stays_def runs_def)
qed

lemma reconcile_discovers:
  "runs (\<lambda>w. at w = before) (reconcileIngress V K g) (\<lambda>_. discovered (de_resolve V) g before) (discovered (de_resolve V) g before)"
proof -
  have l: "runs (\<lambda>w. at w = before) (logged (discover_client V K g)) (\<lambda>_. discovered (de_resolve V) g before)
      (discovered (de_resolve V) g before)"
    using discover_client_discovers [of before V g]
    by (simp add: runs_def logged_def) (metis (no_types, lifting) prod.collapse case_prod_conv sum.case_eq_if)
  have r: "runs (\<lambda>w. at w = before) (reconcileReferencingClients K g) (\<lambda>_ w. at w = before)
      (discovered (de_resolve V) g before)"
    by (rule runs_conseq [OF references_unchanged [unfolded stays_def, of before]]) (simp_all add: discovered_same)
  show ?thesis by (simp add: reconcileIngress_def unchanged_return runs_then [OF r l])
qed

end

subsection \<open>A store in memory\<close>

text \<open>The clients by namespace and name, and the reasons of the events, newest first.\<close>

type_synonym client_table = "((string \<times> string) \<times> found_client) list \<times> string list"

definition table_at :: "client_table \<Rightarrow> string \<times> string \<Rightarrow> found_client option" where
  "table_at w = map_of (fst w)"

definition mem_discovery :: "(string \<Rightarrow> string \<Rightarrow> client_table \<Rightarrow> (unit + bool) \<times> client_table) option \<Rightarrow> client_table discovery_calls" where
  "mem_discovery op = \<lparr>
     dv_get = (\<lambda>ns n w. (case table_at w (ns, n) of Some c \<Rightarrow> Found c | None \<Rightarrow> Absent, w)),
     dv_list = (\<lambda>ns w. (Found (map snd (filter (\<lambda>((m, _), _). m = ns) (fst w))), w)),
     dv_delete = (\<lambda>ns n w. (True, (AList.delete (ns, n) (fst w), snd w))),
     dv_create = (\<lambda>ns n spec own ls w. case table_at w (ns, n) of
         Some _ \<Rightarrow> (Failed, w)
       | None \<Rightarrow> (let c = \<lparr>fc_name = n, fc_labels = ls, fc_spec = spec\<rparr> in (Found c, (AList.update (ns, n) c (fst w), snd w)))),
     dv_patch = (\<lambda>ns n desired existing w. case table_at w (ns, n) of
         Some c \<Rightarrow> if fc_spec c = existing
           then (let c' = c\<lparr>fc_spec := desired\<rparr> in (Found c', (AList.update (ns, n) c' (fst w), snd w))) else (Failed, w)
       | None \<Rightarrow> (Absent, w)),
     dv_event = (\<lambda>ns own reason message type w. ((), (fst w, reason # snd w))),
     dv_reconcile = op\<rparr>"

subsection \<open>Properties\<close>

text \<open>
  C28: Discovery owns only what it made. Whatever a reconcile of an Ingress meets, and however its
  calls end, it changes at most the client of the Ingress's own namespace and name; a client there
  that was not discovered from this Ingress stays as it is. A client it creates or updates is
  labelled as its own and has exactly the members its annotations describe, over what the spec had
  before; and it withdraws a client only if it is its own and no annotation remains.
\<close>

theorem discovery_owns_its_clients:
  assumes "client_store at K" and "reconcileIngress V K g w = (r, w')" and "k = (ing_namespace g, ing_name g)"
  shows "(\<forall>k'. k' \<noteq> k \<longrightarrow> at w' k' = at w k')
    \<and> (\<forall>c. at w k = Some c \<and> \<not> isDiscoveredFrom c g \<longrightarrow> at w' k = Some c)
    \<and> (\<forall>c. at w' k = Some c \<and> at w k \<noteq> Some c \<longrightarrow> isDiscoveredFrom c g \<and> requestsDiscovery g \<and> discoveryProblems g = []
        \<and> (\<exists>spec. oidcClientSpecFor (de_resolve V) g = Some spec
             \<and> fc_spec c = (case at w k of None \<Rightarrow> spec | Some b \<Rightarrow> js_assign (fc_spec b) spec)))
    \<and> (at w' k = None \<and> at w k \<noteq> None \<longrightarrow> \<not> requestsDiscovery g)"
proof -
  note d = runs_result [OF client_store.reconcile_discovers [OF assms(1)] refl assms(2)]
  have "client_store.discovered at (de_resolve V) g (at w) w'"
    using d by (cases r) simp_all
  then have c: "discovery_change (de_resolve V) g (at w k) (at w' k)" and o: "\<forall>k'. k' \<noteq> k \<longrightarrow> at w' k' = at w k'"
    using assms(3) by (simp_all add: client_store.discovered_def [OF assms(1)] Let_def)
  from c show ?thesis
    by (intro conjI allI impI) (use o in \<open>auto simp: discovery_change_def split: option.splits\<close>)
qed

text \<open>A restriction whose annotation is removed stays: the members the annotations no longer
  describe are kept from the spec before.\<close>

lemma removed_restriction_stays:
  assumes "listed g ''allowed-users'' = []" and "oidcClientSpecFor U g = Some spec"
  shows "map_of (js_assign old spec) ''allowedUsers'' = map_of old ''allowedUsers''"
  using assms by (auto simp: oidcClientSpecFor_def Let_def intro!: map_of_js_assign_other)

subsection \<open>Witnesses\<close>

definition demo_ingress :: ingress where
  "demo_ingress = \<lparr>ing_name = ''app'', ing_namespace = ''apps'', ing_uid = ''u'',
     ing_annotations = [(''codemowers.io/oidc-redirect-path'', ''/cb''), (''codemowers.io/oidc-allowed-users'', ''ann, bob'')],
     ing_hosts = [Some ''app.x'']\<rparr>"

definition demo_discovery :: discovery_env where
  "demo_discovery = \<lparr>de_resolve = (\<lambda>p b. Some (b @ p)), de_decimal = (\<lambda>n. ''n'')\<rparr>"

definition quiet_operator :: "string \<Rightarrow> string \<Rightarrow> client_table \<Rightarrow> (unit + bool) \<times> client_table" where
  "quiet_operator ns n w = (Inr True, w)"

lemma update_table: "map_of (AList.update k c m) = (map_of m)(k \<mapsto> c)"
  by (simp add: update_conv' fun_eq_iff)

interpretation mem_store: client_store table_at "mem_discovery (Some quiet_operator)"
  by unfold_locales
    (auto simp: mem_discovery_def table_at_def quiet_operator_def update_table delete_conv' Let_def
      split: option.splits if_splits)

text \<open>A store whose client of the same name in another namespace is hand-written.\<close>

definition demo_table :: client_table where
  "demo_table = ([((''other'', ''app''), \<lparr>fc_name = ''app'', fc_labels = [], fc_spec = []\<rparr>)], [])"

theorem discovery_owns_its_clients_witness:
  "\<exists>c w'. snd (reconcileIngress demo_discovery (mem_discovery (Some quiet_operator)) demo_ingress demo_table) = w'
     \<and> table_at w' (''apps'', ''app'') = Some c \<and> isDiscoveredFrom c demo_ingress
     \<and> map_of (fc_spec c) ''allowedUsers'' = Some (strings [''ann'', ''bob''])
     \<and> table_at w' (''other'', ''app'') = table_at demo_table (''other'', ''app'')"
proof -
  let ?K = "mem_discovery (Some quiet_operator)"
  obtain r w' where r: "reconcileIngress demo_discovery ?K demo_ingress demo_table = (r, w')" by (metis surj_pair)
  have k: "(''apps'', ''app'') = (ing_namespace demo_ingress, ing_name demo_ingress)" by (simp add: demo_ingress_def)
  have "table_at (snd (reconcileIngress demo_discovery ?K demo_ingress demo_table)) (''apps'', ''app'') \<noteq> None"
    "table_at demo_table (''apps'', ''app'') = None" by code_simp+
  with r obtain c where c: "table_at w' (''apps'', ''app'') = Some c" "table_at demo_table (''apps'', ''app'') = None" by auto
  have u: "case oidcClientSpecFor (de_resolve demo_discovery) demo_ingress of
      Some spec \<Rightarrow> map_of spec ''allowedUsers'' = Some (strings [''ann'', ''bob'']) | None \<Rightarrow> False" by code_simp
  note d = discovery_owns_its_clients [OF mem_store.client_store_axioms r k]
  from d c u have "isDiscoveredFrom c demo_ingress" "map_of (fc_spec c) ''allowedUsers'' = Some (strings [''ann'', ''bob''])"
    by auto
  moreover have "table_at w' (''other'', ''app'') = table_at demo_table (''other'', ''app'')"
    using d by (simp add: demo_ingress_def)
  ultimately show ?thesis using r c(1) by auto
qed

end
