(* ===== verification/Operators.thy ===== *)
theory Operators
  imports LeaderElection
begin

text \<open>
  How the operators are brought up and stood down (\<open>startWatches\<close>, \<open>startReconcilers\<close> and
  \<open>startOperators\<close> of \<^verbatim>\<open>src/app.js\<close>), as the callbacks of the leader election. Starting a watch
  may throw, as the seeding of the hook state does when Redis cannot be reached; the callback then
  throws into the tick that called it, which only logs it.
\<close>

subsection \<open>The operators of a pod\<close>

datatype watcher = ClientWatch | MiddlewareWatch | UserWatch | HookWatch | ScimWatch | IngressWatch | ClientSweep

text \<open>What is started is told apart by a number. \<open>op_handle\<close> is \<open>stopReconcilers\<close>, the function
  that stops what it lists; \<open>op_ingress\<close> is \<open>INGRESS_DISCOVERY_ENABLED\<close>.\<close>

record operator_pod =
  op_elector :: elector
  op_ingress :: bool
  op_running :: "(nat \<times> watcher) list"
  op_handle :: "(nat \<times> watcher) list option"
  op_next :: nat

definition watch_order :: "bool \<Rightarrow> watcher list" where
  "watch_order ingress = [ClientWatch, MiddlewareWatch, UserWatch, HookWatch, ScimWatch]
     @ (if ingress then [IngressWatch] else []) @ [ClientSweep]"

text \<open>Each in turn; the first that throws ends it, and what was started is left running.\<close>

fun start_in_order :: "(watcher \<Rightarrow> bool) \<Rightarrow> nat \<Rightarrow> watcher list \<Rightarrow> (nat \<times> watcher) list \<times> bool" where
  "start_in_order ok n [] = ([], True)"
| "start_in_order ok n (x # xs) =
     (if ok x then (let (started, fine) = start_in_order ok (Suc n) xs in ((n, x) # started, fine)) else ([], False))"

definition startWatches :: "(watcher \<Rightarrow> bool) \<Rightarrow> operator_pod \<Rightarrow> (nat \<times> watcher) list option \<times> operator_pod" where
  "startWatches ok p =
     (let (started, fine) = start_in_order ok (op_next p) (watch_order (op_ingress p)) in
      (if fine then Some started else None,
       p\<lparr>op_running := op_running p @ started, op_next := op_next p + length started\<rparr>))"

definition stop_watches :: "(nat \<times> watcher) list \<Rightarrow> operator_pod \<Rightarrow> operator_pod" where
  "stop_watches hs p = p\<lparr>op_running := filter (\<lambda>h. h \<notin> set hs) (op_running p)\<rparr>"

text \<open>A wipe of Redis: the running set is stopped and started again; a start that throws leaves the
  old stop function in place.\<close>

definition on_wipe :: "(watcher \<Rightarrow> bool) \<Rightarrow> operator_pod \<Rightarrow> operator_pod" where
  "on_wipe ok p = (case op_handle p of
     None \<Rightarrow> p
   | Some hs \<Rightarrow> (case startWatches ok (stop_watches hs p) of
       (Some started, p') \<Rightarrow> p'\<lparr>op_handle := Some started\<rparr>
     | (None, p') \<Rightarrow> p'))"

subsection \<open>The callbacks\<close>

text \<open>\<open>False\<close>: the callback threw.\<close>

definition onStartedLeading :: "(watcher \<Rightarrow> bool) \<Rightarrow> operator_pod \<Rightarrow> bool \<times> operator_pod" where
  "onStartedLeading ok p = (case startWatches ok p of
     (Some started, p') \<Rightarrow> (True, p'\<lparr>op_handle := Some started\<rparr>)
   | (None, p') \<Rightarrow> (False, p'))"

definition onStoppedLeading :: "operator_pod \<Rightarrow> operator_pod" where
  "onStoppedLeading p = (case op_handle p of None \<Rightarrow> p | Some hs \<Rightarrow> stop_watches hs p)\<lparr>op_handle := None\<rparr>"

fun run_signals :: "(watcher \<Rightarrow> bool) \<Rightarrow> signal list \<Rightarrow> operator_pod \<Rightarrow> bool \<times> operator_pod" where
  "run_signals ok [] p = (True, p)"
| "run_signals ok (StartedLeading # ss) p = (case onStartedLeading ok p of
     (True, p') \<Rightarrow> run_signals ok ss p' | (False, p') \<Rightarrow> (False, p'))"
| "run_signals ok (StoppedLeading # ss) p = run_signals ok ss (onStoppedLeading p)"

text \<open>One firing of the timer with its callbacks. A callback that throws ends the tick there: it
  has just become the leader.\<close>

definition after_signals :: "(watcher \<Rightarrow> bool) \<Rightarrow> elector \<Rightarrow> operator_pod \<Rightarrow> operator_pod" where
  "after_signals ok el p = (let before = el_signals (op_elector p) in
     case run_signals ok (drop (length before) (el_signals el)) p of
       (True, p') \<Rightarrow> p'\<lparr>op_elector := el\<rparr>
     | (False, p') \<Rightarrow> p'\<lparr>op_elector := el\<lparr>el_leading := True, el_signals := before @ [StartedLeading]\<rparr>\<rparr>)"

definition led_tick :: "(watcher \<Rightarrow> bool) \<Rightarrow> 'w lease_calls \<Rightarrow> operator_pod \<times> 'w \<Rightarrow> operator_pod \<times> 'w" where
  "led_tick ok L = (\<lambda>(p, w). case timer_fires L (op_elector p) w of (el, w') \<Rightarrow> (after_signals ok el p, w'))"

text \<open>\<open>startOperators\<close>: without leader election the operators are started at once; \<open>False\<close> is the
  error of a start that throws, which ends the process.\<close>

definition startOperators ::
  "deployment \<Rightarrow> (watcher \<Rightarrow> bool) \<Rightarrow> 'w lease_calls \<Rightarrow> operator_pod \<times> 'w \<Rightarrow> bool \<times> (operator_pod \<times> 'w)" where
  "startOperators D ok L = (\<lambda>(p, w).
     if \<not> isLeaderElectionEnabled D
     then (case startWatches ok p of (r, p') \<Rightarrow> (r \<noteq> None, (p', w)))
     else (case election_start L (op_elector p) w of (el, w') \<Rightarrow> (True, (after_signals ok el p, w'))))"

text \<open>The shutdown hook of a pod with leader election.\<close>

definition shutdown :: "(watcher \<Rightarrow> bool) \<Rightarrow> 'w lease_calls \<Rightarrow> operator_pod \<times> 'w \<Rightarrow> operator_pod \<times> 'w" where
  "shutdown ok L = (\<lambda>(p, w). case election_stop L (op_elector p) w of
     (el, w') \<Rightarrow> (case op_handle (after_signals ok el p) of
        None \<Rightarrow> after_signals ok el p
      | Some hs \<Rightarrow> stop_watches hs (after_signals ok el p), w'))"

subsection \<open>What a tick signals\<close>

definition signalled :: "elector \<Rightarrow> elector \<Rightarrow> bool" where
  "signalled a b \<longleftrightarrow>
     (el_signals b = el_signals a \<and> el_leading b = el_leading a)
     \<or> (\<not> el_leading a \<and> el_leading b \<and> el_signals b = el_signals a @ [StartedLeading])
     \<or> (el_leading a \<and> \<not> el_leading b \<and> el_signals b = el_signals a @ [StoppedLeading])
     \<or> (\<not> el_leading a \<and> \<not> el_leading b \<and> el_signals b = el_signals a @ [StartedLeading, StoppedLeading])"

lemma signalled_timer: "signalled el (fst (timer_fires L el w))"
  by (auto simp: signalled_def timer_fires_def tickQuietly_def tick_def tick_answer_def handleApiError_def failRenewal_def
      startLeading_def stopLeading_def Let_def split: prod.splits sum.splits decision.splits intent.splits option.splits if_splits)

lemma start_in_order_fine: "snd (start_in_order ok n xs) = (\<forall>x \<in> set xs. ok x)"
  by (induction xs arbitrary: n) (simp_all add: Let_def case_prod_beta)

lemma startWatches_fine: "fst (startWatches ok p) \<noteq> None \<longleftrightarrow> (\<forall>x \<in> set (watch_order (op_ingress p)). ok x)"
  by (simp add: startWatches_def case_prod_beta Let_def start_in_order_fine)

lemma onStartedLeading_throws:
  "\<not> (\<forall>x \<in> set (watch_order (op_ingress p)). ok x) \<Longrightarrow>
     onStartedLeading ok p = (False, p\<lparr>op_running := op_running p @ fst (start_in_order ok (op_next p) (watch_order (op_ingress p))),
       op_next := op_next p + length (fst (start_in_order ok (op_next p) (watch_order (op_ingress p))))\<rparr>)"
  using start_in_order_fine [of ok "op_next p" "watch_order (op_ingress p)"]
  by (simp add: onStartedLeading_def startWatches_def Let_def case_prod_beta)

lemma leads_on_quietly:
  assumes "signalled (op_elector p) el" "el_leading (op_elector p)" "el_leading el"
  shows "after_signals ok el p = p\<lparr>op_elector := el\<rparr>"
  using assms by (auto simp: signalled_def after_signals_def)

subsection \<open>Properties\<close>

text \<open>
  C20: A leader whose operators did not all start keeps the Lease without them. If one of the
  watches throws when a pod takes the lead, the pod leads; as long as it goes on to lead, no later
  firing of its timer starts anything, although every watch could start by then; and when it
  stands down it stops nothing, so that the watches that had started run on beside the next
  leader's.
\<close>

theorem failed_start_is_final:
  assumes "\<not> (\<forall>x \<in> set (watch_order (op_ingress p)). ok x)" and "op_handle p = None"
    and "\<not> el_leading (op_elector p)" and "led_tick ok L (p, w) = (p1, w1)" and "el_leading (op_elector p1)"
    and "run = (\<lambda>n. (led_tick ok' L ^^ n) (p1, w1))" and "\<forall>i \<le> n. el_leading (op_elector (fst (run i)))"
  shows "op_running p1 = op_running p @ fst (start_in_order ok (op_next p) (watch_order (op_ingress p)))
    \<and> op_handle (fst (run n)) = None \<and> op_running (fst (run n)) = op_running p1
    \<and> op_running (onStoppedLeading (fst (run n))) = op_running p1"
proof -
  obtain el where t: "timer_fires L (op_elector p) w = (el, w1)" and p1: "p1 = after_signals ok el p"
    using assms(4) by (auto simp: led_tick_def split: prod.splits)
  have s: "signalled (op_elector p) el" using signalled_timer [of "op_elector p" L w] t by simp
  have start: "op_handle p1 = None \<and> op_running p1 = op_running p @ fst (start_in_order ok (op_next p) (watch_order (op_ingress p)))"
  proof (cases "el_signals el = el_signals (op_elector p)")
    case True
    with s have "el_leading el = el_leading (op_elector p)" by (auto simp: signalled_def)
    with True p1 assms(3,5) show ?thesis by (simp add: after_signals_def)
  next
    case False
    with s assms(3) obtain ss where "el_signals el = el_signals (op_elector p) @ StartedLeading # ss"
      by (auto simp: signalled_def)
    with p1 assms(2) show ?thesis by (simp add: after_signals_def onStartedLeading_throws [OF assms(1)])
  qed
  have "op_handle (fst (run m)) = None \<and> op_running (fst (run m)) = op_running p1" if "m \<le> n" for m
    using that
  proof (induction m)
    case 0
    then show ?case using start assms(6) by simp
  next
    case (Suc m)
    obtain q v where q: "run m = (q, v)" by force
    obtain el' v' where t': "timer_fires L (op_elector q) v = (el', v')" by force
    have r: "run (Suc m) = (after_signals ok' el' q, v')" using q t' assms(6) by (simp add: led_tick_def)
    have l: "el_leading (op_elector q)" "el_leading (op_elector (after_signals ok' el' q))"
      using assms(7) Suc.prems q r by (metis Suc_leD fst_conv)+
    have s': "signalled (op_elector q) el'" using signalled_timer [of "op_elector q" L v] t' by simp
    have "el_leading el'"
    proof (rule ccontr)
      assume "\<not> el_leading el'"
      with s' l(1) have "el_signals el' = el_signals (op_elector q) @ [StoppedLeading]" by (auto simp: signalled_def)
      with \<open>\<not> el_leading el'\<close> l(2) show False by (simp add: after_signals_def)
    qed
    from leads_on_quietly [OF s' l(1) this] Suc q r show ?case by simp
  qed
  from this [of n] start show ?thesis by (simp add: onStoppedLeading_def)
qed

text \<open>Where every watch can start, the operators run exactly while the pod leads.\<close>

definition in_step :: "operator_pod \<Rightarrow> bool" where
  "in_step p \<longleftrightarrow> (case op_handle p of
     None \<Rightarrow> \<not> el_leading (op_elector p) \<and> op_running p = []
   | Some hs \<Rightarrow> el_leading (op_elector p) \<and> op_running p = hs)"

lemma operators_follow_leadership:
  assumes "in_step p" and "\<And>x. ok x" and "led_tick ok L (p, w) = (p1, w1)"
  shows "in_step p1"
proof -
  obtain el where t: "timer_fires L (op_elector p) w = (el, w1)" and p1: "p1 = after_signals ok el p"
    using assms(3) by (auto simp: led_tick_def split: prod.splits)
  have s: "signalled (op_elector p) el" using signalled_timer [of "op_elector p" L w] t by simp
  obtain started p2 where st: "startWatches ok p = (Some started, p2)"
    using startWatches_fine [of ok p] assms(2) by (cases "startWatches ok p") auto
  then have p2: "op_running p2 = op_running p @ started" "op_handle p2 = op_handle p"
    by (auto simp: startWatches_def Let_def split: prod.splits if_splits)
  show ?thesis
    using s assms(1) p2
    by (auto simp: p1 signalled_def after_signals_def in_step_def onStartedLeading_def st onStoppedLeading_def
        stop_watches_def split: option.splits)
qed

subsection \<open>Witnesses\<close>

definition idle_pod :: operator_pod where
  "idle_pod = \<lparr>op_elector = demo_pod ''pod-a'', op_ingress = False, op_running = [], op_handle = None, op_next = 0\<rparr>"

text \<open>The seeding of the hook state fails once.\<close>

theorem failed_start_is_final_witness:
  "op_running (onStoppedLeading (fst ((led_tick (\<lambda>_. True) mem_leases ^^ 2)
      (led_tick (\<lambda>x. x \<noteq> HookWatch) mem_leases (idle_pod, (None, 0, 0))))))
     = [(0, ClientWatch), (1, MiddlewareWatch), (2, UserWatch)]"
proof -
  let ?first = "led_tick (\<lambda>x. x \<noteq> HookWatch) mem_leases (idle_pod, (None, 0, 0))"
  let ?run = "\<lambda>n. (led_tick (\<lambda>_. True) mem_leases ^^ n) (fst ?first, snd ?first)"
  have l: "el_leading (op_elector (fst ?first))" by code_simp
  have r: "el_leading (op_elector (fst (?run 1)))" "el_leading (op_elector (fst (?run 2)))" by code_simp+
  have "\<forall>i \<le> 2. el_leading (op_elector (fst (?run i)))"
    using l r by (auto simp: le_Suc_eq numeral_2_eq_2)
  from failed_start_is_final [of idle_pod "\<lambda>x. x \<noteq> HookWatch" mem_leases "(None, 0, 0)" "fst ?first" "snd ?first", OF _ _ _ _ l refl this]
  show ?thesis by (simp add: watch_order_def idle_pod_def demo_pod_def)
qed

end
