(* ===== verification/Middlewares.thy ===== *)
theory Middlewares
  imports ApiRoutes ActivityTracker
begin

text \<open>
  What every request passes before a route, and what the provider's events do:
  \<^verbatim>\<open>src/providers/setup-middlewares.js\<close>, \<^verbatim>\<open>src/providers/setup-event-listeners.js\<close>, with
  \<^verbatim>\<open>request-error-handler.js\<close>, \<^verbatim>\<open>reject-encoded-body.js\<close>, \<^verbatim>\<open>render-error.js\<close>,
  \<^verbatim>\<open>handle-oidc-flow-metrics.js\<close>, \<^verbatim>\<open>usage-metrics.js\<close> under \<^verbatim>\<open>src/utils/\<close> and
  \<^verbatim>\<open>src/services/audit-service.js\<close>. The provider library, the default policy of helmet and the
  reverse lookup of an address are parameters.
\<close>

subsection \<open>Errors and encodings\<close>

definition encoded_body :: "string option \<Rightarrow> bool" where
  "encoded_body header = (let encoding = to_lower (trim (null_or header [])) in encoding \<noteq> [] \<and> encoding \<noteq> ''identity'')"

datatype 'r served =
    Answered 'r
  | Unsupported
  | ClientError nat
  | ErrorPage

text \<open>\<open>requestErrorHandler\<close>: an error of the client's goes on to Koa; anything else is a page.\<close>

definition error_response :: "http_failure \<Rightarrow> 'r served" where
  "error_response e = (case e of
     HttpError n \<Rightarrow> if 400 \<le> n \<and> n < 500 then ClientError n else ErrorPage
   | Thrown \<Rightarrow> ErrorPage)"

text \<open>The description of an invalid redirect address; \<open>attempted\<close> and \<open>registered\<close> are what the
  request asked for and the client has.\<close>

definition redirect_detail :: "string option \<Rightarrow> string list \<Rightarrow> string" where
  "redirect_detail attempted registered = join_with ''; '' (filter (\<lambda>x. x \<noteq> [])
     [if truthy attempted then ''got: '' @ tmpl attempted else [],
      if registered \<noteq> [] then ''registered: '' @ join_with '', '' registered else []])"

definition error_fields :: "string option \<Rightarrow> string list \<Rightarrow> (string \<times> string) list \<Rightarrow> (string \<times> string) list" where
  "error_fields attempted registered out =
     (if map_of out ''error'' = Some ''invalid_redirect_uri'' \<and> redirect_detail attempted registered \<noteq> []
      then js_assign out [(''error_description'',
        tmpl (map_of out ''error_description'') @ '' ('' @ redirect_detail attempted registered @ '')'')]
      else out)"

definition error_markup :: "(string \<Rightarrow> string) \<Rightarrow> (string \<times> string) list \<Rightarrow> string" where
  "error_markup html_safe out =
     concat (map (\<lambda>(k, v). ''<pre><strong>'' @ k @ ''</strong>: '' @ html_safe v @ ''</pre>'') out)"

definition csp_directives :: "(string \<times> string list) list \<Rightarrow> string \<Rightarrow> (string \<times> string list) list" where
  "csp_directives defaults nonce = js_assign (filter (\<lambda>(k, _). k \<noteq> ''form-action'') defaults)
     [(''script-src'', [[CHR 0x27] @ ''self'' @ [CHR 0x27], [CHR 0x27] @ ''nonce-'' @ nonce @ [CHR 0x27]]),
      (''img-src'', [[CHR 0x27] @ ''self'' @ [CHR 0x27], ''data:''])]"

subsection \<open>The session of a request\<close>

text \<open>The current session is the provider's session with an account; it is ended, and the request
  goes on without one, when the account cannot be found or may not sign in.\<close>

definition session_gate ::
  "('s, 'w) api_env \<Rightarrow> json option \<Rightarrow> ('s, 'w, json option \<times> account option) admin" where
  "session_gate X session =
     (case session of
        None \<Rightarrow> e_return (None, None)
      | Some v \<Rightarrow>
          if \<not> js_truthy (field ''accountId'' (Some v)) then e_return (None, None)
          else e_then (find_account (ax_admin X) (session_account v)) (\<lambda>a.
            case getAccountTypeAccessFailure False a of
              Some _ \<Rightarrow> e_then (in_store (\<lambda>s. ((), ax_end_session X (tmpl (str_field ''jti'' v)) s))) (\<lambda>_. e_return (None, None))
            | None \<Rightarrow> e_return (Some v, a)))"

definition serve_request ::
  "('s, 'w) api_env \<Rightarrow> string option \<Rightarrow> json option \<Rightarrow> (json option \<times> account option \<Rightarrow> ('s, 'w, 'r) admin)
     \<Rightarrow> 's \<times> 'w \<Rightarrow> 'r served \<times> ('s \<times> 'w)" where
  "serve_request X encoding session route sw =
     (if encoded_body encoding then (Unsupported, sw)
      else case e_then (session_gate X session) route sw of
        (Inr r, sw') \<Rightarrow> (Answered r, sw')
      | (Inl e, sw') \<Rightarrow> (error_response e, sw'))"

text \<open>An error of an authorization request ends the session it came with.\<close>

definition on_authorization_error :: "('s, 'w) api_env \<Rightarrow> string \<Rightarrow> 's \<Rightarrow> 's" where
  "on_authorization_error X jti s = ax_end_session X jti s"

subsection \<open>What is kept of a sign-in\<close>

text \<open>\<open>now\<close> is in seconds. Members that are undefined are not stored.\<close>

definition present :: "string \<Rightarrow> json option \<Rightarrow> (string \<times> json) list" where
  "present k v = (case v of Some x \<Rightarrow> [(k, x)] | None \<Rightarrow> [])"

definition metadata_record :: "(string \<times> json) list \<Rightarrow> json \<Rightarrow> json option \<Rightarrow> int \<Rightarrow> json" where
  "metadata_record headers session client now =
     (let v = Some session in
      JObj (js_assign (filter (\<lambda>(k, _). k \<noteq> ''cookies'') headers)
        (present ''sessionId'' (field ''jti'' v) @ present ''userId'' (field ''uid'' v) @ present ''client'' client
         @ [(''iat'', JNum (null_or (int_field ''iat'' session) now))] @ present ''exp'' (field ''exp'' v)
         @ [(''ts'', JNum now)])))"

definition metadata_ttl :: "json \<Rightarrow> int \<Rightarrow> int \<Rightarrow> int" where
  "metadata_ttl session now default_ttl = (case int_field ''exp'' session of
     Some e \<Rightarrow> if e \<noteq> 0 then e - now else default_ttl | None \<Rightarrow> default_ttl)"

text \<open>After the provider resumed an interaction that ended in consent.\<close>

definition record_sign_in ::
  "'s redis \<Rightarrow> int \<Rightarrow> string \<Rightarrow> int \<Rightarrow> bool \<Rightarrow> (string \<times> json) list \<Rightarrow> json \<Rightarrow> json option \<Rightarrow> 's \<Rightarrow> 's" where
  "record_sign_in R ms fresh default_ttl resumed_with_consent headers session client s =
     (if \<not> resumed_with_consent then s
      else cleanupSessions R (session_account session)
        (adapter_upsert R ms ''SessionMetadata'' fresh (metadata_record headers session client (ms div 1000))
          (Some (metadata_ttl session (ms div 1000) default_ttl)) s))"

definition resume_redirect :: "bool \<Rightarrow> string option \<Rightarrow> string option \<Rightarrow> string option" where
  "resume_redirect resumed_with_consent clientId redirect_uri =
     (if resumed_with_consent \<and> clientId = Some selfClientId then redirect_uri else None)"

subsection \<open>Scopes of a request\<close>

fun set_param :: "string \<Rightarrow> string \<Rightarrow> (string \<times> string) list \<Rightarrow> (string \<times> string) list" where
  "set_param k v [] = [(k, v)]"
| "set_param k v ((k', v') # ps) = (if k' = k then (k, v) # filter (\<lambda>(x, _). x \<noteq> k) ps else (k', v') # set_param k v ps)"

text \<open>\<open>find_client\<close> answers with the client of the query; where there is none, or it has no scopes,
  the access throws and the query is kept.\<close>

definition incoming_query ::
  "(string \<Rightarrow> oidc_metadata option) \<Rightarrow> string \<Rightarrow> string \<Rightarrow> (string \<times> string) list \<Rightarrow> (string \<times> string) list" where
  "incoming_query find_client httpMethod path query =
     (if httpMethod = ''GET'' \<and> path = ''/auth''
      then (case Option.bind (map_of query ''client_id'') find_client of
          Some c \<Rightarrow> if cl_overrideIncomingScopes c = Some True
            then (case cl_availableScopes c of Some ss \<Rightarrow> set_param ''scope'' (join_with '' '' ss) query | None \<Rightarrow> query)
            else query
        | None \<Rightarrow> query)
      else query)"

subsection \<open>Events of the provider\<close>

text \<open>What an event knows: the client, and the account by the account itself, the session, the
  code, the refresh token or the access token.\<close>

record event_client =
  vc_clientId :: "string option"
  vc_clientNamespace :: "string option"
  vc_clientName :: "string option"
  vc_kind :: "string option"

record provider_event =
  pv_client :: "event_client option"
  pv_account :: "string option"
  pv_session :: "string option"
  pv_code :: "string option"
  pv_refresh :: "string option"
  pv_access :: "string option"
  pv_grantType :: "string option"

definition activityFromContext :: "provider_event \<Rightarrow> activity_event option" where
  "activityFromContext v = (case pv_client v of
     None \<Rightarrow> None
   | Some c \<Rightarrow> if \<not> truthy (vc_clientId c) then None
       else Some \<lparr>ev_accountId = coalesce (pv_account v) (coalesce (pv_session v) (coalesce (pv_code v) (coalesce (pv_refresh v) (pv_access v)))),
         ev_clientId = vc_clientId c, ev_clientNamespace = vc_clientNamespace c, ev_clientName = vc_clientName c,
         ev_clientKind = vc_kind c, ev_userAuthenticated = None\<rparr>)"

record interaction_log =
  il_interactionId :: "string option"
  il_kind :: "string option"
  il_clientId :: "string option"
  il_prompt :: "string option"
  il_accountId :: "string option"

text \<open>What the log keeps of an interaction: no parameter but the client, nothing of the submission.\<close>

definition interactionLogFields :: "json option \<Rightarrow> interaction_log" where
  "interactionLogFields i = (let at = (\<lambda>k v. Option.bind v (str_field k)) in
     \<lparr>il_interactionId = at ''jti'' i, il_kind = at ''kind'' i, il_clientId = at ''client_id'' (field ''params'' i),
      il_prompt = at ''name'' (field ''prompt'' i),
      il_accountId = coalesce (at ''accountId'' (field ''session'' i)) (at ''accountId'' (field ''login'' (field ''result'' i)))\<rparr>)"

record audit_event =
  au_event :: string
  au_grantType :: "string option"
  au_subject :: "string option"
  au_clientId :: "string option"
  au_clientNamespace :: "string option"
  au_clientName :: "string option"
  au_clientKind :: "string option"

definition audit_of :: "string \<Rightarrow> string option \<Rightarrow> activity_event \<Rightarrow> audit_event" where
  "audit_of name grantType e = \<lparr>au_event = name, au_grantType = grantType, au_subject = ev_accountId e,
     au_clientId = ev_clientId e, au_clientNamespace = ev_clientNamespace e, au_clientName = ev_clientName e,
     au_clientKind = ev_clientKind e\<rparr>"

text \<open>The record the audit service writes; the address and the browser only on request, the session
  only as a digest.\<close>

record audit_record =
  ar_event :: audit_event
  ar_eventId :: string
  ar_timestamp :: string
  ar_requestId :: "string option"
  ar_sourceAddress :: "string option"
  ar_userAgent :: "string option"
  ar_sessionHash :: "string option"

definition audit_hash :: "(string \<Rightarrow> string) \<Rightarrow> string option \<Rightarrow> string option" where
  "audit_hash sha256 v = (if truthy v then Some (sha256 (tmpl v)) else None)"

definition audit_write ::
  "deployment \<Rightarrow> (string \<Rightarrow> string) \<Rightarrow> string \<Rightarrow> string \<Rightarrow> (string \<times> string) list \<Rightarrow> string option \<Rightarrow> string option
     \<Rightarrow> audit_event \<Rightarrow> audit_record option" where
  "audit_write D sha256 fresh stamp headers requestId session e =
     (if env_is D ''AUDIT_ENABLED'' ''false'' then None
      else Some \<lparr>ar_event = e, ar_eventId = fresh, ar_timestamp = stamp,
        ar_requestId = Some (null_or requestId (null_or (map_of headers ''x-request-id'') [])),
        ar_sourceAddress = (if env_is D ''AUDIT_INCLUDE_SOURCE_ADDRESS'' ''true'' then map_of headers ''x-forwarded-for'' else None),
        ar_userAgent = (if env_is D ''AUDIT_INCLUDE_USER_AGENT'' ''true'' then Some (null_or (map_of headers ''user-agent'') []) else None),
        ar_sessionHash = audit_hash sha256 session\<rparr>)"

text \<open>The two events that count as activity; the tracker, and what is written to the audit log.
  \<open>authorization.success\<close> also counts in \<open>authorizationSuccess\<close>.\<close>

definition on_authorization_success :: "provider_event \<Rightarrow> instant \<Rightarrow> tracker \<Rightarrow> (audit_event option \<times> (string option \<times> string option) option) \<times> tracker" where
  "on_authorization_success v t T = (case activityFromContext v of
     None \<Rightarrow> ((None, None), T)
   | Some e \<Rightarrow> ((Some (audit_of ''application.login.succeeded'' None e), Some (ev_clientId e, ev_clientKind e)), record_activity e t T))"

definition on_grant_success :: "provider_event \<Rightarrow> instant \<Rightarrow> tracker \<Rightarrow> audit_event option \<times> tracker" where
  "on_grant_success v t T = (case activityFromContext v of
     None \<Rightarrow> (None, T)
   | Some e \<Rightarrow> (Some (audit_of ''token.exchange.succeeded'' (pv_grantType v) e),
       record_activity (e\<lparr>ev_userAuthenticated := Some False\<rparr>) t T))"

definition on_session_destroyed :: "'s redis \<Rightarrow> string option \<Rightarrow> 's \<Rightarrow> 's" where
  "on_session_destroyed R account s = (if truthy account then cleanupSessions R (tmpl account) s else s)"

definition on_session_saved :: "'s redis \<Rightarrow> int \<Rightarrow> string \<Rightarrow> string option \<Rightarrow> string option \<Rightarrow> 's \<Rightarrow> 's" where
  "on_session_saved R ms jti oldId account s =
     (if truthy oldId \<and> truthy account then updateSessionReference R ms jti (tmpl oldId) (tmpl account) s else s)"

subsection \<open>Metrics of failed requests\<close>

datatype flow_metric = NonExistentClient | InvalidClient | TokenError | UserinfoError

fun metric_labels :: "flow_metric \<Rightarrow> string list" where
  "metric_labels NonExistentClient = [''in_cluster'']"
| "metric_labels InvalidClient = [''client_id'', ''reason'', ''in_cluster'']"
| "metric_labels UserinfoError = [''reason'', ''in_cluster'']"
| "metric_labels TokenError = [''reason'', ''in_cluster'']"

definition authorization_metric :: "string option \<Rightarrow> flow_metric" where
  "authorization_metric error_detail = (if error_detail = Some ''client not found'' then NonExistentClient else InvalidClient)"

definition normalizeReason :: "string \<Rightarrow> string" where
  "normalizeReason reason = kebabCase (filter (\<lambda>c. c \<notin> {CHR 0x27, CHR 0x22, CHR 0x60, CHR ''/''}) reason)"

text \<open>\<open>names\<close> is what the reverse lookup answers, \<open>None\<close> when it fails.\<close>

definition inCluster :: "string list option \<Rightarrow> bool" where
  "inCluster names = (case names of Some (n # _) \<Rightarrow> n \<noteq> [] \<and> ends_with ''svc.cluster.local'' n | _ \<Rightarrow> False)"

definition flow_labels ::
  "flow_metric \<Rightarrow> string option \<Rightarrow> string option \<Rightarrow> string option \<Rightarrow> string option \<Rightarrow> string list option \<Rightarrow> (string \<times> string) list option" where
  "flow_labels m queryClient contextClient detail description names =
     map_option (\<lambda>reason.
       somes (map (\<lambda>(k, v). if k \<in> set (metric_labels m) then map_option (Pair k) v else None)
         [(''client_id'', if truthy queryClient then queryClient else contextClient),
          (''reason'', Some (normalizeReason reason)),
          (''in_cluster'', Some (if inCluster names then ''true'' else ''false''))]))
     (js_or detail description)"

subsection \<open>Usage\<close>

definition aggregateSessionUsage :: "(string \<Rightarrow> json option) \<Rightarrow> string option list \<Rightarrow> nat \<times> nat" where
  "aggregateSessionUsage parse_json payloads =
     (let raws = map tmpl (filter truthy payloads) in
      (length raws, card (set (filter (\<lambda>i. i \<noteq> []) (somes (map (\<lambda>raw. Option.bind (parse_json raw) (str_field ''accountId'')) raws))))))"

definition groupMetricsEnabled :: "deployment \<Rightarrow> bool" where
  "groupMetricsEnabled D = env_is D ''METRICS_GROUP_MEMBERSHIP'' ''true''"

definition countGroupMembers :: "account list \<Rightarrow> (string \<times> nat) list" where
  "countGroupMembers accounts = foldl (\<lambda>m g. let n = tmpl (g_prefix g) @ '':'' @ g_name g in
     AList.update n (Suc (null_or (map_of m n) 0)) m) [] (concat (map groups accounts))"

subsection \<open>What the middlewares guarantee\<close>

text \<open>What a route may be given: no session and no account, or a session with an account that may
  sign in.\<close>

definition admitted :: "json option \<times> account option \<Rightarrow> bool" where
  "admitted c = (case c of
     (None, None) \<Rightarrow> True
   | (Some v, Some a) \<Rightarrow> js_truthy (field ''accountId'' (Some v)) \<and> getAccountTypeAccessFailure False (Some a) = None
   | _ \<Rightarrow> False)"

lemma missing_account: "getAccountTypeAccessFailure b None = Some AccountMissing"
  by (simp add: getAccountTypeAccessFailure_def)

lemma gate_admits: "session_gate X session sw = (Inr c, sw') \<Longrightarrow> admitted c"
  by (auto simp: session_gate_def admitted_def e_return_def e_then_def in_store_def missing_account
      split: option.splits if_splits sum.splits prod.splits)

text \<open>
  C7: No route sees an account that may not sign in. A request with an encoded body reaches nothing
  and changes nothing; any other reaches its route only with no session and no account, or with a
  session and an account that exists and whose type may sign in: for everything else the
  route could as well refuse.
\<close>

theorem routes_see_only_usable_accounts:
  "serve_request X encoding session route sw =
     (if encoded_body encoding then (Unsupported, sw)
      else serve_request X encoding session (\<lambda>c. if admitted c then route c else e_throw Thrown) sw)"
  using gate_admits [of X session sw]
  by (auto simp: serve_request_def e_then_def split: prod.splits sum.splits)

text \<open>An account that could not be read is taken for one that is gone: the session is ended.\<close>

lemma unread_account_ends_session:
  assumes "findUser (ax_deployment X) (am_users (ax_admin X)) (session_account v) w = (Failed, w')"
    and "js_truthy (field ''accountId'' (Some v))"
  shows "session_gate X (Some v) (s, w) = (Inr (None, None), (ax_end_session X (tmpl (str_field ''jti'' v)) s, w'))"
  using assms
  by (simp add: session_gate_def find_account_def in_cluster_def in_store_def e_then_def e_call_def e_return_def
      found_def missing_account)

text \<open>The header \<open>cookie\<close> is not the one that is left out: the cookies of the browser are stored.\<close>

context redis_server
begin

lemma cookies_are_stored:
  assumes "map_of headers ''cookie'' = Some c" and "0 < metadata_ttl session (ms div 1000) d"
  shows "Option.bind (record_of R ''SessionMetadata'' fresh
     (adapter_upsert R ms ''SessionMetadata'' fresh (metadata_record headers session client (ms div 1000))
        (Some (metadata_ttl session (ms div 1000) d)) s)) (\<lambda>r. field ''cookie'' (Some r)) = Some c"
proof -
  have f: "map_of (filter (\<lambda>(k, _). k \<noteq> ''cookies'') hs) ''cookie'' = map_of hs ''cookie''" for hs :: "(string \<times> json) list"
    by (induction hs) auto
  have "field ''cookie'' (Some (metadata_record headers session client (ms div 1000))) = Some c"
    using assms(1) by (auto simp: metadata_record_def Let_def present_def map_of_js_assign_other f split: option.splits)
  moreover have "plain_name ''SessionMetadata''"
    by (simp add: plain_name_def colon_free_def consumable_def set_names_def)
  ultimately show ?thesis
    using assms(2) by (simp add: records.look_put ok_ttl_def)
qed

end

text \<open>A token exchange is no sign-in: it leaves the uses of every user alone.\<close>

lemma exchange_is_no_sign_in: "tr_users (snd (on_grant_success v t T)) = tr_users T"
  by (simp add: on_grant_success_def record_activity_def Let_def null_or_def split: option.split)

end
