(* ===== verification/RedisConnection.thy ===== *)
theory RedisConnection
  imports Clients Redis LeaderElection
begin

text \<open>
  The connection to Redis, the first half of \<^verbatim>\<open>src/adapters/redis.js\<close>: its address and TLS options
  from the environment, the shared client with its error count and the timers that replace it, and
  the graceful end of a replaced client. Building and reading a URL, reading a file and looking up
  a host are parameters; clients are told apart by a number.
\<close>

subsection \<open>Address\<close>

definition is_yes :: "string option \<Rightarrow> bool" where
  "is_yes v = (to_lower (trim (null_or v [])) \<in> {''true'', ''1'', ''yes''})"

definition all_digits :: "string \<Rightarrow> bool" where
  "all_digits s \<longleftrightarrow> s \<noteq> [] \<and> list_all is_digit s"

definition digits_value :: "string \<Rightarrow> nat" where
  "digits_value s = foldl (\<lambda>n c. 10 * n + (of_char c - 48)) 0 s"

datatype redis_error = BadHost | BadPort | BadDatabase | NotConfigured

record redis_address =
  ra_scheme :: string
  ra_host :: string
  ra_port :: nat
  ra_database :: string
  ra_username :: "string option"
  ra_password :: "string option"

text \<open>\<open>REDIS_URI\<close> as it is, or an address put together; \<open>host_ok\<close> is whether \<open>new URL\<close> takes it.\<close>

datatype redis_url = GivenUrl string | BuiltUrl redis_address

definition bracketed :: "string \<Rightarrow> string" where
  "bracketed host = (if CHR '':'' \<in> set host \<and> \<not> starts_with ''['' host then ''['' @ host @ '']'' else host)"

definition getRedisUrl :: "deployment \<Rightarrow> (string \<Rightarrow> bool) \<Rightarrow> redis_error + redis_url option" where
  "getRedisUrl D host_ok =
     (if truthy (penv D ''REDIS_URI'') then Inr (Some (GivenUrl (tmpl (penv D ''REDIS_URI''))))
      else if \<not> truthy (penv D ''REDIS_HOST'') then Inr None
      else (let host = bracketed (trim (tmpl (penv D ''REDIS_HOST'')));
                scheme = (if is_yes (penv D ''REDIS_TLS'') then ''rediss'' else ''redis'');
                port = tmpl (js_or (penv D ''REDIS_PORT'') (Some ''6379''));
                database = tmpl (js_or (penv D ''REDIS_DB'') (Some ''0'')) in
        if \<not> host_ok (scheme @ ''://'' @ host) then Inl BadHost
        else if \<not> all_digits port \<or> digits_value port < 1 \<or> digits_value port > 65535 then Inl BadPort
        else if \<not> all_digits database then Inl BadDatabase
        else Inr (Some (BuiltUrl \<lparr>ra_scheme = scheme, ra_host = host, ra_port = digits_value port,
          ra_database = database,
          ra_username = (if truthy (penv D ''REDIS_USERNAME'') then penv D ''REDIS_USERNAME'' else None),
          ra_password = (if truthy (penv D ''REDIS_PASSWORD'') then penv D ''REDIS_PASSWORD'' else None)\<rparr>))))"

record tls_options =
  tl_ca :: "string option"
  tl_servername :: "string option"
  tl_unverified :: bool

text \<open>The outer \<open>None\<close> is a file that cannot be read.\<close>

definition getRedisTlsOptions :: "deployment \<Rightarrow> (string \<Rightarrow> string option) \<Rightarrow> tls_options option option" where
  "getRedisTlsOptions D read_file =
     (if \<not> (is_yes (penv D ''REDIS_TLS'') \<or> truthy (penv D ''REDIS_TLS_CA_FILE'') \<or> truthy (penv D ''REDIS_TLS_CA'')
          \<or> truthy (penv D ''REDIS_TLS_SERVERNAME'') \<or> penv D ''REDIS_TLS_INSECURE_SKIP_VERIFY'' \<noteq> None)
      then Some None
      else (let options = (\<lambda>ca. Some (Some \<lparr>tl_ca = ca,
              tl_servername = (if truthy (penv D ''REDIS_TLS_SERVERNAME'') then penv D ''REDIS_TLS_SERVERNAME'' else None),
              tl_unverified = is_yes (penv D ''REDIS_TLS_INSECURE_SKIP_VERIFY'')\<rparr>)) in
        if truthy (penv D ''REDIS_TLS_CA_FILE'')
        then (case read_file (tmpl (penv D ''REDIS_TLS_CA_FILE'')) of None \<Rightarrow> None | Some pem \<Rightarrow> options (Some pem))
        else if truthy (penv D ''REDIS_TLS_CA'') then options (penv D ''REDIS_TLS_CA'')
        else options None))"

text \<open>Errors after which the client reconnects and sends the command again.\<close>

definition reconnects_on :: "string \<Rightarrow> bool" where
  "reconnects_on message = list_ex (\<lambda>e. includes_str e message) [''READONLY'', ''MOVED'', ''ASK'', ''CLUSTERDOWN'']"

definition sorted_ips :: "string list \<Rightarrow> string list" where
  "sorted_ips ips = js_sort (\<lambda>a b. if a = b then 0 else if lexordp_eq a b then -1 else 1) ips"

subsection \<open>The shared client\<close>

record connection =
  rn_client :: "nat option"
  rn_next :: nat
  rn_errors :: nat
  rn_ready :: bool
  rn_offline :: bool
  rn_draining :: "nat list"
  rn_timers :: bool
  rn_headless :: bool
  rn_ips :: "string list"

definition unconnected :: connection where
  "unconnected = \<lparr>rn_client = None, rn_next = 0, rn_errors = 0, rn_ready = False, rn_offline = False,
     rn_draining = [], rn_timers = False, rn_headless = False, rn_ips = []\<rparr>"

definition MAX_ERROR_COUNT :: nat where
  "MAX_ERROR_COUNT = 5"

text \<open>A new client queues commands while offline only as the first one.\<close>

definition createRedisClient :: "bool \<Rightarrow> connection \<Rightarrow> connection" where
  "createRedisClient isInitial c = c\<lparr>rn_client := Some (rn_next c), rn_next := Suc (rn_next c), rn_offline := isInitial\<rparr>"

definition replaceClient :: "connection \<Rightarrow> connection" where
  "replaceClient c = (case rn_client c of
     None \<Rightarrow> createRedisClient False c
   | Some stale \<Rightarrow> (createRedisClient False c)\<lparr>rn_draining := rn_draining c @ [stale]\<rparr>)"

definition headless_host :: "string \<Rightarrow> bool" where
  "headless_host host = (ends_with ''.svc.cluster.local'' host \<or> ends_with ''.svc'' host)"

text \<open>\<open>connect\<close>, with the host of the address.\<close>

definition connect :: "redis_error + string option \<Rightarrow> connection \<Rightarrow> (redis_error + nat) \<times> connection" where
  "connect host c = (case rn_client c of
     Some i \<Rightarrow> (Inr i, c)
   | None \<Rightarrow> (case host of
       Inl e \<Rightarrow> (Inl e, c)
     | Inr None \<Rightarrow> (Inl NotConfigured, c)
     | Inr (Some h) \<Rightarrow>
         (let c1 = (createRedisClient True c)\<lparr>rn_timers := True, rn_headless := headless_host h,
            rn_ips := (if headless_host h then [] else rn_ips c)\<rparr>
          in (Inr (rn_next c), c1))))"

datatype client_event = Errored | Reconnecting | Connected | Ready | Closed

text \<open>The listeners hang on every client; the counters they set are shared.\<close>

fun on_client_event :: "client_event \<Rightarrow> connection \<Rightarrow> connection" where
  "on_client_event Errored c = c\<lparr>rn_errors := Suc (rn_errors c), rn_ready := False\<rparr>"
| "on_client_event Reconnecting c = c\<lparr>rn_errors := Suc (rn_errors c)\<rparr>"
| "on_client_event Connected c = c\<lparr>rn_errors := 0\<rparr>"
| "on_client_event Ready c = c\<lparr>rn_errors := 0, rn_ready := True, rn_offline := False\<rparr>"
| "on_client_event Closed c = c\<lparr>rn_ready := False\<rparr>"

text \<open>The two timers. A lookup that fails is only logged.\<close>

definition checkDnsAndReconnect :: "string list option \<Rightarrow> connection \<Rightarrow> connection" where
  "checkDnsAndReconnect found c = (case found of
     None \<Rightarrow> c
   | Some ips \<Rightarrow> (let current = sorted_ips ips in
       (if rn_ips c \<noteq> [] \<and> rn_ips c \<noteq> current then replaceClient c else c)\<lparr>rn_ips := current\<rparr>))"

definition error_timer :: "connection \<Rightarrow> connection" where
  "error_timer c = (if rn_errors c \<ge> MAX_ERROR_COUNT then replaceClient (c\<lparr>rn_errors := 0\<rparr>) else c)"

definition disconnect :: "connection \<Rightarrow> connection" where
  "disconnect c = (case rn_client c of
     None \<Rightarrow> c
   | Some i \<Rightarrow> c\<lparr>rn_client := None, rn_draining := rn_draining c @ [i]\<rparr>)\<lparr>rn_timers := False, rn_ready := False\<rparr>"

subsection \<open>The end of a client\<close>

text \<open>The loop of \<open>closeGracefully\<close>: the poll number \<open>k\<close> is at time \<open>clock k\<close> and finds \<open>pending k\<close>
  commands in the queue; \<open>streak\<close> polls in a row found none. The result is the number of polls and
  the streak; \<open>None\<close> is not having ended within the fuel.\<close>

fun drain_polls :: "nat \<Rightarrow> (nat \<Rightarrow> int) \<Rightarrow> (nat \<Rightarrow> nat) \<Rightarrow> int \<Rightarrow> nat \<Rightarrow> nat \<Rightarrow> (nat \<times> nat) option" where
  "drain_polls 0 clock pending deadline k streak = None"
| "drain_polls (Suc fuel) clock pending deadline k streak =
     (if streak < 3 \<and> clock k < deadline
      then drain_polls fuel clock pending deadline (Suc k) (if pending k > 0 then 0 else Suc streak)
      else Some (k, streak))"

definition close_fuel :: nat where
  "close_fuel = 77"

definition closeGracefully :: "(nat \<Rightarrow> int) \<Rightarrow> (nat \<Rightarrow> nat) \<Rightarrow> int \<Rightarrow> (nat \<times> nat) option" where
  "closeGracefully clock pending start = drain_polls close_fuel clock pending (start + 2000) 0 0"

subsection \<open>Scanning\<close>

text \<open>The pages of a scan; a server that never returns to the cursor 0 keeps it going, which is \<open>None\<close>.\<close>

partial_function (option) scan_keys :: "(string \<Rightarrow> string \<times> string list) \<Rightarrow> string \<Rightarrow> string list \<Rightarrow> string list option" where
  "scan_keys scan cursor keys = (case scan cursor of
     (next_cursor, page) \<Rightarrow> if next_cursor \<noteq> ''0'' then scan_keys scan next_cursor (keys @ page) else Some (keys @ page))"

definition key_prefix :: string where
  "key_prefix = ''oidc:''"

definition unprefixed :: "string \<Rightarrow> string" where
  "unprefixed k = (if starts_with key_prefix k then drop (length key_prefix) k else k)"

definition scanKeyValues :: "(string \<Rightarrow> string \<times> string list) \<Rightarrow> (string list \<Rightarrow> 'v list) \<Rightarrow> 'v list option" where
  "scanKeyValues scan mget = map_option (\<lambda>keys. if keys = [] then [] else mget (map unprefixed keys)) (scan_keys scan ''0'' [])"

subsection \<open>The loop ends\<close>

lemma drain_polls_ends:
  assumes "\<And>j. clock (Suc j) \<ge> clock j + 25" and "deadline - clock k \<le> 25 * int fuel"
    and "streak \<le> k" and "\<forall>j. k - streak \<le> j \<and> j < k \<longrightarrow> pending j = 0"
  shows "\<exists>n m. drain_polls (Suc fuel) clock pending deadline k streak = Some (n, m) \<and> k \<le> n \<and> n \<le> k + fuel
    \<and> (m < 3 \<longrightarrow> clock n \<ge> deadline) \<and> m \<le> n \<and> (\<forall>j. n - m \<le> j \<and> j < n \<longrightarrow> pending j = 0)"
  using assms(2-4)
proof (induction fuel arbitrary: k streak)
  case 0
  then show ?case by auto
next
  case (Suc fuel)
  show ?case
  proof (cases "streak < 3 \<and> clock k < deadline")
    case False
    with Suc.prems show ?thesis by auto
  next
    case True
    let ?s = "if pending k > 0 then 0 else Suc streak"
    have "deadline - clock (Suc k) \<le> 25 * int fuel" using Suc.prems(1) assms(1) [of k] by simp
    moreover have "?s \<le> Suc k" using Suc.prems(2) by simp
    moreover have "\<forall>j. Suc k - ?s \<le> j \<and> j < Suc k \<longrightarrow> pending j = 0"
      using Suc.prems(3) by (auto simp: less_Suc_eq)
    ultimately have ih: "\<exists>n m. drain_polls (Suc fuel) clock pending deadline (Suc k) ?s = Some (n, m) \<and> Suc k \<le> n
        \<and> n \<le> Suc k + fuel \<and> (m < 3 \<longrightarrow> clock n \<ge> deadline) \<and> m \<le> n \<and> (\<forall>j. n - m \<le> j \<and> j < n \<longrightarrow> pending j = 0)"
      by (rule Suc.IH)
    have r: "drain_polls (Suc (Suc fuel)) clock pending deadline k streak = drain_polls (Suc fuel) clock pending deadline (Suc k) ?s"
      using True by (subst drain_polls.simps(2)) simp
    from ih obtain n m where "drain_polls (Suc fuel) clock pending deadline (Suc k) ?s = Some (n, m)" "Suc k \<le> n"
        "n \<le> Suc k + fuel" "m < 3 \<longrightarrow> clock n \<ge> deadline" "m \<le> n" "\<forall>j. n - m \<le> j \<and> j < n \<longrightarrow> pending j = 0" by blast
    then show ?thesis using r by (intro exI [of _ n] exI [of _ m]) simp
  qed
qed

text \<open>With timers that are never early, the wait ends after at most 76 polls; it ends before the
  deadline only when the last three polls found the queue empty.\<close>

lemma close_ends:
  assumes "clock 0 \<ge> start + 100" and "\<And>j. clock (Suc j) \<ge> clock j + 25"
  shows "\<exists>n m. closeGracefully clock pending start = Some (n, m) \<and> n \<le> 76
    \<and> (clock n < start + 2000 \<longrightarrow> 3 \<le> n \<and> pending (n - 1) = 0 \<and> pending (n - 2) = 0 \<and> pending (n - 3) = 0)"
proof -
  have "\<exists>n m. drain_polls (Suc 76) clock pending (start + 2000) 0 0 = Some (n, m) \<and> 0 \<le> n \<and> n \<le> 0 + 76
    \<and> (m < 3 \<longrightarrow> clock n \<ge> start + 2000) \<and> m \<le> n \<and> (\<forall>j. n - m \<le> j \<and> j < n \<longrightarrow> pending j = 0)"
    by (rule drain_polls_ends) (use assms in simp_all)
  then obtain n m where e: "closeGracefully clock pending start = Some (n, m)" "n \<le> 76"
      "m < 3 \<longrightarrow> clock n \<ge> start + 2000" "m \<le> n" "\<forall>j. n - m \<le> j \<and> j < n \<longrightarrow> pending j = 0"
    by (auto simp: closeGracefully_def close_fuel_def)
  have "3 \<le> n \<and> pending (n - 1) = 0 \<and> pending (n - 2) = 0 \<and> pending (n - 3) = 0" if "clock n < start + 2000"
  proof -
    from that e(3) have "3 \<le> m" by linarith
    with e(4,5) show ?thesis by simp
  qed
  with e show ?thesis by blast
qed

text \<open>Replacing a client loses none: the old one drains, and there is always a current one.\<close>

lemma replaced_drains:
  "rn_client c = Some i \<Longrightarrow> i \<in> set (rn_draining (replaceClient c)) \<and> rn_client (replaceClient c) = Some (rn_next c)"
  by (simp add: replaceClient_def createRedisClient_def)

end
