(* ===== verification/KubernetesCalls.thy ===== *)
theory KubernetesCalls
  imports UserOperator
begin

text \<open>
  What is left of \<^verbatim>\<open>src/adapters/kubernetes.js\<close>: where an adapter belongs, the cluster-wide list,
  the owner of a created object, and reading, patching and deleting a Secret.
\<close>

subsection \<open>The adapter\<close>

text \<open>\<open>context_namespace\<close> is the namespace of the loaded configuration.\<close>

definition adapter_namespace :: "deployment \<Rightarrow> string option \<Rightarrow> string" where
  "adapter_namespace D context_namespace = null_or (coalesce context_namespace (penv D ''POD_NAMESPACE'')) ''default''"

definition adapter_instance :: "deployment \<Rightarrow> string option \<Rightarrow> string" where
  "adapter_instance D context_namespace = adapter_namespace D context_namespace @ ''-'' @ tmpl (penv D ''DEPLOYMENT_NAME'')"

text \<open>The address of the API server: rewritten only inside a cluster that has one configured.\<close>

definition api_server :: "(string \<Rightarrow> bool) \<Rightarrow> deployment \<Rightarrow> string option \<Rightarrow> string option" where
  "api_server is_ipv6 D server =
     (if truthy (penv D ''KUBERNETES_SERVICE_HOST'')
      then (case (apiServerUrlViaServiceDns is_ipv6 (penv D ''KUBERNETES_SERVICE_HOST'') (penv D ''KUBERNETES_SERVICE_PORT'')
          (null_or (penv D ''KUBERNETES_API_SERVICE_DNS'') ''auto''), server) of
          (Some dns, Some _) \<Rightarrow> Some dns | _ \<Rightarrow> server)
      else server)"

definition listClusterCustomObject :: "('w \<Rightarrow> (nat + 'o list) \<times> 'w) \<Rightarrow> ('o \<Rightarrow> 'a) \<Rightarrow> 'w \<Rightarrow> 'a list outcome \<times> 'w" where
  "listClusterCustomObject list_everywhere mapper w = (let (r, w') = list_everywhere w in (answer (map mapper) r, w'))"

record owner_reference = owner_metadata +
  or_controller :: bool
  or_blockOwnerDeletion :: bool

definition getOwnerReference :: "owner_metadata \<Rightarrow> owner_reference" where
  "getOwnerReference m = \<lparr>om_kind = om_kind m, om_name = om_name m, om_uid = om_uid m, om_apiVersion = om_apiVersion m,
     or_controller = True, or_blockOwnerDeletion = False\<rparr>"

subsection \<open>Secrets\<close>

record secret_metadata =
  sm_annotations :: "labels option"
  sm_labels :: "labels option"

record raw_secret =
  rw_metadata :: secret_metadata
  rw_data :: "(string \<times> string) list"

record read_secret =
  rs_metadata :: secret_metadata
  rs_data :: "(string \<times> json) list"

definition getSecret :: "codec \<Rightarrow> (string \<Rightarrow> 'w \<Rightarrow> (nat + raw_secret) \<times> 'w) \<Rightarrow> string \<Rightarrow> 'w \<Rightarrow> read_secret outcome \<times> 'w" where
  "getSecret C read i w = (let (r, w') = read i w in
     (answer (\<lambda>s. \<lparr>rs_metadata = rw_metadata s, rs_data = parseSecretData C (rw_data s)\<rparr>) r, w'))"

definition withManagedSecretLabels :: "labels \<Rightarrow> secret_metadata \<Rightarrow> secret_metadata" where
  "withManagedSecretLabels managed m = (case withManagedLabels managed (sm_labels m) of
     None \<Rightarrow> m | Some ls \<Rightarrow> m\<lparr>sm_labels := Some ls\<rparr>)"

text \<open>The patch is the difference between the Secret as read, its data decoded, and the one to be, its
  data encoded. The answer is whether it was written.\<close>

definition patchSecret ::
  "codec \<Rightarrow> labels \<Rightarrow> (read_secret \<Rightarrow> raw_secret \<Rightarrow> 'p list) \<Rightarrow> (string \<Rightarrow> 'p list \<Rightarrow> 'w \<Rightarrow> (nat + raw_secret) \<times> 'w)
     \<Rightarrow> string \<Rightarrow> (string \<times> json) list \<Rightarrow> secret_metadata \<Rightarrow> read_secret \<Rightarrow> 'w \<Rightarrow> (string \<times> json) list option \<times> 'w" where
  "patchSecret C managed delta send i data m existing w =
     (let desired = \<lparr>rw_metadata = withManagedSecretLabels managed m, rw_data = generateSecretData C data\<rparr>;
          (r, w') = send i (delta existing desired) w in
      (case r of Inr s \<Rightarrow> Some (parseSecretData C (rw_data s)) | Inl _ \<Rightarrow> None, w'))"

definition deleteSecret :: "(string \<Rightarrow> 'w \<Rightarrow> (nat + unit) \<times> 'w) \<Rightarrow> string \<Rightarrow> 'w \<Rightarrow> unit \<times> 'w" where
  "deleteSecret delete i w = ((), snd (delete i w))"

text \<open>A managed label the caller does not set itself is on every Secret.\<close>

lemma managed_labels_kept:
  "managed \<noteq> [] \<Longrightarrow> k \<notin> fst ` set (list_or_empty (sm_labels m)) \<Longrightarrow>
     map_of (list_or_empty (sm_labels (withManagedSecretLabels managed m))) k = map_of managed k"
  by (simp add: withManagedSecretLabels_def withManagedLabels_def list_or_empty_def map_of_js_assign_other)

end
