(* ===== verification/Notifications.thy ===== *)
theory Notifications
  imports Clients Effects
begin

text \<open>
  Messages to people: \<^verbatim>\<open>src/services/notification-service.js\<close>, \<^verbatim>\<open>src/utils/slack-message.js\<close>,
  \<^verbatim>\<open>src/adapters/slack.js\<close>, \<^verbatim>\<open>src/adapters/email.js\<close>, \<^verbatim>\<open>src/utils/user/get-slack-id.js\<close>, and the
  configured texts of \<^verbatim>\<open>src/utils/get-text.js\<close> with the safe links of \<^verbatim>\<open>src/utils/markdown.js\<close>.
  The deliveries, the file system, the Markdown parser and the escaping of HTML are parameters.
\<close>

subsection \<open>Slack messages\<close>

fun escape_char :: "char \<Rightarrow> string" where
  "escape_char c = (if c = CHR ''&'' then ''&amp;'' else if c = CHR ''<'' then ''&lt;''
     else if c = CHR ''>'' then ''&gt;'' else [c])"

declare escape_char.simps [simp del]

text \<open>The three replacements in turn, the ampersand first, are one pass over the characters.\<close>

definition replace_char :: "char \<Rightarrow> string \<Rightarrow> string \<Rightarrow> string" where
  "replace_char c r s = concat (map (\<lambda>x. if x = c then r else [x]) s)"

definition escapeMrkdwn :: "string option \<Rightarrow> string" where
  "escapeMrkdwn v = replace_char (CHR ''>'') ''&gt;'' (replace_char (CHR ''<'') ''&lt;''
     (replace_char (CHR ''&'') ''&amp;'' (null_or v [])))"

definition MAX_BUTTON_TEXT :: nat where
  "MAX_BUTTON_TEXT = 75"

datatype slack_block =
    Section string
  | LinkButton string string
  | ContextLines "string list"

definition link_button :: "string \<Rightarrow> string \<Rightarrow> slack_block" where
  "link_button label url = LinkButton (take MAX_BUTTON_TEXT label) url"

definition context_lines :: "string option list \<Rightarrow> slack_block" where
  "context_lines lines = ContextLines (filter (\<lambda>l. l \<noteq> []) (somes lines))"

record login_message =
  lm_text :: string
  lm_blocks :: "slack_block list"

definition loginLinkMessage ::
  "string \<Rightarrow> string \<Rightarrow> string \<Rightarrow> string option \<Rightarrow> string option \<Rightarrow> string option \<Rightarrow> string \<Rightarrow> login_message" where
  "loginLinkMessage url inst email client browser ip text =
     (let target = (if truthy client then ''*'' @ escapeMrkdwn client @ ''*'' else ''*'' @ escapeMrkdwn (Some inst) @ ''*'') in
      \<lparr>lm_text = text, lm_blocks = [
        Section (''Sign in to '' @ target @ '' as '' @ escapeMrkdwn (Some email)),
        link_button ''Sign in'' url,
        context_lines [
          (if truthy browser then Some (''Requested from '' @ escapeMrkdwn browser) else None),
          (if truthy ip then Some (''IP '' @ escapeMrkdwn ip) else None),
          Some (''If this wasn'' @ [CHR 0x27] @ ''t you, ignore this message.'')]]\<rparr>)"

subsection \<open>Notices\<close>

definition loginNotificationsEnabled :: "deployment \<Rightarrow> bool" where
  "loginNotificationsEnabled D = env_is D ''NOTIFY_ON_LOGIN'' ''true''"

definition impersonationNotificationsEnabled :: "deployment \<Rightarrow> bool" where
  "impersonationNotificationsEnabled D = (\<not> env_is D ''NOTIFY_ON_IMPERSONATION'' ''false'')"

text \<open>A delivery that fails is logged: the answer of the two calls is not looked at.\<close>

record 'w channels =
  ch_mail :: "string \<Rightarrow> string \<Rightarrow> string \<Rightarrow> 'w \<Rightarrow> (unit + unit) \<times> 'w"
  ch_slack :: "string \<Rightarrow> string \<Rightarrow> 'w \<Rightarrow> (unit + unit) \<times> 'w"

definition notifyAccount :: "deployment \<Rightarrow> 'w channels \<Rightarrow> account option \<Rightarrow> string \<Rightarrow> string \<Rightarrow> 'w \<Rightarrow> 'w" where
  "notifyAccount D C acc subject text w = (case acc of
     None \<Rightarrow> w
   | Some a \<Rightarrow>
       (let w1 = (if isOutboundEmailEnabled D \<and> truthy (primaryEmail a)
                  then snd (ch_mail C (tmpl (primaryEmail a)) subject text w) else w) in
        if truthy (penv D ''SLACK_TOKEN'') \<and> truthy (slackId a)
        then snd (ch_slack C (tmpl (slackId a)) (''*'' @ subject @ [CHR ''*'', CHR 0x0A] @ text) w1) else w1))"

record mail_transport =
  mt_host :: "string option"
  mt_port :: "string option"
  mt_secure :: bool
  mt_auth :: "(string \<times> string option) option"

definition mail_transport_of :: "deployment \<Rightarrow> mail_transport" where
  "mail_transport_of D = \<lparr>mt_host = penv D ''EMAIL_HOST'', mt_port = penv D ''EMAIL_PORT'',
     mt_secure = env_is D ''EMAIL_SSL'' ''true'',
     mt_auth = (if truthy (penv D ''EMAIL_USERNAME'') then Some (tmpl (penv D ''EMAIL_USERNAME''), penv D ''EMAIL_PASSWORD'') else None)\<rparr>"

definition mail_from :: "deployment \<Rightarrow> string option" where
  "mail_from D = (if truthy (penv D ''EMAIL_USERNAME'')
     then Some (tmpl (js_or (penv D ''EMAIL_FROM'') (penv D ''EMAIL_USERNAME'')) @ '' <'' @ tmpl (penv D ''EMAIL_USERNAME'') @ ''>'')
     else penv D ''EMAIL_FROM'')"

text \<open>The Slack user of an account: the one it has, or one found under an address; of several, the
  last answer to arrive counts, here the last of \<open>arrivals\<close>, a permutation of the addresses.\<close>

definition getSlackId :: "bool \<Rightarrow> (string \<Rightarrow> string option) \<Rightarrow> string list \<Rightarrow> account \<Rightarrow> string option" where
  "getSlackId has_client lookup arrivals a =
     (if truthy (slackId a) then slackId a
      else if \<not> has_client then None
      else foldl (\<lambda>user e. if truthy (lookup e) then lookup e else user) None arrivals)"

text \<open>The workspace, asked for once; a failed request is forgotten. \<open>memo\<close> is the promise.\<close>

definition getTeamId :: "deployment \<Rightarrow> (unit + string option) \<Rightarrow> string option option \<Rightarrow> string option \<times> string option option" where
  "getTeamId D team_answer memo =
     (if \<not> truthy (penv D ''SLACK_TOKEN'') then (None, memo)
      else if truthy (penv D ''SLACK_TEAM_ID'') then (penv D ''SLACK_TEAM_ID'', memo)
      else (case memo of
          Some team \<Rightarrow> (team, memo)
        | None \<Rightarrow> (case team_answer of Inr team \<Rightarrow> (team, Some team) | Inl _ \<Rightarrow> (None, None))))"

subsection \<open>Configured texts\<close>

text \<open>A file is its time, its size and its content; the key of the cache is the path with the first
  two. \<open>tx_markdown\<close> is the parsed Markdown, \<open>tx_html_safe\<close> the escaped text.\<close>

record text_file =
  tf_mtime :: int
  tf_size :: int
  tf_text :: string

record text_rendering =
  tx_markdown :: "string \<Rightarrow> string"
  tx_html_safe :: "string \<Rightarrow> string"

type_synonym text_key = "string \<times> int \<times> int"
type_synonym text_cache = "(string \<times> (text_key \<times> string option)) list"

definition text_path :: "(string \<Rightarrow> text_file option) \<Rightarrow> string \<Rightarrow> (string \<times> bool) option" where
  "text_path files name =
     (let base = ''/app/'' @ name @ ''/'' @ name in
      if files (base @ ''.md'') \<noteq> None then Some (base @ ''.md'', True)
      else if files (base @ ''.txt'') \<noteq> None then Some (base @ ''.txt'', False) else None)"

text \<open>A blank line gets two breaks before it: every line end that another follows.\<close>

fun blank_lines :: "string \<Rightarrow> string" where
  "blank_lines (a # b # cs) = (if a = CHR 0x0A \<and> b = CHR 0x0A
     then CHR 0x0A # ''<br><br>'' @ blank_lines (b # cs) else a # blank_lines (b # cs))"
| "blank_lines cs = cs"

definition rendered_text :: "text_rendering \<Rightarrow> bool \<Rightarrow> string \<Rightarrow> string option" where
  "rendered_text X is_markdown raw =
     (let text = (if is_markdown then tx_markdown X (blank_lines raw)
                  else if trim raw = [] then [] else replace_char (CHR 0x0A) ''<br/>'' (tx_html_safe X raw)) in
      if trim text \<noteq> [] then Some text else None)"

definition getConfiguredText ::
  "text_rendering \<Rightarrow> (string \<Rightarrow> text_file option) \<Rightarrow> string \<Rightarrow> text_cache \<Rightarrow> string option \<times> text_cache" where
  "getConfiguredText X files name cache = (case text_path files name of
     None \<Rightarrow> (None, cache)
   | Some (path, is_markdown) \<Rightarrow>
       (case files path of
          None \<Rightarrow> (None, cache)
        | Some f \<Rightarrow>
            (let key = (path, tf_mtime f, tf_size f) in
             case map_of cache name of
               Some (k, text) \<Rightarrow> if k = key then (text, cache)
                 else (let fresh = rendered_text X is_markdown (tf_text f) in (fresh, AList.update name (key, fresh) cache))
             | None \<Rightarrow> (let fresh = rendered_text X is_markdown (tf_text f) in (fresh, AList.update name (key, fresh) cache)))))"

definition getText ::
  "text_rendering \<Rightarrow> (string \<Rightarrow> text_file option) \<Rightarrow> string \<Rightarrow> text_cache \<Rightarrow> string \<times> text_cache" where
  "getText X files name cache = (case getConfiguredText X files name cache of
     (Some text, cache') \<Rightarrow> (text, cache')
   | (None, cache') \<Rightarrow> (if text_path files name \<noteq> None then []
       else ''Please add /app/'' @ name @ ''/'' @ name @ ''.{md|txt} using ConfigMap.'', cache'))"

text \<open>The address of a link in a rendered text of an application.\<close>

definition safe_href :: "string option \<Rightarrow> string" where
  "safe_href href =
     (let h = to_lower (trim (null_or href [])) in
      if truthy href \<and> (starts_with ''http:'' h \<or> starts_with ''https:'' h \<or> starts_with ''mailto:'' h \<or> starts_with ''/'' h)
      then tmpl href else ''#'')"

subsection \<open>Lemmas\<close>

lemma concat_escape: "replace_char (CHR ''>'') ''&gt;'' (replace_char (CHR ''<'') ''&lt;'' (replace_char (CHR ''&'') ''&amp;'' s))
    = concat (map escape_char s)"
  by (induction s) (simp_all add: replace_char_def escape_char.simps)

text \<open>What is escaped opens no span, and no two texts look the same.\<close>

lemma escaped_plain: "CHR ''<'' \<notin> set (escapeMrkdwn v) \<and> CHR ''>'' \<notin> set (escapeMrkdwn v)"
  by (auto simp: escapeMrkdwn_def concat_escape escape_char.simps split: if_splits)

lemma escape_inj: "concat (map escape_char s) = concat (map escape_char t) \<Longrightarrow> s = t"
proof (induction s arbitrary: t)
  case Nil
  then show ?case by (cases t) (simp_all add: escape_char.simps split: if_splits)
next
  case (Cons c s)
  then show ?case by (cases t) (auto simp: escape_char.simps split: if_splits)
qed

text \<open>The cache answers with what the file holds, as long as a file with the same path, time and size has the
  same content.\<close>

definition cache_current :: "text_rendering \<Rightarrow> (text_key \<Rightarrow> string) \<Rightarrow> text_cache \<Rightarrow> bool" where
  "cache_current X content cache \<longleftrightarrow> (\<forall>name path m n text. map_of cache name = Some ((path, m, n), text) \<longrightarrow>
     text = rendered_text X (path = ''/app/'' @ name @ ''/'' @ name @ ''.md'') (content (path, m, n)))"

lemma cached_text_is_fresh:
  assumes "cache_current X content cache"
    and "\<And>path f. files path = Some f \<Longrightarrow> content (path, tf_mtime f, tf_size f) = tf_text f"
  shows "fst (getConfiguredText X files name cache) = fst (getConfiguredText X files name [])
    \<and> cache_current X content (snd (getConfiguredText X files name cache))"
proof (cases "text_path files name")
  case None
  with assms show ?thesis by (simp add: getConfiguredText_def)
next
  case (Some pm)
  obtain path md where pm: "pm = (path, md)" by force
  with Some have path: "md = (path = ''/app/'' @ name @ ''/'' @ name @ ''.md'')" and "files path \<noteq> None"
    by (auto simp: text_path_def Let_def split: if_splits)
  then obtain f where f: "files path = Some f" by blast
  have c: "content (path, tf_mtime f, tf_size f) = tf_text f" by (rule assms(2) [OF f])
  show ?thesis
  proof (cases "map_of cache name")
    case None
    with Some pm f c path assms(1) show ?thesis
      by (auto simp: getConfiguredText_def Let_def cache_current_def update_conv')
  next
    case (Some kt)
    obtain p m n body where kt: "kt = ((p, m, n), body)" by (metis prod.collapse)
    show ?thesis
    proof (cases "(p, m, n) = (path, tf_mtime f, tf_size f)")
      case True
      from assms(1) Some kt have "body = rendered_text X (p = ''/app/'' @ name @ ''/'' @ name @ ''.md'') (content (p, m, n))"
        unfolding cache_current_def by blast
      with True c path have "body = rendered_text X md (tf_text f)" by simp
      with True Some kt \<open>text_path files name = Some pm\<close> pm f assms(1) show ?thesis
        by (simp add: getConfiguredText_def Let_def)
    next
      case False
      with Some kt \<open>text_path files name = Some pm\<close> pm f c path assms(1) show ?thesis
        by (auto simp: getConfiguredText_def Let_def cache_current_def update_conv')
    qed
  qed
qed

end
