(* ===== verification/Pages.thy ===== *)
theory Pages
  imports Interactions Middlewares
begin

text \<open>
  What pages and logs are given: \<open>sessionDetails\<close>, \<open>render\<close> and the error boundary of
  \<^verbatim>\<open>src/routes/oidcRoutes.js\<close>, and the log lines of the provider's events
  (\<^verbatim>\<open>src/providers/setup-event-listeners.js\<close>) as a table of event, level, fields and message.
\<close>

subsection \<open>Pages\<close>

text \<open>The parts of an interaction a page shows, as JSON; \<open>None\<close> is \<open>undefined\<close>.\<close>

record page_details =
  pd_uid :: "json option"
  pd_prompt :: "json option"
  pd_details :: "json option"
  pd_params :: "json option"
  pd_session :: "json option"
  pd_client :: "json option"

definition no_object :: "json option" where
  "no_object = Some (JObj [])"

text \<open>\<open>interaction\<close> is the answer of \<open>interactionDetails\<close>, \<open>None\<close> when it throws, \<open>find_client\<close> the
  lookup of a client, \<open>Inl\<close> when that throws; \<open>session\<close> is the provider's session.\<close>

definition sessionDetails :: "json option \<Rightarrow> (json option \<Rightarrow> unit + json option) \<Rightarrow> json option \<Rightarrow> page_details" where
  "sessionDetails interaction find_client session =
     (let without = \<lparr>pd_uid = None, pd_prompt = no_object, pd_details = no_object, pd_params = no_object,
            pd_session = session, pd_client = no_object\<rparr> in
      case interaction of
        None \<Rightarrow> without
      | Some i \<Rightarrow>
          if nullish (field ''params'' (Some i)) then without
          else (case find_client (field ''client_id'' (field ''params'' (Some i))) of
            Inl _ \<Rightarrow> without
          | Inr client \<Rightarrow> \<lparr>pd_uid = field ''uid'' (Some i), pd_prompt = field ''prompt'' (Some i),
              pd_details = (case field ''prompt'' (Some i) of Some p \<Rightarrow> field ''details'' (Some p) | None \<Rightarrow> no_object),
              pd_params = field ''params'' (Some i), pd_session = field ''session'' (Some i), pd_client = client\<rparr>))"

record page_view =
  vw_template :: string
  vw_details :: page_details
  vw_title :: string
  vw_debug :: "(string \<times> json option) list option"
  vw_extra :: "(string \<times> json) list"
  vw_wide :: bool
  vw_nonce :: string

text \<open>Parameters, prompt and session are dumped into the page outside production.\<close>

definition render_page ::
  "deployment \<Rightarrow> string \<Rightarrow> string \<Rightarrow> (string \<times> json) list \<Rightarrow> bool \<Rightarrow> string \<Rightarrow> page_details \<Rightarrow> page_view" where
  "render_page D template title extra wide nonce d =
     \<lparr>vw_template = template, vw_details = d, vw_title = title,
      vw_debug = (if env_is D ''NODE_ENV'' ''production'' then None
        else Some [(''params'', pd_params d), (''prompt'', pd_prompt d),
          (''session'', if pd_session d \<noteq> None then pd_session d else no_object)]),
      vw_extra = extra, vw_wide = wide, vw_nonce = nonce\<rparr>"

text \<open>The error boundary of the sign-in routes: an error of the provider is a page of its own status and
  texts, any other goes on to the handler of all requests.\<close>

datatype route_error = ProviderError nat string "string option" | OtherError http_failure

datatype route_page = ErrorAnswer nat "(string \<times> string) list" | Handed "unit served"

definition error_boundary :: "route_error \<Rightarrow> route_page" where
  "error_boundary e = (case e of
     ProviderError status message description \<Rightarrow>
       ErrorAnswer status ((''error'', message) # (case description of Some d \<Rightarrow> [(''error_description'', d)] | None \<Rightarrow> []))
   | OtherError f \<Rightarrow> Handed (error_response f))"

definition email_status :: "'w login_env \<Rightarrow> string \<Rightarrow> ('w, json) login" where
  "email_status E uid = e_then (isVerified E uid) (\<lambda>b. e_return (JObj [(''verified'', JBool b)]))"

definition verify_email :: "'w login_env \<Rightarrow> string \<Rightarrow> string \<Rightarrow> ('w, login_answer) login" where
  "verify_email E uid token = verifyLink E uid token"

subsection \<open>Log lines\<close>

text \<open>What each handler of a provider's event hands to the logger, in the order they are registered. The
  counters of failed flows, the record of activity (\<^verbatim>\<open>ActivityTracker\<close>) and the rewriting of session
  references (\<^verbatim>\<open>Sessions\<close>) that some handlers go on to are not part of the table.\<close>

datatype log_level = Debug | Error

text \<open>The names of what is logged, or the fields of \<open>interactionLogFields\<close>.\<close>

datatype log_fields = Fields "string list" | InteractionFields

definition authorization_log :: "(string \<times> log_level \<times> log_fields \<times> string) list" where
  "authorization_log = [
     (''access_token.destroyed'', Debug, Fields [], ''access_token.destroyed''),
     (''access_token.saved'', Debug, Fields [], ''access_token.saved''),
     (''access_token.issued'', Debug, Fields [], ''access_token.issued''),
     (''authorization_code.consumed'', Debug, Fields [''clientId'', ''accountId''], ''Client consumed authorization code''),
     (''authorization_code.destroyed'', Debug, Fields [], ''authorization_code.destroyed''),
     (''authorization_code.destroyed'', Debug, Fields [], ''authorization_code.destroyed''),
     (''authorization.accepted'', Debug, Fields [''ctx''], ''authorization.accepted''),
     (''authorization.error'', Error, Fields [''ctx'', ''error''], ''authorization.error''),
     (''authorization.success'', Debug, Fields [''ctx''], ''authorization.success''),
     (''backchannel.error'', Error, Fields [''ctx'', ''error'', ''client'', ''accountId'', ''sid''], ''backchannel.error''),
     (''backchannel.success'', Debug, Fields [''ctx'', ''client'', ''accountId'', ''sid''], ''backchannel.success''),
     (''jwks.error'', Error, Fields [''ctx'', ''error''], ''jwks.error''),
     (''client_credentials.destroyed'', Debug, Fields [], ''client_credentials.destroyed''),
     (''client_credentials.saved'', Debug, Fields [], ''client_credentials.saved''),
     (''client_credentials.issued'', Debug, Fields [], ''client_credentials.issued''),
     (''device_code.consumed'', Debug, Fields [], ''device_code.consumed''),
     (''device_code.destroyed'', Debug, Fields [], ''device_code.destroyed''),
     (''device_code.saved'', Debug, Fields [], ''device_code.saved''),
     (''discovery.error'', Error, Fields [''ctx'', ''error''], ''discovery.error''),
     (''end_session.error'', Error, Fields [''ctx'', ''error''], ''end_session.error''),
     (''end_session.success'', Debug, Fields [''ctx''], ''end_session.success''),
     (''grant.error'', Error, Fields [''ctx'', ''error''], ''grant.error''),
     (''grant.revoked'', Debug, Fields [''ctx'', ''grantId''], ''grant.revoked''),
     (''grant.success'', Debug, Fields [''ctx''], ''grant.success'')]"

definition session_log :: "(string \<times> log_level \<times> log_fields \<times> string) list" where
  "session_log = [
     (''initial_access_token.destroyed'', Debug, Fields [], ''initial_access_token.destroyed''),
     (''initial_access_token.saved'', Debug, Fields [], ''initial_access_token.saved''),
     (''interaction.destroyed'', Debug, InteractionFields, ''interaction.destroyed''),
     (''interaction.ended'', Debug, Fields [''ctx''], ''interaction.ended''),
     (''interaction.saved'', Debug, InteractionFields, ''interaction.saved''),
     (''interaction.started'', Debug, Fields [''ctx'', ''prompt''], ''interaction.started''),
     (''introspection.error'', Error, Fields [''ctx'', ''error''], ''interaction.destroyed''),
     (''replay_detection.destroyed'', Debug, Fields [], ''replay_detection.destroyed''),
     (''replay_detection.saved'', Debug, Fields [], ''replay_detection.saved''),
     (''pushed_authorization_request.error'', Error, Fields [''ctx'', ''error''], ''pushed_authorization_request.error''),
     (''pushed_authorization_request.success'', Debug, Fields [''ctx'', ''client''], ''pushed_authorization_request.success''),
     (''pushed_authorization_request.destroyed'', Debug, Fields [], ''pushed_authorization_request.destroyed''),
     (''pushed_authorization_request.saved'', Debug, Fields [], ''pushed_authorization_request.saved''),
     (''refresh_token.consumed'', Debug, Fields [''clientId'', ''accountId''], ''Client consumed refresh token''),
     (''refresh_token.destroyed'', Debug, Fields [], ''refresh_token.destroyed''),
     (''refresh_token.saved'', Debug, Fields [], ''refresh_token.saved''),
     (''registration_access_token.destroyed'', Debug, Fields [], ''registration_access_token.destroyed''),
     (''registration_access_token.saved'', Debug, Fields [], ''registration_access_token.saved''),
     (''registration_create.error'', Error, Fields [''ctx'', ''error''], ''registration_create.error''),
     (''registration_create.success'', Debug, Fields [''ctx'', ''client''], ''registration_create.success''),
     (''registration_delete.error'', Error, Fields [''ctx'', ''error''], ''registration_delete.error''),
     (''registration_delete.success'', Debug, Fields [''ctx'', ''client''], ''registration_delete.success''),
     (''registration_read.error'', Error, Fields [''ctx'', ''error''], ''registration_read.error''),
     (''registration_update.error'', Error, Fields [''ctx'', ''error''], ''registration_update.error''),
     (''registration_update.success'', Debug, Fields [''ctx'', ''client''], ''registration_update.success''),
     (''revocation.error'', Error, Fields [''ctx'', ''error''], ''revocation.error''),
     (''server_error'', Error, Fields [''ctx'', ''error''], ''server_error''),
     (''session.destroyed'', Debug, Fields [], ''session.destroyed''),
     (''session.saved'', Debug, Fields [''session''], ''session.saved''),
     (''userinfo.error'', Error, Fields [''ctx'', ''error''], ''userinfo.error'')]"

definition provider_log :: "(string \<times> log_level \<times> log_fields \<times> string) list" where
  "provider_log = authorization_log @ session_log"

text \<open>Outside production a page shows the parameters of the request, in production it shows no dump.\<close>

lemma production_pages_dump_nothing:
  "env_is D ''NODE_ENV'' ''production'' \<Longrightarrow> vw_debug (render_page D t h x b n d) = None"
  by (simp add: render_page_def)

text \<open>No line of a token or a code holds the token: at most the client and the account.\<close>

definition token_events :: "string list" where
  "token_events = [''access_token'', ''authorization_code'', ''client_credentials'', ''device_code'', ''initial_access_token'',
     ''refresh_token'', ''registration_access_token'', ''replay_detection'']"

lemma tokens_are_not_logged:
  "(e, l, fs, m) \<in> set provider_log \<Longrightarrow> p \<in> set token_events \<Longrightarrow> starts_with (p @ ''.'') e \<Longrightarrow>
     fs \<in> {Fields [], Fields [''clientId'', ''accountId'']}"
proof -
  have "list_all (\<lambda>(e, l, fs, m). list_all (\<lambda>p. starts_with (p @ ''.'') e \<longrightarrow>
      fs = Fields [] \<or> fs = Fields [''clientId'', ''accountId'']) token_events) provider_log"
    by code_simp
  then show "(e, l, fs, m) \<in> set provider_log \<Longrightarrow> p \<in> set token_events \<Longrightarrow> starts_with (p @ ''.'') e \<Longrightarrow>
     fs \<in> {Fields [], Fields [''clientId'', ''accountId'']}"
    by (fastforce simp: list_all_iff)
qed

text \<open>Every failure is logged as an error under its own name, but one: a failed introspection is
  logged as a destroyed interaction.\<close>

lemma errors_named_but_introspection:
  "filter (\<lambda>(e, l, fs, m). l = Error \<and> m \<noteq> e) provider_log
     = [(''introspection.error'', Error, Fields [''ctx'', ''error''], ''interaction.destroyed'')]"
  by code_simp

subsection \<open>The logger\<close>

text \<open>What the logger does to the fields of a line (\<^verbatim>\<open>src/providers/setup-logger.js\<close>): the context of a
  request becomes a plain snapshot, then every path of the list is blacked out. A \<open>*\<close> stands for any name.\<close>

definition snapshot_part :: "string \<Rightarrow> string list \<Rightarrow> json \<Rightarrow> (string \<times> json) list" where
  "snapshot_part k names ctx = (if js_truthy (field k (Some ctx))
     then [(k, JObj (concat (map (\<lambda>n. present n (field n (field k (Some ctx)))) names)))] else [])"

definition serializeCtx :: "string \<Rightarrow> json \<Rightarrow> json" where
  "serializeCtx issuer ctx = (case ctx of
     JObj ms \<Rightarrow>
       if \<not> js_truthy (field ''request'' (Some ctx)) \<and> \<not> js_truthy (field ''response'' (Some ctx)) then ctx
       else JObj (snapshot_part ''request'' [''method'', ''url'', ''header''] ctx
         @ snapshot_part ''response'' [''status'', ''message'', ''header''] ctx
         @ present ''originalUrl'' (field ''originalUrl'' (Some ctx)) @ [(''app'', JObj [(''issuer'', JStr issuer)])])
   | _ \<Rightarrow> ctx)"

definition redacted_paths :: "string list list" where
  "redacted_paths = [
     [''ctx'', ''request'', ''header'', ''cookie''],
     [''interaction'', ''session'', ''cookie''],
     [''*'', ''jti''],
     [''interaction'', ''result'', ''token''],
     [''interaction'', ''result'', ''oauth'', ''token''],
     [''interaction'', ''result'', ''request'', ''header'', ''cookie''],
     [''interaction'', ''result'', ''request'', ''url''],
     [''*'', ''cookie''],
     [''result'', ''oauth'', ''token''],
     [''err'', ''response'', ''headers''],
     [''err'', ''response'', ''request'', ''headers''],
     [''err'', ''stack'']]"

definition redacted :: json where
  "redacted = JStr ''[Redacted]''"

fun redact_path :: "string list \<Rightarrow> json \<Rightarrow> json" where
  "redact_path [] v = redacted"
| "redact_path (k # ks) v = (case v of
     JObj ms \<Rightarrow> JObj (map (\<lambda>(k', x). (k', if k = ''*'' \<or> k' = k then redact_path ks x else x)) ms)
   | _ \<Rightarrow> v)"

definition log_level_of :: "deployment \<Rightarrow> string" where
  "log_level_of D = (if env_is D ''NODE_ENV'' ''production'' then ''info'' else ''trace'')"

definition log_line :: "string \<Rightarrow> (string \<times> json) list \<Rightarrow> json" where
  "log_line issuer entries = foldr redact_path redacted_paths
     (JObj (map (\<lambda>(k, v). (k, if k = ''ctx'' then serializeCtx issuer v else v)) entries))"

fun at_path :: "string list \<Rightarrow> json option \<Rightarrow> json option" where
  "at_path [] v = v"
| "at_path (k # ks) v = at_path ks (field k v)"

text \<open>Two paths that part at some name that is not a wildcard of the first.\<close>

fun part_ways :: "string list \<Rightarrow> string list \<Rightarrow> bool" where
  "part_ways (k # ks) (j # js) = ((k \<noteq> ''*'' \<and> k \<noteq> j) \<or> part_ways ks js)"
| "part_ways _ _ = False"

lemma map_of_redact: "map_of (map (\<lambda>(k', x). (k', if P k' then f x else x)) ms) j =
    (if P j then map_option f (map_of ms j) else map_of ms j)"
proof (induction ms)
  case (Cons m ms)
  then show ?case by (cases m) simp
qed simp

lemma field_redact: "field j (Some (redact_path (k # ks) v)) =
    (if k = ''*'' \<or> j = k then map_option (redact_path ks) (field j (Some v)) else field j (Some v))"
proof (cases v)
  case (JObj ms)
  show ?thesis unfolding JObj
    by (simp only: redact_path.simps json.case field.simps map_of_redact)
qed (simp_all only: redact_path.simps json.case field.simps option.map if_cancel)

lemma at_path_None: "at_path p None = None"
  by (induction p) simp_all

lemma at_parted: "part_ways p q \<Longrightarrow> at_path q (Some (redact_path p v)) = at_path q (Some v)"
proof (induction p q arbitrary: v rule: part_ways.induct)
  case (1 k ks j js)
  have step: "at_path (j # js) (Some (redact_path (k # ks) v)) =
      at_path js (if k = ''*'' \<or> j = k then map_option (redact_path ks) (field j (Some v)) else field j (Some v))"
    by (simp only: at_path.simps field_redact)
  show ?case
  proof (cases "k \<noteq> ''*'' \<and> k \<noteq> j")
    case True
    then show ?thesis unfolding step by (simp only: at_path.simps) (metis (full_types))
  next
    case False
    with 1 have "at_path js (Some (redact_path ks x)) = at_path js (Some x)" for x by simp
    then have "at_path js (map_option (redact_path ks) o') = at_path js o'" for o'
      by (cases o') (simp_all only: option.map)
    then show ?thesis unfolding step at_path.simps(2) [of j js "Some v"] by (metis (full_types))
  qed
qed simp_all

lemma at_redacted: "''*'' \<notin> set p \<Longrightarrow> at_path p (Some v) \<noteq> None \<Longrightarrow> at_path p (Some (redact_path p v)) = Some redacted"
proof (induction p arbitrary: v)
  case (Cons k p)
  have step: "at_path (k # p) (Some (redact_path (k # p) v)) = at_path p (map_option (redact_path p) (field k (Some v)))"
    by (simp only: at_path.simps field_redact) simp
  from Cons.prems obtain x where x: "field k (Some v) = Some x"
    by (cases "field k (Some v)") (simp_all add: at_path_None)
  have "at_path p (Some x) \<noteq> None" using Cons.prems(2) by (simp only: at_path.simps x) simp
  moreover have "''*'' \<notin> set p" using Cons.prems(1) by simp
  ultimately show ?case unfolding step x option.map by (rule Cons.IH [rotated])
qed simp

lemma at_all_parted: "list_all (\<lambda>p. part_ways p q) ps \<Longrightarrow> at_path q (Some (foldr redact_path ps v)) = at_path q (Some v)"
  by (induction ps) (simp_all add: at_parted)

lemma header_snapshot:
  assumes "js_truthy (field ''request'' (Some ctx))" and "field ''header'' (field ''request'' (Some ctx)) = Some h"
  shows "at_path [''ctx'', ''request'', ''header''] (Some (JObj (map (\<lambda>(k, v). (k, if k = ''ctx'' then serializeCtx issuer v else v))
      ((''ctx'', ctx) # fs)))) = Some h"
proof (cases ctx)
  case (JObj ms)
  with assms show ?thesis
    by (simp add: serializeCtx_def snapshot_part_def present_def map_of_append split: option.split)
qed (use assms in simp_all)



end
