(* ===== verification/Spec2Isabelle.thy ===== *)
theory Spec2Isabelle
  imports Grants Sessions Usernames Users LeaderElection MiddlewareOperator ClientSecrets Reconciler
    ProviderConfig ScimRoutes ScimLinking LoginProperties ActivityTracker ApiRoutes EventHooks UserOperator
    IngressDiscovery Operators Middlewares RedisConnection KubernetesCalls Notifications Pages
begin

text \<open>
  A verification library of Passmower, an OpenID Connect provider whose users, clients and
  provisioning live as custom resources of a Kubernetes cluster and whose sessions and tokens live
  in Redis. The program is JavaScript under \<^verbatim>\<open>src/\<close>; the protocol itself is the package
  \<^verbatim>\<open>oidc-provider\<close>. This header says which theory models which file, what is assumed of the code
  that is not in the repository, and what the lemmas show. Every theory opens with a text of its
  own, and every property stands after a text that states it in words.

  \<^bold>\<open>The program.\<close> A request passes the middlewares, which find its session and account, and
  reaches a route: the pages of a sign-in, the dashboard, the administration, SCIM, or forward
  authentication for applications behind a proxy. Routes read and change accounts through the user
  service, which writes OIDCUser resources through the Kubernetes adapter, and keep sessions through
  the session service, over the Redis adapter. The provider calls back into the account model for
  claims and into the configuration for policy. Beside the requests, operators watch resources and
  write what the provider reads: client records into Redis, Secrets, Traefik Middlewares, Jobs, and
  conditions on the resources. Several pods run all of this; one of them, elected by a Lease, runs
  the operators.

  \<^bold>\<open>How code becomes definitions.\<close> An object with private fields is a record, a class method a
  function from the record to a new one; \<open>undefined\<close>, \<open>null\<close> and an absent member are \<open>None\<close>
  unless the code tells them apart. JSON that the code treats as such is the datatype \<open>json\<close>. A
  handler that awaits calls and may throw is an \<open>effect\<close> (\<^verbatim>\<open>Effects\<close>): a function of the world to an
  error or a result and the new world. A call into the API server, Redis, or a package is a field of
  a record of calls that the definitions take as an argument; what is documented of it is a locale,
  with an interpretation on a server held in memory on which the witnesses are evaluated. Numbers
  are integers: the code has no arithmetic that reaches the precision of a double, except
  \<open>Number.MAX_SAFE_INTEGER\<close>, which is written out. What runs concurrently is a step relation or a
  handler cut at its awaits.

  \<^bold>\<open>Shared theories.\<close>
  \<^item> \<^verbatim>\<open>JS_Prelude\<close>, \<^verbatim>\<open>Json\<close>, \<^verbatim>\<open>Effects\<close>: the idioms of the language, JSON values, handlers with one
    proof rule per construct (\<open>effect_rules\<close>).
  \<^item> \<^verbatim>\<open>Deployment\<close>: the environment as one record, and the readers of it
    (\<^verbatim>\<open>utils/oidc-providers.js\<close>, \<^verbatim>\<open>email-configuration.js\<close>, \<^verbatim>\<open>group-configuration.js\<close>,
    \<^verbatim>\<open>username-source.js\<close>).

  \<^bold>\<open>Accounts and policy.\<close>
  \<^item> \<^verbatim>\<open>Accounts\<close> (\<^verbatim>\<open>models/account.js\<close>): the resource as read, the intended status, the evidence for
    addresses. Shown: where a verified primary address comes from; the status that is written is
    well formed and its groups have a source.
  \<^item> \<^verbatim>\<open>Access\<close> (\<^verbatim>\<open>conditions/\<close>, \<^verbatim>\<open>utils/user/\<close>, \<^verbatim>\<open>providers/setup-policies.js\<close>): who may sign in and to
    which client. Shown: the check at a refresh agrees with the prompts of a sign-in.
  \<^item> \<^verbatim>\<open>Claims\<close> (\<^verbatim>\<open>claim-mappings.js\<close>, \<^verbatim>\<open>fetch-extra-claims.js\<close>, \<^verbatim>\<open>protected-claims.js\<close>): what a token
    says. Shown: protected claims survive the webhook and the mappings.
  \<^item> \<^verbatim>\<open>ProviderConfig\<close> (\<^verbatim>\<open>configuration.js\<close>): the callbacks of the provider. Shown: rotation of refresh
    tokens is bounded; accepted client metadata have the types the callbacks read.
  \<^item> \<^verbatim>\<open>Users\<close> (\<^verbatim>\<open>kube-oidc-user-service.js\<close>, \<^verbatim>\<open>identity-integrity.js\<close>), \<^verbatim>\<open>Usernames\<close>
    (\<^verbatim>\<open>username.js\<close>, \<^verbatim>\<open>validator.js\<close>): ownership of addresses, the account of a sign-in, names and
    forms. Shown: one owner per address; a sign-in reaches an account only by proof.

  \<^bold>\<open>Redis.\<close>
  \<^item> \<^verbatim>\<open>Redis\<close>, \<^verbatim>\<open>Grants\<close>, \<^verbatim>\<open>RedisConnection\<close> (\<^verbatim>\<open>adapters/redis.js\<close>): the records and indexes over the
    server's commands, the revocation of grants, and the connection. The locale \<open>redis_server\<close> is the
    documented effect of the commands, \<open>record_store\<close> what the users of the adapter rely on, derived
    from it. Shown: in every reachable state a revocation reaches every token of its grant; a replaced
    connection drains.
  \<^item> \<^verbatim>\<open>Sessions\<close> (\<^verbatim>\<open>session-service.js\<close>, \<^verbatim>\<open>site-session.js\<close>, \<^verbatim>\<open>incident-log.js\<close>, \<^verbatim>\<open>access-requests.js\<close>,
    \<^verbatim>\<open>bearer-account.js\<close>), \<^verbatim>\<open>ForwardAuth\<close> (\<^verbatim>\<open>forwardAuthRoutes.js\<close>, \<^verbatim>\<open>forward-auth-return.js\<close>). Shown:
    a site session opens its own client and scope; forward authentication answers only for an
    account that passes the check; the signed return state is sound and complete.

  \<^bold>\<open>Signing in and the routes.\<close>
  \<^item> \<^verbatim>\<open>Login\<close>, \<^verbatim>\<open>UpstreamLogin\<close>, \<^verbatim>\<open>Interactions\<close>, \<^verbatim>\<open>LoginProperties\<close> (\<^verbatim>\<open>services/login/\<close>,
    \<^verbatim>\<open>routes/oidcRoutes.js\<close>, \<^verbatim>\<open>services/webauthn/\<close>): magic links, upstreams, GitHub, passkeys, the
    pages. Shown: callbacks and links need their state or token; an upstream address is believed
    only on its own word; and two ways in which a sign-in goes through that should not.
  \<^item> \<^verbatim>\<open>AdminRoutes\<close>, \<^verbatim>\<open>ApiRoutes\<close> (\<^verbatim>\<open>adminRoutes.js\<close>, \<^verbatim>\<open>apiRoutes.js\<close>): a request runs over both halves of the
    world, the store and the cluster. Shown: who passes the gate; the dashboard changes only the
    own account.
  \<^item> \<^verbatim>\<open>Middlewares\<close> (\<^verbatim>\<open>setup-middlewares.js\<close>, \<^verbatim>\<open>setup-event-listeners.js\<close>): shown: no route sees an
    account that may not sign in.
  \<^item> \<^verbatim>\<open>Scim\<close>, \<^verbatim>\<open>ScimGroups\<close>, \<^verbatim>\<open>ScimContract\<close>, \<^verbatim>\<open>ScimRoutes\<close>, \<^verbatim>\<open>ScimLinking\<close> (\<^verbatim>\<open>scim-service.js\<close> and its
    neighbours, \<^verbatim>\<open>scimRoutes.js\<close>, \<^verbatim>\<open>kube-scim-connection-operator.js\<close>): shown: any run of requests keeps
    a directory consistent and other connections untouched; filters read back, pages cover; a
    revocation is complete.

  \<^bold>\<open>The cluster.\<close>
  \<^item> \<^verbatim>\<open>Kubernetes\<close>, \<^verbatim>\<open>KubernetesCalls\<close> (\<^verbatim>\<open>adapters/kubernetes.js\<close>): the calls, the retried status
    mutation, Secrets, the watch. The locale \<open>object_api\<close> is optimistic concurrency. Shown: a
    mutation that reports success loses no concurrent change; a stopped watch stays stopped.
  \<^item> \<^verbatim>\<open>Clients\<close>, \<^verbatim>\<open>ClientOperator\<close>, \<^verbatim>\<open>ClientRegistration\<close>, \<^verbatim>\<open>ClientSecrets\<close>, \<^verbatim>\<open>MiddlewareOperator\<close>
    (\<^verbatim>\<open>models/oidc-client.js\<close>, \<^verbatim>\<open>models/oidc-middleware-client.js\<close> and the two operators). Shown: only
    valid, enabled clients of this instance are registered; overlapping reconciles agree on one
    secret, as a write-once register; a middleware precedes its record.
  \<^item> \<^verbatim>\<open>Reconciler\<close> (\<^verbatim>\<open>client-redis-reconciler.js\<close>, \<^verbatim>\<open>redis-wipe-detector.js\<close>): the sweep and the restart
    after a wipe. Shown: the sweep removes exactly the orphans it can tell.
  \<^item> \<^verbatim>\<open>UserOperator\<close>, \<^verbatim>\<open>EventHooks\<close>, \<^verbatim>\<open>IngressDiscovery\<close> (the operators of their names). Shown: the
    reconcile of addresses settles with every request served; hooks fire exactly on the edges of a
    spec, and not again when they fail; discovery changes only the clients it made.
  \<^item> \<^verbatim>\<open>LeaderElection\<close>, \<^verbatim>\<open>Operators\<close> (\<^verbatim>\<open>leader-election.js\<close>, \<^verbatim>\<open>app.js\<close>): the election among pods with
    interleaved requests, and what it starts and stops. Shown: one leader per unlapsed Lease; a start
    that fails is final.
  \<^item> \<^verbatim>\<open>ActivityTracker\<close> (\<^verbatim>\<open>activity-tracker.js\<close>): shown: a flush loses no sign-in.
  \<^item> \<^verbatim>\<open>Notifications\<close> (\<^verbatim>\<open>notification-service.js\<close>, \<^verbatim>\<open>slack-message.js\<close>, \<^verbatim>\<open>get-text.js\<close>): messages and
    texts. Shown: escaped text opens no span; a cached text is the file's.
  \<^item> \<^verbatim>\<open>Pages\<close> (\<^verbatim>\<open>oidcRoutes.js\<close>, \<^verbatim>\<open>setup-event-listeners.js\<close>, \<^verbatim>\<open>setup-logger.js\<close>): what pages and log lines
    are given. Shown: cookies are blacked out of a line, authorization headers are not.

  \<^bold>\<open>Bounds.\<close> The status mutation makes three attempts, as the code does
  (\<open>mutation_attempts 2\<close>, two retries). A reconcile of a Secret is at most the five calls the handler makes. The
  drain of a replaced Redis client has fuel 77: its polls are 25 ms apart within the 1900 ms the
  deadline leaves, so 76 polls suffice (\<open>close_ends\<close>). The scan of keys is a partial function,
  \<open>None\<close> if the server never ends it. The queue of the address reconcile is a total function with a
  measure (\<open>work_left\<close>). Everything else recurs on its data.

  \<^bold>\<open>What the contracts leave out.\<close> The locales state the documented behaviour of Redis and of the API
  server. The contract of the sweep, of discovery and of the client operators' servers takes the calls of one
  reconcile without another writer in between, except where overlap is the point
  (\<open>object_api\<close>, \<open>secret_server\<close>, the election, the restart, the activity flush). Strings are lists of
  characters below 256; comparison, canonical forms and case mapping of other text are parameters.

  \<^bold>\<open>Not modelled.\<close> The package \<^verbatim>\<open>oidc-provider\<close> and the protocol libraries of upstreams and passkeys, which are
  parameters. The wiring of the HTTP server, views and metrics endpoint (\<^verbatim>\<open>app.js\<close>, \<^verbatim>\<open>setup-provider.js\<close>,
  \<^verbatim>\<open>metrics-server.js\<close>): it holds no state of the program's own. The names of browsers
  (\<^verbatim>\<open>user-agent.js\<close>), derived by regular expressions for display only. EJS templates, styles and the Vue
  frontend: presentation, which takes no decision that the API does not check. The Helm chart, the
  resource definitions and the tests. The audit and debug logs are left out of the handlers; what an
  audit record holds is in \<^verbatim>\<open>Middlewares\<close>.
\<close>

end
